(* ===== verification/Prelude.thy ===== *)
theory Prelude
  imports Main "HOL-Library.Word" "HOL-Library.Signed_Division" "HOL-Library.Monad_Syntax"
    "HOL-Library.AList"
begin

text \<open>
  Shared ground of the development: the machine integers of the Rust source, the result of
  a computation that may panic, indexing into a \<open>Vec\<close> and big-endian byte codecs
  (\<open>to_be_bytes\<close>, \<open>from_be_bytes\<close>).

  A panic (an index out of range, \<open>unreachable!\<close>, \<open>expect\<close> on \<open>None\<close>) is the
  value \<^const>\<open>None\<close> of an \<^typ>\<open>'a option\<close>; a Rust \<open>Result<T, E>\<close> is a value of
  \<open>E + T\<close>.  Arithmetic is that of the release profile, the one the repository runs:
  fixed-width operations wrap and \<open>debug_assert!\<close> is compiled out.  A \<open>usize\<close> that
  holds a length or a count is a \<^typ>\<open>nat\<close>.
\<close>

section \<open>Machine integers and panics\<close>

type_synonym u8 = "8 word"
type_synonym u16 = "16 word"
type_synonym u32 = "32 word"
type_synonym u64 = "64 word"
type_synonym bytes = "u8 list"

text \<open>The value of a computation that may panic.\<close>

type_synonym 'a run = "'a option"

abbreviation panic :: "'a run" where
  "panic \<equiv> None"

named_theorems std_simps "equations of the standard-library models"

section \<open>Indexing a vector\<close>

text \<open>\<open>v[i]\<close> and \<open>v[i] = x\<close>: both panic when \<open>i\<close> is out of range.\<close>

definition vec_get :: "'a list \<Rightarrow> nat \<Rightarrow> 'a run" where
  "vec_get xs i = (if i < length xs then Some (xs ! i) else panic)"

definition vec_set :: "'a list \<Rightarrow> nat \<Rightarrow> 'a \<Rightarrow> 'a list run" where
  "vec_set xs i x = (if i < length xs then Some (xs[i := x]) else panic)"

lemma vec_get_Some [std_simps]: "vec_get xs i = Some x \<longleftrightarrow> i < length xs \<and> xs ! i = x"
  by (simp add: vec_get_def)

lemma vec_get_None [std_simps]: "vec_get xs i = None \<longleftrightarrow> length xs \<le> i"
  by (simp add: vec_get_def)

lemma vec_set_Some [std_simps]:
  "vec_set xs i x = Some ys \<longleftrightarrow> i < length xs \<and> ys = xs[i := x]"
  by (auto simp: vec_set_def)

lemma vec_get_in [simp]: "i < length xs \<Longrightarrow> vec_get xs i = Some (xs ! i)"
  by (simp add: vec_get_def)

lemma vec_set_in [simp]: "i < length xs \<Longrightarrow> vec_set xs i x = Some (xs[i := x])"
  by (simp add: vec_set_def)

text \<open>\<open>slice.get(i)\<close>: no panic, \<open>None\<close> out of range.\<close>

definition slice_get :: "'a list \<Rightarrow> nat \<Rightarrow> 'a option" where
  "slice_get xs i = (if i < length xs then Some (xs ! i) else None)"

text \<open>\<open>slice.split_at_checked(n)\<close>.\<close>

definition split_at_checked :: "'a list \<Rightarrow> nat \<Rightarrow> ('a list \<times> 'a list) option" where
  "split_at_checked xs n = (if n \<le> length xs then Some (take n xs, drop n xs) else None)"

lemma split_at_checked_append [simp]:
  "length xs = n \<Longrightarrow> split_at_checked (xs @ ys) n = Some (xs, ys)"
  by (simp add: split_at_checked_def)

lemma split_at_checked_SomeD:
  "split_at_checked xs n = Some (ys, zs) \<Longrightarrow> xs = ys @ zs \<and> length ys = n"
  by (auto simp: split_at_checked_def split: if_splits)

section \<open>Unsigned arithmetic\<close>

text \<open>\<open>u64::saturating_sub\<close>.\<close>

definition saturating_sub :: "u64 \<Rightarrow> u64 \<Rightarrow> u64" where
  "saturating_sub a b = (if a < b then 0 else a - b)"

lemma unat_saturating_sub: "unat (saturating_sub a b) = unat a - unat b"
  by (simp add: saturating_sub_def unat_sub_if' word_less_nat_alt)

lemma unat_add_no_overflow:
  fixes a b :: "'w::len word"
  assumes "unat a + unat b < 2 ^ LENGTH('w)"
  shows "unat (a + b) = unat a + unat b"
  using assms by (simp add: unat_word_ariths)

lemma unat_sub_le:
  fixes a b :: "'w::len word"
  assumes "unat b \<le> unat a"
  shows "unat (a - b) = unat a - unat b"
  using assms by (simp add: unat_sub_if')

lemma unat_u32_of_nat: "n < 2 ^ 32 \<Longrightarrow> unat (of_nat n :: u32) = n"
  by (simp add: unat_of_nat)

lemma of_nat_unat_eq: "unat w = n \<Longrightarrow> of_nat n = w"
  by auto

lemma unat_ucast_u32_u64: "unat (ucast (w :: u32) :: u64) = unat w"
  using unsigned_less [of w, where ?'a = nat]
  by (simp add: unsigned_ucast_eq take_bit_nat_eq_self)

section \<open>Big-endian byte codecs\<close>

text \<open>The value of a big-endian byte string, and the \<open>k\<close> low bytes of a number.\<close>

fun be_nat_acc :: "nat \<Rightarrow> bytes \<Rightarrow> nat" where
  "be_nat_acc n [] = n"
| "be_nat_acc n (b # bs) = be_nat_acc (256 * n + unat b) bs"

definition be_nat :: "bytes \<Rightarrow> nat" where
  "be_nat bs = be_nat_acc 0 bs"

fun be_bytes :: "nat \<Rightarrow> nat \<Rightarrow> bytes" where
  "be_bytes 0 n = []"
| "be_bytes (Suc k) n = be_bytes k (n div 256) @ [of_nat n]"

text \<open>\<open>uN::from_be_bytes\<close> and \<open>uN::to_be_bytes\<close>.\<close>

definition u16_from_be :: "bytes \<Rightarrow> u16" where "u16_from_be bs = of_nat (be_nat bs)"
definition u32_from_be :: "bytes \<Rightarrow> u32" where "u32_from_be bs = of_nat (be_nat bs)"
definition u64_from_be :: "bytes \<Rightarrow> u64" where "u64_from_be bs = of_nat (be_nat bs)"
definition u16_to_be :: "u16 \<Rightarrow> bytes" where "u16_to_be w = be_bytes 2 (unat w)"
definition u32_to_be :: "u32 \<Rightarrow> bytes" where "u32_to_be w = be_bytes 4 (unat w)"
definition u64_to_be :: "u64 \<Rightarrow> bytes" where "u64_to_be w = be_bytes 8 (unat w)"

lemma be_nat_acc_snoc: "be_nat_acc n (bs @ [b]) = 256 * be_nat_acc n bs + unat b"
  by (induction bs arbitrary: n) auto

lemma be_nat_Nil [simp]: "be_nat [] = 0"
  by (simp add: be_nat_def)

lemma be_nat_snoc [simp]: "be_nat (bs @ [b]) = 256 * be_nat bs + unat b"
  by (simp add: be_nat_def be_nat_acc_snoc)

lemma length_be_bytes [simp]: "length (be_bytes k n) = k"
  by (induction k arbitrary: n) auto

lemma unat_u8_of_nat: "unat (of_nat n :: u8) = n mod 256"
  by (simp add: unat_of_nat)

lemma u8_256_mult [simp]: "(256 :: u8) * w = 0"
proof -
  have "(256 :: u8) = 0" by simp
  then show ?thesis by (simp only: mult_zero_left)
qed

lemma be_nat_less: "be_nat bs < 256 ^ length bs"
proof (induction bs rule: rev_induct)
  case Nil
  show ?case by simp
next
  case (snoc b bs)
  have "unat b < 256" using unsigned_less [of b, where ?'a = nat] by simp
  with snoc show ?case by simp
qed

lemma be_nat_be_bytes: "be_nat (be_bytes k n) = n mod 256 ^ k"
proof (induction k arbitrary: n)
  case 0
  show ?case by simp
next
  case (Suc k)
  have "n mod 256 ^ Suc k = 256 * (n div 256 mod 256 ^ k) + n mod 256"
    by (simp add: mod_mult2_eq)
  with Suc show ?case by (simp add: unat_u8_of_nat)
qed

lemma be_bytes_be_nat: "length bs = k \<Longrightarrow> be_bytes k (be_nat bs) = bs"
proof (induction bs arbitrary: k rule: rev_induct)
  case Nil
  then show ?case by simp
next
  case (snoc b bs)
  have "unat b < 256" using unsigned_less [of b, where ?'a = nat] by simp
  then have "(256 * be_nat bs + unat b) div 256 = be_nat bs" by simp
  with snoc show ?case by auto
qed

lemma length_u16_to_be [simp]: "length (u16_to_be w) = 2"
  by (simp add: u16_to_be_def)

lemma length_u32_to_be [simp]: "length (u32_to_be w) = 4"
  by (simp add: u32_to_be_def)

lemma length_u64_to_be [simp]: "length (u64_to_be w) = 8"
  by (simp add: u64_to_be_def)

lemma unat_mod_256_power:
  fixes w :: "'w::len word"
  assumes "LENGTH('w) = 8 * k"
  shows "unat w mod 256 ^ k = unat w"
proof -
  have "unat w < 2 ^ (8 * k)" using unsigned_less [of w, where ?'a = nat] assms by simp
  then have "unat w < 256 ^ k" by (simp add: power_mult)
  then show ?thesis by simp
qed

lemma u16_from_to_be [simp]: "u16_from_be (u16_to_be w) = w"
  using unat_mod_256_power [of 2 w]
  by (simp add: u16_from_be_def u16_to_be_def be_nat_be_bytes)

lemma u32_from_to_be [simp]: "u32_from_be (u32_to_be w) = w"
  using unat_mod_256_power [of 4 w]
  by (simp add: u32_from_be_def u32_to_be_def be_nat_be_bytes)

lemma u64_from_to_be [simp]: "u64_from_be (u64_to_be w) = w"
  using unat_mod_256_power [of 8 w]
  by (simp add: u64_from_be_def u64_to_be_def be_nat_be_bytes)

lemma unat_from_be:
  "length bs = 2 \<Longrightarrow> unat (u16_from_be bs) = be_nat bs"
  "length bs = 4 \<Longrightarrow> unat (u32_from_be bs) = be_nat bs"
  "length bs = 8 \<Longrightarrow> unat (u64_from_be bs) = be_nat bs"
  using be_nat_less [of bs]
  by (simp_all add: u16_from_be_def u32_from_be_def u64_from_be_def unat_of_nat)

lemma to_from_be [simp]:
  "length bs = 2 \<Longrightarrow> u16_to_be (u16_from_be bs) = bs"
  "length bs = 4 \<Longrightarrow> u32_to_be (u32_from_be bs) = bs"
  "length bs = 8 \<Longrightarrow> u64_to_be (u64_from_be bs) = bs"
  by (simp_all add: u16_to_be_def u32_to_be_def u64_to_be_def unat_from_be be_bytes_be_nat)

end
