(* ===== verification/Std_Map.thy ===== *)
theory Std_Map
  imports Prelude
begin

text \<open>
  The two maps of the standard library that the program uses, each a list of entries:
  \<open>HashMap\<close> (keys distinct, no order promised) and \<open>BTreeMap\<close> (keys strictly
  increasing, iterated in that order).  What the program relies on is stated as the locale
  \<open>std_map\<close>, extended by \<open>ordered_map\<close> for the iteration order; both models
  interpret it, and the rest of the development uses the facts of the interpretations
  \<open>hm\<close> and \<open>bt\<close>.
\<close>

section \<open>The interface\<close>

locale std_map =
  fixes empty :: "'m"
    and get :: "'m \<Rightarrow> 'k \<Rightarrow> 'v option"
    and insert :: "'k \<Rightarrow> 'v \<Rightarrow> 'm \<Rightarrow> 'm"
    and remove :: "'k \<Rightarrow> 'm \<Rightarrow> 'm"
    and entries :: "'m \<Rightarrow> ('k \<times> 'v) list"
    and valid :: "'m \<Rightarrow> bool"
  assumes valid_empty: "valid empty"
    and valid_insert: "valid m \<Longrightarrow> valid (insert k v m)"
    and valid_remove: "valid m \<Longrightarrow> valid (remove k m)"
    and get_empty: "get empty j = None"
    and get_insert: "valid m \<Longrightarrow> get (insert k v m) j = (if j = k then Some v else get m j)"
    and get_remove: "valid m \<Longrightarrow> get (remove k m) j = (if j = k then None else get m j)"
    and get_entries: "valid m \<Longrightarrow> get m = map_of (entries m)"
    and distinct_entries: "valid m \<Longrightarrow> distinct (map fst (entries m))"
begin

lemma entries_iff: "valid m \<Longrightarrow> (k, v) \<in> set (entries m) \<longleftrightarrow> get m k = Some v"
  by (simp add: get_entries distinct_entries)

lemma keys_entries: "valid m \<Longrightarrow> fst ` set (entries m) = dom (get m)"
  by (simp add: get_entries dom_map_of_conv_image_fst)

lemma finite_dom: "valid m \<Longrightarrow> finite (dom (get m))"
  by (simp add: get_entries finite_dom_map_of)

text \<open>The number of entries is the number of keys, so \<open>len\<close> counts keys.\<close>

lemma length_entries: "valid m \<Longrightarrow> length (entries m) = card (dom (get m))"
  using distinct_card [OF distinct_entries, of m] by (simp add: keys_entries)

lemma dom_insert: "valid m \<Longrightarrow> dom (get (insert k v m)) = Set.insert k (dom (get m))"
  by (auto simp: get_insert dom_def split: if_splits)

lemma dom_remove: "valid m \<Longrightarrow> dom (get (remove k m)) = dom (get m) - {k}"
  by (auto simp: get_remove dom_def split: if_splits)

lemma length_insert_new:
  "valid m \<Longrightarrow> get m k = None \<Longrightarrow> length (entries (insert k v m)) = Suc (length (entries m))"
  by (simp add: length_entries valid_insert dom_insert finite_dom domIff)

lemma length_insert_old:
  "valid m \<Longrightarrow> get m k = Some w \<Longrightarrow> length (entries (insert k v m)) = length (entries m)"
  by (simp add: length_entries valid_insert dom_insert insert_absorb domI)

lemma length_remove:
  "valid m \<Longrightarrow> get m k = Some v \<Longrightarrow> length (entries (remove k m)) = length (entries m) - 1"
  by (simp add: length_entries valid_remove dom_remove finite_dom domI)

end

text \<open>A map whose entries come in increasing key order.\<close>

locale ordered_map = std_map empty get insert remove entries valid
  for empty :: "'m" and get :: "'m \<Rightarrow> 'k::linorder \<Rightarrow> 'v option" and insert and remove
    and entries and valid +
  assumes sorted_entries: "valid m \<Longrightarrow> sorted_wrt (<) (map fst (entries m))"
begin

lemma first_is_least:
  assumes "valid m" and "entries m = (k, v) # es"
  shows "get m k = Some v" and "get m j = Some w \<Longrightarrow> k \<le> j"
proof -
  show "get m k = Some v"
    using assms entries_iff [of m k v] by simp
  show "k \<le> j" if "get m j = Some w"
  proof -
    from that assms(1) have "(j, w) \<in> set (entries m)" by (simp add: entries_iff)
    with assms(2) have "j = k \<or> j \<in> set (map fst es)" by force
    with sorted_entries [OF assms(1)] assms(2) show ?thesis by auto
  qed
qed

lemma last_is_greatest:
  assumes "valid m" and "entries m = es @ [(k, v)]"
  shows "get m k = Some v" and "get m j = Some w \<Longrightarrow> j \<le> k"
proof -
  show "get m k = Some v"
    using assms entries_iff [of m k v] by simp
  show "j \<le> k" if "get m j = Some w"
  proof -
    from that assms(1) have "(j, w) \<in> set (entries m)" by (simp add: entries_iff)
    with assms(2) have "j = k \<or> j \<in> set (map fst es)" by force
    with sorted_entries [OF assms(1)] assms(2) show ?thesis
      by (auto simp: sorted_wrt_append)
  qed
qed

text \<open>The entries are determined by the lookup function.\<close>

lemma entries_unique:
  assumes "valid m" and "sorted_wrt (<) (map fst es)" and "get m = map_of es"
  shows "entries m = es"
proof -
  have d: "distinct (map fst es)" using assms(2) by (simp add: strict_sorted_iff)
  have "set (entries m) = set es"
    using entries_iff [OF assms(1)] assms(3) d by (auto simp del: map_of_eq_None_iff)
  moreover have "map fst (entries m) = map fst es"
    using calculation sorted_entries [OF assms(1)] assms(2)
    by (metis list.set_map strict_sorted_equal)
  ultimately show ?thesis
    using d distinct_entries [OF assms(1)] map_of_inject_set [of "entries m" es]
      get_entries [OF assms(1)] assms(3)
    by (metis (no_types, lifting) distinct_map inj_onD length_map map_of_eq_Some_iff
        nth_equalityI nth_map nth_mem prod.collapse)
qed

end

section \<open>HashMap\<close>

type_synonym ('k, 'v) hash_map = "('k \<times> 'v) list"

definition hm_get :: "('k, 'v) hash_map \<Rightarrow> 'k \<Rightarrow> 'v option" where
  "hm_get m k = map_of m k"

definition hm_contains_key :: "('k, 'v) hash_map \<Rightarrow> 'k \<Rightarrow> bool" where
  "hm_contains_key m k = (hm_get m k \<noteq> None)"

definition hm_insert :: "'k \<Rightarrow> 'v \<Rightarrow> ('k, 'v) hash_map \<Rightarrow> ('k, 'v) hash_map" where
  "hm_insert k v m = AList.update k v m"

definition hm_remove :: "'k \<Rightarrow> ('k, 'v) hash_map \<Rightarrow> ('k, 'v) hash_map" where
  "hm_remove k m = AList.delete k m"

definition hm_len :: "('k, 'v) hash_map \<Rightarrow> nat" where
  "hm_len m = length m"

definition hm_valid :: "('k, 'v) hash_map \<Rightarrow> bool" where
  "hm_valid m = distinct (map fst m)"

interpretation hm: std_map "[]" hm_get hm_insert hm_remove "\<lambda>m. m" hm_valid
  by unfold_locales
    (auto simp: hm_get_def hm_insert_def hm_remove_def hm_valid_def update_conv'
      delete_conv' distinct_update distinct_delete fun_eq_iff)

section \<open>BTreeMap\<close>

type_synonym ('k, 'v) btree_map = "('k \<times> 'v) list"

definition bt_get :: "('k::linorder, 'v) btree_map \<Rightarrow> 'k \<Rightarrow> 'v option" where
  "bt_get m k = map_of m k"

definition bt_insert :: "'k::linorder \<Rightarrow> 'v \<Rightarrow> ('k, 'v) btree_map \<Rightarrow> ('k, 'v) btree_map" where
  "bt_insert k v m =
     filter (\<lambda>(j, _). j < k) m @ (k, v) # filter (\<lambda>(j, _). k < j) m"

definition bt_remove :: "'k::linorder \<Rightarrow> ('k, 'v) btree_map \<Rightarrow> ('k, 'v) btree_map" where
  "bt_remove k m = filter (\<lambda>(j, _). j \<noteq> k) m"

text \<open>\<open>iter().next()\<close> and \<open>iter().next_back()\<close>.\<close>

definition bt_first :: "('k, 'v) btree_map \<Rightarrow> ('k \<times> 'v) option" where
  "bt_first m = (case m of [] \<Rightarrow> None | e # _ \<Rightarrow> Some e)"

definition bt_last :: "('k, 'v) btree_map \<Rightarrow> ('k \<times> 'v) option" where
  "bt_last m = bt_first (rev m)"

definition bt_valid :: "('k::linorder, 'v) btree_map \<Rightarrow> bool" where
  "bt_valid m = sorted_wrt (<) (map fst m)"

lemma map_of_filter_key: "map_of (filter (\<lambda>(j, _). P j) m) k = (if P k then map_of m k else None)"
  by (induction m) auto

lemma sorted_filter_keys:
  "sorted_wrt (<) (map fst m) \<Longrightarrow> sorted_wrt (<) (map fst (filter (\<lambda>(j, _). P j) m))"
  by (induction m) auto

lemma bt_get_insert: "bt_get (bt_insert k v m) j = (if j = k then Some v else bt_get m j)"
  using linorder_less_linear [of j k]
  by (auto simp: bt_get_def bt_insert_def map_add_def map_of_filter_key split: option.splits)

lemma bt_valid_insert: "bt_valid m \<Longrightarrow> bt_valid (bt_insert k v m)"
  by (auto simp: bt_valid_def bt_insert_def sorted_wrt_append sorted_filter_keys intro: less_trans)

interpretation bt: ordered_map "[]" bt_get bt_insert bt_remove "\<lambda>m. m" bt_valid
proof unfold_locales
  show "bt_valid []" by (simp add: bt_valid_def)
next
  show "bt_valid (bt_insert k v m)" if "bt_valid m" for k :: 'a and v :: 'b and m
    using that by (rule bt_valid_insert)
next
  show "bt_valid (bt_remove k m)" if "bt_valid m" for k :: 'a and m :: "('a \<times> 'b) list"
    using that by (simp add: bt_valid_def bt_remove_def sorted_filter_keys)
next
  show "distinct (map fst m)" if "bt_valid m" for m :: "('a \<times> 'b) list"
    using that by (simp add: bt_valid_def strict_sorted_iff)
qed (auto simp: bt_get_insert [unfolded bt_get_def] bt_get_def bt_remove_def bt_valid_def map_of_filter_key fun_eq_iff)

lemma bt_first_None [simp]: "bt_first m = None \<longleftrightarrow> m = []"
  by (simp add: bt_first_def split: list.splits)

lemma bt_first_Some: "bt_first m = Some e \<longleftrightarrow> (\<exists>es. m = e # es)"
  by (auto simp: bt_first_def split: list.splits)

lemma bt_last_None [simp]: "bt_last m = None \<longleftrightarrow> m = []"
  by (simp add: bt_last_def)

lemma bt_last_Some: "bt_last m = Some e \<longleftrightarrow> (\<exists>es. m = es @ [e])"
  by (auto simp: bt_last_def bt_first_Some) (metis rev.simps(2) rev_rev_ident)

lemmas hash_map_defs = hm_get_def hm_contains_key_def hm_insert_def hm_remove_def hm_len_def
lemmas btree_map_defs = bt_get_def bt_insert_def bt_remove_def bt_first_def bt_last_def

end
