(* ===== verification/Book_Types.thy ===== *)
theory Book_Types
  imports Std_Map
begin

text \<open>
  The domain types of the order book crate: \<open>orderbook/src/types.rs\<close>,
  \<open>orderbook/src/error.rs\<close> and \<open>orderbook/src/level.rs\<close>.  A price is an \<open>i64\<close>:
  a 64-bit word ordered by its two's complement value, which is the order in which the
  book's \<open>BTreeMap\<close>s are sorted.
\<close>

section \<open>Signed 64-bit integers\<close>

datatype i64 = I64 (i64_word: u64)

definition i64_val :: "i64 \<Rightarrow> int" where
  "i64_val x = sint (i64_word x)"

lemma i64_val_inject: "i64_val x = i64_val y \<longleftrightarrow> x = y"
  by (auto simp: i64_val_def intro: i64.expand signed_word_eqI)

instantiation i64 :: linorder
begin

definition less_eq_i64 :: "i64 \<Rightarrow> i64 \<Rightarrow> bool" where
  "x \<le> y \<longleftrightarrow> i64_val x \<le> i64_val y"

definition less_i64 :: "i64 \<Rightarrow> i64 \<Rightarrow> bool" where
  "x < y \<longleftrightarrow> i64_val x < i64_val y"

instance
  by standard
    (auto simp: less_eq_i64_def less_i64_def simp flip: i64_val_inject)

end

text \<open>Wrapping addition and subtraction; division truncates towards zero.\<close>

definition i64_add :: "i64 \<Rightarrow> i64 \<Rightarrow> i64" where
  "i64_add x y = I64 (i64_word x + i64_word y)"

definition i64_sub :: "i64 \<Rightarrow> i64 \<Rightarrow> i64" where
  "i64_sub x y = I64 (i64_word x - i64_word y)"

definition i64_div_2 :: "i64 \<Rightarrow> i64" where
  "i64_div_2 x = I64 (word_of_int (i64_val x sdiv 2))"

text \<open>\<open>u32 as i64\<close>: zero extension.\<close>

definition i64_of_u32 :: "u32 \<Rightarrow> i64" where
  "i64_of_u32 w = I64 (ucast w)"

text \<open>The prices an ITCH feed can carry: the range of the cast above.\<close>

definition wire_price :: "i64 \<Rightarrow> bool" where
  "wire_price p \<longleftrightarrow> 0 \<le> i64_val p \<and> i64_val p < 2 ^ 32"

lemma i64_val_I64: "- (2 ^ 63) \<le> n \<Longrightarrow> n < 2 ^ 63 \<Longrightarrow> i64_val (I64 (word_of_int n)) = n"
  by (simp add: i64_val_def signed_of_int signed_take_bit_int_eq_self)

lemma i64_word_val: "i64_word x = word_of_int (i64_val x)"
  by (simp add: i64_val_def)

lemma i64_val_add:
  assumes "- (2 ^ 63) \<le> i64_val x + i64_val y" and "i64_val x + i64_val y < 2 ^ 63"
  shows "i64_val (i64_add x y) = i64_val x + i64_val y"
proof -
  have "i64_add x y = I64 (word_of_int (i64_val x + i64_val y))"
    by (simp add: i64_add_def i64_word_val)
  with assms show ?thesis by (simp only: i64_val_I64)
qed

lemma i64_val_sub:
  assumes "- (2 ^ 63) \<le> i64_val x - i64_val y" and "i64_val x - i64_val y < 2 ^ 63"
  shows "i64_val (i64_sub x y) = i64_val x - i64_val y"
proof -
  have "i64_sub x y = I64 (word_of_int (i64_val x - i64_val y))"
    by (simp add: i64_sub_def i64_word_val)
  with assms show ?thesis by (simp only: i64_val_I64)
qed

lemma i64_val_div_2:
  assumes "0 \<le> i64_val x"
  shows "i64_val (i64_div_2 x) = i64_val x div 2"
proof -
  have lt: "i64_val x < 2 ^ 63"
    using sint_lt [of "i64_word x"] by (simp add: i64_val_def)
  have q: "i64_val x sdiv 2 = i64_val x div 2"
    using assms by (auto simp: signed_divide_int_def sgn_if)
  have "i64_val x div 2 < 2 ^ 63" and "- (2 ^ 63) \<le> i64_val x div 2"
    using lt assms by linarith+
  then show ?thesis unfolding i64_div_2_def q by (intro i64_val_I64) simp_all
qed

lemma i64_val_of_u32: "i64_val (i64_of_u32 w) = uint w"
proof -
  have "uint w < 2 ^ 32" using unsigned_less [of w, where ?'a = int] by simp
  moreover have "- (2 ^ 63) \<le> uint w" by (rule order_trans [OF _ uint_ge_0]) simp
  ultimately have "i64_val (I64 (word_of_int (uint w))) = uint w"
    by (intro i64_val_I64) simp_all
  then show ?thesis by (simp only: i64_of_u32_def ucast_eq)
qed

lemma wire_price_of_u32: "wire_price (i64_of_u32 w)"
  using unsigned_less [of w, where ?'a = int] by (simp add: wire_price_def i64_val_of_u32)

section \<open>Orders, trades and errors\<close>

type_synonym order_id = u64
type_synonym price = i64
type_synonym quantity = u64
type_synonym timestamp = u64

datatype side = Bid | Ask

fun opposite :: "side \<Rightarrow> side" where
  "opposite Bid = Ask"
| "opposite Ask = Bid"

record order =
  ord_id :: order_id
  ord_side :: side
  ord_price :: price
  ord_qty :: quantity
  ord_ts :: timestamp

record trade =
  tr_maker_id :: order_id
  tr_price :: price
  tr_qty :: quantity
  tr_ts :: timestamp

datatype book_error =
    DuplicateOrder order_id
  | UnknownOrder order_id
  | OverExecute order_id (got: quantity) (avail: quantity)
  | OverCancel order_id (got: quantity) (avail: quantity)

section \<open>Price levels\<close>

type_synonym index = u32

definition NIL :: index where
  "NIL = - 1"

record level =
  lv_head :: index
  lv_tail :: index
  lv_total_qty :: quantity
  lv_order_count :: u32

definition level_empty :: level where
  "level_empty = \<lparr>lv_head = NIL, lv_tail = NIL, lv_total_qty = 0, lv_order_count = 0\<rparr>"

definition level_is_empty :: "level \<Rightarrow> bool" where
  "level_is_empty l \<longleftrightarrow> lv_head l = NIL"

lemma unat_NIL: "unat NIL = 2 ^ 32 - 1"
  by (simp add: NIL_def unsigned_minus_1_eq_mask mask_eq_exp_minus_1)

lemma opposite_involutive [simp]: "opposite (opposite s) = s"
  by (cases s) simp_all

end
