(* ===== verification/Slab_Pool.thy ===== *)
theory Slab_Pool
  imports Book_Types
begin

text \<open>
  The slab arena of \<open>orderbook/src/pool.rs\<close>: a vector of slots, occupied ones holding a
  node and free ones chained through their own storage into a free list.  The arena is a
  heap, the partial function \<open>pool_heap\<close> from indices to nodes; the locale \<open>arena\<close>
  is what the order book relies on, and it is interpreted at the end on the model.
\<close>

section \<open>The model\<close>

record 'a node =
  nd_order :: 'a
  nd_prev :: index
  nd_next :: index

datatype 'a slot = Occupied "'a node" | Free index

record 'a pool =
  slots :: "'a slot list"
  free_head :: index

definition pool_new :: "'a pool" where
  "pool_new = \<lparr>slots = [], free_head = NIL\<rparr>"

definition pool_alloc :: "'a pool \<Rightarrow> 'a node \<Rightarrow> ('a pool \<times> index) run" where
  "pool_alloc p nd =
     (if free_head p \<noteq> NIL then do {
        let idx = free_head p;
        s \<leftarrow> vec_get (slots p) (unat idx);
        (case s of
           Free nxt \<Rightarrow> do {
             ss \<leftarrow> vec_set (slots p) (unat idx) (Occupied nd);
             Some (p\<lparr>slots := ss, free_head := nxt\<rparr>, idx)
           }
         | Occupied _ \<Rightarrow> panic)
      }
      else Some (p\<lparr>slots := slots p @ [Occupied nd]\<rparr>, of_nat (length (slots p))))"

definition pool_free :: "'a pool \<Rightarrow> index \<Rightarrow> 'a pool run" where
  "pool_free p idx = do {
     ss \<leftarrow> vec_set (slots p) (unat idx) (Free (free_head p));
     Some (p\<lparr>slots := ss, free_head := idx\<rparr>)
   }"

definition pool_get :: "'a pool \<Rightarrow> index \<Rightarrow> 'a node run" where
  "pool_get p idx = do {
     s \<leftarrow> vec_get (slots p) (unat idx);
     (case s of Occupied nd \<Rightarrow> Some nd | Free _ \<Rightarrow> panic)
   }"

text \<open>
  \<open>get_mut\<close> returns a reference through which the caller writes; the model takes the
  write as a function of the node.
\<close>

definition pool_modify :: "'a pool \<Rightarrow> index \<Rightarrow> ('a node \<Rightarrow> 'a node) \<Rightarrow> 'a pool run" where
  "pool_modify p idx f = do {
     s \<leftarrow> vec_get (slots p) (unat idx);
     (case s of
        Occupied nd \<Rightarrow> do {
          ss \<leftarrow> vec_set (slots p) (unat idx) (Occupied (f nd));
          Some (p\<lparr>slots := ss\<rparr>)
        }
      | Free _ \<Rightarrow> panic)
   }"

definition pool_capacity_used :: "'a pool \<Rightarrow> nat" where
  "pool_capacity_used p = length (slots p)"

section \<open>The arena as a heap\<close>

definition pool_heap :: "'a pool \<Rightarrow> index \<rightharpoonup> 'a node" where
  "pool_heap p i =
     (if unat i < length (slots p)
      then (case slots p ! unat i of Occupied nd \<Rightarrow> Some nd | Free _ \<Rightarrow> None)
      else None)"

text \<open>The free list: the indices reached from \<open>h\<close> through the free slots, up to \<open>NIL\<close>.\<close>

fun free_chain :: "'a slot list \<Rightarrow> index \<Rightarrow> index list \<Rightarrow> bool" where
  "free_chain ss h [] \<longleftrightarrow> h = NIL"
| "free_chain ss h (i # is) \<longleftrightarrow>
     h = i \<and> i \<noteq> NIL \<and> unat i < length ss \<and>
     (\<exists>nxt. ss ! unat i = Free nxt \<and> free_chain ss nxt is)"

text \<open>Every free slot is on the free list, once, and the slots fit the index type.\<close>

definition pool_ok :: "'a pool \<Rightarrow> bool" where
  "pool_ok p \<longleftrightarrow>
     length (slots p) \<le> unat NIL \<and>
     (\<exists>fs. free_chain (slots p) (free_head p) fs \<and> distinct fs \<and>
           (\<forall>i < length (slots p). \<forall>nxt. slots p ! i = Free nxt \<longrightarrow> of_nat i \<in> set fs))"

definition pool_live :: "'a pool \<Rightarrow> nat" where
  "pool_live p = card (dom (pool_heap p))"

section \<open>The interface the book relies on\<close>

locale arena =
  fixes valid :: "'p \<Rightarrow> bool"
    and heap :: "'p \<Rightarrow> index \<rightharpoonup> 'n"
    and new :: "'p"
    and alloc :: "'p \<Rightarrow> 'n \<Rightarrow> ('p \<times> index) run"
    and free :: "'p \<Rightarrow> index \<Rightarrow> 'p run"
    and get :: "'p \<Rightarrow> index \<Rightarrow> 'n run"
    and modify :: "'p \<Rightarrow> index \<Rightarrow> ('n \<Rightarrow> 'n) \<Rightarrow> 'p run"
  assumes valid_new: "valid new"
    and heap_new: "heap new = Map.empty"
    and finite_heap: "valid p \<Longrightarrow> finite (dom (heap p))"
    and NIL_not_live: "valid p \<Longrightarrow> heap p NIL = None"
    and alloc_ok: "valid p \<Longrightarrow> card (dom (heap p)) < unat NIL \<Longrightarrow>
      \<exists>p' i. alloc p n = Some (p', i) \<and> valid p' \<and> heap p i = None \<and> i \<noteq> NIL \<and>
             heap p' = (heap p)(i \<mapsto> n)"
    and free_ok: "valid p \<Longrightarrow> heap p i = Some n \<Longrightarrow>
      \<exists>p'. free p i = Some p' \<and> valid p' \<and> heap p' = (heap p)(i := None)"
    and get_ok: "get p i = heap p i"
    and modify_ok: "valid p \<Longrightarrow> heap p i = Some n \<Longrightarrow>
      \<exists>p'. modify p i f = Some p' \<and> valid p' \<and> heap p' = (heap p)(i \<mapsto> f n)"
begin

text \<open>A live slot is never handed out again.\<close>

lemma alloc_fresh:
  assumes "valid p" and "card (dom (heap p)) < unat NIL" and "alloc p n = Some (p', i)"
    and "heap p j = Some m"
  shows "j \<noteq> i" and "heap p' j = Some m"
  using alloc_ok [OF assms(1,2), of n] assms(3,4) by auto

text \<open>What was freed is allocated again: freeing makes room.\<close>

lemma alloc_after_free:
  assumes "valid p" and "heap p i = Some n" and "card (dom (heap p)) \<le> unat NIL"
  shows "\<exists>p' p'' j. free p i = Some p' \<and> alloc p' m = Some (p'', j)"
proof -
  from free_ok [OF assms(1,2)] obtain p' where
    p': "free p i = Some p'" "valid p'" "heap p' = (heap p)(i := None)" by blast
  have "card (dom (heap p')) < card (dom (heap p))"
    using assms(2) finite_heap [OF assms(1)] by (auto simp: p'(3) intro!: psubset_card_mono)
  with assms(3) alloc_ok [OF p'(2), of m] p'(1) show ?thesis by auto
qed

end

section \<open>The model provides the interface\<close>

lemma free_chain_frame:
  "free_chain ss h fs \<Longrightarrow> \<forall>i \<in> set fs. ss' ! unat i = ss ! unat i \<Longrightarrow>
   length ss \<le> length ss' \<Longrightarrow> free_chain ss' h fs"
  by (induction ss h fs rule: free_chain.induct) auto

lemma free_chain_free:
  "free_chain ss h fs \<Longrightarrow> i \<in> set fs \<Longrightarrow> \<exists>nxt. ss ! unat i = Free nxt \<and> unat i < length ss"
  by (induction ss h fs rule: free_chain.induct) auto

lemma pool_heap_Some:
  "pool_heap p i = Some nd \<longleftrightarrow> unat i < length (slots p) \<and> slots p ! unat i = Occupied nd"
  by (auto simp: pool_heap_def split: slot.splits)

lemma pool_get_heap: "pool_get p i = pool_heap p i"
  by (simp add: pool_get_def pool_heap_def vec_get_def)

lemma unat_of_nat_index: "n \<le> unat NIL \<Longrightarrow> unat (of_nat n :: index) = n"
  by (rule unat_u32_of_nat) (simp add: unat_NIL)

lemma dom_pool_heap_subset: "dom (pool_heap p) \<subseteq> {i. unat i < length (slots p)}"
  by (auto simp: pool_heap_Some)

lemma finite_pool_heap: "finite (dom (pool_heap p))"
  by (rule finite_subset [OF subset_UNIV]) simp

text \<open>With an empty free list every slot is occupied.\<close>

lemma full_pool_heap:
  assumes "pool_ok p" and "free_head p = NIL"
  shows "dom (pool_heap p) = of_nat ` {..<length (slots p)}"
proof -
  from assms obtain fs where ch: "free_chain (slots p) NIL fs"
    and all: "\<forall>i < length (slots p). \<forall>nxt. slots p ! i = Free nxt \<longrightarrow> of_nat i \<in> set fs"
    by (auto simp: pool_ok_def)
  have "fs = []" using ch by (cases fs) auto
  with all have occ: "\<exists>nd. slots p ! i = Occupied nd" if "i < length (slots p)" for i
    using that by (cases "slots p ! i") auto
  have len: "length (slots p) \<le> unat NIL" using assms by (simp add: pool_ok_def)
  show ?thesis
  proof
    show "dom (pool_heap p) \<subseteq> of_nat ` {..<length (slots p)}"
    proof
      fix i assume "i \<in> dom (pool_heap p)"
      then have "i = of_nat (unat i)" and "unat i < length (slots p)"
        by (auto simp: pool_heap_Some)
      then show "i \<in> of_nat ` {..<length (slots p)}" by blast
    qed
  next
    show "of_nat ` {..<length (slots p)} \<subseteq> dom (pool_heap p)"
    proof (rule image_subsetI)
      fix i assume i: "i \<in> {..<length (slots p)}"
      with len have "unat (of_nat i :: index) = i" by (intro unat_of_nat_index) simp
      with i occ [of i] show "(of_nat i :: index) \<in> dom (pool_heap p)"
        by (auto simp: dom_def pool_heap_Some)
    qed
  qed
qed

lemma card_full_pool_heap:
  assumes "pool_ok p" and "free_head p = NIL"
  shows "card (dom (pool_heap p)) = length (slots p)"
proof -
  have len: "length (slots p) \<le> unat NIL" using assms by (simp add: pool_ok_def)
  have "inj_on (of_nat :: nat \<Rightarrow> index) {..<length (slots p)}"
  proof (rule inj_onI)
    fix x y assume x: "x \<in> {..<length (slots p)}" and y: "y \<in> {..<length (slots p)}"
      and eq: "(of_nat x :: index) = of_nat y"
    from x len have "x \<le> unat NIL" by simp
    moreover from y len have "y \<le> unat NIL" by simp
    ultimately show "x = y" using eq by (metis unat_of_nat_index)
  qed
  then show ?thesis by (simp add: full_pool_heap [OF assms] card_image)
qed

lemma pool_ok_new: "pool_ok pool_new"
  by (auto simp: pool_ok_def pool_new_def intro: exI [of _ "[]"])

lemma pool_alloc_ok:
  assumes "pool_ok p" and "card (dom (pool_heap p)) < unat NIL"
  shows "\<exists>p' i. pool_alloc p nd = Some (p', i) \<and> pool_ok p' \<and> pool_heap p i = None \<and>
    i \<noteq> NIL \<and> pool_heap p' = (pool_heap p)(i \<mapsto> nd)"
proof (cases "free_head p = NIL")
  case True
  let ?n = "length (slots p)" and ?p' = "p\<lparr>slots := slots p @ [Occupied nd]\<rparr>"
  have n: "?n < unat NIL" using assms True by (simp add: card_full_pool_heap)
  then have i: "unat (of_nat ?n :: index) = ?n" by (simp add: unat_of_nat_index)
  obtain fs where fs: "free_chain (slots p) NIL fs" and
    all: "\<forall>i < ?n. \<forall>nxt. slots p ! i = Free nxt \<longrightarrow> of_nat i \<in> set fs"
    using assms(1) True by (auto simp: pool_ok_def)
  have "fs = []" using fs by (cases fs) auto
  with all have "pool_ok ?p'"
    using True n by (auto simp: pool_ok_def nth_append less_Suc_eq intro: exI [of _ "[]"])
  moreover have "(of_nat ?n :: index) \<noteq> NIL" using i n by auto
  moreover have "pool_heap ?p' = (pool_heap p)(of_nat ?n \<mapsto> nd)"
  proof
    fix j
    show "pool_heap ?p' j = ((pool_heap p)(of_nat ?n \<mapsto> nd)) j"
      using i by (auto simp: pool_heap_def nth_append less_Suc_eq dest: of_nat_unat_eq)
  qed
  moreover have "pool_heap p (of_nat ?n) = None" using i by (simp add: pool_heap_def)
  ultimately show ?thesis using True by (auto simp: pool_alloc_def)
next
  case False
  then obtain h fs where ch: "free_chain (slots p) (free_head p) (h # fs)"
    and dist: "distinct (h # fs)" and len: "length (slots p) \<le> unat NIL"
    and all: "\<forall>i < length (slots p). \<forall>nxt. slots p ! i = Free nxt \<longrightarrow> of_nat i \<in> set (h # fs)"
    using assms(1) unfolding pool_ok_def by (metis free_chain.elims(2))
  from ch obtain nxt where h: "free_head p = h" "h \<noteq> NIL" "unat h < length (slots p)"
    and nxt: "slots p ! unat h = Free nxt" and rest: "free_chain (slots p) nxt fs"
    by auto
  let ?ss = "(slots p)[unat h := Occupied nd]"
  let ?p' = "p\<lparr>slots := ?ss, free_head := nxt\<rparr>"
  have "free_chain ?ss nxt fs"
  proof (rule free_chain_frame [OF rest])
    show "\<forall>i \<in> set fs. ?ss ! unat i = slots p ! unat i"
      using dist by (metis distinct.simps(2) nth_list_update_neq word_unat_eq_iff)
  qed simp
  moreover have "\<forall>i < length ?ss. \<forall>nxt'. ?ss ! i = Free nxt' \<longrightarrow> of_nat i \<in> set fs"
  proof (intro allI impI)
    fix i nxt' assume i: "i < length ?ss" and free: "?ss ! i = Free nxt'"
    then have "i \<noteq> unat h" using h(3) by auto
    moreover have "unat (of_nat i :: index) = i" using i len by (simp add: unat_of_nat_index)
    ultimately have "of_nat i \<noteq> h" by auto
    with all i free \<open>i \<noteq> unat h\<close> show "of_nat i \<in> set fs" by auto
  qed
  ultimately have "pool_ok ?p'" using dist len by (auto simp: pool_ok_def)
  moreover have "pool_heap ?p' = (pool_heap p)(h \<mapsto> nd)"
    using h(3) by (auto simp: fun_eq_iff pool_heap_def nth_list_update word_unat_eq_iff)
  moreover have "pool_heap p h = None" using nxt by (simp add: pool_heap_def)
  moreover have "pool_alloc p nd = Some (?p', h)"
    using h nxt by (simp add: pool_alloc_def)
  ultimately show ?thesis using h(2) by blast
qed

lemma pool_free_ok:
  assumes "pool_ok p" and "pool_heap p i = Some nd"
  shows "\<exists>p'. pool_free p i = Some p' \<and> pool_ok p' \<and> pool_heap p' = (pool_heap p)(i := None)"
proof -
  from assms(1) obtain fs where ch: "free_chain (slots p) (free_head p) fs"
    and dist: "distinct fs" and len: "length (slots p) \<le> unat NIL"
    and all: "\<forall>i < length (slots p). \<forall>nxt. slots p ! i = Free nxt \<longrightarrow> of_nat i \<in> set fs"
    by (auto simp: pool_ok_def)
  from assms(2) have i: "unat i < length (slots p)" "slots p ! unat i = Occupied nd"
    by (simp_all add: pool_heap_Some)
  have fresh: "i \<notin> set fs" using free_chain_free [OF ch, of i] i(2) by auto
  let ?ss = "(slots p)[unat i := Free (free_head p)]"
  let ?p' = "p\<lparr>slots := ?ss, free_head := i\<rparr>"
  have "i \<noteq> NIL" using i(1) len by auto
  moreover have "free_chain ?ss (free_head p) fs"
  proof (rule free_chain_frame [OF ch])
    show "\<forall>j \<in> set fs. ?ss ! unat j = slots p ! unat j"
      using fresh by (metis nth_list_update_neq word_unat_eq_iff)
  qed simp
  ultimately have "free_chain ?ss i (i # fs)" using i(1) by simp
  moreover have "\<forall>j < length ?ss. \<forall>nxt. ?ss ! j = Free nxt \<longrightarrow> of_nat j \<in> set (i # fs)"
    using all i(1) by (auto simp: nth_list_update dest: of_nat_unat_eq split: if_splits)
  ultimately have "pool_ok ?p'"
    using dist fresh len unfolding pool_ok_def by (auto intro!: exI [of _ "i # fs"])
  moreover have "pool_heap ?p' = (pool_heap p)(i := None)"
    using i(1) by (auto simp: fun_eq_iff pool_heap_def nth_list_update word_unat_eq_iff)
  ultimately show ?thesis using i(1) by (simp add: pool_free_def)
qed

lemma pool_modify_ok:
  assumes "pool_ok p" and "pool_heap p i = Some nd"
  shows "\<exists>p'. pool_modify p i f = Some p' \<and> pool_ok p' \<and>
    pool_heap p' = (pool_heap p)(i \<mapsto> f nd)"
proof -
  from assms(1) obtain fs where ch: "free_chain (slots p) (free_head p) fs"
    and dist: "distinct fs" and len: "length (slots p) \<le> unat NIL"
    and all: "\<forall>i < length (slots p). \<forall>nxt. slots p ! i = Free nxt \<longrightarrow> of_nat i \<in> set fs"
    by (auto simp: pool_ok_def)
  from assms(2) have i: "unat i < length (slots p)" "slots p ! unat i = Occupied nd"
    by (simp_all add: pool_heap_Some)
  let ?ss = "(slots p)[unat i := Occupied (f nd)]"
  have "i \<notin> set fs" using free_chain_free [OF ch, of i] i(2) by auto
  then have "free_chain ?ss (free_head p) fs"
    by (intro free_chain_frame [OF ch]) (auto simp: nth_list_update i(1) dest: word_unat_eq_iff [THEN iffD2])
  moreover have "\<forall>j < length ?ss. \<forall>nxt. ?ss ! j = Free nxt \<longrightarrow> of_nat j \<in> set fs"
    using all i(1) by (auto simp: nth_list_update split: if_splits)
  ultimately have "pool_ok (p\<lparr>slots := ?ss\<rparr>)" using dist len by (auto simp: pool_ok_def)
  moreover have "pool_heap (p\<lparr>slots := ?ss\<rparr>) = (pool_heap p)(i \<mapsto> f nd)"
    using i(1) by (auto simp: fun_eq_iff pool_heap_def nth_list_update word_unat_eq_iff)
  ultimately show ?thesis using i by (simp add: pool_modify_def)
qed

interpretation slab: arena pool_ok pool_heap pool_new pool_alloc pool_free pool_get pool_modify
proof unfold_locales
  show "pool_ok pool_new" by (rule pool_ok_new)
  show "pool_heap pool_new = Map.empty" by (simp add: fun_eq_iff pool_heap_def pool_new_def)
  show "pool_heap p NIL = None" if "pool_ok p" for p
    using that by (simp add: pool_ok_def pool_heap_def)
qed (auto simp: finite_pool_heap pool_get_heap intro: pool_alloc_ok pool_free_ok pool_modify_ok)

end
