(* ===== verification/Order_Book.thy ===== *)
theory Order_Book
  imports Slab_Pool
begin

text \<open>
  The order book of \<open>orderbook/src/book.rs\<close>: two price ladders, the map from order ids to
  slab indices and the slab itself, kept in step by the ITCH event handlers.  Every
  operation is the whole Rust method; \<^const>\<open>None\<close> is a panic, \<^const>\<open>Inl\<close> a
  \<open>BookError\<close> returned with the state the method leaves behind.
\<close>

section \<open>State\<close>

record book =
  bk_bids :: "(price, level) btree_map"
  bk_asks :: "(price, level) btree_map"
  bk_orders :: "(order_id, index) hash_map"
  bk_pool :: "order pool"

definition book_new :: book where
  "book_new = \<lparr>bk_bids = [], bk_asks = [], bk_orders = [], bk_pool = pool_new\<rparr>"

fun side_levels :: "book \<Rightarrow> side \<Rightarrow> (price, level) btree_map" where
  "side_levels b Bid = bk_bids b"
| "side_levels b Ask = bk_asks b"

text \<open>Writing through \<open>side_levels_mut\<close>.\<close>

fun set_side_levels :: "book \<Rightarrow> side \<Rightarrow> (price, level) btree_map \<Rightarrow> book" where
  "set_side_levels b Bid m = b\<lparr>bk_bids := m\<rparr>"
| "set_side_levels b Ask m = b\<lparr>bk_asks := m\<rparr>"

section \<open>Event handlers\<close>

definition book_unlink :: "book \<Rightarrow> index \<Rightarrow> book run" where
  "book_unlink b idx = do {
     nd \<leftarrow> pool_get (bk_pool b) idx;
     let remaining_qty = ord_qty (nd_order nd);
     let sd = ord_side (nd_order nd);
     let pr = ord_price (nd_order nd);
     pl \<leftarrow> (if nd_prev nd \<noteq> NIL
            then pool_modify (bk_pool b) (nd_prev nd) (\<lambda>n. n\<lparr>nd_next := nd_next nd\<rparr>)
            else Some (bk_pool b));
     pl \<leftarrow> (if nd_next nd \<noteq> NIL
            then pool_modify pl (nd_next nd) (\<lambda>n. n\<lparr>nd_prev := nd_prev nd\<rparr>)
            else Some pl);
     let levels = side_levels b sd;
     lv \<leftarrow> bt_get levels pr;
     let lv = (if lv_head lv = idx then lv\<lparr>lv_head := nd_next nd\<rparr> else lv);
     let lv = (if lv_tail lv = idx then lv\<lparr>lv_tail := nd_prev nd\<rparr> else lv);
     let lv = lv\<lparr>lv_total_qty := saturating_sub (lv_total_qty lv) remaining_qty,
                 lv_order_count := lv_order_count lv - 1\<rparr>;
     let levels = (if level_is_empty lv then bt_remove pr levels else bt_insert pr lv levels);
     pl \<leftarrow> pool_free pl idx;
     Some ((set_side_levels b sd levels)
             \<lparr>bk_orders := hm_remove (ord_id (nd_order nd)) (bk_orders b), bk_pool := pl\<rparr>)
   }"

definition book_add :: "book \<Rightarrow> order \<Rightarrow> (book \<times> (book_error + unit)) run" where
  "book_add b ord =
     (if hm_contains_key (bk_orders b) (ord_id ord)
      then Some (b, Inl (DuplicateOrder (ord_id ord)))
      else do {
        let prev = (case bt_get (side_levels b (ord_side ord)) (ord_price ord) of
                      None \<Rightarrow> NIL | Some l \<Rightarrow> lv_tail l);
        (pl, idx) \<leftarrow> pool_alloc (bk_pool b)
          \<lparr>nd_order = ord, nd_prev = prev, nd_next = NIL\<rparr>;
        pl \<leftarrow> (if prev \<noteq> NIL then pool_modify pl prev (\<lambda>n. n\<lparr>nd_next := idx\<rparr>) else Some pl);
        let levels = side_levels b (ord_side ord);
        let lv = (case bt_get levels (ord_price ord) of None \<Rightarrow> level_empty | Some l \<Rightarrow> l);
        let lv = (if lv_head lv = NIL then lv\<lparr>lv_head := idx\<rparr> else lv);
        let lv = lv\<lparr>lv_tail := idx, lv_total_qty := lv_total_qty lv + ord_qty ord,
                    lv_order_count := lv_order_count lv + 1\<rparr>;
        Some ((set_side_levels b (ord_side ord) (bt_insert (ord_price ord) lv levels))
                \<lparr>bk_orders := hm_insert (ord_id ord) idx (bk_orders b), bk_pool := pl\<rparr>, Inr ())
      })"

text \<open>
  What \<open>execute_inner\<close> and \<open>cancel\<close> both do once the quantity is known to be covered:
  decrement the node, decrement the level's aggregate (\<open>expect\<close>: the level exists) and
  unlink the order if nothing is left of it.
\<close>

definition book_take_qty :: "book \<Rightarrow> index \<Rightarrow> quantity \<Rightarrow> book run" where
  "book_take_qty b idx qty = do {
     pl \<leftarrow> pool_modify (bk_pool b) idx
       (\<lambda>n. n\<lparr>nd_order := (nd_order n)\<lparr>ord_qty := ord_qty (nd_order n) - qty\<rparr>\<rparr>);
     nd \<leftarrow> pool_get pl idx;
     let sd = ord_side (nd_order nd);
     let pr = ord_price (nd_order nd);
     let exhausted = (ord_qty (nd_order nd) = 0);
     lv \<leftarrow> bt_get (side_levels b sd) pr;
     let lv = lv\<lparr>lv_total_qty := lv_total_qty lv - qty\<rparr>;
     let b = (set_side_levels b sd (bt_insert pr lv (side_levels b sd)))\<lparr>bk_pool := pl\<rparr>;
     (if exhausted then book_unlink b idx else Some b)
   }"

definition book_execute_inner ::
  "book \<Rightarrow> order_id \<Rightarrow> quantity \<Rightarrow> timestamp \<Rightarrow> price option \<Rightarrow>
   (book \<times> (book_error + trade)) run" where
  "book_execute_inner b oid qty ts print_price =
     (case hm_get (bk_orders b) oid of
        None \<Rightarrow> Some (b, Inl (UnknownOrder oid))
      | Some idx \<Rightarrow> do {
          nd \<leftarrow> pool_get (bk_pool b) idx;
          (if ord_qty (nd_order nd) < qty
           then Some (b, Inl (OverExecute oid qty (ord_qty (nd_order nd))))
           else do {
             b' \<leftarrow> book_take_qty b idx qty;
             let resting_price = ord_price (nd_order nd);
             Some (b', Inr \<lparr>tr_maker_id = oid,
                            tr_price = (case print_price of None \<Rightarrow> resting_price | Some p \<Rightarrow> p),
                            tr_qty = qty, tr_ts = ts\<rparr>)
           })
        })"

definition book_execute ::
  "book \<Rightarrow> order_id \<Rightarrow> quantity \<Rightarrow> timestamp \<Rightarrow> (book \<times> (book_error + trade)) run" where
  "book_execute b oid qty ts = book_execute_inner b oid qty ts None"

definition book_execute_at ::
  "book \<Rightarrow> order_id \<Rightarrow> quantity \<Rightarrow> price \<Rightarrow> timestamp \<Rightarrow>
   (book \<times> (book_error + trade)) run" where
  "book_execute_at b oid qty pr ts = book_execute_inner b oid qty ts (Some pr)"

definition book_cancel ::
  "book \<Rightarrow> order_id \<Rightarrow> quantity \<Rightarrow> (book \<times> (book_error + unit)) run" where
  "book_cancel b oid qty =
     (case hm_get (bk_orders b) oid of
        None \<Rightarrow> Some (b, Inl (UnknownOrder oid))
      | Some idx \<Rightarrow> do {
          nd \<leftarrow> pool_get (bk_pool b) idx;
          (if ord_qty (nd_order nd) < qty
           then Some (b, Inl (OverCancel oid qty (ord_qty (nd_order nd))))
           else do { b' \<leftarrow> book_take_qty b idx qty; Some (b', Inr ()) })
        })"

definition book_delete :: "book \<Rightarrow> order_id \<Rightarrow> (book \<times> (book_error + unit)) run" where
  "book_delete b oid =
     (case hm_get (bk_orders b) oid of
        None \<Rightarrow> Some (b, Inl (UnknownOrder oid))
      | Some idx \<Rightarrow> do { b' \<leftarrow> book_unlink b idx; Some (b', Inr ()) })"

definition book_replace ::
  "book \<Rightarrow> order_id \<Rightarrow> order_id \<Rightarrow> price \<Rightarrow> quantity \<Rightarrow> timestamp \<Rightarrow>
   (book \<times> (book_error + unit)) run" where
  "book_replace b old_id new_id new_price new_qty ts =
     (case hm_get (bk_orders b) old_id of
        None \<Rightarrow> Some (b, Inl (UnknownOrder old_id))
      | Some idx \<Rightarrow> do {
          nd \<leftarrow> pool_get (bk_pool b) idx;
          let sd = ord_side (nd_order nd);
          b' \<leftarrow> book_unlink b idx;
          book_add b' \<lparr>ord_id = new_id, ord_side = sd, ord_price = new_price,
                       ord_qty = new_qty, ord_ts = ts\<rparr>
        })"

section \<open>Queries\<close>

definition book_best_bid :: "book \<Rightarrow> (price \<times> quantity) option" where
  "book_best_bid b = map_option (\<lambda>(p, l). (p, lv_total_qty l)) (bt_last (bk_bids b))"

definition book_best_ask :: "book \<Rightarrow> (price \<times> quantity) option" where
  "book_best_ask b = map_option (\<lambda>(p, l). (p, lv_total_qty l)) (bt_first (bk_asks b))"

definition book_spread :: "book \<Rightarrow> price option" where
  "book_spread b = do {
     (bp, _) \<leftarrow> book_best_bid b;
     (ap, _) \<leftarrow> book_best_ask b;
     Some (i64_sub ap bp)
   }"

definition book_mid :: "book \<Rightarrow> price option" where
  "book_mid b = do {
     (bp, _) \<leftarrow> book_best_bid b;
     (ap, _) \<leftarrow> book_best_ask b;
     Some (i64_div_2 (i64_add ap bp))
   }"

definition book_depth ::
  "book \<Rightarrow> nat \<Rightarrow> (price \<times> quantity) list \<times> (price \<times> quantity) list" where
  "book_depth b n =
     (map (\<lambda>(p, l). (p, lv_total_qty l)) (take n (rev (bk_bids b))),
      map (\<lambda>(p, l). (p, lv_total_qty l)) (take n (bk_asks b)))"

definition book_len :: "book \<Rightarrow> nat" where
  "book_len b = hm_len (bk_orders b)"

definition book_is_empty :: "book \<Rightarrow> bool" where
  "book_is_empty b \<longleftrightarrow> bk_orders b = []"

section \<open>Commands and runs\<close>

text \<open>The calls a feed makes, one constructor per public event handler.\<close>

datatype book_cmd =
    Add order
  | Execute order_id quantity timestamp
  | Execute_At order_id quantity price timestamp
  | Cancel order_id quantity
  | Delete order_id
  | Replace order_id order_id price quantity timestamp

datatype book_reply = Done | Traded trade

definition reply_unit :: "(book \<times> (book_error + unit)) run \<Rightarrow> (book \<times> (book_error + book_reply)) run"
  where "reply_unit = map_option (\<lambda>(b, r). (b, case r of Inl e \<Rightarrow> Inl e | Inr _ \<Rightarrow> Inr Done))"

definition reply_trade :: "(book \<times> (book_error + trade)) run \<Rightarrow> (book \<times> (book_error + book_reply)) run"
  where "reply_trade = map_option (\<lambda>(b, r). (b, case r of Inl e \<Rightarrow> Inl e | Inr t \<Rightarrow> Inr (Traded t)))"

fun book_apply :: "book \<Rightarrow> book_cmd \<Rightarrow> (book \<times> (book_error + book_reply)) run" where
  "book_apply b (Add ord) = reply_unit (book_add b ord)"
| "book_apply b (Execute oid q ts) = reply_trade (book_execute b oid q ts)"
| "book_apply b (Execute_At oid q p ts) = reply_trade (book_execute_at b oid q p ts)"
| "book_apply b (Cancel oid q) = reply_unit (book_cancel b oid q)"
| "book_apply b (Delete oid) = reply_unit (book_delete b oid)"
| "book_apply b (Replace old new p q ts) = reply_unit (book_replace b old new p q ts)"

fun book_run :: "book \<Rightarrow> book_cmd list \<Rightarrow> (book \<times> (book_error + book_reply) list) run" where
  "book_run b [] = Some (b, [])"
| "book_run b (c # cs) = do {
     (b', r) \<leftarrow> book_apply b c;
     (b'', rs) \<leftarrow> book_run b' cs;
     Some (b'', r # rs)
   }"

end
