(* ===== verification/Book_Spec.thy ===== *)
theory Book_Spec
  imports Order_Book
begin

text \<open>
  What an order book promises, without its data structures: the resting orders as one
  list in the order of their arrival.  The queue of a price is the sublist of the orders
  at that price, oldest first, so time priority is the order of the list; a replaced order
  goes to the end of it.
\<close>

section \<open>The abstract book and its operations\<close>

type_synonym abook = "order list"

definition queue_at :: "abook \<Rightarrow> side \<Rightarrow> price \<Rightarrow> order list" where
  "queue_at os s p = filter (\<lambda>x. ord_side x = s \<and> ord_price x = p) os"

definition total_qty :: "order list \<Rightarrow> nat" where
  "total_qty q = sum_list (map (\<lambda>x. unat (ord_qty x)) q)"

definition lookup_id :: "abook \<Rightarrow> order_id \<Rightarrow> order option" where
  "lookup_id os k = find (\<lambda>x. ord_id x = k) os"

definition set_qty :: "order_id \<Rightarrow> quantity \<Rightarrow> abook \<Rightarrow> abook" where
  "set_qty k v os = map (\<lambda>x. if ord_id x = k then x\<lparr>ord_qty := v\<rparr> else x) os"

definition remove_id :: "order_id \<Rightarrow> abook \<Rightarrow> abook" where
  "remove_id k os = filter (\<lambda>x. ord_id x \<noteq> k) os"

text \<open>Taking \<open>q\<close> shares off an order removes it when nothing is left.\<close>

definition spec_take :: "abook \<Rightarrow> order \<Rightarrow> quantity \<Rightarrow> abook" where
  "spec_take os x q =
     (if ord_qty x = q then remove_id (ord_id x) os
      else set_qty (ord_id x) (ord_qty x - q) os)"

definition spec_add :: "abook \<Rightarrow> order \<Rightarrow> abook \<times> (book_error + book_reply)" where
  "spec_add os x =
     (case lookup_id os (ord_id x) of
        Some _ \<Rightarrow> (os, Inl (DuplicateOrder (ord_id x)))
      | None \<Rightarrow> (os @ [x], Inr Done))"

definition spec_execute ::
  "abook \<Rightarrow> order_id \<Rightarrow> quantity \<Rightarrow> timestamp \<Rightarrow> price option \<Rightarrow>
   abook \<times> (book_error + book_reply)" where
  "spec_execute os k q ts pp =
     (case lookup_id os k of
        None \<Rightarrow> (os, Inl (UnknownOrder k))
      | Some x \<Rightarrow>
          (if ord_qty x < q then (os, Inl (OverExecute k q (ord_qty x)))
           else (spec_take os x q,
                 Inr (Traded \<lparr>tr_maker_id = k,
                              tr_price = (case pp of None \<Rightarrow> ord_price x | Some p \<Rightarrow> p),
                              tr_qty = q, tr_ts = ts\<rparr>))))"

definition spec_cancel :: "abook \<Rightarrow> order_id \<Rightarrow> quantity \<Rightarrow> abook \<times> (book_error + book_reply)" where
  "spec_cancel os k q =
     (case lookup_id os k of
        None \<Rightarrow> (os, Inl (UnknownOrder k))
      | Some x \<Rightarrow>
          (if ord_qty x < q then (os, Inl (OverCancel k q (ord_qty x)))
           else (spec_take os x q, Inr Done)))"

definition spec_delete :: "abook \<Rightarrow> order_id \<Rightarrow> abook \<times> (book_error + book_reply)" where
  "spec_delete os k =
     (case lookup_id os k of
        None \<Rightarrow> (os, Inl (UnknownOrder k))
      | Some _ \<Rightarrow> (remove_id k os, Inr Done))"

definition spec_replace ::
  "abook \<Rightarrow> order_id \<Rightarrow> order_id \<Rightarrow> price \<Rightarrow> quantity \<Rightarrow> timestamp \<Rightarrow>
   abook \<times> (book_error + book_reply)" where
  "spec_replace os old new p q ts =
     (case lookup_id os old of
        None \<Rightarrow> (os, Inl (UnknownOrder old))
      | Some x \<Rightarrow>
          spec_add (remove_id old os)
            \<lparr>ord_id = new, ord_side = ord_side x, ord_price = p, ord_qty = q, ord_ts = ts\<rparr>)"

fun spec_cmd :: "abook \<Rightarrow> book_cmd \<Rightarrow> abook \<times> (book_error + book_reply)" where
  "spec_cmd os (Add x) = spec_add os x"
| "spec_cmd os (Execute k q ts) = spec_execute os k q ts None"
| "spec_cmd os (Execute_At k q p ts) = spec_execute os k q ts (Some p)"
| "spec_cmd os (Cancel k q) = spec_cancel os k q"
| "spec_cmd os (Delete k) = spec_delete os k"
| "spec_cmd os (Replace old new p q ts) = spec_replace os old new p q ts"

fun spec_run :: "abook \<Rightarrow> book_cmd list \<Rightarrow> abook \<times> (book_error + book_reply) list" where
  "spec_run os [] = (os, [])"
| "spec_run os (c # cs) =
     (let (os', r) = spec_cmd os c; (os'', rs) = spec_run os' cs in (os'', r # rs))"

text \<open>The prices with resting orders on a side, and the ladder of their totals.\<close>

definition side_prices :: "abook \<Rightarrow> side \<Rightarrow> price list" where
  "side_prices os s = sorted_list_of_set (ord_price ` set (filter (\<lambda>x. ord_side x = s) os))"

definition ladder :: "abook \<Rightarrow> side \<Rightarrow> (price \<times> nat) list" where
  "ladder os s = map (\<lambda>p. (p, total_qty (queue_at os s p))) (side_prices os s)"

section \<open>Lemmas on the abstract book\<close>

lemma lookup_id_None: "lookup_id os k = None \<longleftrightarrow> k \<notin> ord_id ` set os"
  by (auto simp: lookup_id_def find_None_iff)

lemma lookup_id_SomeD: "lookup_id os k = Some x \<Longrightarrow> x \<in> set os \<and> ord_id x = k"
  by (auto simp: lookup_id_def find_Some_iff)

lemma lookup_id_in: "x \<in> set os \<Longrightarrow> distinct (map ord_id os) \<Longrightarrow> lookup_id os (ord_id x) = Some x"
  by (induction os) (auto simp: lookup_id_def)

lemma ord_id_inject:
  "distinct (map ord_id os) \<Longrightarrow> x \<in> set os \<Longrightarrow> y \<in> set os \<Longrightarrow> ord_id x = ord_id y \<Longrightarrow> x = y"
  by (metis distinct_map inj_onD)

lemma ids_set_qty [simp]: "map ord_id (set_qty k v os) = map ord_id os"
  by (simp add: set_qty_def)

lemma length_set_qty [simp]: "length (set_qty k v os) = length os"
  by (simp add: set_qty_def)

lemma queue_set_qty: "queue_at (set_qty k v os) s p = set_qty k v (queue_at os s p)"
  by (induction os) (auto simp: queue_at_def set_qty_def)

lemma queue_remove_id: "queue_at (remove_id k os) s p = remove_id k (queue_at os s p)"
  by (simp add: queue_at_def remove_id_def conj_commute)

lemma remove_set_qty [simp]: "remove_id k (set_qty k v os) = remove_id k os"
  by (induction os) (auto simp: remove_id_def set_qty_def)

lemma queue_append [simp]: "queue_at (os @ ps) s p = queue_at os s p @ queue_at ps s p"
  by (simp add: queue_at_def)

lemma queue_subset: "set (queue_at os s p) \<subseteq> set os"
  by (auto simp: queue_at_def)

lemma distinct_ids_queue: "distinct (map ord_id os) \<Longrightarrow> distinct (map ord_id (queue_at os s p))"
  by (simp add: queue_at_def distinct_map_filter)

lemma total_qty_Nil [simp]: "total_qty [] = 0"
  by (simp add: total_qty_def)

lemma total_qty_Cons [simp]: "total_qty (x # q) = unat (ord_qty x) + total_qty q"
  by (simp add: total_qty_def)

lemma total_qty_append [simp]: "total_qty (q @ r) = total_qty q + total_qty r"
  by (simp add: total_qty_def)

lemma set_qty_other: "k \<notin> ord_id ` set os \<Longrightarrow> set_qty k v os = os"
  by (induction os) (auto simp: set_qty_def)

lemma remove_id_other: "k \<notin> ord_id ` set os \<Longrightarrow> remove_id k os = os"
  by (induction os) (auto simp: remove_id_def)

text \<open>An order splits its book, and every update of it acts on that point alone.\<close>

lemma split_at_order:
  assumes "x \<in> set os" and "distinct (map ord_id os)"
  obtains as bs where "os = as @ x # bs" and "ord_id x \<notin> ord_id ` set as"
    and "ord_id x \<notin> ord_id ` set bs"
proof -
  from assms(1) obtain as bs where "os = as @ x # bs" by (meson split_list)
  with assms(2) show ?thesis by (intro that [of as bs]) auto
qed

lemma set_qty_split:
  "ord_id x \<notin> ord_id ` set as \<Longrightarrow> ord_id x \<notin> ord_id ` set bs \<Longrightarrow>
   set_qty (ord_id x) v (as @ x # bs) = as @ x\<lparr>ord_qty := v\<rparr> # bs"
  using set_qty_other [of "ord_id x" as v] set_qty_other [of "ord_id x" bs v]
  by (simp add: set_qty_def)

lemma remove_id_split:
  "ord_id x \<notin> ord_id ` set as \<Longrightarrow> ord_id x \<notin> ord_id ` set bs \<Longrightarrow>
   remove_id (ord_id x) (as @ x # bs) = as @ bs"
  using remove_id_other [of "ord_id x" as] remove_id_other [of "ord_id x" bs]
  by (simp add: remove_id_def)

end
