(* ===== verification/Dll.thy ===== *)
theory Dll
  imports Slab_Pool
begin

text \<open>
  The intrusive doubly linked lists that run through the arena: \<open>dll h p xs n\<close> says that
  in the heap \<open>h\<close> the indices \<open>xs\<close> form a segment whose first node points back to \<open>p\<close>
  and whose last node points on to \<open>n\<close>.  Writing the \<open>next\<close> or \<open>prev\<close> field of a
  node is \<open>set_next\<close> or \<open>set_prev\<close>, which leave the heap alone at \<open>NIL\<close>, as the
  guards of the code do.
\<close>

type_synonym 'a heap = "index \<rightharpoonup> 'a node"

fun dll :: "'a heap \<Rightarrow> index \<Rightarrow> index list \<Rightarrow> index \<Rightarrow> bool" where
  "dll h p [] n \<longleftrightarrow> True"
| "dll h p (i # is) n \<longleftrightarrow>
     (\<exists>nd. h i = Some nd \<and> nd_prev nd = p \<and> nd_next nd = hd (is @ [n])) \<and> dll h i is n"

definition set_next :: "'a heap \<Rightarrow> index \<Rightarrow> index \<Rightarrow> 'a heap" where
  "set_next h j m =
     (if j = NIL then h else h(j := map_option (\<lambda>nd. nd\<lparr>nd_next := m\<rparr>) (h j)))"

definition set_prev :: "'a heap \<Rightarrow> index \<Rightarrow> index \<Rightarrow> 'a heap" where
  "set_prev h j m =
     (if j = NIL then h else h(j := map_option (\<lambda>nd. nd\<lparr>nd_prev := m\<rparr>) (h j)))"

text \<open>The order a slot holds.\<close>

definition order_at :: "'a heap \<Rightarrow> index \<Rightarrow> 'a option" where
  "order_at h i = map_option nd_order (h i)"

lemma dom_set_next [simp]: "dom (set_next h j m) = dom h"
  by (auto simp: set_next_def split: if_splits)

lemma dom_set_prev [simp]: "dom (set_prev h j m) = dom h"
  by (auto simp: set_prev_def split: if_splits)

lemma order_at_set_next [simp]: "order_at (set_next h j m) i = order_at h i"
  by (auto simp: set_next_def order_at_def option.map_comp comp_def)

lemma order_at_set_prev [simp]: "order_at (set_prev h j m) i = order_at h i"
  by (auto simp: set_prev_def order_at_def option.map_comp comp_def)

lemma order_at_upd: "order_at (h(i := v)) j = (if j = i then map_option nd_order v else order_at h j)"
  by (simp add: order_at_def)

lemma order_at_dom: "order_at h i = Some x \<Longrightarrow> i \<in> dom h"
  by (auto simp: order_at_def)

text \<open>A segment depends only on the links of its own nodes.\<close>

lemma dll_frame:
  "dll h p xs n \<Longrightarrow>
   \<forall>i \<in> set xs. map_option (\<lambda>nd. (nd_prev nd, nd_next nd)) (h' i) =
                map_option (\<lambda>nd. (nd_prev nd, nd_next nd)) (h i) \<Longrightarrow>
   dll h' p xs n"
proof (induction xs arbitrary: p)
  case Nil
  show ?case by simp
next
  case (Cons i xs)
  then show ?case by (auto split: option.splits)
qed

lemma dll_upd_other: "dll h p xs n \<Longrightarrow> i \<notin> set xs \<Longrightarrow> dll (h(i := v)) p xs n"
  by (erule dll_frame) auto

lemma dll_set_next_other: "dll h p xs n \<Longrightarrow> j \<notin> set xs \<Longrightarrow> dll (set_next h j m) p xs n"
  by (auto simp: set_next_def intro: dll_upd_other)

lemma dll_set_prev_other: "dll h p xs n \<Longrightarrow> j \<notin> set xs \<Longrightarrow> dll (set_prev h j m) p xs n"
  by (auto simp: set_prev_def intro: dll_upd_other)

lemma dll_dom: "dll h p xs n \<Longrightarrow> set xs \<subseteq> dom h"
  by (induction h p xs n rule: dll.induct) auto

lemma dll_append: "dll h p (xs @ ys) n \<longleftrightarrow> dll h p xs (hd (ys @ [n])) \<and> dll h (last (p # xs)) ys n"
proof (induction xs arbitrary: p)
  case Nil
  show ?case by simp
next
  case (Cons x xs)
  have "hd ((xs @ ys) @ [n]) = hd (xs @ [hd (ys @ [n])])" by (cases xs) auto
  then show ?case by (simp only: append_Cons dll.simps Cons [of x]) auto
qed

lemma hd_slots: "hd (map f ys @ [n]) = (if ys = [] then n else f (hd ys))"
  by (cases ys) auto

lemma last_slots: "last (n # map f xs) = (if xs = [] then n else f (last xs))"
  by (simp add: last_map)

text \<open>Redirecting the ends of a segment.\<close>

lemma dll_set_next_last:
  assumes "dll h p xs n" and "distinct xs" and "NIL \<notin> set xs"
  shows "dll (set_next h (last (NIL # xs)) m) p xs m"
proof (cases xs rule: rev_cases)
  case Nil
  then show ?thesis by simp
next
  case (snoc ys j)
  with assms show ?thesis
    by (auto simp: dll_append set_next_def intro: dll_upd_other)
qed

lemma dll_set_prev_hd:
  assumes "dll h p xs n" and "distinct xs" and "NIL \<notin> set xs"
  shows "dll (set_prev h (hd (xs @ [NIL])) m) m xs n"
proof (cases xs)
  case Nil
  then show ?thesis by simp
next
  case (Cons i ys)
  with assms show ?thesis by (auto simp: set_prev_def intro: dll_upd_other)
qed

text \<open>Appending a node, as \<open>add\<close> does.\<close>

lemma dll_push_back:
  assumes "dll h NIL xs NIL" and "distinct xs" and "NIL \<notin> set xs" and "h i = None"
    and "nd_prev nd = last (NIL # xs)" and "nd_next nd = NIL"
  shows "dll (set_next (h(i \<mapsto> nd)) (last (NIL # xs)) i) NIL (xs @ [i]) NIL"
proof -
  have fresh: "i \<notin> set xs" using dll_dom [OF assms(1)] assms(4) by auto
  then have "dll (h(i \<mapsto> nd)) NIL xs NIL" by (intro dll_upd_other assms(1))
  then have "dll (set_next (h(i \<mapsto> nd)) (last (NIL # xs)) i) NIL xs i"
    by (rule dll_set_next_last) (use assms in auto)
  moreover have "i \<noteq> last (NIL # xs) \<or> last (NIL # xs) = NIL"
    using fresh by (cases xs rule: rev_cases) auto
  ultimately show ?thesis using assms(5,6) by (auto simp: dll_append set_next_def)
qed

text \<open>Splicing a node out of the middle and clearing its slot, as \<open>unlink\<close> does.\<close>

lemma dll_links:
  assumes "dll h NIL (xs @ i # ys) NIL" and "h i = Some nd"
  shows "nd_prev nd = last (NIL # xs)" and "nd_next nd = hd (ys @ [NIL])"
  using assms by (auto simp: dll_append)

lemma dll_splice:
  assumes "dll h NIL (xs @ i # ys) NIL" and "distinct (xs @ i # ys)"
    and "NIL \<notin> set (xs @ i # ys)"
  defines "pr \<equiv> last (NIL # xs)" and "nx \<equiv> hd (ys @ [NIL])"
  shows "dll ((set_prev (set_next h pr nx) nx pr)(i := None)) NIL (xs @ ys) NIL"
proof -
  have xs: "dll h NIL xs i" and ys: "dll h i ys NIL"
    using assms(1) by (auto simp: dll_append)
  have pr: "pr \<in> insert NIL (set xs)" and nx: "nx \<in> insert NIL (set ys)"
    unfolding pr_def nx_def by (cases xs rule: rev_cases; cases ys; simp)+
  have "dll (set_next h pr nx) NIL xs nx"
    unfolding pr_def by (rule dll_set_next_last [OF xs]) (use assms in auto)
  then have "dll (set_prev (set_next h pr nx) nx pr) NIL xs nx"
    by (rule dll_set_prev_other) (use assms nx in auto)
  moreover have "dll (set_next h pr nx) i ys NIL"
    by (rule dll_set_next_other [OF ys]) (use assms pr in auto)
  then have "dll (set_prev (set_next h pr nx) nx pr) pr ys NIL"
    unfolding nx_def by (rule dll_set_prev_hd) (use assms in auto)
  ultimately have "dll (set_prev (set_next h pr nx) nx pr) NIL (xs @ ys) NIL"
    by (simp add: dll_append pr_def nx_def)
  then show ?thesis by (rule dll_upd_other) (use assms in auto)
qed

text \<open>A segment that ends at \<open>NIL\<close> is what a walk along \<open>next\<close> visits.\<close>

fun walk :: "nat \<Rightarrow> 'a heap \<Rightarrow> index \<Rightarrow> 'a list" where
  "walk 0 h i = []"
| "walk (Suc fuel) h i =
     (case h i of None \<Rightarrow> [] | Some nd \<Rightarrow> nd_order nd # walk fuel h (nd_next nd))"

lemma walk_dll:
  "dll h p xs NIL \<Longrightarrow> h NIL = None \<Longrightarrow> length xs \<le> fuel \<Longrightarrow>
   map Some (walk fuel h (hd (xs @ [NIL]))) = map (order_at h) xs"
proof (induction xs arbitrary: p fuel)
  case Nil
  then show ?case by (cases fuel) auto
next
  case (Cons i xs)
  then show ?case by (cases fuel) (auto simp: order_at_def)
qed

end
