(* ===== verification/Book_Inv.thy ===== *)
theory Book_Inv
  imports Book_Spec Dll
begin

text \<open>
  The representation invariant of the order book, over the heap of the arena, the lookup of
  the ladders and the id map: \<open>rep h lv om os\<close> says that they represent the abstract book
  \<open>os\<close>.  Each price level's linked list holds exactly its queue, oldest first; the level's
  aggregate and count are those of the queue; the id map is exactly the resting orders; and
  every occupied slot belongs to a resting order.  The three lemmas at the end are the three
  ways the code changes it: append, change a quantity, unlink.
\<close>

definition slot_of :: "(order_id \<rightharpoonup> index) \<Rightarrow> order \<Rightarrow> index" where
  "slot_of om x = the (om (ord_id x))"

fun level_ok :: "level option \<Rightarrow> (order \<Rightarrow> index) \<Rightarrow> order list \<Rightarrow> bool" where
  "level_ok None f q \<longleftrightarrow> q = []"
| "level_ok (Some l) f q \<longleftrightarrow>
     q \<noteq> [] \<and> lv_head l = f (hd q) \<and> lv_tail l = f (last q) \<and>
     unat (lv_total_qty l) = total_qty q \<and> lv_order_count l = of_nat (length q)"

definition rep ::
  "order heap \<Rightarrow> (side \<Rightarrow> price \<Rightarrow> level option) \<Rightarrow> (order_id \<rightharpoonup> index) \<Rightarrow> abook \<Rightarrow> bool" where
  "rep h lv om os \<longleftrightarrow>
     distinct (map ord_id os) \<and> dom om = ord_id ` set os \<and>
     h NIL = None \<and> dom h = slot_of om ` set os \<and>
     (\<forall>x \<in> set os. order_at h (slot_of om x) = Some x) \<and>
     (\<forall>s p. dll h NIL (map (slot_of om) (queue_at os s p)) NIL) \<and>
     (\<forall>s p. level_ok (lv s p) (slot_of om) (queue_at os s p))"

section \<open>Consequences\<close>

lemma rep_distinct: "rep h lv om os \<Longrightarrow> distinct (map ord_id os)"
  unfolding rep_def by (elim conjE)

lemma rep_dom: "rep h lv om os \<Longrightarrow> dom om = ord_id ` set os"
  unfolding rep_def by (elim conjE)

lemma rep_NIL: "rep h lv om os \<Longrightarrow> h NIL = None"
  unfolding rep_def by (elim conjE)

lemma rep_heap: "rep h lv om os \<Longrightarrow> dom h = slot_of om ` set os"
  unfolding rep_def by (elim conjE)

lemma rep_order: "rep h lv om os \<Longrightarrow> x \<in> set os \<Longrightarrow> order_at h (slot_of om x) = Some x"
  unfolding rep_def by (elim conjE) (rule bspec)

lemma rep_dll: "rep h lv om os \<Longrightarrow> dll h NIL (map (slot_of om) (queue_at os s p)) NIL"
  unfolding rep_def by (elim conjE) (erule allE)+

lemma rep_level: "rep h lv om os \<Longrightarrow> level_ok (lv s p) (slot_of om) (queue_at os s p)"
  unfolding rep_def by (elim conjE) (erule allE)+

lemma rep_inj: "rep h lv om os \<Longrightarrow> inj_on (slot_of om) (set os)"
  by (rule inj_onI) (metis option.inject rep_order)

lemma rep_lookup:
  assumes r: "rep h lv om os"
  shows "om k = (case lookup_id os k of None \<Rightarrow> None | Some x \<Rightarrow> Some (slot_of om x))"
proof (cases "lookup_id os k")
  case None
  then have "k \<notin> dom om" by (simp add: lookup_id_None rep_dom [OF r])
  with None show ?thesis by auto
next
  case (Some x)
  then have x: "x \<in> set os" "ord_id x = k" by (auto dest: lookup_id_SomeD)
  then have "k \<in> dom om" by (auto simp: rep_dom [OF r])
  with Some x show ?thesis by (auto simp: slot_of_def)
qed

lemma rep_slot_NIL: "rep h lv om os \<Longrightarrow> x \<in> set os \<Longrightarrow> slot_of om x \<noteq> NIL"
  using rep_order [of h lv om os x] rep_NIL [of h lv om os] by (auto simp: order_at_def)

lemma rep_node:
  "rep h lv om os \<Longrightarrow> x \<in> set os \<Longrightarrow> \<exists>nd. h (slot_of om x) = Some nd \<and> nd_order nd = x"
  using rep_order [of h lv om os x] by (auto simp: order_at_def)

lemma rep_card: "rep h lv om os \<Longrightarrow> card (dom h) = length os"
  using rep_distinct [of h lv om os]
  by (simp add: rep_heap card_image rep_inj distinct_card distinct_map)

lemma rep_slots_queue:
  assumes r: "rep h lv om os"
  shows "distinct (map (slot_of om) (queue_at os s p))"
    and "NIL \<notin> slot_of om ` set (queue_at os s p)"
proof -
  have "distinct (queue_at os s p)"
    using distinct_ids_queue [OF rep_distinct [OF r]] by (simp add: distinct_map)
  moreover have "inj_on (slot_of om) (set (queue_at os s p))"
    by (rule inj_on_subset [OF rep_inj [OF r] queue_subset])
  ultimately show "distinct (map (slot_of om) (queue_at os s p))" by (simp add: distinct_map)
  show "NIL \<notin> slot_of om ` set (queue_at os s p)"
    using rep_slot_NIL [OF r] queue_subset by fastforce
qed

lemma rep_queue_disjoint:
  assumes r: "rep h lv om os" and x: "x \<in> set os" and "(s, p) \<noteq> (ord_side x, ord_price x)"
  shows "slot_of om x \<notin> set (map (slot_of om) (queue_at os s p))"
proof
  assume "slot_of om x \<in> set (map (slot_of om) (queue_at os s p))"
  then obtain y where "y \<in> set (queue_at os s p)" and eq: "slot_of om x = slot_of om y" by auto
  then have y: "y \<in> set os" "ord_side y = s" "ord_price y = p" by (auto simp: queue_at_def)
  with inj_onD [OF rep_inj [OF r] eq x] assms(3) show False by simp
qed

lemma queue_own: "x \<in> set os \<Longrightarrow> x \<in> set (queue_at os (ord_side x) (ord_price x))"
  by (simp add: queue_at_def)

text \<open>A level exists exactly where orders rest.\<close>

lemma rep_level_at:
  assumes r: "rep h lv om os" and x: "x \<in> set os"
  obtains l where "lv (ord_side x) (ord_price x) = Some l"
  using rep_level [OF r, of "ord_side x" "ord_price x"] queue_own [OF x] that
  by (cases "lv (ord_side x) (ord_price x)") auto

text \<open>The queue of an order's own price, split at the order.\<close>

lemma rep_queue_split:
  assumes r: "rep h lv om os" and x: "x \<in> set os"
  obtains as bs where "queue_at os (ord_side x) (ord_price x) = as @ x # bs"
    and "ord_id x \<notin> ord_id ` set as" and "ord_id x \<notin> ord_id ` set bs"
  using split_at_order [OF queue_own [OF x] distinct_ids_queue [OF rep_distinct [OF r]]] that
  by blast

section \<open>Appending an order\<close>

text \<open>The slot the next order at a price is linked behind.\<close>

lemma rep_tail:
  assumes "rep h lv om os"
  shows "(case lv s p of None \<Rightarrow> NIL | Some l \<Rightarrow> lv_tail l) =
         last (NIL # map (slot_of om) (queue_at os s p))"
  using rep_level [OF assms, of s p] by (cases "lv s p") (auto simp: last_map)

definition level_push :: "level option \<Rightarrow> index \<Rightarrow> quantity \<Rightarrow> level" where
  "level_push lo i q =
     (let l = (case lo of None \<Rightarrow> level_empty | Some l \<Rightarrow> l);
          l = (if lv_head l = NIL then l\<lparr>lv_head := i\<rparr> else l)
      in l\<lparr>lv_tail := i, lv_total_qty := lv_total_qty l + q,
           lv_order_count := lv_order_count l + 1\<rparr>)"

lemma level_ok_cong: "\<forall>x \<in> set q. f x = g x \<Longrightarrow> level_ok lo f q = level_ok lo g q"
  using hd_in_set [of q] last_in_set [of q] by (cases lo; cases "q = []") auto

lemma level_ok_push:
  assumes "level_ok lo f q" and "\<forall>y \<in> set q. f y \<noteq> NIL" and "f x = i"
    and "total_qty q + unat (ord_qty x) < 2 ^ 64"
  shows "level_ok (Some (level_push lo i (ord_qty x))) f (q @ [x])"
proof (cases lo)
  case None
  with assms show ?thesis by (simp add: level_push_def level_empty_def)
next
  case (Some l)
  have hd: "lv_head l \<noteq> NIL" using assms Some by (cases q) auto
  have "unat (lv_total_qty l + ord_qty x) = unat (lv_total_qty l) + unat (ord_qty x)"
    by (rule unat_add_no_overflow) (use assms Some in simp)
  with assms Some hd show ?thesis by (auto simp: level_push_def hd_append)
qed

lemma rep_add:
  assumes r: "rep h lv om os" and new: "lookup_id os (ord_id x) = None"
    and i: "h i = None" "i \<noteq> NIL"
    and fits: "total_qty (queue_at os (ord_side x) (ord_price x)) + unat (ord_qty x) < 2 ^ 64"
    and h': "h' = set_next (h(i \<mapsto> \<lparr>nd_order = x, nd_prev = pr, nd_next = NIL\<rparr>)) pr i"
    and pr: "pr = (case lv (ord_side x) (ord_price x) of None \<Rightarrow> NIL | Some l \<Rightarrow> lv_tail l)"
    and lv': "\<And>s p. lv' s p = (if (s, p) = (ord_side x, ord_price x)
        then Some (level_push (lv s p) i (ord_qty x)) else lv s p)"
  shows "rep h' lv' (om(ord_id x \<mapsto> i)) (os @ [x])"
proof -
  let ?om = "om(ord_id x \<mapsto> i)"
  have fresh: "ord_id x \<notin> ord_id ` set os" using new by (simp add: lookup_id_None)
  have old: "slot_of ?om y = slot_of om y" if "y \<in> set os" for y
    using that fresh by (metis fun_upd_other image_eqI slot_of_def)
  have slots: "map (slot_of ?om) (queue_at os s p) = map (slot_of om) (queue_at os s p)" for s p
    using old queue_subset by (auto simp: subset_iff)
  have xi: "slot_of ?om x = i" by (simp add: slot_of_def)
  have i_out: "i \<notin> set (map (slot_of om) (queue_at os s p))" for s p
    using dll_dom [OF rep_dll [OF r]] i(1) by auto
  have qx: "queue_at [x] s p = (if (s, p) = (ord_side x, ord_price x) then [x] else [])" for s p
    by (auto simp: queue_at_def)
  have pr': "pr = last (NIL # map (slot_of om) (queue_at os (ord_side x) (ord_price x)))"
    using rep_tail [OF r] pr by simp
  have "dll h' NIL (map (slot_of ?om) (queue_at (os @ [x]) s p)) NIL" for s p
  proof (cases "(s, p) = (ord_side x, ord_price x)")
    case True
    then show ?thesis unfolding h' pr'
      using dll_push_back [OF rep_dll [OF r] rep_slots_queue(1) [OF r] _ i(1),
          of "ord_side x" "ord_price x"] rep_slots_queue(2) [OF r]
      by (simp add: slots qx xi del: map_map)
  next
    case False
    let ?q = "queue_at os (ord_side x) (ord_price x)"
    have "pr \<notin> set (map (slot_of om) (queue_at os s p))"
    proof (cases "?q = []")
      case True
      then show ?thesis using rep_slots_queue(2) [OF r] by (simp add: pr')
    next
      case nonempty: False
      then have "last ?q \<in> set ?q" by simp
      then have "last ?q \<in> set os" "ord_side (last ?q) = ord_side x" "ord_price (last ?q) = ord_price x"
        by (auto simp: queue_at_def)
      with nonempty rep_queue_disjoint [OF r, of "last ?q" s p] False show ?thesis
        by (simp add: pr' last_map)
    qed
    then show ?thesis using False
      by (auto simp: h' slots qx intro!: dll_set_next_other dll_upd_other rep_dll [OF r] simp: i_out [simplified])
  qed
  moreover have "level_ok (lv' s p) (slot_of ?om) (queue_at (os @ [x]) s p)" for s p
  proof -
    have lo: "level_ok (lv s p) (slot_of ?om) (queue_at os s p)"
      using rep_level [OF r, of s p] slots [of s p]
      by (subst level_ok_cong [where g = "slot_of om"]) (auto simp: map_eq_conv)
    have ne: "\<forall>y \<in> set (queue_at os s p). slot_of ?om y \<noteq> NIL"
      using old rep_slot_NIL [OF r] queue_subset by fastforce
    show ?thesis
    proof (cases "(s, p) = (ord_side x, ord_price x)")
      case True
      then show ?thesis using level_ok_push [OF lo ne xi] fits
        by (simp add: lv' qx del: level_ok.simps fun_upd_apply)
    next
      case False
      with lo show ?thesis by (auto simp: lv' qx)
    qed
  qed
  moreover have "order_at h' (slot_of ?om y) = Some y" if "y \<in> set (os @ [x])" for y
  proof (cases "y = x")
    case True
    then show ?thesis by (simp add: h' order_at_upd xi)
  next
    case False
    with that have y: "y \<in> set os" by auto
    then have "slot_of om y \<noteq> i" using rep_order [OF r y] i(1) by (auto simp: order_at_def)
    with y rep_order [OF r y] show ?thesis by (simp add: h' order_at_upd old)
  qed
  moreover have "dom h' = slot_of ?om ` set (os @ [x])"
  proof -
    have "slot_of ?om ` set os = slot_of om ` set os" by (rule image_cong) (simp_all add: old)
    then show ?thesis by (simp add: h' xi rep_heap [OF r])
  qed
  moreover have "h' NIL = None"
    using rep_NIL [OF r] i(2) by (simp add: h' set_next_def)
  ultimately show ?thesis
    using rep_distinct [OF r] rep_dom [OF r] fresh unfolding rep_def by auto
qed

section \<open>Changing the quantity of an order\<close>

lemma slot_of_qty [simp]: "slot_of om (x\<lparr>ord_qty := v\<rparr>) = slot_of om x"
  by (simp add: slot_of_def)

lemma slots_set_qty [simp]: "map (slot_of om) (set_qty k v q) = map (slot_of om) q"
  by (simp add: set_qty_def slot_of_def)

lemma set_set_qty:
  assumes "distinct (map ord_id os)" and "x \<in> set os"
  shows "set (set_qty (ord_id x) v os) = insert (x\<lparr>ord_qty := v\<rparr>) (set os - {x})"
proof -
  obtain as bs where split: "os = as @ x # bs"
    "ord_id x \<notin> ord_id ` set as" "ord_id x \<notin> ord_id ` set bs"
    using split_at_order [OF assms(2,1)] by blast
  then have "x \<notin> set as" "x \<notin> set bs" by auto
  then show ?thesis unfolding split(1) set_qty_split [OF split(2,3)] by auto
qed

lemma set_remove_id:
  assumes "distinct (map ord_id os)" and "x \<in> set os"
  shows "set (remove_id (ord_id x) os) = set os - {x}"
  using ord_id_inject [OF assms(1) _ assms(2)] by (auto simp: remove_id_def)

lemma other_queue_id:
  assumes r: "rep h lv om os" and x: "x \<in> set os" and "(s, p) \<noteq> (ord_side x, ord_price x)"
  shows "ord_id x \<notin> ord_id ` set (queue_at os s p)"
proof
  assume "ord_id x \<in> ord_id ` set (queue_at os s p)"
  then obtain y where y: "y \<in> set os" "ord_side y = s" "ord_price y = p" "ord_id y = ord_id x"
    by (auto simp: queue_at_def)
  then have "y = x" using ord_id_inject [OF rep_distinct [OF r] y(1) x] by simp
  with y assms(3) show False by simp
qed

lemma rep_set_qty:
  assumes r: "rep h lv om os" and x: "x \<in> set os"
    and nd: "h (slot_of om x) = Some nd"
    and h': "h' = h(slot_of om x \<mapsto> nd\<lparr>nd_order := x\<lparr>ord_qty := v\<rparr>\<rparr>)"
    and l: "lv (ord_side x) (ord_price x) = Some l"
    and t: "unat t + unat (ord_qty x) = unat (lv_total_qty l) + unat v"
    and lv': "\<And>s p. lv' s p = (if (s, p) = (ord_side x, ord_price x)
        then Some (l\<lparr>lv_total_qty := t\<rparr>) else lv s p)"
  shows "rep h' lv' om (set_qty (ord_id x) v os)"
proof -
  let ?os = "set_qty (ord_id x) v os" and ?x = "x\<lparr>ord_qty := v\<rparr>"
  have elems: "set ?os = insert ?x (set os - {x})"
    by (rule set_set_qty [OF rep_distinct [OF r] x])
  have "dll h' NIL (map (slot_of om) (queue_at ?os s p)) NIL" for s p
    unfolding queue_set_qty slots_set_qty
    by (rule dll_frame [OF rep_dll [OF r]]) (auto simp: h' nd)
  moreover have "level_ok (lv' s p) (slot_of om) (queue_at ?os s p)" for s p
  proof (cases "(s, p) = (ord_side x, ord_price x)")
    case True
    obtain as bs where q: "queue_at os (ord_side x) (ord_price x) = as @ x # bs"
      and out: "ord_id x \<notin> ord_id ` set as" "ord_id x \<notin> ord_id ` set bs"
      by (rule rep_queue_split [OF r x])
    have "level_ok (Some l) (slot_of om) (as @ x # bs)"
      using rep_level [OF r, of "ord_side x" "ord_price x"] by (simp only: l q)
    then have "level_ok (Some (l\<lparr>lv_total_qty := t\<rparr>)) (slot_of om) (as @ ?x # bs)"
      using t by (cases as; cases bs rule: rev_cases) auto
    with True show ?thesis
      by (simp add: lv' queue_set_qty q set_qty_split [OF out] del: level_ok.simps)
  next
    case False
    then show ?thesis
      using rep_level [OF r, of s p] other_queue_id [OF r x False]
      by (auto simp: lv' queue_set_qty set_qty_other)
  qed
  moreover have "order_at h' (slot_of om y) = Some y" if "y \<in> set ?os" for y
  proof (cases "y = ?x")
    case True
    then show ?thesis by (simp add: h' order_at_upd)
  next
    case False
    with that elems have y: "y \<in> set os" "y \<noteq> x" by auto
    then have "slot_of om y \<noteq> slot_of om x" using inj_onD [OF rep_inj [OF r]] x by blast
    with rep_order [OF r y(1)] show ?thesis by (simp add: h' order_at_upd)
  qed
  moreover have "dom h' = slot_of om ` set ?os"
    unfolding elems using rep_heap [OF r] x nd by (auto simp: h' insert_absorb image_iff)
  moreover have "h' NIL = None"
    using rep_NIL [OF r] rep_slot_NIL [OF r x] by (simp add: h')
  moreover have "dom om = ord_id ` set ?os"
    using rep_dom [OF r] by (metis ids_set_qty list.set_map)
  ultimately show ?thesis
    using rep_distinct [OF r] unfolding rep_def by (simp only: ids_set_qty) blast
qed

section \<open>Unlinking an order\<close>

definition level_drop :: "level \<Rightarrow> index \<Rightarrow> order node \<Rightarrow> level option" where
  "level_drop l i nd =
     (let l = (if lv_head l = i then l\<lparr>lv_head := nd_next nd\<rparr> else l);
          l = (if lv_tail l = i then l\<lparr>lv_tail := nd_prev nd\<rparr> else l);
          l = l\<lparr>lv_total_qty := saturating_sub (lv_total_qty l) (ord_qty (nd_order nd)),
                lv_order_count := lv_order_count l - 1\<rparr>
      in if level_is_empty l then None else Some l)"

lemma level_ok_drop:
  assumes ok: "level_ok (Some l) f (as @ x # bs)"
    and dist: "distinct (map f (as @ x # bs))" and nil: "NIL \<notin> f ` set (as @ x # bs)"
    and i: "f x = i" and nd: "nd_order nd = x"
    and links: "nd_prev nd = last (NIL # map f as)" "nd_next nd = hd (map f bs @ [NIL])"
  shows "level_ok (level_drop l i nd) f (as @ bs)"
proof -
  have hd: "lv_head l = i \<longleftrightarrow> as = []" using ok dist i by (cases as) auto
  have tl: "lv_tail l = i \<longleftrightarrow> bs = []" using ok dist i by (cases bs rule: rev_cases) auto
  have ne: "as \<noteq> [] \<Longrightarrow> f (hd as) \<noteq> NIL" "bs \<noteq> [] \<Longrightarrow> f (hd bs) \<noteq> NIL"
    using nil by (metis Un_iff hd_in_set image_eqI list.set_intros(2) set_append)+
  have q: "unat (saturating_sub (lv_total_qty l) (ord_qty x)) = total_qty (as @ bs)"
    using ok by (simp add: unat_saturating_sub)
  have c: "lv_order_count l - 1 = of_nat (length (as @ bs))" using ok by simp
  show ?thesis
    using ok hd tl ne q c
    by (cases "as = []"; cases "bs = []")
      (auto simp: level_drop_def level_is_empty_def links hd_slots last_map nd Let_def)
qed

lemma rep_unlink:
  assumes r: "rep h lv om os" and x: "x \<in> set os"
    and nd: "h (slot_of om x) = Some nd"
    and h': "h' = (set_prev (set_next h (nd_prev nd) (nd_next nd)) (nd_next nd) (nd_prev nd))
               (slot_of om x := None)"
    and l: "lv (ord_side x) (ord_price x) = Some l"
    and lv': "\<And>s p. lv' s p = (if (s, p) = (ord_side x, ord_price x)
        then level_drop l (slot_of om x) nd else lv s p)"
  shows "rep h' lv' (om(ord_id x := None)) (remove_id (ord_id x) os)"
proof -
  let ?om = "om(ord_id x := None)" and ?os = "remove_id (ord_id x) os"
  let ?i = "slot_of om x"
  have elems: "set ?os = set os - {x}" by (rule set_remove_id [OF rep_distinct [OF r] x])
  have old: "slot_of ?om y = slot_of om y" if "ord_id y \<noteq> ord_id x" for y
    using that by (simp add: slot_of_def)
  have slots: "map (slot_of ?om) (remove_id (ord_id x) q) = map (slot_of om) (remove_id (ord_id x) q)"
    for q by (simp add: old remove_id_def)
  obtain as bs where q: "queue_at os (ord_side x) (ord_price x) = as @ x # bs"
    and out: "ord_id x \<notin> ord_id ` set as" "ord_id x \<notin> ord_id ` set bs"
    by (rule rep_queue_split [OF r x])
  have ordx: "nd_order nd = x" using rep_order [OF r x] nd by (simp add: order_at_def)
  have dl: "dll h NIL (map (slot_of om) as @ ?i # map (slot_of om) bs) NIL"
    using rep_dll [OF r, of "ord_side x" "ord_price x"] by (simp add: q)
  have dist: "distinct (map (slot_of om) (as @ x # bs))" and nil: "NIL \<notin> slot_of om ` set (as @ x # bs)"
    using rep_slots_queue [OF r, of "ord_side x" "ord_price x"] by (simp_all only: q not_False_eq_True)
  note links = dll_links [OF dl nd]
  have other: "j \<notin> set (map (slot_of om) (queue_at os s p))"
    if "j = NIL \<or> j \<in> slot_of om ` set (as @ x # bs)" and "(s, p) \<noteq> (ord_side x, ord_price x)" for j s p
  proof (cases "j = NIL")
    case True
    then show ?thesis using rep_slots_queue(2) [OF r] by simp
  next
    case False
    with that q obtain y where "y \<in> set (queue_at os (ord_side x) (ord_price x))" "j = slot_of om y"
      by auto
    then show ?thesis using rep_queue_disjoint [OF r, of y s p] that(2) by (auto simp: queue_at_def)
  qed
  have ends: "nd_prev nd = NIL \<or> nd_prev nd \<in> slot_of om ` set (as @ x # bs)"
    "nd_next nd = NIL \<or> nd_next nd \<in> slot_of om ` set (as @ x # bs)"
    unfolding links by (auto simp: hd_slots last_slots simp del: last.simps)
  have dlls: "dll h' NIL (map (slot_of ?om) (queue_at ?os s p)) NIL" for s p
  proof (cases "(s, p) = (ord_side x, ord_price x)")
    case True
    then have "map (slot_of ?om) (queue_at ?os s p) = map (slot_of om) as @ map (slot_of om) bs"
      using q slots [of "as @ x # bs"] by (simp add: queue_remove_id remove_id_split [OF out])
    moreover have "dll h' NIL (map (slot_of om) as @ map (slot_of om) bs) NIL"
      unfolding h' links by (rule dll_splice [OF dl]) (use dist nil in auto)
    ultimately show ?thesis by simp
  next
    case False
    have "dll h' NIL (map (slot_of om) (queue_at os s p)) NIL" unfolding h'
      by (intro dll_upd_other dll_set_prev_other dll_set_next_other rep_dll [OF r] other)
        (use ends False in auto)
    moreover have "queue_at ?os s p = queue_at os s p"
      by (simp add: queue_remove_id remove_id_other other_queue_id [OF r x False])
    moreover have "map (slot_of ?om) (queue_at ?os s p) = map (slot_of om) (queue_at ?os s p)"
      by (simp only: queue_remove_id slots)
    ultimately show ?thesis by (simp only:)
  qed
  have levels: "level_ok (lv' s p) (slot_of ?om) (queue_at ?os s p)" for s p
  proof -
    have "level_ok (lv' s p) (slot_of om) (queue_at ?os s p)"
    proof (cases "(s, p) = (ord_side x, ord_price x)")
      case True
      have "level_ok (Some l) (slot_of om) (as @ x # bs)"
        using rep_level [OF r, of "ord_side x" "ord_price x"] by (simp only: l q)
      then have "level_ok (level_drop l ?i nd) (slot_of om) (as @ bs)"
        by (rule level_ok_drop [OF _ dist nil refl ordx links])
      with True show ?thesis by (simp add: lv' queue_remove_id q remove_id_split [OF out])
    next
      case False
      then show ?thesis using rep_level [OF r, of s p] other_queue_id [OF r x False]
        by (auto simp: lv' queue_remove_id remove_id_other)
    qed
    moreover have "\<forall>y \<in> set (queue_at ?os s p). slot_of ?om y = slot_of om y"
      by (auto simp: queue_at_def remove_id_def old)
    ultimately show ?thesis by (simp only: level_ok_cong)
  qed
  have orders: "order_at h' (slot_of ?om y) = Some y" if "y \<in> set ?os" for y
  proof -
    have y: "y \<in> set os" "ord_id y \<noteq> ord_id x" using that by (auto simp: remove_id_def)
    then have "slot_of om y \<noteq> ?i" using inj_onD [OF rep_inj [OF r]] x by blast
    with rep_order [OF r y(1)] y(2) show ?thesis by (simp add: h' order_at_upd old)
  qed
  have heap: "dom h' = slot_of ?om ` set ?os"
  proof -
    have "slot_of ?om ` set ?os = slot_of om ` set ?os"
      by (rule image_cong) (auto simp: remove_id_def old)
    also have "\<dots> = slot_of om ` set os - {?i}"
      unfolding elems using inj_on_image_set_diff [OF rep_inj [OF r], of "set os" "{x}"] x by simp
    finally show ?thesis by (simp add: h' rep_heap [OF r])
  qed
  have nil': "h' NIL = None"
    using rep_NIL [OF r] by (auto simp: h' set_next_def set_prev_def)
  have dom': "dom ?om = ord_id ` set ?os"
    using rep_dom [OF r] by (auto simp: remove_id_def)
  have ids: "distinct (map ord_id ?os)"
    using rep_distinct [OF r] by (simp add: remove_id_def distinct_map_filter)
  show ?thesis
    unfolding rep_def using ids dom' nil' heap orders dlls levels
    by (intro conjI allI ballI) assumption+
qed

end
