(* ===== verification/Book_Correct.thy ===== *)
theory Book_Correct
  imports Book_Inv
begin

text \<open>
  The order book refines its specification.  \<open>book_inv b os\<close> relates a book to the abstract
  book \<open>os\<close>; every event handler, started in related states, does not panic and leads to
  related states with the reply the specification gives.  The lemmas rest on the facts of
  the interpretations \<open>slab\<close> (the arena), \<open>hm\<close> and \<open>bt\<close> (the maps).
\<close>

definition book_inv :: "book \<Rightarrow> abook \<Rightarrow> bool" where
  "book_inv b os \<longleftrightarrow>
     pool_ok (bk_pool b) \<and> (\<forall>s. bt_valid (side_levels b s)) \<and> hm_valid (bk_orders b) \<and>
     rep (pool_heap (bk_pool b)) (\<lambda>s. bt_get (side_levels b s)) (hm_get (bk_orders b)) os"

section \<open>Projections of an updated book\<close>

lemma side_levels_set [simp]:
  "side_levels (set_side_levels b s m) s' = (if s' = s then m else side_levels b s')"
  by (cases s; cases s') simp_all

lemma side_levels_more [simp]:
  "side_levels (b\<lparr>bk_orders := om\<rparr>) s = side_levels b s"
  "side_levels (b\<lparr>bk_pool := pl\<rparr>) s = side_levels b s"
  by (cases s; simp)+

lemma set_side_levels_more [simp]:
  "bk_orders (set_side_levels b s m) = bk_orders b"
  "bk_pool (set_side_levels b s m) = bk_pool b"
  by (cases s; simp)+

lemma hm_get_insert_fun: "hm_valid m \<Longrightarrow> hm_get (hm_insert k v m) = (hm_get m)(k \<mapsto> v)"
  by (simp add: fun_eq_iff hm.get_insert)

lemma hm_get_remove_fun: "hm_valid m \<Longrightarrow> hm_get (hm_remove k m) = (hm_get m)(k := None)"
  by (simp add: fun_eq_iff hm.get_remove)

section \<open>Links\<close>

lemma pool_link_next:
  assumes "pool_ok pl" and "j = NIL \<or> j \<in> dom (pool_heap pl)"
  shows "\<exists>pl'. (if j \<noteq> NIL then pool_modify pl j (\<lambda>n. n\<lparr>nd_next := m\<rparr>) else Some pl) = Some pl' \<and>
    pool_ok pl' \<and> pool_heap pl' = set_next (pool_heap pl) j m"
proof (cases "j = NIL")
  case True
  with assms show ?thesis by (simp add: set_next_def)
next
  case False
  with assms(2) obtain n where n: "pool_heap pl j = Some n" by auto
  with slab.modify_ok [OF assms(1) n, of "\<lambda>n. n\<lparr>nd_next := m\<rparr>"] False show ?thesis
    by (auto simp: set_next_def)
qed

lemma pool_link_prev:
  assumes "pool_ok pl" and "j = NIL \<or> j \<in> dom (pool_heap pl)"
  shows "\<exists>pl'. (if j \<noteq> NIL then pool_modify pl j (\<lambda>n. n\<lparr>nd_prev := m\<rparr>) else Some pl) = Some pl' \<and>
    pool_ok pl' \<and> pool_heap pl' = set_prev (pool_heap pl) j m"
proof (cases "j = NIL")
  case True
  with assms show ?thesis by (simp add: set_prev_def)
next
  case False
  with assms(2) obtain n where n: "pool_heap pl j = Some n" by auto
  with slab.modify_ok [OF assms(1) n, of "\<lambda>n. n\<lparr>nd_prev := m\<rparr>"] False show ?thesis
    by (auto simp: set_prev_def)
qed

section \<open>The handlers\<close>

lemma book_inv_new: "book_inv book_new []"
proof -
  have "bt_valid (side_levels book_new s)" for s
    by (cases s) (simp_all add: book_new_def bt.valid_empty)
  moreover have "bt_get (side_levels book_new s) p = None" for s p
    by (cases s) (simp_all add: book_new_def bt.get_empty)
  moreover have "hm_get (bk_orders book_new) = Map.empty"
    by (simp add: book_new_def fun_eq_iff hm.get_empty)
  ultimately show ?thesis
    by (simp add: book_inv_def rep_def book_new_def slab.valid_new slab.heap_new hm.valid_empty
        queue_at_def)
qed

lemma book_inv_get:
  assumes "book_inv b os"
  shows "hm_get (bk_orders b) k =
    (case lookup_id os k of None \<Rightarrow> None | Some x \<Rightarrow> Some (slot_of (hm_get (bk_orders b)) x))"
  using assms rep_lookup unfolding book_inv_def by blast

lemma book_inv_node:
  assumes "book_inv b os" and "x \<in> set os"
  obtains nd where "pool_get (bk_pool b) (slot_of (hm_get (bk_orders b)) x) = Some nd"
    and "nd_order nd = x"
  using assms rep_node unfolding book_inv_def slab.get_ok by blast

lemma book_add_duplicate:
  assumes "book_inv b os" and "lookup_id os (ord_id x) = Some y"
  shows "book_add b x = Some (b, Inl (DuplicateOrder (ord_id x)))"
  using book_inv_get [OF assms(1), of "ord_id x"] assms(2)
  by (simp add: book_add_def hm_contains_key_def)

lemma book_add_ok:
  assumes inv: "book_inv b os" and new: "lookup_id os (ord_id x) = None"
    and room: "length os < unat NIL"
    and fits: "total_qty (queue_at os (ord_side x) (ord_price x)) + unat (ord_qty x) < 2 ^ 64"
  shows "\<exists>b'. book_add b x = Some (b', Inr ()) \<and> book_inv b' (os @ [x])"
proof -
  let ?s = "ord_side x" and ?p = "ord_price x"
  let ?lv = "\<lambda>s. bt_get (side_levels b s)" and ?om = "hm_get (bk_orders b)"
  from inv have ok: "pool_ok (bk_pool b)" and bt: "\<And>s. bt_valid (side_levels b s)"
    and hm: "hm_valid (bk_orders b)" and r: "rep (pool_heap (bk_pool b)) ?lv ?om os"
    by (simp_all add: book_inv_def)
  let ?pr = "case ?lv ?s ?p of None \<Rightarrow> NIL | Some l \<Rightarrow> lv_tail l"
  let ?nd = "\<lparr>nd_order = x, nd_prev = ?pr, nd_next = NIL\<rparr>"
  have none: "hm_get (bk_orders b) (ord_id x) = None"
    using book_inv_get [OF inv, of "ord_id x"] new by simp
  obtain pl i where a: "pool_alloc (bk_pool b) ?nd = Some (pl, i)" "pool_ok pl"
      "pool_heap (bk_pool b) i = None" "i \<noteq> NIL" "pool_heap pl = (pool_heap (bk_pool b))(i \<mapsto> ?nd)"
    using slab.alloc_ok [OF ok, of ?nd] room rep_card [OF r] by auto
  have "?pr = NIL \<or> ?pr \<in> dom (pool_heap pl)"
  proof -
    have "set (map (slot_of ?om) (queue_at os ?s ?p)) \<subseteq> dom (pool_heap pl)"
      using dll_dom [OF rep_dll [OF r, of ?s ?p]] by (auto simp: a(5))
    then show ?thesis unfolding rep_tail [OF r] last_slots
      using last_in_set [of "queue_at os ?s ?p"] by (simp add: image_subset_iff)
  qed
  then obtain pl' where l: "(if ?pr \<noteq> NIL then pool_modify pl ?pr (\<lambda>n. n\<lparr>nd_next := i\<rparr>) else Some pl)
      = Some pl'" "pool_ok pl'" "pool_heap pl' = set_next (pool_heap pl) ?pr i"
    using pool_link_next [OF a(2), of ?pr i] by blast
  let ?b' = "(set_side_levels b ?s (bt_insert ?p (level_push (?lv ?s ?p) i (ord_qty x))
      (side_levels b ?s)))\<lparr>bk_orders := hm_insert (ord_id x) i (bk_orders b), bk_pool := pl'\<rparr>"
  have "book_add b x = Some (?b', Inr ())"
    unfolding book_add_def Let_def hm_contains_key_def none a(1)
    by (simp only: l(1) bind.bind_lunit prod.case not_True_eq_False if_False simp_thms
        level_push_def Let_def)
  moreover have "rep (pool_heap pl') (\<lambda>s. bt_get (side_levels ?b' s)) (?om(ord_id x \<mapsto> i)) (os @ [x])"
    by (rule rep_add [OF r new a(3,4) fits _ refl]) (auto simp: l(3) a(5) bt.get_insert bt)
  ultimately show ?thesis
    using l(2) bt hm by (auto simp: book_inv_def hm_get_insert_fun bt.valid_insert hm.valid_insert)
qed

lemma book_unlink_ok:
  assumes inv: "book_inv b os" and x: "x \<in> set os"
    and i: "i = slot_of (hm_get (bk_orders b)) x"
  shows "\<exists>b'. book_unlink b i = Some b' \<and> book_inv b' (remove_id (ord_id x) os)"
proof -
  let ?s = "ord_side x" and ?p = "ord_price x"
  let ?lv = "\<lambda>s. bt_get (side_levels b s)" and ?om = "hm_get (bk_orders b)"
  let ?h = "pool_heap (bk_pool b)"
  from inv have ok: "pool_ok (bk_pool b)" and bt: "\<And>s. bt_valid (side_levels b s)"
    and hm: "hm_valid (bk_orders b)" and r: "rep ?h ?lv ?om os"
    by (simp_all add: book_inv_def)
  obtain nd where nd: "?h i = Some nd" "nd_order nd = x" using rep_node [OF r x] i by blast
  obtain l where l: "?lv ?s ?p = Some l" by (rule rep_level_at [OF r x])
  obtain as bs where q: "queue_at os ?s ?p = as @ x # bs" by (rule rep_queue_split [OF r x])
  have dl: "dll ?h NIL (map (slot_of ?om) as @ i # map (slot_of ?om) bs) NIL"
    using rep_dll [OF r, of ?s ?p] by (simp add: q i)
  have "set (map (slot_of ?om) (as @ x # bs)) \<subseteq> dom ?h"
    using dll_dom [OF dl] i by simp
  then have ends: "nd_prev nd = NIL \<or> nd_prev nd \<in> dom ?h" "nd_next nd = NIL \<or> nd_next nd \<in> dom ?h"
    unfolding dll_links [OF dl nd(1)] hd_slots last_slots
    using last_in_set [of as] hd_in_set [of bs] by (simp_all add: image_subset_iff)
  obtain p1 where p1: "(if nd_prev nd \<noteq> NIL
        then pool_modify (bk_pool b) (nd_prev nd) (\<lambda>n. n\<lparr>nd_next := nd_next nd\<rparr>) else Some (bk_pool b)) = Some p1"
      "pool_ok p1" "pool_heap p1 = set_next ?h (nd_prev nd) (nd_next nd)"
    using pool_link_next [OF ok ends(1), of "nd_next nd"] by blast
  have "nd_next nd = NIL \<or> nd_next nd \<in> dom (pool_heap p1)" using ends(2) by (simp add: p1(3))
  then obtain p2 where p2: "(if nd_next nd \<noteq> NIL
        then pool_modify p1 (nd_next nd) (\<lambda>n. n\<lparr>nd_prev := nd_prev nd\<rparr>) else Some p1) = Some p2"
      "pool_ok p2" "pool_heap p2 = set_prev (pool_heap p1) (nd_next nd) (nd_prev nd)"
    using pool_link_prev [OF p1(2), of "nd_next nd" "nd_prev nd"] by blast
  have "i \<in> dom (pool_heap p2)" using nd by (auto simp: p2(3) p1(3))
  then obtain p3 where p3: "pool_free p2 i = Some p3" "pool_ok p3"
      "pool_heap p3 = (pool_heap p2)(i := None)"
    using slab.free_ok [OF p2(2)] by blast
  let ?ls = "case level_drop l i nd of None \<Rightarrow> bt_remove ?p (side_levels b ?s)
     | Some l' \<Rightarrow> bt_insert ?p l' (side_levels b ?s)"
  let ?b' = "(set_side_levels b ?s ?ls)
      \<lparr>bk_orders := hm_remove (ord_id x) (bk_orders b), bk_pool := p3\<rparr>"
  have "book_unlink b i = Some ?b'"
    unfolding book_unlink_def Let_def slab.get_ok nd bind.bind_lunit p1(1) p2(1) p3(1) l
      level_drop_def by simp
  moreover have "rep (pool_heap p3) (\<lambda>s. bt_get (side_levels ?b' s)) (?om(ord_id x := None))
      (remove_id (ord_id x) os)"
    by (rule rep_unlink [OF r x _ _ l, of nd])
      (auto simp: nd i [symmetric] p3(3) p2(3) p1(3) bt.get_insert bt.get_remove bt split: option.split)
  moreover have "bt_valid ?ls"
    by (auto simp: bt bt.valid_insert bt.valid_remove split: option.split)
  ultimately show ?thesis
    using p3(2) bt hm by (auto simp: book_inv_def hm_get_remove_fun hm.valid_remove)
qed

lemma book_take_qty_ok:
  assumes inv: "book_inv b os" and x: "x \<in> set os"
    and i: "i = slot_of (hm_get (bk_orders b)) x" and le: "\<not> ord_qty x < q"
  shows "\<exists>b'. book_take_qty b i q = Some b' \<and> book_inv b' (spec_take os x q)"
proof -
  let ?s = "ord_side x" and ?p = "ord_price x"
  let ?lv = "\<lambda>s. bt_get (side_levels b s)" and ?om = "hm_get (bk_orders b)"
  let ?h = "pool_heap (bk_pool b)" and ?x = "x\<lparr>ord_qty := ord_qty x - q\<rparr>"
  from inv have ok: "pool_ok (bk_pool b)" and bt: "\<And>s. bt_valid (side_levels b s)"
    and hm: "hm_valid (bk_orders b)" and r: "rep ?h ?lv ?om os"
    by (simp_all add: book_inv_def)
  obtain nd where nd: "?h i = Some nd" "nd_order nd = x" using rep_node [OF r x] i by blast
  obtain l where l: "?lv ?s ?p = Some l" by (rule rep_level_at [OF r x])
  let ?f = "\<lambda>n. n\<lparr>nd_order := (nd_order n)\<lparr>ord_qty := ord_qty (nd_order n) - q\<rparr>\<rparr>"
  obtain p1 where p1: "pool_modify (bk_pool b) i ?f = Some p1" "pool_ok p1"
      "pool_heap p1 = ?h(i \<mapsto> nd\<lparr>nd_order := ?x\<rparr>)"
    using slab.modify_ok [OF ok nd(1), of ?f] nd(2) by auto
  let ?l = "l\<lparr>lv_total_qty := lv_total_qty l - q\<rparr>"
  let ?b1 = "(set_side_levels b ?s (bt_insert ?p ?l (side_levels b ?s)))\<lparr>bk_pool := p1\<rparr>"
  have qx: "unat q \<le> unat (ord_qty x)" using le by (simp add: word_less_nat_alt)
  also have "\<dots> \<le> unat (lv_total_qty l)"
  proof -
    obtain as bs where "queue_at os ?s ?p = as @ x # bs" by (rule rep_queue_split [OF r x])
    with rep_level [OF r, of ?s ?p] l show ?thesis by simp
  qed
  finally have t: "unat (lv_total_qty l - q) + unat (ord_qty x) =
      unat (lv_total_qty l) + unat (ord_qty x - q)"
    using qx by (simp add: unat_sub_le)
  have "rep (pool_heap p1) (\<lambda>s. bt_get (side_levels ?b1 s)) ?om
      (set_qty (ord_id x) (ord_qty x - q) os)"
    by (rule rep_set_qty [OF r x _ _ l t]) (auto simp: nd i [symmetric] p1(3) bt.get_insert bt)
  then have inv1: "book_inv ?b1 (set_qty (ord_id x) (ord_qty x - q) os)"
    using p1(2) bt hm by (simp add: book_inv_def bt.valid_insert)
  have code: "book_take_qty b i q =
      (if ord_qty x - q = 0 then book_unlink ?b1 i else Some ?b1)"
    unfolding book_take_qty_def p1(1) by (simp add: slab.get_ok p1(3) l Let_def)
  show ?thesis
  proof (cases "ord_qty x = q")
    case True
    have "?x \<in> set (set_qty (ord_id x) (ord_qty x - q) os)"
      using set_set_qty [OF rep_distinct [OF r] x] by simp
    from book_unlink_ok [OF inv1 this, of i] True code i show ?thesis
      by (simp add: spec_take_def)
  next
    case False
    then have "ord_qty x - q \<noteq> 0" by simp
    with inv1 False code show ?thesis by (simp add: spec_take_def)
  qed
qed

section \<open>Each handler refines its specification\<close>

lemma book_inv_distinct: "book_inv b os \<Longrightarrow> distinct (map ord_id os)"
  unfolding book_inv_def using rep_distinct by blast

text \<open>The result of a run of the code, related to the result of the specification.\<close>

definition refines :: "(book \<times> 'r) run \<Rightarrow> abook \<times> 'r \<Rightarrow> bool" where
  "refines m a \<longleftrightarrow> (\<exists>b'. m = Some (b', snd a) \<and> book_inv b' (fst a))"

lemma book_add_refines:
  assumes "book_inv b os" and "length os < unat NIL"
    and "total_qty (queue_at os (ord_side x) (ord_price x)) + unat (ord_qty x) < 2 ^ 64"
  shows "refines (reply_unit (book_add b x)) (spec_add os x)"
proof (cases "lookup_id os (ord_id x)")
  case None
  with book_add_ok [OF assms(1) None assms(2,3)] show ?thesis
    by (auto simp: refines_def reply_unit_def spec_add_def)
next
  case (Some y)
  with book_add_duplicate [OF assms(1) Some] assms(1) show ?thesis
    by (auto simp: refines_def reply_unit_def spec_add_def)
qed

lemma book_execute_refines:
  assumes inv: "book_inv b os"
  shows "refines (reply_trade (book_execute_inner b k q ts pp)) (spec_execute os k q ts pp)"
proof (cases "lookup_id os k")
  case None
  with inv book_inv_get [OF inv, of k] show ?thesis
    by (simp add: refines_def reply_trade_def spec_execute_def book_execute_inner_def)
next
  case (Some x)
  then have x: "x \<in> set os" by (blast dest: lookup_id_SomeD)
  obtain nd where "pool_get (bk_pool b) (slot_of (hm_get (bk_orders b)) x) = Some nd" "nd_order nd = x"
    by (rule book_inv_node [OF inv x])
  with Some inv book_inv_get [OF inv, of k] book_take_qty_ok [OF inv x refl, of q] show ?thesis
    by (auto simp: refines_def reply_trade_def spec_execute_def book_execute_inner_def)
qed

lemma book_cancel_refines:
  assumes inv: "book_inv b os"
  shows "refines (reply_unit (book_cancel b k q)) (spec_cancel os k q)"
proof (cases "lookup_id os k")
  case None
  with inv book_inv_get [OF inv, of k] show ?thesis
    by (simp add: refines_def reply_unit_def spec_cancel_def book_cancel_def)
next
  case (Some x)
  then have x: "x \<in> set os" by (blast dest: lookup_id_SomeD)
  obtain nd where "pool_get (bk_pool b) (slot_of (hm_get (bk_orders b)) x) = Some nd" "nd_order nd = x"
    by (rule book_inv_node [OF inv x])
  with Some inv book_inv_get [OF inv, of k] book_take_qty_ok [OF inv x refl, of q] show ?thesis
    by (auto simp: refines_def reply_unit_def spec_cancel_def book_cancel_def)
qed

lemma book_delete_refines:
  assumes inv: "book_inv b os"
  shows "refines (reply_unit (book_delete b k)) (spec_delete os k)"
proof (cases "lookup_id os k")
  case None
  with inv book_inv_get [OF inv, of k] show ?thesis
    by (simp add: refines_def reply_unit_def spec_delete_def book_delete_def)
next
  case (Some x)
  then have x: "x \<in> set os" "ord_id x = k" by (auto dest: lookup_id_SomeD)
  with Some inv book_inv_get [OF inv, of k] book_unlink_ok [OF inv x(1) refl] show ?thesis
    by (auto simp: refines_def reply_unit_def spec_delete_def book_delete_def)
qed

lemma length_remove_id: "length (remove_id k os) \<le> length os"
  by (simp add: remove_id_def)

lemma book_replace_refines:
  assumes inv: "book_inv b os" and room: "length os < unat NIL"
    and fits: "\<And>s. total_qty (queue_at (remove_id old os) s p) + unat q < 2 ^ 64"
  shows "refines (reply_unit (book_replace b old new p q ts)) (spec_replace os old new p q ts)"
proof (cases "lookup_id os old")
  case None
  with inv book_inv_get [OF inv, of old] show ?thesis
    by (simp add: refines_def reply_unit_def spec_replace_def book_replace_def)
next
  case (Some x)
  then have x: "x \<in> set os" "ord_id x = old" by (auto dest: lookup_id_SomeD)
  let ?y = "\<lparr>ord_id = new, ord_side = ord_side x, ord_price = p, ord_qty = q, ord_ts = ts\<rparr>"
  obtain nd where nd: "pool_get (bk_pool b) (slot_of (hm_get (bk_orders b)) x) = Some nd" "nd_order nd = x"
    by (rule book_inv_node [OF inv x(1)])
  obtain b' where b': "book_unlink b (slot_of (hm_get (bk_orders b)) x) = Some b'"
      "book_inv b' (remove_id old os)"
    using book_unlink_ok [OF inv x(1) refl] x(2) by blast
  have "length (remove_id old os) < unat NIL" using room length_remove_id le_less_trans by blast
  moreover have "total_qty (queue_at (remove_id old os) (ord_side ?y) (ord_price ?y)) + unat (ord_qty ?y) < 2 ^ 64"
    using fits [of "ord_side ?y"] by (simp only: order.select_convs)
  ultimately have "refines (reply_unit (book_add b' ?y)) (spec_add (remove_id old os) ?y)"
    by (intro book_add_refines b'(2))
  moreover have "book_replace b old new p q ts = book_add b' ?y"
    using Some book_inv_get [OF inv, of old] nd b'(1) by (simp add: book_replace_def Let_def)
  ultimately show ?thesis using Some by (simp add: spec_replace_def)
qed

section \<open>Runs of wire-sized commands\<close>

text \<open>
  The feed carries shares as \<open>u32\<close>.  With such quantities, and fewer resting orders than the
  index type has values, no aggregate can overflow its \<open>u64\<close>.
\<close>

definition small_qty :: "quantity \<Rightarrow> bool" where
  "small_qty q \<longleftrightarrow> unat q < 2 ^ 32"

fun cmd_small :: "book_cmd \<Rightarrow> bool" where
  "cmd_small (Add x) = small_qty (ord_qty x)"
| "cmd_small (Replace old new p q ts) = small_qty q"
| "cmd_small _ = True"

definition all_small :: "abook \<Rightarrow> bool" where
  "all_small os \<longleftrightarrow> (\<forall>x \<in> set os. small_qty (ord_qty x))"

lemma total_qty_bound:
  "all_small os \<Longrightarrow> total_qty os \<le> length os * (2 ^ 32 - 1)"
  by (induction os) (auto simp: all_small_def small_qty_def)

lemma total_qty_fits:
  assumes "all_small os" and "length os < unat NIL" and "small_qty q"
  shows "total_qty (queue_at os s p) + unat q < 2 ^ 64"
proof -
  have "all_small (queue_at os s p)"
    using assms(1) queue_subset [of os s p] by (simp add: all_small_def subset_iff)
  then have "total_qty (queue_at os s p) \<le> length (queue_at os s p) * (2 ^ 32 - 1)"
    by (rule total_qty_bound)
  moreover have "length (queue_at os s p) < 2 ^ 32 - 1"
    using le_less_trans [OF length_filter_le assms(2)] unfolding queue_at_def unat_NIL .
  ultimately have "total_qty (queue_at os s p) \<le> (2 ^ 32 - 1) * (2 ^ 32 - 1)"
    by (meson less_imp_le mult_le_mono1 order_trans)
  with assms(3) show ?thesis by (simp add: small_qty_def)
qed

lemma all_small_remove: "all_small os \<Longrightarrow> all_small (remove_id k os)"
  by (auto simp: all_small_def remove_id_def)

lemma all_small_set_qty: "all_small os \<Longrightarrow> small_qty v \<Longrightarrow> all_small (set_qty k v os)"
  by (auto simp: all_small_def set_qty_def)

lemma all_small_take:
  assumes "all_small os" and "x \<in> set os" and "\<not> ord_qty x < q"
  shows "all_small (spec_take os x q)"
proof -
  have "unat (ord_qty x - q) \<le> unat (ord_qty x)"
    using assms(3) by (simp add: unat_sub_le word_less_nat_alt)
  then have "small_qty (ord_qty x - q)" using assms by (auto simp: all_small_def small_qty_def)
  then show ?thesis using assms(1) by (simp add: spec_take_def all_small_remove all_small_set_qty)
qed

lemma all_small_spec: "all_small os \<Longrightarrow> cmd_small c \<Longrightarrow> all_small (fst (spec_cmd os c))"
  by (cases c)
    (auto simp: spec_add_def spec_execute_def spec_cancel_def spec_delete_def spec_replace_def
      all_small_take all_small_remove dest!: lookup_id_SomeD split: option.split,
     auto simp: all_small_def remove_id_def)

lemma length_spec_take: "length (spec_take os x q) \<le> length os"
  by (simp add: spec_take_def length_remove_id)

lemma length_spec_cmd: "length (fst (spec_cmd os c)) \<le> Suc (length os)"
  using length_remove_id length_spec_take
  by (cases c)
    (auto simp: spec_add_def spec_execute_def spec_cancel_def spec_delete_def spec_replace_def
      le_SucI split: option.split)

lemma book_apply_refines:
  assumes inv: "book_inv b os" and small: "all_small os" "cmd_small c"
    and room: "length os < unat NIL"
  shows "refines (book_apply b c) (spec_cmd os c)"
proof (cases c)
  case (Add x)
  then have "small_qty (ord_qty x)" using small by simp
  with Add show ?thesis using book_add_refines [OF inv room total_qty_fits [OF small(1) room]] by simp
next
  case (Replace old new p q ts)
  have "length (remove_id old os) < unat NIL" using room length_remove_id le_less_trans by blast
  moreover have "small_qty q" using Replace small by simp
  ultimately show ?thesis
    using Replace book_replace_refines [OF inv room total_qty_fits [OF all_small_remove [OF small(1)]]] by simp
qed (use inv in \<open>simp_all add: book_execute_def book_execute_at_def book_execute_refines
  book_cancel_refines book_delete_refines\<close>)

lemma book_run_refines_from:
  assumes "book_inv b os" and "all_small os" and "\<forall>c \<in> set cs. cmd_small c"
    and "length os + length cs \<le> unat NIL"
  shows "refines (book_run b cs) (spec_run os cs)"
  using assms
proof (induction cs arbitrary: b os)
  case Nil
  then show ?case by (simp add: refines_def)
next
  case (Cons c cs)
  obtain os' r where s: "spec_cmd os c = (os', r)" by (cases "spec_cmd os c")
  have "refines (book_apply b c) (spec_cmd os c)"
    using Cons.prems by (intro book_apply_refines) auto
  then obtain b' where b': "book_apply b c = Some (b', r)" "book_inv b' os'"
    by (auto simp: refines_def s)
  have "length os' \<le> Suc (length os)" using length_spec_cmd [of os c] by (simp add: s)
  moreover have "all_small os'" using all_small_spec [of os c] Cons.prems by (simp add: s)
  ultimately have "refines (book_run b' cs) (spec_run os' cs)"
    using Cons.prems by (intro Cons.IH b'(2)) auto
  then show ?case using b'(1) by (auto simp: refines_def s split: prod.split)
qed

end
