(* ===== verification/Book_Props.thy ===== *)
theory Book_Props
  imports Book_Correct
begin

text \<open>
  What a reader of the book sees: the queues, the aggregates of the levels, the best prices
  and the depth, and how they relate to the commands that were applied.
\<close>

section \<open>Observations\<close>

text \<open>The orders at a price, read off the linked list from the head of its level.\<close>

definition book_queue :: "book \<Rightarrow> side \<Rightarrow> price \<Rightarrow> order list" where
  "book_queue b s p =
     (case bt_get (side_levels b s) p of
        None \<Rightarrow> []
      | Some l \<Rightarrow> walk (pool_capacity_used (bk_pool b)) (pool_heap (bk_pool b)) (lv_head l))"

text \<open>
  A feed the book is specified for: shares fit 32 bits, as on the wire, and there are fewer
  commands than slab indices.
\<close>

definition feed_ok :: "book_cmd list \<Rightarrow> bool" where
  "feed_ok cs \<longleftrightarrow> (\<forall>c \<in> set cs. cmd_small c) \<and> length cs \<le> unat NIL"

lemma book_run_spec:
  assumes "feed_ok cs"
  obtains b where "book_run book_new cs = Some (b, snd (spec_run [] cs))"
    and "book_inv b (fst (spec_run [] cs))"
  using book_run_refines_from [OF book_inv_new, of cs] assms that
  by (auto simp: feed_ok_def all_small_def refines_def)

lemma book_run_inv:
  assumes "feed_ok cs" and "book_run book_new cs = Some (b, rs)"
  shows "book_inv b (fst (spec_run [] cs))" and "rs = snd (spec_run [] cs)"
  using book_run_spec [OF assms(1)] assms(2) by (metis option.inject prod.inject)+

lemma length_spec_run: "length (fst (spec_run os cs)) \<le> length os + length cs"
proof (induction cs arbitrary: os)
  case (Cons c cs)
  show ?case
    using Cons.IH [of "fst (spec_cmd os c)"] length_spec_cmd [of os c]
    by (simp add: case_prod_beta Let_def)
qed simp

lemma feed_ok_length: "feed_ok cs \<Longrightarrow> length (fst (spec_run [] cs)) \<le> unat NIL"
  using length_spec_run [of "[]" cs] by (simp add: feed_ok_def)

lemma all_small_spec_run:
  "all_small os \<Longrightarrow> \<forall>c \<in> set cs. cmd_small c \<Longrightarrow> all_small (fst (spec_run os cs))"
proof (induction cs arbitrary: os)
  case (Cons c cs)
  then have "all_small (fst (spec_cmd os c))" by (simp add: all_small_spec)
  with Cons show ?case by (simp add: case_prod_beta Let_def)
qed simp

lemma feed_ok_small: "feed_ok cs \<Longrightarrow> all_small (fst (spec_run [] cs))"
  by (rule all_small_spec_run) (simp_all add: feed_ok_def all_small_def)

section \<open>Queues\<close>

lemma length_queue_slots:
  assumes "book_inv b os"
  shows "length (queue_at os s p) \<le> pool_capacity_used (bk_pool b)"
proof -
  have "length os = card (dom (pool_heap (bk_pool b)))"
    using assms rep_card unfolding book_inv_def by metis
  also have "\<dots> \<le> card {i :: index. unat i < length (slots (bk_pool b))}"
    by (rule card_mono) (simp_all add: dom_pool_heap_subset)
  also have "\<dots> \<le> card {..<length (slots (bk_pool b))}"
    by (rule card_inj_on_le [where f = unat]) (auto intro: inj_onI simp: word_unat_eq_iff)
  finally have "length os \<le> pool_capacity_used (bk_pool b)" by (simp add: pool_capacity_used_def)
  then show ?thesis unfolding queue_at_def by (rule order_trans [OF length_filter_le])
qed

lemma book_queue_spec:
  assumes inv: "book_inv b os"
  shows "book_queue b s p = queue_at os s p"
proof -
  let ?h = "pool_heap (bk_pool b)" and ?f = "slot_of (hm_get (bk_orders b))"
  let ?q = "queue_at os s p" and ?n = "pool_capacity_used (bk_pool b)"
  have r: "rep ?h (\<lambda>s. bt_get (side_levels b s)) (hm_get (bk_orders b)) os"
    using inv by (simp add: book_inv_def)
  show ?thesis
  proof (cases "bt_get (side_levels b s) p")
    case None
    with rep_level [OF r, of s p] show ?thesis by (simp add: book_queue_def)
  next
    case (Some l)
    with rep_level [OF r, of s p] have "lv_head l = hd (map ?f ?q @ [NIL])"
      by (cases ?q) auto
    then have "map Some (walk ?n ?h (lv_head l)) = map (order_at ?h) (map ?f ?q)"
      using walk_dll [OF rep_dll [OF r] rep_NIL [OF r]] length_queue_slots [OF inv, of s p] by simp
    also have "\<dots> = map Some ?q"
      using rep_order [OF r] queue_subset [of os s p] by (auto simp: subset_iff)
    finally have "walk ?n ?h (lv_head l) = ?q" by (simp add: inj_map_eq_map)
    with Some show ?thesis by (simp add: book_queue_def)
  qed
qed

section \<open>Levels and ladders\<close>

lemma book_level_spec:
  assumes "book_inv b os" and "bt_get (side_levels b s) p = Some l"
  shows "queue_at os s p \<noteq> []" and "unat (lv_total_qty l) = total_qty (queue_at os s p)"
    and "lv_order_count l = of_nat (length (queue_at os s p))"
proof -
  have "level_ok (bt_get (side_levels b s) p) (slot_of (hm_get (bk_orders b))) (queue_at os s p)"
    using assms(1) rep_level unfolding book_inv_def by metis
  with assms(2) show "queue_at os s p \<noteq> []"
    and "unat (lv_total_qty l) = total_qty (queue_at os s p)"
    and "lv_order_count l = of_nat (length (queue_at os s p))" by simp_all
qed

lemma book_level_None:
  assumes "book_inv b os" and "bt_get (side_levels b s) p = None"
  shows "queue_at os s p = []"
  using assms rep_level [of "pool_heap (bk_pool b)" "\<lambda>s. bt_get (side_levels b s)"
      "hm_get (bk_orders b)" os s p]
  by (simp add: book_inv_def)

lemma queue_nonempty: "queue_at os s p \<noteq> [] \<longleftrightarrow> (\<exists>x \<in> set os. ord_side x = s \<and> ord_price x = p)"
  by (auto simp: queue_at_def filter_empty_conv)

lemma set_side_prices: "set (side_prices os s) = {p. queue_at os s p \<noteq> []}"
  by (auto simp: side_prices_def queue_nonempty)

lemma sorted_side_prices: "sorted_wrt (<) (side_prices os s)"
  unfolding side_prices_def by (rule strict_sorted_list_of_set)

lemma book_prices_spec:
  assumes inv: "book_inv b os"
  shows "map fst (side_levels b s) = side_prices os s"
proof (rule strict_sorted_equal)
  have v: "bt_valid (side_levels b s)" using inv by (simp add: book_inv_def)
  show "sorted_wrt (<) (map fst (side_levels b s))" by (rule bt.sorted_entries [OF v])
  show "sorted_wrt (<) (side_prices os s)" by (rule sorted_side_prices)
  have "set (map fst (side_levels b s)) = dom (bt_get (side_levels b s))"
    using bt.keys_entries [OF v] by simp
  also have "\<dots> = {p. queue_at os s p \<noteq> []}"
    using book_level_spec(1) [OF inv, of s] book_level_None [OF inv, of s]
    by (auto simp: dom_def)
  finally show "set (map fst (side_levels b s)) = set (side_prices os s)"
    by (simp add: set_side_prices)
qed

text \<open>Prices with the aggregates the levels store.\<close>

definition level_view :: "price \<times> level \<Rightarrow> price \<times> nat" where
  "level_view e = (fst e, unat (lv_total_qty (snd e)))"

lemma book_ladder_spec:
  assumes inv: "book_inv b os"
  shows "map level_view (side_levels b s) = ladder os s"
proof -
  have v: "bt_valid (side_levels b s)" using inv by (simp add: book_inv_def)
  have "level_view e = (fst e, total_qty (queue_at os s (fst e)))" if "e \<in> set (side_levels b s)" for e
    using that bt.entries_iff [OF v, of "fst e" "snd e"] book_level_spec(2) [OF inv]
    by (simp add: level_view_def)
  then have "map level_view (side_levels b s) =
      map (\<lambda>p. (p, total_qty (queue_at os s p))) (map fst (side_levels b s))"
    by simp
  then show ?thesis by (simp only: book_prices_spec [OF inv] ladder_def)
qed

definition qty_nat :: "price \<times> quantity \<Rightarrow> price \<times> nat" where
  "qty_nat e = (fst e, unat (snd e))"

lemma view_qty_nat: "qty_nat (case e of (p, l) \<Rightarrow> (p, lv_total_qty l)) = level_view e"
  by (simp add: qty_nat_def level_view_def split: prod.split)

lemma map_view: "map qty_nat (map (\<lambda>(p, l). (p, lv_total_qty l)) es) = map level_view es"
  by (simp add: view_qty_nat)

lemma book_depth_spec:
  assumes "book_inv b os"
  shows "map qty_nat (fst (book_depth b n)) = take n (rev (ladder os Bid))"
    and "map qty_nat (snd (book_depth b n)) = take n (ladder os Ask)"
  using book_ladder_spec [OF assms, of Bid] book_ladder_spec [OF assms, of Ask]
  by (simp_all add: book_depth_def map_view del: map_map flip: take_map rev_map)

lemma map_option_first: "map_option f (bt_first m) = bt_first (map f m)"
  by (simp add: bt_first_def split: list.split)

lemma book_best_spec:
  assumes "book_inv b os"
  shows "map_option qty_nat (book_best_bid b) = bt_last (ladder os Bid)"
    and "map_option qty_nat (book_best_ask b) = bt_first (ladder os Ask)"
  using book_ladder_spec [OF assms, of Bid] book_ladder_spec [OF assms, of Ask]
  by (simp_all add: book_best_bid_def book_best_ask_def bt_last_def option.map_comp o_def
      view_qty_nat map_option_first flip: rev_map)

text \<open>The first and last prices of a ladder are its least and greatest.\<close>

lemma ladder_entry:
  "(p, t) \<in> set (ladder os s) \<longleftrightarrow> queue_at os s p \<noteq> [] \<and> t = total_qty (queue_at os s p)"
  by (auto simp: ladder_def set_side_prices image_iff)

lemma fst_ladder [simp]: "map fst (ladder os s) = side_prices os s"
  by (simp add: ladder_def o_def)

lemma ladder_first:
  assumes "bt_first (ladder os s) = Some (p, t)"
  shows "t = total_qty (queue_at os s p)" and "queue_at os s p \<noteq> []"
    and "\<forall>x \<in> set os. ord_side x = s \<longrightarrow> p \<le> ord_price x"
proof -
  obtain es where es: "ladder os s = (p, t) # es" using assms by (auto simp: bt_first_Some)
  then show "t = total_qty (queue_at os s p)" and "queue_at os s p \<noteq> []"
    using ladder_entry [of p t os s] by simp_all
  have "side_prices os s = p # map fst es"
    by (simp add: es flip: fst_ladder)
  with sorted_side_prices [of os s] have "\<forall>r \<in> set (side_prices os s). p \<le> r" by auto
  then show "\<forall>x \<in> set os. ord_side x = s \<longrightarrow> p \<le> ord_price x"
    by (auto simp: set_side_prices queue_nonempty)
qed

lemma ladder_last:
  assumes "bt_last (ladder os s) = Some (p, t)"
  shows "t = total_qty (queue_at os s p)" and "queue_at os s p \<noteq> []"
    and "\<forall>x \<in> set os. ord_side x = s \<longrightarrow> ord_price x \<le> p"
proof -
  obtain es where es: "ladder os s = es @ [(p, t)]" using assms by (auto simp: bt_last_Some)
  then show "t = total_qty (queue_at os s p)" and "queue_at os s p \<noteq> []"
    using ladder_entry [of p t os s] by simp_all
  have "side_prices os s = map fst es @ [p]"
    by (simp add: es flip: fst_ladder)
  with sorted_side_prices [of os s] have "\<forall>r \<in> set (side_prices os s). r \<le> p"
    by (auto simp: sorted_wrt_append)
  then show "\<forall>x \<in> set os. ord_side x = s \<longrightarrow> ord_price x \<le> p"
    by (auto simp: set_side_prices queue_nonempty)
qed

section \<open>Prices of the feed\<close>

fun cmd_wire :: "book_cmd \<Rightarrow> bool" where
  "cmd_wire (Add x) = wire_price (ord_price x)"
| "cmd_wire (Replace old new p q ts) = wire_price p"
| "cmd_wire _ = True"

definition all_wire :: "abook \<Rightarrow> bool" where
  "all_wire os \<longleftrightarrow> (\<forall>x \<in> set os. wire_price (ord_price x))"

lemma all_wire_remove: "all_wire os \<Longrightarrow> all_wire (remove_id k os)"
  by (auto simp: all_wire_def remove_id_def)

lemma all_wire_take: "all_wire os \<Longrightarrow> all_wire (spec_take os x q)"
  by (auto simp: all_wire_def spec_take_def remove_id_def set_qty_def)

lemma all_wire_spec: "all_wire os \<Longrightarrow> cmd_wire c \<Longrightarrow> all_wire (fst (spec_cmd os c))"
  by (cases c)
    (auto simp: spec_add_def spec_execute_def spec_cancel_def spec_delete_def spec_replace_def
      all_wire_take all_wire_remove split: option.split,
     auto simp: all_wire_def remove_id_def)

lemma all_wire_spec_run:
  "all_wire os \<Longrightarrow> \<forall>c \<in> set cs. cmd_wire c \<Longrightarrow> all_wire (fst (spec_run os cs))"
proof (induction cs arbitrary: os)
  case (Cons c cs)
  then have "all_wire (fst (spec_cmd os c))" by (simp add: all_wire_spec)
  with Cons show ?case by (simp add: case_prod_beta Let_def)
qed simp

lemma queue_wire: "all_wire os \<Longrightarrow> queue_at os s p \<noteq> [] \<Longrightarrow> wire_price p"
  by (auto simp: all_wire_def queue_nonempty)

lemma book_best_bid_Some:
  assumes "book_inv b os" and "book_best_bid b = Some (p, t)"
  shows "unat t = total_qty (queue_at os Bid p)" and "queue_at os Bid p \<noteq> []"
    and "\<forall>x \<in> set os. ord_side x = Bid \<longrightarrow> ord_price x \<le> p"
proof -
  have "bt_last (ladder os Bid) = Some (p, unat t)"
    using book_best_spec(1) [OF assms(1)] assms(2) by (simp add: qty_nat_def)
  note l = ladder_last [OF this]
  show "unat t = total_qty (queue_at os Bid p)" by (rule l(1))
  show "queue_at os Bid p \<noteq> []" by (rule l(2))
  show "\<forall>x \<in> set os. ord_side x = Bid \<longrightarrow> ord_price x \<le> p" by (rule l(3))
qed

lemma book_best_ask_Some:
  assumes "book_inv b os" and "book_best_ask b = Some (p, t)"
  shows "unat t = total_qty (queue_at os Ask p)" and "queue_at os Ask p \<noteq> []"
    and "\<forall>x \<in> set os. ord_side x = Ask \<longrightarrow> p \<le> ord_price x"
proof -
  have "bt_first (ladder os Ask) = Some (p, unat t)"
    using book_best_spec(2) [OF assms(1)] assms(2) by (simp add: qty_nat_def)
  note l = ladder_first [OF this]
  show "unat t = total_qty (queue_at os Ask p)" by (rule l(1))
  show "queue_at os Ask p \<noteq> []" by (rule l(2))
  show "\<forall>x \<in> set os. ord_side x = Ask \<longrightarrow> p \<le> ord_price x" by (rule l(3))
qed

lemma ladder_empty: "ladder os s = [] \<longleftrightarrow> (\<forall>x \<in> set os. ord_side x \<noteq> s)"
proof -
  have "ladder os s = [] \<longleftrightarrow> set (side_prices os s) = {}" by (simp add: ladder_def)
  then show ?thesis by (auto simp: set_side_prices queue_nonempty)
qed

lemma book_best_None:
  assumes "book_inv b os"
  shows "book_best_bid b = None \<longleftrightarrow> (\<forall>x \<in> set os. ord_side x \<noteq> Bid)"
    and "book_best_ask b = None \<longleftrightarrow> (\<forall>x \<in> set os. ord_side x \<noteq> Ask)"
  using arg_cong [OF book_best_spec(1) [OF assms], of "\<lambda>x. x = None"]
    arg_cong [OF book_best_spec(2) [OF assms], of "\<lambda>x. x = None"]
  by (simp_all add: ladder_empty)

lemma wire_sub:
  assumes "wire_price a" and "wire_price b"
  shows "i64_val (i64_sub a b) = i64_val a - i64_val b"
  using assms by (intro i64_val_sub) (simp_all add: wire_price_def)

lemma wire_mid:
  assumes "wire_price a" and "wire_price b"
  shows "i64_val (i64_div_2 (i64_add a b)) = (i64_val a + i64_val b) div 2"
proof -
  have "i64_val (i64_add a b) = i64_val a + i64_val b"
    using assms by (intro i64_val_add) (simp_all add: wire_price_def)
  then show ?thesis using assms by (subst i64_val_div_2) (simp_all add: wire_price_def)
qed

lemma book_len_spec:
  assumes "book_inv b os"
  shows "book_len b = length os"
proof -
  from assms have v: "hm_valid (bk_orders b)"
    and r: "rep (pool_heap (bk_pool b)) (\<lambda>s. bt_get (side_levels b s)) (hm_get (bk_orders b)) os"
    by (simp_all add: book_inv_def)
  have "book_len b = card (ord_id ` set os)"
    using hm.length_entries [OF v] rep_dom [OF r] by (simp add: book_len_def hm_len_def)
  then show ?thesis
    using rep_distinct [OF r] by (metis distinct_card length_map list.set_map)
qed

lemma book_pool_spec:
  assumes "book_inv b os"
  shows "pool_live (bk_pool b) = length os"
  using assms rep_card unfolding book_inv_def pool_live_def by metis

end
