(* ===== verification/Book_Account.thy ===== *)
theory Book_Account
  imports Book_Props
begin

text \<open>
  Accounting over a feed: the shares that rest, traded or were withdrawn against the shares
  that came in, and the slab's size against the greatest number of orders that rested at once.
\<close>

section \<open>Shares\<close>

definition accepted :: "book_cmd \<Rightarrow> (book_error + book_reply) \<Rightarrow> nat" where
  "accepted c r =
     (if isl r then 0
      else case c of Add x \<Rightarrow> unat (ord_qty x) | Replace old new p q ts \<Rightarrow> unat q | _ \<Rightarrow> 0)"

definition traded :: "(book_error + book_reply) \<Rightarrow> nat" where
  "traded r = (case r of Inr (Traded t) \<Rightarrow> unat (tr_qty t) | _ \<Rightarrow> 0)"

definition accepted_all :: "book_cmd list \<Rightarrow> (book_error + book_reply) list \<Rightarrow> nat" where
  "accepted_all cs rs = sum_list (map2 accepted cs rs)"

definition traded_all :: "(book_error + book_reply) list \<Rightarrow> nat" where
  "traded_all rs = sum_list (map traded rs)"

definition resting :: "book \<Rightarrow> nat" where
  "resting b = sum_list (map (\<lambda>(p, l). unat (lv_total_qty l)) (bk_bids b)) +
               sum_list (map (\<lambda>(p, l). unat (lv_total_qty l)) (bk_asks b))"

lemma total_qty_remove: "total_qty (remove_id k os) \<le> total_qty os"
  by (induction os) (simp_all add: remove_id_def)

lemma total_qty_removed:
  assumes "x \<in> set os" and "distinct (map ord_id os)"
  shows "total_qty (remove_id (ord_id x) os) + unat (ord_qty x) = total_qty os"
proof -
  obtain as bs where s: "os = as @ x # bs" "ord_id x \<notin> ord_id ` set as" "ord_id x \<notin> ord_id ` set bs"
    using split_at_order [OF assms] by blast
  show ?thesis unfolding s(1) remove_id_split [OF s(2,3)] by simp
qed

lemma total_qty_take:
  assumes "x \<in> set os" and "distinct (map ord_id os)" and "\<not> ord_qty x < q"
  shows "total_qty (spec_take os x q) + unat q = total_qty os"
proof -
  obtain as bs where s: "os = as @ x # bs" "ord_id x \<notin> ord_id ` set as" "ord_id x \<notin> ord_id ` set bs"
    using split_at_order [OF assms(1,2)] by blast
  have "unat (ord_qty x - q) + unat q = unat (ord_qty x)"
    using assms(3) by (simp add: unat_sub_le word_less_nat_alt)
  then show ?thesis
    unfolding s(1) spec_take_def remove_id_split [OF s(2,3)] set_qty_split [OF s(2,3)] by auto
qed

lemma total_qty_take_le:
  "x \<in> set os \<Longrightarrow> distinct (map ord_id os) \<Longrightarrow> \<not> ord_qty x < q \<Longrightarrow>
   total_qty (spec_take os x q) \<le> total_qty os"
  using total_qty_take [of x os q] by simp

lemma spec_cmd_shares:
  assumes "distinct (map ord_id os)" and "spec_cmd os c = (os', r)"
  shows "total_qty os' + traded r \<le> total_qty os + accepted c r"
  using assms total_qty_remove total_qty_take [OF _ assms(1)] total_qty_removed [OF _ assms(1)]
    total_qty_take_le [OF _ assms(1)]
  by (cases c)
    (auto simp: accepted_def traded_def spec_add_def spec_execute_def spec_cancel_def
      spec_delete_def spec_replace_def add_mono dest!: lookup_id_SomeD
      split: option.splits if_splits)

lemma spec_cmd_distinct:
  "distinct (map ord_id os) \<Longrightarrow> distinct (map ord_id (fst (spec_cmd os c)))"
proof -
  assume d: "distinct (map ord_id os)"
  have add: "distinct (map ord_id (fst (spec_add ps x)))" if "distinct (map ord_id ps)" for ps x
    using that by (auto simp: spec_add_def lookup_id_None split: option.split)
  have rem: "distinct (map ord_id (remove_id k os))" for k
    using d by (simp add: remove_id_def distinct_map_filter)
  have take: "distinct (map ord_id (spec_take os x q))" for x q
    using d rem by (simp add: spec_take_def)
  show ?thesis
    by (cases c)
      (auto simp: d rem take add spec_execute_def spec_cancel_def spec_delete_def
        spec_replace_def split: option.split)
qed

lemma spec_run_shares:
  "distinct (map ord_id os) \<Longrightarrow>
   total_qty (fst (spec_run os cs)) + traded_all (snd (spec_run os cs))
     \<le> total_qty os + accepted_all cs (snd (spec_run os cs))"
proof (induction cs arbitrary: os)
  case Nil
  then show ?case by (simp add: traded_all_def accepted_all_def)
next
  case (Cons c cs)
  obtain os' r where s: "spec_cmd os c = (os', r)" by (cases "spec_cmd os c")
  have "distinct (map ord_id os')" using spec_cmd_distinct [OF Cons.prems, of c] by (simp add: s)
  from Cons.IH [OF this] spec_cmd_shares [OF Cons.prems s] show ?case
    by (simp add: s case_prod_beta Let_def traded_all_def accepted_all_def)
qed

lemma total_qty_sides:
  "total_qty os = total_qty (filter (\<lambda>x. ord_side x = Bid) os) +
                  total_qty (filter (\<lambda>x. ord_side x = Ask) os)"
proof (induction os)
  case (Cons x os)
  then show ?case by (cases "ord_side x") auto
qed simp

lemma sum_prices:
  "finite P \<Longrightarrow> ord_price ` set (filter (\<lambda>x. ord_side x = s) os) \<subseteq> P \<Longrightarrow>
   (\<Sum>p \<in> P. total_qty (queue_at os s p)) = total_qty (filter (\<lambda>x. ord_side x = s) os)"
proof (induction os)
  case (Cons x os)
  have "(\<Sum>p \<in> P. total_qty (queue_at (x # os) s p)) =
        (\<Sum>p \<in> P. (if p = ord_price x then (if ord_side x = s then unat (ord_qty x) else 0) else 0) +
           total_qty (queue_at os s p))"
    by (rule sum.cong) (auto simp: queue_at_def)
  also have "\<dots> = (if ord_side x = s then unat (ord_qty x) else 0) +
      (\<Sum>p \<in> P. total_qty (queue_at os s p))"
    using Cons.prems by (auto simp: sum.distrib sum.delta)
  also have "\<dots> = total_qty (filter (\<lambda>x. ord_side x = s) (x # os))"
    using Cons.IH [OF Cons.prems(1)] Cons.prems(2) by (cases "ord_side x = s") auto
  finally show ?case .
qed (simp add: queue_at_def)

lemma ladder_total: "sum_list (map snd (ladder os s)) = total_qty (filter (\<lambda>x. ord_side x = s) os)"
proof -
  have "sum_list (map snd (ladder os s)) = sum_list (map (\<lambda>p. total_qty (queue_at os s p)) (side_prices os s))"
    by (simp add: ladder_def o_def)
  also have "\<dots> = (\<Sum>p \<in> set (side_prices os s). total_qty (queue_at os s p))"
    by (rule sum_list_distinct_conv_sum_set) (simp add: side_prices_def)
  also have "\<dots> = total_qty (filter (\<lambda>x. ord_side x = s) os)"
    by (rule sum_prices) (simp_all add: side_prices_def)
  finally show ?thesis .
qed

lemma book_resting_spec:
  assumes "book_inv b os"
  shows "resting b = total_qty os"
proof -
  have side: "sum_list (map (\<lambda>(p, l). unat (lv_total_qty l)) (side_levels b s)) =
      total_qty (filter (\<lambda>x. ord_side x = s) os)" for s
  proof -
    have "map (\<lambda>(p, l). unat (lv_total_qty l)) (side_levels b s) =
        map snd (map level_view (side_levels b s))"
      by (simp add: level_view_def case_prod_beta)
    then show ?thesis by (simp only: book_ladder_spec [OF assms] ladder_total)
  qed
  from side [of Bid] side [of Ask] show ?thesis
    by (simp add: resting_def total_qty_sides [of os])
qed

section \<open>The slab\<close>

fun peak :: "abook \<Rightarrow> book_cmd list \<Rightarrow> nat" where
  "peak os [] = length os"
| "peak os (c # cs) = max (length os) (peak (fst (spec_cmd os c)) cs)"

lemma cap_alloc:
  assumes "pool_ok p" and "pool_alloc p nd = Some (p', i)"
  shows "pool_capacity_used p' \<le> max (pool_capacity_used p) (Suc (pool_live p))"
proof (cases "free_head p = NIL")
  case True
  with card_full_pool_heap [OF assms(1)] assms(2) show ?thesis
    by (auto simp: pool_alloc_def pool_capacity_used_def pool_live_def)
next
  case False
  with assms(2) show ?thesis
    by (auto simp: pool_alloc_def pool_capacity_used_def vec_set_def Let_def
        split: Option.bind_splits slot.splits if_splits)
qed

lemma cap_free: "pool_free p i = Some p' \<Longrightarrow> pool_capacity_used p' = pool_capacity_used p"
  by (auto simp: pool_free_def pool_capacity_used_def vec_set_def split: Option.bind_splits if_splits)

lemma cap_modify: "pool_modify p i f = Some p' \<Longrightarrow> pool_capacity_used p' = pool_capacity_used p"
  by (auto simp: pool_modify_def pool_capacity_used_def vec_set_def
      split: Option.bind_splits slot.splits if_splits)

lemma cap_modify_if:
  "(if c then pool_modify p i f else Some p) = Some p' \<Longrightarrow> pool_capacity_used p' = pool_capacity_used p"
  by (auto dest: cap_modify split: if_splits)

lemma cap_unlink:
  "book_unlink b i = Some b' \<Longrightarrow> pool_capacity_used (bk_pool b') = pool_capacity_used (bk_pool b)"
  by (auto simp: book_unlink_def Let_def dest!: cap_free cap_modify_if split: Option.bind_splits)

lemma cap_take:
  "book_take_qty b i q = Some b' \<Longrightarrow> pool_capacity_used (bk_pool b') = pool_capacity_used (bk_pool b)"
  by (auto simp: book_take_qty_def Let_def dest!: cap_unlink cap_modify
      split: Option.bind_splits if_splits)

lemma cap_add:
  assumes "book_inv b os" and "book_add b x = Some (b', r)"
  shows "pool_capacity_used (bk_pool b') \<le> max (pool_capacity_used (bk_pool b)) (length (fst (spec_add os x)))"
proof (cases "lookup_id os (ord_id x)")
  case (Some y)
  with assms book_add_duplicate [OF assms(1)] show ?thesis by auto
next
  case None
  have ok: "pool_ok (bk_pool b)" using assms(1) by (simp add: book_inv_def)
  from None assms book_inv_get [OF assms(1), of "ord_id x"] obtain nd pl i where
    a: "pool_alloc (bk_pool b) nd = Some (pl, i)" and
    c: "pool_capacity_used (bk_pool b') = pool_capacity_used pl"
    by (auto simp: book_add_def hm_contains_key_def Let_def dest!: cap_modify_if
        split: Option.bind_splits)
  from cap_alloc [OF ok a] None show ?thesis
    by (simp add: c book_pool_spec [OF assms(1)] spec_add_def)
qed

lemma cap_apply:
  assumes inv: "book_inv b os" and ap: "book_apply b c = Some (b', r)"
  shows "pool_capacity_used (bk_pool b') \<le> max (pool_capacity_used (bk_pool b)) (length (fst (spec_cmd os c)))"
proof (cases c)
  case (Add x)
  with ap cap_add [OF inv] show ?thesis by (auto simp: reply_unit_def)
next
  case (Replace old new p q ts)
  show ?thesis
  proof (cases "lookup_id os old")
    case None
    with Replace ap book_inv_get [OF inv, of old] show ?thesis
      by (auto simp: reply_unit_def book_replace_def)
  next
    case (Some x)
    then have x: "x \<in> set os" "ord_id x = old" by (auto dest: lookup_id_SomeD)
    let ?i = "slot_of (hm_get (bk_orders b)) x"
    obtain nd where nd: "pool_get (bk_pool b) ?i = Some nd" "nd_order nd = x"
      by (rule book_inv_node [OF inv x(1)])
    obtain b1 where b1: "book_unlink b ?i = Some b1" "book_inv b1 (remove_id old os)"
      using book_unlink_ok [OF inv x(1) refl] x(2) by blast
    let ?y = "\<lparr>ord_id = new, ord_side = ord_side x, ord_price = p, ord_qty = q, ord_ts = ts\<rparr>"
    from Some Replace ap book_inv_get [OF inv, of old] nd b1(1) obtain r' where
      "book_add b1 ?y = Some (b', r')"
      by (auto simp: reply_unit_def book_replace_def Let_def)
    from cap_add [OF b1(2) this] cap_unlink [OF b1(1)] Some Replace show ?thesis
      by (simp add: spec_replace_def)
  qed
qed (use ap in \<open>auto simp: reply_unit_def reply_trade_def book_execute_def book_execute_at_def
  book_execute_inner_def book_cancel_def book_delete_def Let_def
  dest!: cap_take cap_unlink split: option.splits Option.bind_splits if_splits\<close>)

lemma cap_run:
  assumes "book_inv b os" and "all_small os" and "\<forall>c \<in> set cs. cmd_small c"
    and "length os + length cs \<le> unat NIL" and "book_run b cs = Some (b', rs)"
  shows "pool_capacity_used (bk_pool b') \<le> max (pool_capacity_used (bk_pool b)) (peak os cs)"
  using assms
proof (induction cs arbitrary: b os rs)
  case (Cons c cs)
  obtain os' r where s: "spec_cmd os c = (os', r)" by (cases "spec_cmd os c")
  have "refines (book_apply b c) (spec_cmd os c)"
    using Cons.prems by (intro book_apply_refines) auto
  then obtain b1 where b1: "book_apply b c = Some (b1, r)" "book_inv b1 os'"
    by (auto simp: refines_def s)
  from Cons.prems(5) b1(1) obtain rs' where run: "book_run b1 cs = Some (b', rs')"
    by (auto split: Option.bind_splits)
  have "length os' \<le> Suc (length os)" using length_spec_cmd [of os c] by (simp add: s)
  moreover have "all_small os'" using all_small_spec [of os c] Cons.prems by (simp add: s)
  ultimately have "pool_capacity_used (bk_pool b') \<le> max (pool_capacity_used (bk_pool b1)) (peak os' cs)"
    using Cons.prems by (intro Cons.IH [OF b1(2) _ _ _ run]) auto
  moreover have "length os' \<le> peak os' cs" by (cases cs) simp_all
  ultimately show ?case using cap_apply [OF Cons.prems(1) b1(1)] by (simp add: s)
qed simp

end
