(* ===== verification/Book_Claims.thy ===== *)
theory Book_Claims
  imports Book_Account
begin

text \<open>
  The properties of the order book, stated on the books a feed builds from an empty one,
  each applied to a concrete feed.
\<close>

section \<open>A concrete feed\<close>

definition px :: "u32 \<Rightarrow> price" where
  "px n = i64_of_u32 n"

definition bid_order :: "order_id \<Rightarrow> u32 \<Rightarrow> quantity \<Rightarrow> order" where
  "bid_order k p q = \<lparr>ord_id = k, ord_side = Bid, ord_price = px p, ord_qty = q, ord_ts = 0\<rparr>"

definition ask_order :: "order_id \<Rightarrow> u32 \<Rightarrow> quantity \<Rightarrow> order" where
  "ask_order k p q = \<lparr>ord_id = k, ord_side = Ask, ord_price = px p, ord_qty = q, ord_ts = 0\<rparr>"

text \<open>Orders at two bid prices and two ask prices, a full execution and a replacement.\<close>

definition sample_feed :: "book_cmd list" where
  "sample_feed =
     [Add (bid_order 1 100 10), Add (bid_order 2 100 20), Add (ask_order 3 102 5),
      Execute 1 10 7, Replace 2 4 (px 101) 8 9, Add (ask_order 5 105 6),
      Add (bid_order 6 100 7), Add (bid_order 7 100 3)]"

definition sample_book :: book where
  "sample_book = fst (the (book_run book_new sample_feed))"

definition sample_replies :: "(book_error + book_reply) list" where
  "sample_replies = snd (the (book_run book_new sample_feed))"

lemma sample_ok: "feed_ok sample_feed"
  by (simp add: feed_ok_def sample_feed_def bid_order_def ask_order_def small_qty_def unat_NIL)

lemma sample_run: "book_run book_new sample_feed = Some (sample_book, sample_replies)"
  by code_simp

definition sample_orders :: abook where
  "sample_orders =
     [ask_order 3 102 5, \<lparr>ord_id = 4, ord_side = Bid, ord_price = px 101, ord_qty = 8, ord_ts = 9\<rparr>,
      ask_order 5 105 6, bid_order 6 100 7, bid_order 7 100 3]"

lemma sample_spec: "fst (spec_run [] sample_feed) = sample_orders"
  by code_simp

lemma sample_inv: "book_inv sample_book sample_orders"
  using book_run_inv(1) [OF sample_ok sample_run] by (simp only: sample_spec)

lemma sample_queue: "book_queue sample_book s p = queue_at sample_orders s p"
  by (rule book_queue_spec [OF sample_inv])

section \<open>The properties\<close>

text \<open>
  C1: started empty, the book never panics on a feed of 32-bit quantities; it gives the
  replies of the specification, and every queue read off its linked lists holds the orders
  at that price in the order of their arrival, with the quantities left of them.
\<close>

theorem book_refines_spec:
  assumes "feed_ok cs"
  shows "\<exists>b. book_run book_new cs = Some (b, snd (spec_run [] cs)) \<and>
    (\<forall>s p. book_queue b s p = queue_at (fst (spec_run [] cs)) s p)"
  using book_run_spec [OF assms] book_queue_spec by metis

theorem book_refines_spec_witness:
  "\<exists>b. book_run book_new sample_feed = Some (b, sample_replies) \<and>
     book_queue b Bid (px 100) = [bid_order 6 100 7, bid_order 7 100 3]"
proof -
  have "snd (spec_run [] sample_feed) = sample_replies"
    and "queue_at (fst (spec_run [] sample_feed)) Bid (px 100) = [bid_order 6 100 7, bid_order 7 100 3]"
    by code_simp+
  with book_refines_spec [OF sample_ok] show ?thesis by auto
qed

text \<open>
  C17: the aggregate of every level is exact. A level exists for a price if and only if
  orders rest there; its stored total is the sum of their quantities and its stored count
  their number.
\<close>

theorem book_levels_exact:
  assumes "feed_ok cs" and "book_run book_new cs = Some (b, rs)"
  shows "case bt_get (side_levels b s) p of
      None \<Rightarrow> queue_at (fst (spec_run [] cs)) s p = []
    | Some l \<Rightarrow> book_queue b s p \<noteq> [] \<and> unat (lv_total_qty l) = total_qty (book_queue b s p) \<and>
        unat (lv_order_count l) = length (book_queue b s p)"
proof (cases "bt_get (side_levels b s) p")
  case None
  with book_level_None [OF book_run_inv(1) [OF assms]] show ?thesis by simp
next
  case (Some l)
  note inv = book_run_inv(1) [OF assms]
  have "length (queue_at (fst (spec_run [] cs)) s p) \<le> unat NIL"
    using feed_ok_length [OF assms(1)] unfolding queue_at_def by (rule order_trans [OF length_filter_le])
  then have "unat (of_nat (length (queue_at (fst (spec_run [] cs)) s p)) :: u32) =
      length (queue_at (fst (spec_run [] cs)) s p)"
    by (intro unat_u32_of_nat) (simp add: unat_NIL)
  with Some book_level_spec [OF inv Some] show ?thesis
    by (simp add: book_queue_spec [OF inv])
qed

theorem book_levels_exact_witness:
  "\<exists>l. bt_get (side_levels sample_book Bid) (px 100) = Some l \<and> unat (lv_total_qty l) = 10 \<and>
     unat (lv_order_count l) = 2"
proof -
  have q: "total_qty (queue_at sample_orders Bid (px 100)) = 10"
    "length (queue_at sample_orders Bid (px 100)) = 2"
    "queue_at sample_orders Bid (px 100) \<noteq> []"
    by code_simp+
  show ?thesis
    using book_levels_exact [OF sample_ok sample_run, of Bid "px 100"] q
    by (cases "bt_get (side_levels sample_book Bid) (px 100)")
      (simp_all only: sample_queue sample_spec option.simps, blast)
qed

text \<open>
  C18: the best bid is the greatest price of a resting buy order and the best ask the least
  price of a resting sell order, each with the total resting there; there is none exactly
  when the side is empty.
\<close>

theorem book_best_prices:
  assumes "feed_ok cs" and "book_run book_new cs = Some (b, rs)"
  shows "(case book_best_bid b of
        None \<Rightarrow> \<forall>x \<in> set (fst (spec_run [] cs)). ord_side x = Ask
      | Some (p, t) \<Rightarrow> unat t = total_qty (book_queue b Bid p) \<and> book_queue b Bid p \<noteq> [] \<and>
          (\<forall>x \<in> set (fst (spec_run [] cs)). ord_side x = Bid \<longrightarrow> ord_price x \<le> p)) \<and>
    (case book_best_ask b of
        None \<Rightarrow> \<forall>x \<in> set (fst (spec_run [] cs)). ord_side x = Bid
      | Some (p, t) \<Rightarrow> unat t = total_qty (book_queue b Ask p) \<and> book_queue b Ask p \<noteq> [] \<and>
          (\<forall>x \<in> set (fst (spec_run [] cs)). ord_side x = Ask \<longrightarrow> p \<le> ord_price x))"
proof -
  note inv = book_run_inv(1) [OF assms]
  have "s \<noteq> Bid \<longleftrightarrow> s = Ask" and "s \<noteq> Ask \<longleftrightarrow> s = Bid" for s by (cases s; simp)+
  then have "book_best_bid b = None \<longleftrightarrow> (\<forall>x \<in> set (fst (spec_run [] cs)). ord_side x = Ask)"
    and "book_best_ask b = None \<longleftrightarrow> (\<forall>x \<in> set (fst (spec_run [] cs)). ord_side x = Bid)"
    using book_best_None [OF inv] by simp_all
  with book_best_bid_Some [OF inv] book_best_ask_Some [OF inv]
  show ?thesis by (simp add: book_queue_spec [OF inv] split: option.split)
qed

theorem book_best_prices_witness:
  "unat (snd (the (book_best_bid sample_book))) = 8 \<and> book_queue sample_book Ask (px 102) \<noteq> []"
proof -
  have "book_best_bid sample_book = Some (px 101, 8)" "book_best_ask sample_book = Some (px 102, 5)"
    by code_simp+
  with book_best_prices [OF sample_ok sample_run] show ?thesis by simp
qed

text \<open>
  C33: the depth query returns the first \<open>n\<close> levels of each side from the best price
  outward, with the exact totals; both sides of the result are sorted.
\<close>

theorem book_depth_ladder:
  assumes "feed_ok cs" and "book_run book_new cs = Some (b, rs)"
  shows "map qty_nat (fst (book_depth b n)) = take n (rev (ladder (fst (spec_run [] cs)) Bid)) \<and>
    map qty_nat (snd (book_depth b n)) = take n (ladder (fst (spec_run [] cs)) Ask) \<and>
    sorted_wrt (>) (map fst (fst (book_depth b n))) \<and> sorted_wrt (<) (map fst (snd (book_depth b n)))"
proof -
  let ?os = "fst (spec_run [] cs)"
  note d = book_depth_spec [OF book_run_inv(1) [OF assms], of n]
  have "map fst (fst (book_depth b n)) = map fst (map qty_nat (fst (book_depth b n)))"
    and "map fst (snd (book_depth b n)) = map fst (map qty_nat (snd (book_depth b n)))"
    by (simp_all add: qty_nat_def)
  then have "map fst (fst (book_depth b n)) = take n (rev (side_prices ?os Bid))"
    and "map fst (snd (book_depth b n)) = take n (side_prices ?os Ask)"
    by (simp_all only: d flip: fst_ladder take_map rev_map)
  with d sorted_side_prices [of ?os Ask] sorted_side_prices [of ?os Bid] show ?thesis
    by (simp add: sorted_wrt_take sorted_wrt_rev)
qed

theorem book_depth_ladder_witness:
  "map qty_nat (fst (book_depth sample_book 1)) = [(px 101, 8)] \<and>
   map qty_nat (snd (book_depth sample_book 9)) = [(px 102, 5), (px 105, 6)]"
proof -
  have "take 1 (rev (ladder (fst (spec_run [] sample_feed)) Bid)) = [(px 101, 8)]"
    and "take 9 (ladder (fst (spec_run [] sample_feed)) Ask) = [(px 102, 5), (px 105, 6)]"
    by code_simp+
  with book_depth_ladder [OF sample_ok sample_run, of 1] book_depth_ladder [OF sample_ok sample_run, of 9]
  show ?thesis by simp
qed

text \<open>
  On a feed of wire prices the spread and the mid never wrap: the spread is the
  difference of the best prices and the mid half their sum, rounded down; both exist exactly
  when both sides have orders.
\<close>

theorem book_spread_mid:
  assumes "feed_ok cs" and "\<forall>c \<in> set cs. cmd_wire c" and "book_run book_new cs = Some (b, rs)"
  shows "map_option i64_val (book_spread b) =
      (case (book_best_bid b, book_best_ask b) of
         (Some (bp, _), Some (ap, _)) \<Rightarrow> Some (i64_val ap - i64_val bp) | _ \<Rightarrow> None) \<and>
    map_option i64_val (book_mid b) =
      (case (book_best_bid b, book_best_ask b) of
         (Some (bp, _), Some (ap, _)) \<Rightarrow> Some ((i64_val ap + i64_val bp) div 2) | _ \<Rightarrow> None)"
proof -
  note inv = book_run_inv(1) [OF assms(1,3)]
  have w: "all_wire (fst (spec_run [] cs))"
    using assms(2) by (intro all_wire_spec_run) (simp_all add: all_wire_def)
  have bp: "wire_price p" if "book_best_bid b = Some (p, t)" for p t
    using queue_wire [OF w] book_best_bid_Some(2) [OF inv that] by blast
  have ap: "wire_price p" if "book_best_ask b = Some (p, t)" for p t
    using queue_wire [OF w] book_best_ask_Some(2) [OF inv that] by blast
  show ?thesis
    by (auto simp: book_spread_def book_mid_def wire_sub wire_mid bp ap split: option.split)
qed

theorem book_spread_mid_witness:
  "map_option i64_val (book_spread sample_book) = Some 1 \<and>
   map_option i64_val (book_mid sample_book) = Some 101"
proof -
  have "\<forall>c \<in> set sample_feed. cmd_wire c" by code_simp
  moreover have "book_best_bid sample_book = Some (px 101, 8)"
    "book_best_ask sample_book = Some (px 102, 5)"
    by code_simp+
  ultimately show ?thesis
    using book_spread_mid [OF sample_ok _ sample_run] by (simp add: px_def i64_val_of_u32)
qed

text \<open>
  C19: every share is accounted for. What the levels hold together with what has traded never
  exceeds the quantity of the accepted orders, so no share executes twice and an order never
  trades more than it brought.
\<close>

theorem book_shares_accounted:
  assumes "feed_ok cs" and "book_run book_new cs = Some (b, rs)"
  shows "resting b + traded_all rs \<le> accepted_all cs rs"
  using spec_run_shares [of "[]" cs] book_resting_spec [OF book_run_inv(1) [OF assms]]
    book_run_inv(2) [OF assms]
  by simp

theorem book_shares_accounted_witness:
  "resting sample_book = 29 \<and> traded_all sample_replies = 10 \<and>
   resting sample_book + traded_all sample_replies \<le> accepted_all sample_feed sample_replies"
  by (intro conjI book_shares_accounted [OF sample_ok sample_run]; code_simp)

text \<open>
  C34: the slab does not leak. The number of live slots is the number of resting orders,
  which is also what \<open>len\<close> reports, and the slab never grows beyond the greatest number
  of orders that rested at once.
\<close>

theorem book_slab_bounded:
  assumes "feed_ok cs" and "book_run book_new cs = Some (b, rs)"
  shows "pool_live (bk_pool b) = length (fst (spec_run [] cs)) \<and>
    book_len b = pool_live (bk_pool b) \<and> pool_capacity_used (bk_pool b) \<le> peak [] cs"
proof -
  note inv = book_run_inv(1) [OF assms]
  have "pool_capacity_used (bk_pool b) \<le> max (pool_capacity_used (bk_pool book_new)) (peak [] cs)"
    using assms by (intro cap_run [OF book_inv_new]) (auto simp: feed_ok_def all_small_def)
  then show ?thesis
    by (simp add: book_pool_spec [OF inv] book_len_spec [OF inv] book_new_def pool_new_def
        pool_capacity_used_def)
qed

theorem book_slab_bounded_witness:
  "book_len sample_book = pool_live (bk_pool sample_book) \<and> peak [] sample_feed = 5 \<and>
   pool_capacity_used (bk_pool sample_book) \<le> 5"
proof -
  have "peak [] sample_feed = 5" by code_simp
  with book_slab_bounded [OF sample_ok sample_run] show ?thesis by simp
qed

text \<open>The orders a book holds, by id.\<close>

definition book_holds :: "book \<Rightarrow> order \<Rightarrow> bool" where
  "book_holds b x \<longleftrightarrow> x \<in> set (book_queue b (ord_side x) (ord_price x))"

lemma book_holds_spec: "book_inv b os \<Longrightarrow> book_holds b x \<longleftrightarrow> x \<in> set os"
  by (auto simp: book_holds_def book_queue_spec queue_at_def)

definition error_true :: "book \<Rightarrow> book_error \<Rightarrow> bool" where
  "error_true b e \<longleftrightarrow>
     (case e of
        UnknownOrder k \<Rightarrow> \<nexists>x. book_holds b x \<and> ord_id x = k
      | DuplicateOrder k \<Rightarrow> \<exists>x. book_holds b x \<and> ord_id x = k
      | OverExecute k want have_qty \<Rightarrow> have_qty < want \<and> (\<exists>x. book_holds b x \<and> ord_id x = k \<and> ord_qty x = have_qty)
      | OverCancel k want have_qty \<Rightarrow> have_qty < want \<and> (\<exists>x. book_holds b x \<and> ord_id x = k \<and> ord_qty x = have_qty))"

lemma spec_cmd_error:
  "spec_cmd os c = (os', Inl e) \<Longrightarrow> \<forall>old new p q ts. c \<noteq> Replace old new p q ts \<Longrightarrow>
   case e of
     UnknownOrder k \<Rightarrow> \<nexists>x. x \<in> set os \<and> ord_id x = k
   | DuplicateOrder k \<Rightarrow> \<exists>x. x \<in> set os \<and> ord_id x = k
   | OverExecute k want have_qty \<Rightarrow> have_qty < want \<and> (\<exists>x. x \<in> set os \<and> ord_id x = k \<and> ord_qty x = have_qty)
   | OverCancel k want have_qty \<Rightarrow> have_qty < want \<and> (\<exists>x. x \<in> set os \<and> ord_id x = k \<and> ord_qty x = have_qty)"
  by (cases c)
    (auto simp: spec_add_def spec_execute_def spec_cancel_def spec_delete_def lookup_id_None
      dest!: lookup_id_SomeD split: option.splits if_splits)

lemma reply_unit_error: "reply_unit m = Some (b, Inl e) \<longleftrightarrow> m = Some (b, Inl e)"
  by (cases m) (auto simp: reply_unit_def split: sum.splits)

lemma reply_trade_error: "reply_trade m = Some (b, Inl e) \<longleftrightarrow> m = Some (b, Inl e)"
  by (cases m) (auto simp: reply_trade_def split: sum.splits)

text \<open>
  C31: an error of any handler but \<open>replace\<close> leaves the book as it was, and its reason is
  true of that book: the id is absent, or already present, or the order has fewer shares than
  asked for, namely the number reported.
\<close>

theorem book_error_sound:
  assumes "feed_ok cs" and "book_run book_new cs = Some (b, rs)" and "length cs < unat NIL"
    and "cmd_small c" and "\<forall>old new p q ts. c \<noteq> Replace old new p q ts"
    and "book_apply b c = Some (b', Inl e)"
  shows "b' = b \<and> error_true b e"
proof -
  note inv = book_run_inv(1) [OF assms(1,2)]
  have "length (fst (spec_run [] cs)) < unat NIL"
    using length_spec_run [of "[]" cs] assms(3) by simp
  from book_apply_refines [OF inv feed_ok_small [OF assms(1)] assms(4) this] assms(6)
  obtain os' where s: "spec_cmd (fst (spec_run [] cs)) c = (os', Inl e)"
    by (auto simp: refines_def) (metis prod.collapse)
  have "error_true b e"
    using spec_cmd_error [OF s assms(5)]
    by (auto simp: error_true_def book_holds_spec [OF inv] split: book_error.splits)
  moreover have "b' = b"
    using assms(5,6)
    by (cases c) (auto simp: reply_unit_error reply_trade_error book_add_def book_execute_def
        book_execute_at_def book_execute_inner_def book_cancel_def book_delete_def Let_def
        split: option.splits if_splits sum.splits Option.bind_splits)
  ultimately show ?thesis by blast
qed

theorem book_error_sound_witness:
  "book_apply sample_book (Execute 6 8 1) = Some (sample_book, Inl (OverExecute 6 8 7)) \<and>
   error_true sample_book (OverExecute 6 8 7)"
proof -
  have "book_apply sample_book (Execute 6 8 1) = Some (sample_book, Inl (OverExecute 6 8 7))"
    by code_simp
  moreover have "length sample_feed < unat NIL" by (simp add: sample_feed_def unat_NIL)
  ultimately show ?thesis
    using book_error_sound [OF sample_ok sample_run, of "Execute 6 8 1"] by simp
qed

text \<open>
  C32: \<open>replace\<close> is not atomic. With a new id that belongs to another resting order it
  reports \<open>DuplicateOrder\<close>, but the order it was to replace is already gone.
\<close>

theorem book_replace_not_atomic:
  assumes "feed_ok cs" and "book_run book_new cs = Some (b, rs)" and "length cs < unat NIL"
    and "book_holds b x" and "book_holds b y" and "ord_id x \<noteq> ord_id y" and "small_qty q"
  shows "\<exists>b'. book_replace b (ord_id x) (ord_id y) p q ts = Some (b', Inl (DuplicateOrder (ord_id y))) \<and>
    (\<forall>s p. book_queue b' s p = remove_id (ord_id x) (book_queue b s p)) \<and>
    book_holds b x \<and> \<not> book_holds b' x"
proof -
  note inv = book_run_inv(1) [OF assms(1,2)]
  let ?os = "fst (spec_run [] cs)"
  from inv have d: "distinct (map ord_id ?os)" using rep_distinct unfolding book_inv_def by blast
  have x: "x \<in> set ?os" and y: "y \<in> set ?os"
    using assms(4,5) by (simp_all add: book_holds_spec [OF inv])
  have lx: "lookup_id ?os (ord_id x) = Some x" by (rule lookup_id_in [OF x d])
  have "y \<in> set (remove_id (ord_id x) ?os)" using y assms(6) by (simp add: remove_id_def)
  moreover have "distinct (map ord_id (remove_id (ord_id x) ?os))"
    using d by (simp add: remove_id_def distinct_map_filter)
  ultimately have ly: "lookup_id (remove_id (ord_id x) ?os) (ord_id y) = Some y"
    by (rule lookup_id_in)
  have "length ?os < unat NIL" using length_spec_run [of "[]" cs] assms(3) by simp
  then obtain b' r where r: "book_apply b (Replace (ord_id x) (ord_id y) p q ts) = Some (b', r)"
      "book_inv b' (remove_id (ord_id x) ?os)" "r = Inl (DuplicateOrder (ord_id y))"
    using book_apply_refines [OF inv feed_ok_small [OF assms(1)], of "Replace (ord_id x) (ord_id y) p q ts"]
      assms(7) lx ly by (auto simp: refines_def spec_replace_def spec_add_def)
  from r(1,3) have "book_replace b (ord_id x) (ord_id y) p q ts = Some (b', Inl (DuplicateOrder (ord_id y)))"
    by (simp add: reply_unit_error)
  moreover have "\<not> book_holds b' x" by (simp add: book_holds_spec [OF r(2)] remove_id_def)
  ultimately show ?thesis
    using assms(4) by (auto simp: book_queue_spec [OF inv] book_queue_spec [OF r(2)] queue_remove_id)
qed

theorem book_replace_not_atomic_witness:
  "\<exists>b'. book_replace sample_book 6 7 (px 99) 1 0 = Some (b', Inl (DuplicateOrder 7)) \<and>
     \<not> book_holds b' (bid_order 6 100 7)"
proof -
  have "bid_order 6 100 7 \<in> set sample_orders" "bid_order 7 100 3 \<in> set sample_orders"
    by (simp_all add: sample_orders_def)
  then have "book_holds sample_book (bid_order 6 100 7)" "book_holds sample_book (bid_order 7 100 3)"
    by (simp_all only: book_holds_spec [OF sample_inv])
  moreover have "length sample_feed < unat NIL" by (simp add: sample_feed_def unat_NIL)
  moreover have ids: "ord_id (bid_order 6 100 7) = 6" "ord_id (bid_order 7 100 3) = 7"
    by (simp_all add: bid_order_def)
  moreover have "small_qty 1" by (simp add: small_qty_def)
  ultimately have "\<exists>b'. book_replace sample_book (ord_id (bid_order 6 100 7)) (ord_id (bid_order 7 100 3))
        (px 99) 1 0 = Some (b', Inl (DuplicateOrder (ord_id (bid_order 7 100 3)))) \<and>
      (\<forall>s p. book_queue b' s p = remove_id (ord_id (bid_order 6 100 7)) (book_queue sample_book s p)) \<and>
      book_holds sample_book (bid_order 6 100 7) \<and> \<not> book_holds b' (bid_order 6 100 7)"
    by (intro book_replace_not_atomic [OF sample_ok sample_run]) simp_all
  then show ?thesis unfolding ids by blast
qed

end
