(* ===== verification/Zerocopy.thy ===== *)
theory Zerocopy
  imports Prelude
begin

text \<open>
  The \<open>zerocopy\<close> crate, which casts byte slices to the wire types of \<open>itch5\<close> and
  \<open>moldudp\<close>, is not part of the repository.  Its functions are a record of parameters; a
  type enters them only by its size, since every wire type is unaligned.  A cast gives the
  bytes the view covers; the layout of the fields in them is that of the \<open>repr(C)\<close>
  structs, and is modelled where the structs are.  \<open>zerocopy_ok\<close> states the documented
  behaviour, and \<open>zerocopy_std\<close> is a record that has it.
\<close>

record zerocopy =
  zc_ref_from_bytes :: "nat \<Rightarrow> bytes \<Rightarrow> bytes option"
  zc_ref_from_bytes_dst :: "nat \<Rightarrow> bytes \<Rightarrow> (bytes \<times> bytes) option"
  zc_ref_from_prefix :: "nat \<Rightarrow> bytes \<Rightarrow> (bytes \<times> bytes) option"
  zc_ref_from_prefix_with_elems :: "nat \<Rightarrow> bytes \<Rightarrow> nat \<Rightarrow> ((bytes \<times> bytes) \<times> bytes) option"
  zc_u16_get :: "bytes \<Rightarrow> u16"
  zc_u32_get :: "bytes \<Rightarrow> u32"
  zc_u64_get :: "bytes \<Rightarrow> u64"
  zc_u16_new :: "u16 \<Rightarrow> bytes"
  zc_u64_new :: "u64 \<Rightarrow> bytes"

text \<open>
  \<open>ref_from_bytes\<close> of a sized type demands its exact size; of a type with a slice tail,
  at least the size of the head, and the tail is the rest.  \<open>ref_from_prefix\<close> splits the
  value off the front; \<open>ref_from_prefix_with_elems\<close> does so for a given tail length.  The
  network-endian integers are big-endian.
\<close>

definition zerocopy_ok :: "zerocopy \<Rightarrow> bool" where
  "zerocopy_ok z \<longleftrightarrow>
     (\<forall>n bs. zc_ref_from_bytes z n bs = (if length bs = n then Some bs else None)) \<and>
     (\<forall>n bs. zc_ref_from_bytes_dst z n bs = split_at_checked bs n) \<and>
     (\<forall>n bs. zc_ref_from_prefix z n bs = split_at_checked bs n) \<and>
     (\<forall>n bs k. zc_ref_from_prefix_with_elems z n bs k =
        (if n + k \<le> length bs then Some ((take n bs, take k (drop n bs)), drop (n + k) bs) else None)) \<and>
     (\<forall>bs. zc_u16_get z bs = u16_from_be bs) \<and> (\<forall>bs. zc_u32_get z bs = u32_from_be bs) \<and>
     (\<forall>bs. zc_u64_get z bs = u64_from_be bs) \<and>
     (\<forall>w. zc_u16_new z w = u16_to_be w) \<and> (\<forall>w. zc_u64_new z w = u64_to_be w)"

definition zerocopy_std :: zerocopy where
  "zerocopy_std =
     \<lparr>zc_ref_from_bytes = (\<lambda>n bs. if length bs = n then Some bs else None),
      zc_ref_from_bytes_dst = (\<lambda>n bs. split_at_checked bs n),
      zc_ref_from_prefix = (\<lambda>n bs. split_at_checked bs n),
      zc_ref_from_prefix_with_elems = (\<lambda>n bs k.
        if n + k \<le> length bs then Some ((take n bs, take k (drop n bs)), drop (n + k) bs) else None),
      zc_u16_get = u16_from_be, zc_u32_get = u32_from_be, zc_u64_get = u64_from_be,
      zc_u16_new = u16_to_be, zc_u64_new = u64_to_be\<rparr>"

lemma zerocopy_std_ok: "zerocopy_ok zerocopy_std"
  by (simp add: zerocopy_ok_def zerocopy_std_def)

lemma zc_ref: "zerocopy_ok z \<Longrightarrow> zc_ref_from_bytes z n bs = (if length bs = n then Some bs else None)"
  by (simp add: zerocopy_ok_def)

lemma zc_dst: "zerocopy_ok z \<Longrightarrow> zc_ref_from_bytes_dst z n bs = split_at_checked bs n"
  by (simp add: zerocopy_ok_def)

lemma zc_prefix: "zerocopy_ok z \<Longrightarrow> zc_ref_from_prefix z n bs = split_at_checked bs n"
  by (simp add: zerocopy_ok_def)

lemma zc_prefix_elems:
  "zerocopy_ok z \<Longrightarrow> zc_ref_from_prefix_with_elems z n bs k =
     (if n + k \<le> length bs then Some ((take n bs, take k (drop n bs)), drop (n + k) bs) else None)"
  by (simp add: zerocopy_ok_def)

lemma zc_get:
  "zerocopy_ok z \<Longrightarrow> zc_u16_get z bs = u16_from_be bs"
  "zerocopy_ok z \<Longrightarrow> zc_u32_get z bs = u32_from_be bs"
  "zerocopy_ok z \<Longrightarrow> zc_u64_get z bs = u64_from_be bs"
  by (simp_all add: zerocopy_ok_def)

lemma zc_new:
  "zerocopy_ok z \<Longrightarrow> zc_u16_new z w = u16_to_be w"
  "zerocopy_ok z \<Longrightarrow> zc_u64_new z v = u64_to_be v"
  by (simp_all add: zerocopy_ok_def)

lemmas zc_simps = zc_ref zc_dst zc_prefix zc_prefix_elems zc_get zc_new

end
