(* ===== verification/Itch_Types.thy ===== *)
theory Itch_Types
  imports Zerocopy
begin

text \<open>
  The field types of the ITCH messages, \<open>itch5/src/messages.rs\<close> up to \<open>Symbol\<close>:
  prices, the 48-bit timestamp and the space-padded symbol, each a newtype over its wire
  bytes.  A \<open>str\<close> is the \<^typ>\<open>string\<close> of its UTF-8 bytes.  Conversions to floating
  point and to \<open>chrono\<close> types are not modelled.
\<close>

section \<open>Characters and bytes\<close>

definition ascii :: "char \<Rightarrow> u8" where
  "ascii c = of_char c"

definition ascii_bytes :: "string \<Rightarrow> bytes" where
  "ascii_bytes s = map ascii s"

definition byte_chars :: "bytes \<Rightarrow> string" where
  "byte_chars bs = map (\<lambda>b. char_of (unat b)) bs"

lemma unat_ascii: "unat (ascii c) = of_char c"
proof -
  have "(of_char c :: nat) < 256" by (rule nat_of_char_less_256)
  moreover have "(of_char c :: u8) = of_nat (of_char c)" by (simp only: of_nat_of_char)
  ultimately show ?thesis by (simp only: ascii_def unat_u8_of_nat mod_less)
qed

lemma byte_chars_ascii [simp]: "byte_chars (ascii_bytes s) = s"
  by (induction s) (simp_all add: byte_chars_def ascii_bytes_def unat_ascii)

lemma length_ascii_bytes [simp]: "length (ascii_bytes s) = length s"
  by (simp add: ascii_bytes_def)

text \<open>\<open>str::from_utf8\<close>: the byte strings that are well-formed UTF-8.\<close>

definition utf8_cont :: "u8 \<Rightarrow> bool" where
  "utf8_cont b \<longleftrightarrow> 0x80 \<le> b \<and> b \<le> 0xBF"

definition utf8_second :: "u8 \<Rightarrow> u8 \<Rightarrow> bool" where
  "utf8_second a b \<longleftrightarrow>
     (if a = 0xE0 then 0xA0 \<le> b \<and> b \<le> 0xBF
      else if a = 0xED then 0x80 \<le> b \<and> b \<le> 0x9F
      else if a = 0xF0 then 0x90 \<le> b \<and> b \<le> 0xBF
      else if a = 0xF4 then 0x80 \<le> b \<and> b \<le> 0x8F
      else utf8_cont b)"

fun utf8_valid :: "bytes \<Rightarrow> bool" where
  "utf8_valid [] = True"
| "utf8_valid (a # r) =
     (if a < 0x80 then utf8_valid r
      else if 0xC2 \<le> a \<and> a \<le> 0xDF then
        (case r of b # r' \<Rightarrow> utf8_cont b \<and> utf8_valid r' | _ \<Rightarrow> False)
      else if 0xE0 \<le> a \<and> a \<le> 0xEF then
        (case r of b # c # r' \<Rightarrow> utf8_second a b \<and> utf8_cont c \<and> utf8_valid r' | _ \<Rightarrow> False)
      else if 0xF0 \<le> a \<and> a \<le> 0xF4 then
        (case r of b # c # d # r' \<Rightarrow>
           utf8_second a b \<and> utf8_cont c \<and> utf8_cont d \<and> utf8_valid r' | _ \<Rightarrow> False)
      else False)"

definition from_utf8 :: "bytes \<Rightarrow> string option" where
  "from_utf8 bs = (if utf8_valid bs then Some (byte_chars bs) else None)"

lemma utf8_valid_ascii: "\<forall>b \<in> set bs. b < 0x80 \<Longrightarrow> utf8_valid bs"
  by (induction bs) auto

section \<open>Prices\<close>

datatype Price4 = Price4 (Price4_bytes: bytes)

definition Price4_into_u32 :: "Price4 \<Rightarrow> u32" where
  "Price4_into_u32 p = u32_from_be (Price4_bytes p)"

text \<open>\<open>self.into_u32() as i64\<close>, the value of a non-negative 64-bit integer.\<close>

definition Price4_into_i64 :: "Price4 \<Rightarrow> u64" where
  "Price4_into_i64 p = ucast (Price4_into_u32 p)"

datatype Price8 = Price8 (Price8_bytes: bytes)

definition Price8_into_u64 :: "Price8 \<Rightarrow> u64" where
  "Price8_into_u64 p = u64_from_be (Price8_bytes p)"

section \<open>Timestamps\<close>

datatype Timestamp = Timestamp (Timestamp_bytes: bytes)

text \<open>Nanoseconds since midnight: two zero bytes in front of the six of the wire.\<close>

definition Timestamp_to_u64 :: "Timestamp \<Rightarrow> u64" where
  "Timestamp_to_u64 t = u64_from_be ([0, 0] @ Timestamp_bytes t)"

definition Timestamp_to_secs_and_nanos :: "Timestamp \<Rightarrow> u64 \<times> u32" where
  "Timestamp_to_secs_and_nanos t =
     (let nanos = Timestamp_to_u64 t in (nanos div 1000000000, ucast (nanos mod 1000000000)))"

text \<open>\<open>Duration::new\<close> carries whole seconds out of the nanoseconds and panics on overflow.\<close>

definition duration_new :: "u64 \<Rightarrow> u32 \<Rightarrow> (u64 \<times> u32) run" where
  "duration_new secs nanos =
     (let carry = ucast (nanos div 1000000000)
      in if unat secs + unat (carry :: u64) < 2 ^ 64
         then Some (secs + carry, nanos mod 1000000000) else panic)"

definition Timestamp_to_dur :: "Timestamp \<Rightarrow> (u64 \<times> u32) run" where
  "Timestamp_to_dur t = (let (secs, nanos) = Timestamp_to_secs_and_nanos t in duration_new secs nanos)"

section \<open>Symbols\<close>

datatype Symbol = Symbol (Symbol_bytes: bytes)

definition Symbol_to_u64 :: "Symbol \<Rightarrow> u64" where
  "Symbol_to_u64 s = u64_from_be (Symbol_bytes s)"

definition Symbol_from_u64 :: "u64 \<Rightarrow> Symbol" where
  "Symbol_from_u64 h = Symbol (u64_to_be h)"

definition Symbol_as_str :: "Symbol \<Rightarrow> string" where
  "Symbol_as_str s = (case from_utf8 (Symbol_bytes s) of None \<Rightarrow> ''unknown'' | Some t \<Rightarrow> t)"

text \<open>
  \<open>FromStr\<close>: the first argument is \<open>str::to_uppercase\<close>, which follows the Unicode
  tables.
\<close>

definition Symbol_from_str :: "(string \<Rightarrow> string) \<Rightarrow> string \<Rightarrow> string + Symbol" where
  "Symbol_from_str to_uppercase s =
     (if s = [] then Inl ''empty input''
      else let arr = replicate 8 (ascii CHR '' '');
               bs = ascii_bytes (to_uppercase s);
               n = min (length bs) 8
           in Inr (Symbol (take n bs @ drop n arr)))"

text \<open>What \<open>to_uppercase\<close> does to ASCII text.\<close>

definition ascii_upper :: "char \<Rightarrow> char" where
  "ascii_upper c = (if 97 \<le> (of_char c :: nat) \<and> (of_char c :: nat) \<le> 122 then char_of ((of_char c :: nat) - 32) else c)"

definition ascii_text :: "string \<Rightarrow> bool" where
  "ascii_text s \<longleftrightarrow> (\<forall>c \<in> set s. (of_char c :: nat) < 128)"

definition uppercase_ok :: "(string \<Rightarrow> string) \<Rightarrow> bool" where
  "uppercase_ok up \<longleftrightarrow> (\<forall>s. ascii_text s \<longrightarrow> up s = map ascii_upper s)"

text \<open>The eight bytes a symbol has on the wire.\<close>

definition wire_symbol :: "string \<Rightarrow> Symbol" where
  "wire_symbol s = Symbol (ascii_bytes (s @ replicate (8 - length s) CHR '' ''))"

section \<open>Lemmas\<close>

lemma Symbol_from_str_ascii:
  assumes "uppercase_ok up" and "ascii_text s" and "s \<noteq> []"
  shows "Symbol_from_str up s = Inr (wire_symbol (take 8 (map ascii_upper s)))"
proof -
  have [simp]: "up s = map ascii_upper s" using assms by (simp add: uppercase_ok_def)
  let ?bs = "ascii_bytes (map ascii_upper s)"
  have "take (min (length ?bs) 8) ?bs = ascii_bytes (take 8 (map ascii_upper s))"
    by (simp add: ascii_bytes_def take_map min_def)
  moreover have "drop (min (length ?bs) 8) (replicate 8 (ascii CHR '' '')) =
      ascii_bytes (replicate (8 - length (take 8 (map ascii_upper s))) CHR '' '')"
    by (simp add: ascii_bytes_def)
  ultimately show ?thesis
    using assms(3) by (simp add: Symbol_from_str_def wire_symbol_def Let_def ascii_bytes_def)
qed

lemma Timestamp_bound:
  assumes "length (Timestamp_bytes t) = 6"
  shows "unat (Timestamp_to_u64 t) = be_nat (Timestamp_bytes t)"
    and "be_nat (Timestamp_bytes t) < 2 ^ 48"
proof -
  have z: "be_nat ([0, 0] @ bs) = be_nat bs" for bs by (simp add: be_nat_def)
  show "unat (Timestamp_to_u64 t) = be_nat (Timestamp_bytes t)"
    using assms unat_from_be(3) [of "[0, 0] @ Timestamp_bytes t"]
    unfolding Timestamp_to_u64_def z by simp
  show "be_nat (Timestamp_bytes t) < 2 ^ 48" using be_nat_less [of "Timestamp_bytes t"] assms by simp
qed

lemma unat_ucast_mod: "unat (ucast (w mod 1000000000 :: u64) :: u32) = unat w mod 1000000000"
proof -
  have m: "unat (w mod 1000000000) = unat w mod 1000000000" by (simp add: unat_mod_distrib)
  have "unat w mod 1000000000 < 2 ^ 32" by (rule less_trans [of _ 1000000000]) simp_all
  then show ?thesis by (simp add: unsigned_ucast_eq take_bit_nat_eq_self m)
qed

end
