(* ===== verification/Itch_Enums.thy ===== *)
theory Itch_Enums
  imports Itch_Types
begin

text \<open>
  The enumerations of \<open>itch5/src/messages.rs\<close>: for each, its variants, \<open>from_byte\<close>
  or \<open>from_bytes\<close> (\<open>From<u8>\<close> is the same function), and the wire code declared for a variant:
  its explicit discriminant in the 27 \<open>repr(u8)\<close> enums, the code in the variant's comment in
  the two reason enums; \<open>Unknown\<close> declares none, and \<open>IssueSubTypeCode\<close> declares none at
  all.  The locale \<open>wire_enum\<close> says what a decoder owes to the declarations, and the 29 enums
  that have them interpret it.
\<close>

section \<open>Wire codes\<close>

lemma of_nat_u8_inject: "m < 256 \<Longrightarrow> n < 256 \<Longrightarrow> (of_nat m :: u8) = of_nat n \<longleftrightarrow> m = n"
  by (metis mod_less unat_u8_of_nat)

lemma ascii_inject [simp]: "ascii c = ascii d \<longleftrightarrow> c = d"
proof
  assume "ascii c = ascii d"
  then have "(of_char c :: nat) = of_char d" by (metis unat_ascii)
  then show "c = d" by simp
qed simp

lemma ascii_bytes_inject [simp]: "ascii_bytes s = ascii_bytes t \<longleftrightarrow> s = t"
  unfolding ascii_bytes_def by (rule inj_map_eq_map) (simp add: inj_def)

text \<open>
  A decoder agrees with the codes an enum declares when a code decodes to the variant it is declared
  for, and any other code to \<open>Unknown\<close> with the code kept; then it loses nothing.
\<close>

definition decodes_as :: "('w \<Rightarrow> 'e) \<Rightarrow> ('e \<Rightarrow> 'w option) \<Rightarrow> ('w \<Rightarrow> 'e) \<Rightarrow> bool" where
  "decodes_as decode declared unknown \<longleftrightarrow> inj decode \<and>
     (\<forall>w v. decode w = v \<longleftrightarrow> declared v = Some w \<or> v = unknown w \<and> (\<forall>u. declared u \<noteq> Some w))"

locale wire_enum =
  fixes decode :: "'w \<Rightarrow> 'e" and declared :: "'e \<Rightarrow> 'w option" and unknown :: "'w \<Rightarrow> 'e"
  assumes decode_declared: "declared v = Some w \<Longrightarrow> decode w = v"
    and decode_total: "declared (decode w) = Some w \<or> decode w = unknown w"
    and unknown_undeclared: "declared (unknown w) = None"
    and unknown_inject: "unknown u = unknown w \<Longrightarrow> u = w"
begin

lemma decode_iff: "decode w = v \<longleftrightarrow> declared v = Some w \<or> v = unknown w \<and> (\<forall>u. declared u \<noteq> Some w)"
  by (metis decode_declared decode_total unknown_undeclared option.distinct(1))

lemma decode_inject: "decode u = decode w \<longleftrightarrow> u = w"
  by (metis decode_total unknown_undeclared unknown_inject option.distinct(1) option.inject)

lemma decodes: "decodes_as decode declared unknown"
  using decode_iff decode_inject by (simp add: decodes_as_def inj_def)

end

section \<open>The enumerations\<close>

datatype (plugins only: code size) SystemEventCode =
    SystemEventCode_StartOfMessages
  | SystemEventCode_StartOfSystemHours
  | SystemEventCode_StartOfMarketHours
  | SystemEventCode_EndOfMarketHours
  | SystemEventCode_EndOfSystemHours
  | SystemEventCode_EndOfMessages
  | SystemEventCode_Unknown u8

definition SystemEventCode_from_byte :: "u8 \<Rightarrow> SystemEventCode" where
  "SystemEventCode_from_byte b =
   (if b = ascii CHR ''O'' then SystemEventCode_StartOfMessages
    else if b = ascii CHR ''S'' then SystemEventCode_StartOfSystemHours
    else if b = ascii CHR ''Q'' then SystemEventCode_StartOfMarketHours
    else if b = ascii CHR ''M'' then SystemEventCode_EndOfMarketHours
    else if b = ascii CHR ''E'' then SystemEventCode_EndOfSystemHours
    else if b = ascii CHR ''C'' then SystemEventCode_EndOfMessages
    else SystemEventCode_Unknown b)"

fun SystemEventCode_discriminant :: "SystemEventCode \<Rightarrow> u8 option" where
  "SystemEventCode_discriminant SystemEventCode_StartOfMessages = Some (ascii CHR ''O'')"
| "SystemEventCode_discriminant SystemEventCode_StartOfSystemHours = Some (ascii CHR ''S'')"
| "SystemEventCode_discriminant SystemEventCode_StartOfMarketHours = Some (ascii CHR ''Q'')"
| "SystemEventCode_discriminant SystemEventCode_EndOfMarketHours = Some (ascii CHR ''M'')"
| "SystemEventCode_discriminant SystemEventCode_EndOfSystemHours = Some (ascii CHR ''E'')"
| "SystemEventCode_discriminant SystemEventCode_EndOfMessages = Some (ascii CHR ''C'')"
| "SystemEventCode_discriminant (SystemEventCode_Unknown b) = None"

interpretation system_event_code:
  wire_enum SystemEventCode_from_byte SystemEventCode_discriminant SystemEventCode_Unknown
proof
  show "SystemEventCode_from_byte w = v" if "SystemEventCode_discriminant v = Some w" for v w
    using that by (cases v) (auto simp: SystemEventCode_from_byte_def)
  show "SystemEventCode_discriminant (SystemEventCode_from_byte w) = Some w \<or> SystemEventCode_from_byte w = SystemEventCode_Unknown w" for w
    by (simp add: SystemEventCode_from_byte_def)
qed simp_all

datatype (plugins only: code size) MarketCategory =
    MarketCategory_NasdaqGlobalSelectMarket
  | MarketCategory_NasdaqGlobalMarket
  | MarketCategory_NasdaqCapitalMarket
  | MarketCategory_NYSE
  | MarketCategory_NYSEAmerican
  | MarketCategory_NYSEArca
  | MarketCategory_BATSZExchange
  | MarketCategory_InvestorsExchangeLLC
  | MarketCategory_NotAvailable
  | MarketCategory_Unknown u8

definition MarketCategory_from_byte :: "u8 \<Rightarrow> MarketCategory" where
  "MarketCategory_from_byte b =
   (if b = ascii CHR ''Q'' then MarketCategory_NasdaqGlobalSelectMarket
    else if b = ascii CHR ''G'' then MarketCategory_NasdaqGlobalMarket
    else if b = ascii CHR ''S'' then MarketCategory_NasdaqCapitalMarket
    else if b = ascii CHR ''N'' then MarketCategory_NYSE
    else if b = ascii CHR ''A'' then MarketCategory_NYSEAmerican
    else if b = ascii CHR ''P'' then MarketCategory_NYSEArca
    else if b = ascii CHR ''Z'' then MarketCategory_BATSZExchange
    else if b = ascii CHR ''V'' then MarketCategory_InvestorsExchangeLLC
    else if b = ascii CHR '' '' then MarketCategory_NotAvailable
    else MarketCategory_Unknown b)"

fun MarketCategory_discriminant :: "MarketCategory \<Rightarrow> u8 option" where
  "MarketCategory_discriminant MarketCategory_NasdaqGlobalSelectMarket = Some (ascii CHR ''Q'')"
| "MarketCategory_discriminant MarketCategory_NasdaqGlobalMarket = Some (ascii CHR ''G'')"
| "MarketCategory_discriminant MarketCategory_NasdaqCapitalMarket = Some (ascii CHR ''S'')"
| "MarketCategory_discriminant MarketCategory_NYSE = Some (ascii CHR ''N'')"
| "MarketCategory_discriminant MarketCategory_NYSEAmerican = Some (ascii CHR ''A'')"
| "MarketCategory_discriminant MarketCategory_NYSEArca = Some (ascii CHR ''P'')"
| "MarketCategory_discriminant MarketCategory_BATSZExchange = Some (ascii CHR ''Z'')"
| "MarketCategory_discriminant MarketCategory_InvestorsExchangeLLC = Some (ascii CHR ''V'')"
| "MarketCategory_discriminant MarketCategory_NotAvailable = Some (ascii CHR '' '')"
| "MarketCategory_discriminant (MarketCategory_Unknown b) = None"

interpretation market_category:
  wire_enum MarketCategory_from_byte MarketCategory_discriminant MarketCategory_Unknown
proof
  show "MarketCategory_from_byte w = v" if "MarketCategory_discriminant v = Some w" for v w
    using that by (cases v) (auto simp: MarketCategory_from_byte_def)
  show "MarketCategory_discriminant (MarketCategory_from_byte w) = Some w \<or> MarketCategory_from_byte w = MarketCategory_Unknown w" for w
    by (simp add: MarketCategory_from_byte_def)
qed simp_all

datatype (plugins only: code size) FinancialStatusIndicator =
    FinancialStatusIndicator_Deficient
  | FinancialStatusIndicator_Delinquent
  | FinancialStatusIndicator_Bankrupt
  | FinancialStatusIndicator_Suspended
  | FinancialStatusIndicator_DeficientBankrupt
  | FinancialStatusIndicator_DeficientDelinquent
  | FinancialStatusIndicator_DelinquentBankrupt
  | FinancialStatusIndicator_DeficientDelinquentBankrupt
  | FinancialStatusIndicator_CreationsRedemptionsSuspendedETP
  | FinancialStatusIndicator_Normal
  | FinancialStatusIndicator_Unknown u8

definition FinancialStatusIndicator_from_byte :: "u8 \<Rightarrow> FinancialStatusIndicator" where
  "FinancialStatusIndicator_from_byte b =
   (if b = ascii CHR ''D'' then FinancialStatusIndicator_Deficient
    else if b = ascii CHR ''E'' then FinancialStatusIndicator_Delinquent
    else if b = ascii CHR ''Q'' then FinancialStatusIndicator_Bankrupt
    else if b = ascii CHR ''S'' then FinancialStatusIndicator_Suspended
    else if b = ascii CHR ''G'' then FinancialStatusIndicator_DeficientBankrupt
    else if b = ascii CHR ''H'' then FinancialStatusIndicator_DeficientDelinquent
    else if b = ascii CHR ''J'' then FinancialStatusIndicator_DelinquentBankrupt
    else if b = ascii CHR ''K'' then FinancialStatusIndicator_DeficientDelinquentBankrupt
    else if b = ascii CHR ''C'' then FinancialStatusIndicator_CreationsRedemptionsSuspendedETP
    else if b = ascii CHR ''N'' then FinancialStatusIndicator_Normal
    else FinancialStatusIndicator_Unknown b)"

fun FinancialStatusIndicator_discriminant :: "FinancialStatusIndicator \<Rightarrow> u8 option" where
  "FinancialStatusIndicator_discriminant FinancialStatusIndicator_Deficient = Some (ascii CHR ''D'')"
| "FinancialStatusIndicator_discriminant FinancialStatusIndicator_Delinquent = Some (ascii CHR ''E'')"
| "FinancialStatusIndicator_discriminant FinancialStatusIndicator_Bankrupt = Some (ascii CHR ''Q'')"
| "FinancialStatusIndicator_discriminant FinancialStatusIndicator_Suspended = Some (ascii CHR ''S'')"
| "FinancialStatusIndicator_discriminant FinancialStatusIndicator_DeficientBankrupt = Some (ascii CHR ''G'')"
| "FinancialStatusIndicator_discriminant FinancialStatusIndicator_DeficientDelinquent = Some (ascii CHR ''H'')"
| "FinancialStatusIndicator_discriminant FinancialStatusIndicator_DelinquentBankrupt = Some (ascii CHR ''J'')"
| "FinancialStatusIndicator_discriminant FinancialStatusIndicator_DeficientDelinquentBankrupt = Some (ascii CHR ''K'')"
| "FinancialStatusIndicator_discriminant FinancialStatusIndicator_CreationsRedemptionsSuspendedETP = Some (ascii CHR ''C'')"
| "FinancialStatusIndicator_discriminant FinancialStatusIndicator_Normal = Some (ascii CHR ''N'')"
| "FinancialStatusIndicator_discriminant (FinancialStatusIndicator_Unknown b) = None"

interpretation financial_status_indicator:
  wire_enum FinancialStatusIndicator_from_byte FinancialStatusIndicator_discriminant FinancialStatusIndicator_Unknown
proof
  show "FinancialStatusIndicator_from_byte w = v" if "FinancialStatusIndicator_discriminant v = Some w" for v w
    using that by (cases v) (auto simp: FinancialStatusIndicator_from_byte_def)
  show "FinancialStatusIndicator_discriminant (FinancialStatusIndicator_from_byte w) = Some w \<or> FinancialStatusIndicator_from_byte w = FinancialStatusIndicator_Unknown w" for w
    by (simp add: FinancialStatusIndicator_from_byte_def)
qed simp_all

datatype (plugins only: code size) RoundLotsOnly =
    RoundLotsOnly_Yes
  | RoundLotsOnly_No
  | RoundLotsOnly_Unknown u8

definition RoundLotsOnly_from_byte :: "u8 \<Rightarrow> RoundLotsOnly" where
  "RoundLotsOnly_from_byte b =
   (if b = ascii CHR ''Y'' then RoundLotsOnly_Yes
    else if b = ascii CHR ''N'' then RoundLotsOnly_No
    else RoundLotsOnly_Unknown b)"

fun RoundLotsOnly_discriminant :: "RoundLotsOnly \<Rightarrow> u8 option" where
  "RoundLotsOnly_discriminant RoundLotsOnly_Yes = Some (ascii CHR ''Y'')"
| "RoundLotsOnly_discriminant RoundLotsOnly_No = Some (ascii CHR ''N'')"
| "RoundLotsOnly_discriminant (RoundLotsOnly_Unknown b) = None"

interpretation round_lots_only:
  wire_enum RoundLotsOnly_from_byte RoundLotsOnly_discriminant RoundLotsOnly_Unknown
proof
  show "RoundLotsOnly_from_byte w = v" if "RoundLotsOnly_discriminant v = Some w" for v w
    using that by (cases v) (auto simp: RoundLotsOnly_from_byte_def)
  show "RoundLotsOnly_discriminant (RoundLotsOnly_from_byte w) = Some w \<or> RoundLotsOnly_from_byte w = RoundLotsOnly_Unknown w" for w
    by (simp add: RoundLotsOnly_from_byte_def)
qed simp_all

datatype (plugins only: code size) Authenticity =
    Authenticity_LiveProduction
  | Authenticity_Test
  | Authenticity_Unknown u8

definition Authenticity_from_byte :: "u8 \<Rightarrow> Authenticity" where
  "Authenticity_from_byte b =
   (if b = ascii CHR ''P'' then Authenticity_LiveProduction
    else if b = ascii CHR ''T'' then Authenticity_Test
    else Authenticity_Unknown b)"

fun Authenticity_discriminant :: "Authenticity \<Rightarrow> u8 option" where
  "Authenticity_discriminant Authenticity_LiveProduction = Some (ascii CHR ''P'')"
| "Authenticity_discriminant Authenticity_Test = Some (ascii CHR ''T'')"
| "Authenticity_discriminant (Authenticity_Unknown b) = None"

interpretation authenticity:
  wire_enum Authenticity_from_byte Authenticity_discriminant Authenticity_Unknown
proof
  show "Authenticity_from_byte w = v" if "Authenticity_discriminant v = Some w" for v w
    using that by (cases v) (auto simp: Authenticity_from_byte_def)
  show "Authenticity_discriminant (Authenticity_from_byte w) = Some w \<or> Authenticity_from_byte w = Authenticity_Unknown w" for w
    by (simp add: Authenticity_from_byte_def)
qed simp_all

datatype (plugins only: code size) ShortSaleThresholdIndicator =
    ShortSaleThresholdIndicator_Restricted
  | ShortSaleThresholdIndicator_NotRestricted
  | ShortSaleThresholdIndicator_NotAvailable
  | ShortSaleThresholdIndicator_Unknown u8

definition ShortSaleThresholdIndicator_from_byte :: "u8 \<Rightarrow> ShortSaleThresholdIndicator" where
  "ShortSaleThresholdIndicator_from_byte b =
   (if b = ascii CHR ''Y'' then ShortSaleThresholdIndicator_Restricted
    else if b = ascii CHR ''N'' then ShortSaleThresholdIndicator_NotRestricted
    else if b = ascii CHR '' '' then ShortSaleThresholdIndicator_NotAvailable
    else ShortSaleThresholdIndicator_Unknown b)"

fun ShortSaleThresholdIndicator_discriminant :: "ShortSaleThresholdIndicator \<Rightarrow> u8 option" where
  "ShortSaleThresholdIndicator_discriminant ShortSaleThresholdIndicator_Restricted = Some (ascii CHR ''Y'')"
| "ShortSaleThresholdIndicator_discriminant ShortSaleThresholdIndicator_NotRestricted = Some (ascii CHR ''N'')"
| "ShortSaleThresholdIndicator_discriminant ShortSaleThresholdIndicator_NotAvailable = Some (ascii CHR '' '')"
| "ShortSaleThresholdIndicator_discriminant (ShortSaleThresholdIndicator_Unknown b) = None"

interpretation short_sale_threshold_indicator:
  wire_enum ShortSaleThresholdIndicator_from_byte ShortSaleThresholdIndicator_discriminant ShortSaleThresholdIndicator_Unknown
proof
  show "ShortSaleThresholdIndicator_from_byte w = v" if "ShortSaleThresholdIndicator_discriminant v = Some w" for v w
    using that by (cases v) (auto simp: ShortSaleThresholdIndicator_from_byte_def)
  show "ShortSaleThresholdIndicator_discriminant (ShortSaleThresholdIndicator_from_byte w) = Some w \<or> ShortSaleThresholdIndicator_from_byte w = ShortSaleThresholdIndicator_Unknown w" for w
    by (simp add: ShortSaleThresholdIndicator_from_byte_def)
qed simp_all

datatype (plugins only: code size) IpoFlag =
    IpoFlag_NewIPO
  | IpoFlag_NotNewIPO
  | IpoFlag_NotAvailable
  | IpoFlag_Unknown u8

definition IpoFlag_from_byte :: "u8 \<Rightarrow> IpoFlag" where
  "IpoFlag_from_byte b =
   (if b = ascii CHR ''Y'' then IpoFlag_NewIPO
    else if b = ascii CHR ''N'' then IpoFlag_NotNewIPO
    else if b = ascii CHR '' '' then IpoFlag_NotAvailable
    else IpoFlag_Unknown b)"

fun IpoFlag_discriminant :: "IpoFlag \<Rightarrow> u8 option" where
  "IpoFlag_discriminant IpoFlag_NewIPO = Some (ascii CHR ''Y'')"
| "IpoFlag_discriminant IpoFlag_NotNewIPO = Some (ascii CHR ''N'')"
| "IpoFlag_discriminant IpoFlag_NotAvailable = Some (ascii CHR '' '')"
| "IpoFlag_discriminant (IpoFlag_Unknown b) = None"

interpretation ipo_flag:
  wire_enum IpoFlag_from_byte IpoFlag_discriminant IpoFlag_Unknown
proof
  show "IpoFlag_from_byte w = v" if "IpoFlag_discriminant v = Some w" for v w
    using that by (cases v) (auto simp: IpoFlag_from_byte_def)
  show "IpoFlag_discriminant (IpoFlag_from_byte w) = Some w \<or> IpoFlag_from_byte w = IpoFlag_Unknown w" for w
    by (simp add: IpoFlag_from_byte_def)
qed simp_all

datatype (plugins only: code size) LuldReferencePriceTier =
    LuldReferencePriceTier_Tier1
  | LuldReferencePriceTier_Tier2
  | LuldReferencePriceTier_NotAvailable
  | LuldReferencePriceTier_Unknown u8

definition LuldReferencePriceTier_from_byte :: "u8 \<Rightarrow> LuldReferencePriceTier" where
  "LuldReferencePriceTier_from_byte b =
   (if b = ascii CHR ''1'' then LuldReferencePriceTier_Tier1
    else if b = ascii CHR ''2'' then LuldReferencePriceTier_Tier2
    else if b = ascii CHR '' '' then LuldReferencePriceTier_NotAvailable
    else LuldReferencePriceTier_Unknown b)"

fun LuldReferencePriceTier_discriminant :: "LuldReferencePriceTier \<Rightarrow> u8 option" where
  "LuldReferencePriceTier_discriminant LuldReferencePriceTier_Tier1 = Some (ascii CHR ''1'')"
| "LuldReferencePriceTier_discriminant LuldReferencePriceTier_Tier2 = Some (ascii CHR ''2'')"
| "LuldReferencePriceTier_discriminant LuldReferencePriceTier_NotAvailable = Some (ascii CHR '' '')"
| "LuldReferencePriceTier_discriminant (LuldReferencePriceTier_Unknown b) = None"

interpretation luld_reference_price_tier:
  wire_enum LuldReferencePriceTier_from_byte LuldReferencePriceTier_discriminant LuldReferencePriceTier_Unknown
proof
  show "LuldReferencePriceTier_from_byte w = v" if "LuldReferencePriceTier_discriminant v = Some w" for v w
    using that by (cases v) (auto simp: LuldReferencePriceTier_from_byte_def)
  show "LuldReferencePriceTier_discriminant (LuldReferencePriceTier_from_byte w) = Some w \<or> LuldReferencePriceTier_from_byte w = LuldReferencePriceTier_Unknown w" for w
    by (simp add: LuldReferencePriceTier_from_byte_def)
qed simp_all

datatype (plugins only: code size) EtpFlag =
    EtpFlag_IsETP
  | EtpFlag_NotETP
  | EtpFlag_NotAvailable
  | EtpFlag_Unknown u8

definition EtpFlag_from_byte :: "u8 \<Rightarrow> EtpFlag" where
  "EtpFlag_from_byte b =
   (if b = ascii CHR ''Y'' then EtpFlag_IsETP
    else if b = ascii CHR ''N'' then EtpFlag_NotETP
    else if b = ascii CHR '' '' then EtpFlag_NotAvailable
    else EtpFlag_Unknown b)"

fun EtpFlag_discriminant :: "EtpFlag \<Rightarrow> u8 option" where
  "EtpFlag_discriminant EtpFlag_IsETP = Some (ascii CHR ''Y'')"
| "EtpFlag_discriminant EtpFlag_NotETP = Some (ascii CHR ''N'')"
| "EtpFlag_discriminant EtpFlag_NotAvailable = Some (ascii CHR '' '')"
| "EtpFlag_discriminant (EtpFlag_Unknown b) = None"

interpretation etp_flag:
  wire_enum EtpFlag_from_byte EtpFlag_discriminant EtpFlag_Unknown
proof
  show "EtpFlag_from_byte w = v" if "EtpFlag_discriminant v = Some w" for v w
    using that by (cases v) (auto simp: EtpFlag_from_byte_def)
  show "EtpFlag_discriminant (EtpFlag_from_byte w) = Some w \<or> EtpFlag_from_byte w = EtpFlag_Unknown w" for w
    by (simp add: EtpFlag_from_byte_def)
qed simp_all

datatype (plugins only: code size) InverseIndicator =
    InverseIndicator_Inverse
  | InverseIndicator_NotInverse
  | InverseIndicator_Unknown u8

definition InverseIndicator_from_byte :: "u8 \<Rightarrow> InverseIndicator" where
  "InverseIndicator_from_byte b =
   (if b = ascii CHR ''Y'' then InverseIndicator_Inverse
    else if b = ascii CHR ''N'' then InverseIndicator_NotInverse
    else InverseIndicator_Unknown b)"

fun InverseIndicator_discriminant :: "InverseIndicator \<Rightarrow> u8 option" where
  "InverseIndicator_discriminant InverseIndicator_Inverse = Some (ascii CHR ''Y'')"
| "InverseIndicator_discriminant InverseIndicator_NotInverse = Some (ascii CHR ''N'')"
| "InverseIndicator_discriminant (InverseIndicator_Unknown b) = None"

interpretation inverse_indicator:
  wire_enum InverseIndicator_from_byte InverseIndicator_discriminant InverseIndicator_Unknown
proof
  show "InverseIndicator_from_byte w = v" if "InverseIndicator_discriminant v = Some w" for v w
    using that by (cases v) (auto simp: InverseIndicator_from_byte_def)
  show "InverseIndicator_discriminant (InverseIndicator_from_byte w) = Some w \<or> InverseIndicator_from_byte w = InverseIndicator_Unknown w" for w
    by (simp add: InverseIndicator_from_byte_def)
qed simp_all

datatype (plugins only: code size) TradingState =
    TradingState_Halted
  | TradingState_Paused
  | TradingState_QuotationOnly
  | TradingState_Trading
  | TradingState_Unknown u8

definition TradingState_from_byte :: "u8 \<Rightarrow> TradingState" where
  "TradingState_from_byte b =
   (if b = ascii CHR ''H'' then TradingState_Halted
    else if b = ascii CHR ''P'' then TradingState_Paused
    else if b = ascii CHR ''Q'' then TradingState_QuotationOnly
    else if b = ascii CHR ''T'' then TradingState_Trading
    else TradingState_Unknown b)"

fun TradingState_discriminant :: "TradingState \<Rightarrow> u8 option" where
  "TradingState_discriminant TradingState_Halted = Some (ascii CHR ''H'')"
| "TradingState_discriminant TradingState_Paused = Some (ascii CHR ''P'')"
| "TradingState_discriminant TradingState_QuotationOnly = Some (ascii CHR ''Q'')"
| "TradingState_discriminant TradingState_Trading = Some (ascii CHR ''T'')"
| "TradingState_discriminant (TradingState_Unknown b) = None"

interpretation trading_state:
  wire_enum TradingState_from_byte TradingState_discriminant TradingState_Unknown
proof
  show "TradingState_from_byte w = v" if "TradingState_discriminant v = Some w" for v w
    using that by (cases v) (auto simp: TradingState_from_byte_def)
  show "TradingState_discriminant (TradingState_from_byte w) = Some w \<or> TradingState_from_byte w = TradingState_Unknown w" for w
    by (simp add: TradingState_from_byte_def)
qed simp_all

datatype (plugins only: code size) RegShoAction =
    RegShoAction_NoPriceTest
  | RegShoAction_RestrictionInEffectIntradayDrop
  | RegShoAction_RestrictionRemainsInEffect
  | RegShoAction_Unknown u8

definition RegShoAction_from_byte :: "u8 \<Rightarrow> RegShoAction" where
  "RegShoAction_from_byte b =
   (if b = ascii CHR ''0'' then RegShoAction_NoPriceTest
    else if b = ascii CHR ''1'' then RegShoAction_RestrictionInEffectIntradayDrop
    else if b = ascii CHR ''2'' then RegShoAction_RestrictionRemainsInEffect
    else RegShoAction_Unknown b)"

fun RegShoAction_discriminant :: "RegShoAction \<Rightarrow> u8 option" where
  "RegShoAction_discriminant RegShoAction_NoPriceTest = Some (ascii CHR ''0'')"
| "RegShoAction_discriminant RegShoAction_RestrictionInEffectIntradayDrop = Some (ascii CHR ''1'')"
| "RegShoAction_discriminant RegShoAction_RestrictionRemainsInEffect = Some (ascii CHR ''2'')"
| "RegShoAction_discriminant (RegShoAction_Unknown b) = None"

interpretation reg_sho_action:
  wire_enum RegShoAction_from_byte RegShoAction_discriminant RegShoAction_Unknown
proof
  show "RegShoAction_from_byte w = v" if "RegShoAction_discriminant v = Some w" for v w
    using that by (cases v) (auto simp: RegShoAction_from_byte_def)
  show "RegShoAction_discriminant (RegShoAction_from_byte w) = Some w \<or> RegShoAction_from_byte w = RegShoAction_Unknown w" for w
    by (simp add: RegShoAction_from_byte_def)
qed simp_all

datatype (plugins only: code size) PrimaryMarketMaker =
    PrimaryMarketMaker_Primary
  | PrimaryMarketMaker_NonPrimary
  | PrimaryMarketMaker_Unknown u8

definition PrimaryMarketMaker_from_byte :: "u8 \<Rightarrow> PrimaryMarketMaker" where
  "PrimaryMarketMaker_from_byte b =
   (if b = ascii CHR ''Y'' then PrimaryMarketMaker_Primary
    else if b = ascii CHR ''N'' then PrimaryMarketMaker_NonPrimary
    else PrimaryMarketMaker_Unknown b)"

fun PrimaryMarketMaker_discriminant :: "PrimaryMarketMaker \<Rightarrow> u8 option" where
  "PrimaryMarketMaker_discriminant PrimaryMarketMaker_Primary = Some (ascii CHR ''Y'')"
| "PrimaryMarketMaker_discriminant PrimaryMarketMaker_NonPrimary = Some (ascii CHR ''N'')"
| "PrimaryMarketMaker_discriminant (PrimaryMarketMaker_Unknown b) = None"

interpretation primary_market_maker:
  wire_enum PrimaryMarketMaker_from_byte PrimaryMarketMaker_discriminant PrimaryMarketMaker_Unknown
proof
  show "PrimaryMarketMaker_from_byte w = v" if "PrimaryMarketMaker_discriminant v = Some w" for v w
    using that by (cases v) (auto simp: PrimaryMarketMaker_from_byte_def)
  show "PrimaryMarketMaker_discriminant (PrimaryMarketMaker_from_byte w) = Some w \<or> PrimaryMarketMaker_from_byte w = PrimaryMarketMaker_Unknown w" for w
    by (simp add: PrimaryMarketMaker_from_byte_def)
qed simp_all

datatype (plugins only: code size) MarketMakerMode =
    MarketMakerMode_Normal
  | MarketMakerMode_Passive
  | MarketMakerMode_Syndicate
  | MarketMakerMode_PreSyndicate
  | MarketMakerMode_Penalty
  | MarketMakerMode_Unknown u8

definition MarketMakerMode_from_byte :: "u8 \<Rightarrow> MarketMakerMode" where
  "MarketMakerMode_from_byte b =
   (if b = ascii CHR ''N'' then MarketMakerMode_Normal
    else if b = ascii CHR ''P'' then MarketMakerMode_Passive
    else if b = ascii CHR ''S'' then MarketMakerMode_Syndicate
    else if b = ascii CHR ''R'' then MarketMakerMode_PreSyndicate
    else if b = ascii CHR ''L'' then MarketMakerMode_Penalty
    else MarketMakerMode_Unknown b)"

fun MarketMakerMode_discriminant :: "MarketMakerMode \<Rightarrow> u8 option" where
  "MarketMakerMode_discriminant MarketMakerMode_Normal = Some (ascii CHR ''N'')"
| "MarketMakerMode_discriminant MarketMakerMode_Passive = Some (ascii CHR ''P'')"
| "MarketMakerMode_discriminant MarketMakerMode_Syndicate = Some (ascii CHR ''S'')"
| "MarketMakerMode_discriminant MarketMakerMode_PreSyndicate = Some (ascii CHR ''R'')"
| "MarketMakerMode_discriminant MarketMakerMode_Penalty = Some (ascii CHR ''L'')"
| "MarketMakerMode_discriminant (MarketMakerMode_Unknown b) = None"

interpretation market_maker_mode:
  wire_enum MarketMakerMode_from_byte MarketMakerMode_discriminant MarketMakerMode_Unknown
proof
  show "MarketMakerMode_from_byte w = v" if "MarketMakerMode_discriminant v = Some w" for v w
    using that by (cases v) (auto simp: MarketMakerMode_from_byte_def)
  show "MarketMakerMode_discriminant (MarketMakerMode_from_byte w) = Some w \<or> MarketMakerMode_from_byte w = MarketMakerMode_Unknown w" for w
    by (simp add: MarketMakerMode_from_byte_def)
qed simp_all

datatype (plugins only: code size) MarketParticipantState =
    MarketParticipantState_Active
  | MarketParticipantState_Deleted
  | MarketParticipantState_ExcusedWithdrawn
  | MarketParticipantState_Withdrawn
  | MarketParticipantState_Suspended
  | MarketParticipantState_Unknown u8

definition MarketParticipantState_from_byte :: "u8 \<Rightarrow> MarketParticipantState" where
  "MarketParticipantState_from_byte b =
   (if b = ascii CHR ''A'' then MarketParticipantState_Active
    else if b = ascii CHR ''E'' then MarketParticipantState_ExcusedWithdrawn
    else if b = ascii CHR ''W'' then MarketParticipantState_Withdrawn
    else if b = ascii CHR ''S'' then MarketParticipantState_Suspended
    else if b = ascii CHR ''D'' then MarketParticipantState_Deleted
    else MarketParticipantState_Unknown b)"

fun MarketParticipantState_discriminant :: "MarketParticipantState \<Rightarrow> u8 option" where
  "MarketParticipantState_discriminant MarketParticipantState_Active = Some (ascii CHR ''A'')"
| "MarketParticipantState_discriminant MarketParticipantState_Deleted = Some (ascii CHR ''D'')"
| "MarketParticipantState_discriminant MarketParticipantState_ExcusedWithdrawn = Some (ascii CHR ''E'')"
| "MarketParticipantState_discriminant MarketParticipantState_Withdrawn = Some (ascii CHR ''W'')"
| "MarketParticipantState_discriminant MarketParticipantState_Suspended = Some (ascii CHR ''S'')"
| "MarketParticipantState_discriminant (MarketParticipantState_Unknown b) = None"

interpretation market_participant_state:
  wire_enum MarketParticipantState_from_byte MarketParticipantState_discriminant MarketParticipantState_Unknown
proof
  show "MarketParticipantState_from_byte w = v" if "MarketParticipantState_discriminant v = Some w" for v w
    using that by (cases v) (auto simp: MarketParticipantState_from_byte_def)
  show "MarketParticipantState_discriminant (MarketParticipantState_from_byte w) = Some w \<or> MarketParticipantState_from_byte w = MarketParticipantState_Unknown w" for w
    by (simp add: MarketParticipantState_from_byte_def)
qed simp_all

datatype (plugins only: code size) BreachedLevel =
    BreachedLevel_Level1
  | BreachedLevel_Level2
  | BreachedLevel_Level3
  | BreachedLevel_Unknown u8

definition BreachedLevel_from_byte :: "u8 \<Rightarrow> BreachedLevel" where
  "BreachedLevel_from_byte b =
   (if b = ascii CHR ''1'' then BreachedLevel_Level1
    else if b = ascii CHR ''2'' then BreachedLevel_Level2
    else if b = ascii CHR ''3'' then BreachedLevel_Level3
    else BreachedLevel_Unknown b)"

fun BreachedLevel_discriminant :: "BreachedLevel \<Rightarrow> u8 option" where
  "BreachedLevel_discriminant BreachedLevel_Level1 = Some (ascii CHR ''1'')"
| "BreachedLevel_discriminant BreachedLevel_Level2 = Some (ascii CHR ''2'')"
| "BreachedLevel_discriminant BreachedLevel_Level3 = Some (ascii CHR ''3'')"
| "BreachedLevel_discriminant (BreachedLevel_Unknown b) = None"

interpretation breached_level:
  wire_enum BreachedLevel_from_byte BreachedLevel_discriminant BreachedLevel_Unknown
proof
  show "BreachedLevel_from_byte w = v" if "BreachedLevel_discriminant v = Some w" for v w
    using that by (cases v) (auto simp: BreachedLevel_from_byte_def)
  show "BreachedLevel_discriminant (BreachedLevel_from_byte w) = Some w \<or> BreachedLevel_from_byte w = BreachedLevel_Unknown w" for w
    by (simp add: BreachedLevel_from_byte_def)
qed simp_all

datatype (plugins only: code size) IpoQuotationReleaseQualifier =
    IpoQuotationReleaseQualifier_Anticipated
  | IpoQuotationReleaseQualifier_CanceledPostponed
  | IpoQuotationReleaseQualifier_Unknown u8

definition IpoQuotationReleaseQualifier_from_byte :: "u8 \<Rightarrow> IpoQuotationReleaseQualifier" where
  "IpoQuotationReleaseQualifier_from_byte b =
   (if b = ascii CHR ''A'' then IpoQuotationReleaseQualifier_Anticipated
    else if b = ascii CHR ''C'' then IpoQuotationReleaseQualifier_CanceledPostponed
    else IpoQuotationReleaseQualifier_Unknown b)"

fun IpoQuotationReleaseQualifier_discriminant :: "IpoQuotationReleaseQualifier \<Rightarrow> u8 option" where
  "IpoQuotationReleaseQualifier_discriminant IpoQuotationReleaseQualifier_Anticipated = Some (ascii CHR ''A'')"
| "IpoQuotationReleaseQualifier_discriminant IpoQuotationReleaseQualifier_CanceledPostponed = Some (ascii CHR ''C'')"
| "IpoQuotationReleaseQualifier_discriminant (IpoQuotationReleaseQualifier_Unknown b) = None"

interpretation ipo_quotation_release_qualifier:
  wire_enum IpoQuotationReleaseQualifier_from_byte IpoQuotationReleaseQualifier_discriminant IpoQuotationReleaseQualifier_Unknown
proof
  show "IpoQuotationReleaseQualifier_from_byte w = v" if "IpoQuotationReleaseQualifier_discriminant v = Some w" for v w
    using that by (cases v) (auto simp: IpoQuotationReleaseQualifier_from_byte_def)
  show "IpoQuotationReleaseQualifier_discriminant (IpoQuotationReleaseQualifier_from_byte w) = Some w \<or> IpoQuotationReleaseQualifier_from_byte w = IpoQuotationReleaseQualifier_Unknown w" for w
    by (simp add: IpoQuotationReleaseQualifier_from_byte_def)
qed simp_all

datatype (plugins only: code size) MarketCode =
    MarketCode_Nasdaq
  | MarketCode_BX
  | MarketCode_PSX
  | MarketCode_Unknown u8

definition MarketCode_from_byte :: "u8 \<Rightarrow> MarketCode" where
  "MarketCode_from_byte b =
   (if b = ascii CHR ''Q'' then MarketCode_Nasdaq
    else if b = ascii CHR ''B'' then MarketCode_BX
    else if b = ascii CHR ''X'' then MarketCode_PSX
    else MarketCode_Unknown b)"

fun MarketCode_discriminant :: "MarketCode \<Rightarrow> u8 option" where
  "MarketCode_discriminant MarketCode_Nasdaq = Some (ascii CHR ''Q'')"
| "MarketCode_discriminant MarketCode_BX = Some (ascii CHR ''B'')"
| "MarketCode_discriminant MarketCode_PSX = Some (ascii CHR ''X'')"
| "MarketCode_discriminant (MarketCode_Unknown b) = None"

interpretation market_code:
  wire_enum MarketCode_from_byte MarketCode_discriminant MarketCode_Unknown
proof
  show "MarketCode_from_byte w = v" if "MarketCode_discriminant v = Some w" for v w
    using that by (cases v) (auto simp: MarketCode_from_byte_def)
  show "MarketCode_discriminant (MarketCode_from_byte w) = Some w \<or> MarketCode_from_byte w = MarketCode_Unknown w" for w
    by (simp add: MarketCode_from_byte_def)
qed simp_all

datatype (plugins only: code size) OperationalHaltAction =
    OperationalHaltAction_OperationallyHalted
  | OperationalHaltAction_TradingResumed
  | OperationalHaltAction_Unknown u8

definition OperationalHaltAction_from_byte :: "u8 \<Rightarrow> OperationalHaltAction" where
  "OperationalHaltAction_from_byte b =
   (if b = ascii CHR ''H'' then OperationalHaltAction_OperationallyHalted
    else if b = ascii CHR ''T'' then OperationalHaltAction_TradingResumed
    else OperationalHaltAction_Unknown b)"

fun OperationalHaltAction_discriminant :: "OperationalHaltAction \<Rightarrow> u8 option" where
  "OperationalHaltAction_discriminant OperationalHaltAction_OperationallyHalted = Some (ascii CHR ''H'')"
| "OperationalHaltAction_discriminant OperationalHaltAction_TradingResumed = Some (ascii CHR ''T'')"
| "OperationalHaltAction_discriminant (OperationalHaltAction_Unknown b) = None"

interpretation operational_halt_action:
  wire_enum OperationalHaltAction_from_byte OperationalHaltAction_discriminant OperationalHaltAction_Unknown
proof
  show "OperationalHaltAction_from_byte w = v" if "OperationalHaltAction_discriminant v = Some w" for v w
    using that by (cases v) (auto simp: OperationalHaltAction_from_byte_def)
  show "OperationalHaltAction_discriminant (OperationalHaltAction_from_byte w) = Some w \<or> OperationalHaltAction_from_byte w = OperationalHaltAction_Unknown w" for w
    by (simp add: OperationalHaltAction_from_byte_def)
qed simp_all

datatype (plugins only: code size) BuySellIndicator =
    BuySellIndicator_Buy
  | BuySellIndicator_Sell
  | BuySellIndicator_Unknown u8

definition BuySellIndicator_from_byte :: "u8 \<Rightarrow> BuySellIndicator" where
  "BuySellIndicator_from_byte b =
   (if b = ascii CHR ''B'' then BuySellIndicator_Buy
    else if b = ascii CHR ''S'' then BuySellIndicator_Sell
    else BuySellIndicator_Unknown b)"

fun BuySellIndicator_discriminant :: "BuySellIndicator \<Rightarrow> u8 option" where
  "BuySellIndicator_discriminant BuySellIndicator_Buy = Some (ascii CHR ''B'')"
| "BuySellIndicator_discriminant BuySellIndicator_Sell = Some (ascii CHR ''S'')"
| "BuySellIndicator_discriminant (BuySellIndicator_Unknown b) = None"

interpretation buy_sell_indicator:
  wire_enum BuySellIndicator_from_byte BuySellIndicator_discriminant BuySellIndicator_Unknown
proof
  show "BuySellIndicator_from_byte w = v" if "BuySellIndicator_discriminant v = Some w" for v w
    using that by (cases v) (auto simp: BuySellIndicator_from_byte_def)
  show "BuySellIndicator_discriminant (BuySellIndicator_from_byte w) = Some w \<or> BuySellIndicator_from_byte w = BuySellIndicator_Unknown w" for w
    by (simp add: BuySellIndicator_from_byte_def)
qed simp_all

datatype (plugins only: code size) Printable =
    Printable_NonPrintable
  | Printable_Printable
  | Printable_Unknown u8

definition Printable_from_byte :: "u8 \<Rightarrow> Printable" where
  "Printable_from_byte b =
   (if b = ascii CHR ''N'' then Printable_NonPrintable
    else if b = ascii CHR ''Y'' then Printable_Printable
    else Printable_Unknown b)"

fun Printable_discriminant :: "Printable \<Rightarrow> u8 option" where
  "Printable_discriminant Printable_NonPrintable = Some (ascii CHR ''N'')"
| "Printable_discriminant Printable_Printable = Some (ascii CHR ''Y'')"
| "Printable_discriminant (Printable_Unknown b) = None"

interpretation printable:
  wire_enum Printable_from_byte Printable_discriminant Printable_Unknown
proof
  show "Printable_from_byte w = v" if "Printable_discriminant v = Some w" for v w
    using that by (cases v) (auto simp: Printable_from_byte_def)
  show "Printable_discriminant (Printable_from_byte w) = Some w \<or> Printable_from_byte w = Printable_Unknown w" for w
    by (simp add: Printable_from_byte_def)
qed simp_all

datatype (plugins only: code size) ImbalanceDirection =
    ImbalanceDirection_Buy
  | ImbalanceDirection_Sell
  | ImbalanceDirection_NoImbalance
  | ImbalanceDirection_InsufficientOrders
  | ImbalanceDirection_Paused
  | ImbalanceDirection_Unknown u8

definition ImbalanceDirection_from_byte :: "u8 \<Rightarrow> ImbalanceDirection" where
  "ImbalanceDirection_from_byte b =
   (if b = ascii CHR ''B'' then ImbalanceDirection_Buy
    else if b = ascii CHR ''S'' then ImbalanceDirection_Sell
    else if b = ascii CHR ''N'' then ImbalanceDirection_NoImbalance
    else if b = ascii CHR ''O'' then ImbalanceDirection_InsufficientOrders
    else if b = ascii CHR ''P'' then ImbalanceDirection_Paused
    else ImbalanceDirection_Unknown b)"

fun ImbalanceDirection_discriminant :: "ImbalanceDirection \<Rightarrow> u8 option" where
  "ImbalanceDirection_discriminant ImbalanceDirection_Buy = Some (ascii CHR ''B'')"
| "ImbalanceDirection_discriminant ImbalanceDirection_Sell = Some (ascii CHR ''S'')"
| "ImbalanceDirection_discriminant ImbalanceDirection_NoImbalance = Some (ascii CHR ''N'')"
| "ImbalanceDirection_discriminant ImbalanceDirection_InsufficientOrders = Some (ascii CHR ''O'')"
| "ImbalanceDirection_discriminant ImbalanceDirection_Paused = Some (ascii CHR ''P'')"
| "ImbalanceDirection_discriminant (ImbalanceDirection_Unknown b) = None"

interpretation imbalance_direction:
  wire_enum ImbalanceDirection_from_byte ImbalanceDirection_discriminant ImbalanceDirection_Unknown
proof
  show "ImbalanceDirection_from_byte w = v" if "ImbalanceDirection_discriminant v = Some w" for v w
    using that by (cases v) (auto simp: ImbalanceDirection_from_byte_def)
  show "ImbalanceDirection_discriminant (ImbalanceDirection_from_byte w) = Some w \<or> ImbalanceDirection_from_byte w = ImbalanceDirection_Unknown w" for w
    by (simp add: ImbalanceDirection_from_byte_def)
qed simp_all

datatype (plugins only: code size) CrossType =
    CrossType_NasdaqOpeningCross
  | CrossType_NasdaqClosingCross
  | CrossType_IpoHaltedPaused
  | CrossType_ExtendedTradingClose
  | CrossType_Unknown u8

definition CrossType_from_byte :: "u8 \<Rightarrow> CrossType" where
  "CrossType_from_byte b =
   (if b = ascii CHR ''O'' then CrossType_NasdaqOpeningCross
    else if b = ascii CHR ''C'' then CrossType_NasdaqClosingCross
    else if b = ascii CHR ''H'' then CrossType_IpoHaltedPaused
    else if b = ascii CHR ''A'' then CrossType_ExtendedTradingClose
    else CrossType_Unknown b)"

fun CrossType_discriminant :: "CrossType \<Rightarrow> u8 option" where
  "CrossType_discriminant CrossType_NasdaqOpeningCross = Some (ascii CHR ''O'')"
| "CrossType_discriminant CrossType_NasdaqClosingCross = Some (ascii CHR ''C'')"
| "CrossType_discriminant CrossType_IpoHaltedPaused = Some (ascii CHR ''H'')"
| "CrossType_discriminant CrossType_ExtendedTradingClose = Some (ascii CHR ''A'')"
| "CrossType_discriminant (CrossType_Unknown b) = None"

interpretation cross_type:
  wire_enum CrossType_from_byte CrossType_discriminant CrossType_Unknown
proof
  show "CrossType_from_byte w = v" if "CrossType_discriminant v = Some w" for v w
    using that by (cases v) (auto simp: CrossType_from_byte_def)
  show "CrossType_discriminant (CrossType_from_byte w) = Some w \<or> CrossType_from_byte w = CrossType_Unknown w" for w
    by (simp add: CrossType_from_byte_def)
qed simp_all

datatype (plugins only: code size) PriceVariationIndicator =
    PriceVariationIndicator_LessThan1Percent
  | PriceVariationIndicator_Between1And1_99Percent
  | PriceVariationIndicator_Between2And2_99Percent
  | PriceVariationIndicator_Between3And3_99Percent
  | PriceVariationIndicator_Between4And4_99Percent
  | PriceVariationIndicator_Between5And5_99Percent
  | PriceVariationIndicator_Between6And6_99Percent
  | PriceVariationIndicator_Between7And7_99Percent
  | PriceVariationIndicator_Between8And8_99Percent
  | PriceVariationIndicator_Between9And9_99Percent
  | PriceVariationIndicator_Between10And19_99Percent
  | PriceVariationIndicator_Between20And29_99Percent
  | PriceVariationIndicator_GreaterOrEqualTo30Percent
  | PriceVariationIndicator_CannotBeCalculated
  | PriceVariationIndicator_Unknown u8

definition PriceVariationIndicator_from_byte :: "u8 \<Rightarrow> PriceVariationIndicator" where
  "PriceVariationIndicator_from_byte b =
   (if b = ascii CHR ''L'' then PriceVariationIndicator_LessThan1Percent
    else if b = ascii CHR ''1'' then PriceVariationIndicator_Between1And1_99Percent
    else if b = ascii CHR ''2'' then PriceVariationIndicator_Between2And2_99Percent
    else if b = ascii CHR ''3'' then PriceVariationIndicator_Between3And3_99Percent
    else if b = ascii CHR ''4'' then PriceVariationIndicator_Between4And4_99Percent
    else if b = ascii CHR ''5'' then PriceVariationIndicator_Between5And5_99Percent
    else if b = ascii CHR ''6'' then PriceVariationIndicator_Between6And6_99Percent
    else if b = ascii CHR ''7'' then PriceVariationIndicator_Between7And7_99Percent
    else if b = ascii CHR ''8'' then PriceVariationIndicator_Between8And8_99Percent
    else if b = ascii CHR ''9'' then PriceVariationIndicator_Between9And9_99Percent
    else if b = ascii CHR ''A'' then PriceVariationIndicator_Between10And19_99Percent
    else if b = ascii CHR ''B'' then PriceVariationIndicator_Between20And29_99Percent
    else if b = ascii CHR ''C'' then PriceVariationIndicator_GreaterOrEqualTo30Percent
    else if b = ascii CHR '' '' then PriceVariationIndicator_CannotBeCalculated
    else PriceVariationIndicator_Unknown b)"

fun PriceVariationIndicator_discriminant :: "PriceVariationIndicator \<Rightarrow> u8 option" where
  "PriceVariationIndicator_discriminant PriceVariationIndicator_LessThan1Percent = Some (ascii CHR ''L'')"
| "PriceVariationIndicator_discriminant PriceVariationIndicator_Between1And1_99Percent = Some (ascii CHR ''1'')"
| "PriceVariationIndicator_discriminant PriceVariationIndicator_Between2And2_99Percent = Some (ascii CHR ''2'')"
| "PriceVariationIndicator_discriminant PriceVariationIndicator_Between3And3_99Percent = Some (ascii CHR ''3'')"
| "PriceVariationIndicator_discriminant PriceVariationIndicator_Between4And4_99Percent = Some (ascii CHR ''4'')"
| "PriceVariationIndicator_discriminant PriceVariationIndicator_Between5And5_99Percent = Some (ascii CHR ''5'')"
| "PriceVariationIndicator_discriminant PriceVariationIndicator_Between6And6_99Percent = Some (ascii CHR ''6'')"
| "PriceVariationIndicator_discriminant PriceVariationIndicator_Between7And7_99Percent = Some (ascii CHR ''7'')"
| "PriceVariationIndicator_discriminant PriceVariationIndicator_Between8And8_99Percent = Some (ascii CHR ''8'')"
| "PriceVariationIndicator_discriminant PriceVariationIndicator_Between9And9_99Percent = Some (ascii CHR ''9'')"
| "PriceVariationIndicator_discriminant PriceVariationIndicator_Between10And19_99Percent = Some (ascii CHR ''A'')"
| "PriceVariationIndicator_discriminant PriceVariationIndicator_Between20And29_99Percent = Some (ascii CHR ''B'')"
| "PriceVariationIndicator_discriminant PriceVariationIndicator_GreaterOrEqualTo30Percent = Some (ascii CHR ''C'')"
| "PriceVariationIndicator_discriminant PriceVariationIndicator_CannotBeCalculated = Some (ascii CHR '' '')"
| "PriceVariationIndicator_discriminant (PriceVariationIndicator_Unknown b) = None"

interpretation price_variation_indicator:
  wire_enum PriceVariationIndicator_from_byte PriceVariationIndicator_discriminant PriceVariationIndicator_Unknown
proof
  show "PriceVariationIndicator_from_byte w = v" if "PriceVariationIndicator_discriminant v = Some w" for v w
    using that by (cases v) (auto simp: PriceVariationIndicator_from_byte_def)
  show "PriceVariationIndicator_discriminant (PriceVariationIndicator_from_byte w) = Some w \<or> PriceVariationIndicator_from_byte w = PriceVariationIndicator_Unknown w" for w
    by (simp add: PriceVariationIndicator_from_byte_def)
qed simp_all

datatype (plugins only: code size) InterestFlag =
    InterestFlag_BuySide
  | InterestFlag_SellSide
  | InterestFlag_BothSides
  | InterestFlag_NoneAvailable
  | InterestFlag_Unknown u8

definition InterestFlag_from_byte :: "u8 \<Rightarrow> InterestFlag" where
  "InterestFlag_from_byte b =
   (if b = ascii CHR ''B'' then InterestFlag_BuySide
    else if b = ascii CHR ''S'' then InterestFlag_SellSide
    else if b = ascii CHR ''A'' then InterestFlag_BothSides
    else if b = ascii CHR ''N'' then InterestFlag_NoneAvailable
    else InterestFlag_Unknown b)"

fun InterestFlag_discriminant :: "InterestFlag \<Rightarrow> u8 option" where
  "InterestFlag_discriminant InterestFlag_BuySide = Some (ascii CHR ''B'')"
| "InterestFlag_discriminant InterestFlag_SellSide = Some (ascii CHR ''S'')"
| "InterestFlag_discriminant InterestFlag_BothSides = Some (ascii CHR ''A'')"
| "InterestFlag_discriminant InterestFlag_NoneAvailable = Some (ascii CHR ''N'')"
| "InterestFlag_discriminant (InterestFlag_Unknown b) = None"

interpretation interest_flag:
  wire_enum InterestFlag_from_byte InterestFlag_discriminant InterestFlag_Unknown
proof
  show "InterestFlag_from_byte w = v" if "InterestFlag_discriminant v = Some w" for v w
    using that by (cases v) (auto simp: InterestFlag_from_byte_def)
  show "InterestFlag_discriminant (InterestFlag_from_byte w) = Some w \<or> InterestFlag_from_byte w = InterestFlag_Unknown w" for w
    by (simp add: InterestFlag_from_byte_def)
qed simp_all

datatype (plugins only: code size) OpenEligibilityStatus =
    OpenEligibilityStatus_NotEligible
  | OpenEligibilityStatus_Eligible
  | OpenEligibilityStatus_Unknown u8

definition OpenEligibilityStatus_from_byte :: "u8 \<Rightarrow> OpenEligibilityStatus" where
  "OpenEligibilityStatus_from_byte b =
   (if b = ascii CHR ''N'' then OpenEligibilityStatus_NotEligible
    else if b = ascii CHR ''Y'' then OpenEligibilityStatus_Eligible
    else OpenEligibilityStatus_Unknown b)"

fun OpenEligibilityStatus_discriminant :: "OpenEligibilityStatus \<Rightarrow> u8 option" where
  "OpenEligibilityStatus_discriminant OpenEligibilityStatus_NotEligible = Some (ascii CHR ''N'')"
| "OpenEligibilityStatus_discriminant OpenEligibilityStatus_Eligible = Some (ascii CHR ''Y'')"
| "OpenEligibilityStatus_discriminant (OpenEligibilityStatus_Unknown b) = None"

interpretation open_eligibility_status:
  wire_enum OpenEligibilityStatus_from_byte OpenEligibilityStatus_discriminant OpenEligibilityStatus_Unknown
proof
  show "OpenEligibilityStatus_from_byte w = v" if "OpenEligibilityStatus_discriminant v = Some w" for v w
    using that by (cases v) (auto simp: OpenEligibilityStatus_from_byte_def)
  show "OpenEligibilityStatus_discriminant (OpenEligibilityStatus_from_byte w) = Some w \<or> OpenEligibilityStatus_from_byte w = OpenEligibilityStatus_Unknown w" for w
    by (simp add: OpenEligibilityStatus_from_byte_def)
qed simp_all

datatype (plugins only: code size) TradingHaltReason =
    TradingHaltReason_HaltNewsPending
  | TradingHaltReason_HaltNewsDisseminated
  | TradingHaltReason_SingleSecurityTradingPause
  | TradingHaltReason_RegulatoryHaltExtraordinaryMarketActivity
  | TradingHaltReason_HaltEtf
  | TradingHaltReason_HaltInformationRequestedByListingMarket
  | TradingHaltReason_HaltNonCompliance
  | TradingHaltReason_HaltFilingsNotCurrent
  | TradingHaltReason_HaltSecTradingSuspension
  | TradingHaltReason_HaltRegulatoryConcern
  | TradingHaltReason_OperationsHalt
  | TradingHaltReason_VolatilityTradingPause
  | TradingHaltReason_VolatilityTradingPauseStraddleCondition
  | TradingHaltReason_MarketWideCircuitBreakerLevel1
  | TradingHaltReason_MarketWideCircuitBreakerLevel2
  | TradingHaltReason_MarketWideCircuitBreakerLevel3
  | TradingHaltReason_MarketWideCircuitBreakerCarryOver
  | TradingHaltReason_IpoNotYetTrading
  | TradingHaltReason_CorporateAction
  | TradingHaltReason_QuotationNotAvailable
  | TradingHaltReason_ReasonNotAvailable
  | TradingHaltReason_Unknown bytes

definition TradingHaltReason_from_bytes :: "bytes \<Rightarrow> TradingHaltReason" where
  "TradingHaltReason_from_bytes b =
   (if b = ascii_bytes ''T1  '' then TradingHaltReason_HaltNewsPending
    else if b = ascii_bytes ''T2  '' then TradingHaltReason_HaltNewsDisseminated
    else if b = ascii_bytes ''T5  '' then TradingHaltReason_SingleSecurityTradingPause
    else if b = ascii_bytes ''T6  '' then TradingHaltReason_RegulatoryHaltExtraordinaryMarketActivity
    else if b = ascii_bytes ''T8  '' then TradingHaltReason_HaltEtf
    else if b = ascii_bytes ''T12 '' then TradingHaltReason_HaltInformationRequestedByListingMarket
    else if b = ascii_bytes ''H4  '' then TradingHaltReason_HaltNonCompliance
    else if b = ascii_bytes ''H9  '' then TradingHaltReason_HaltFilingsNotCurrent
    else if b = ascii_bytes ''H10 '' then TradingHaltReason_HaltSecTradingSuspension
    else if b = ascii_bytes ''H11 '' then TradingHaltReason_HaltRegulatoryConcern
    else if b = ascii_bytes ''O1  '' then TradingHaltReason_OperationsHalt
    else if b = ascii_bytes ''LUDP'' then TradingHaltReason_VolatilityTradingPause
    else if b = ascii_bytes ''LUDS'' then TradingHaltReason_VolatilityTradingPauseStraddleCondition
    else if b = ascii_bytes ''MWC1'' then TradingHaltReason_MarketWideCircuitBreakerLevel1
    else if b = ascii_bytes ''MWC2'' then TradingHaltReason_MarketWideCircuitBreakerLevel2
    else if b = ascii_bytes ''MWC3'' then TradingHaltReason_MarketWideCircuitBreakerLevel3
    else if b = ascii_bytes ''MWC0'' then TradingHaltReason_MarketWideCircuitBreakerCarryOver
    else if b = ascii_bytes ''IPO1'' then TradingHaltReason_IpoNotYetTrading
    else if b = ascii_bytes ''M1  '' then TradingHaltReason_CorporateAction
    else if b = ascii_bytes ''M2  '' then TradingHaltReason_QuotationNotAvailable
    else if b = ascii_bytes ''    '' then TradingHaltReason_ReasonNotAvailable
    else TradingHaltReason_Unknown b)"

fun TradingHaltReason_code :: "TradingHaltReason \<Rightarrow> bytes option" where
  "TradingHaltReason_code TradingHaltReason_HaltNewsPending = Some (ascii_bytes ''T1  '')"
| "TradingHaltReason_code TradingHaltReason_HaltNewsDisseminated = Some (ascii_bytes ''T2  '')"
| "TradingHaltReason_code TradingHaltReason_SingleSecurityTradingPause = Some (ascii_bytes ''T5  '')"
| "TradingHaltReason_code TradingHaltReason_RegulatoryHaltExtraordinaryMarketActivity = Some (ascii_bytes ''T6  '')"
| "TradingHaltReason_code TradingHaltReason_HaltEtf = Some (ascii_bytes ''T8  '')"
| "TradingHaltReason_code TradingHaltReason_HaltInformationRequestedByListingMarket = Some (ascii_bytes ''T12 '')"
| "TradingHaltReason_code TradingHaltReason_HaltNonCompliance = Some (ascii_bytes ''H4  '')"
| "TradingHaltReason_code TradingHaltReason_HaltFilingsNotCurrent = Some (ascii_bytes ''H9  '')"
| "TradingHaltReason_code TradingHaltReason_HaltSecTradingSuspension = Some (ascii_bytes ''H10 '')"
| "TradingHaltReason_code TradingHaltReason_HaltRegulatoryConcern = Some (ascii_bytes ''H11 '')"
| "TradingHaltReason_code TradingHaltReason_OperationsHalt = Some (ascii_bytes ''O1  '')"
| "TradingHaltReason_code TradingHaltReason_VolatilityTradingPause = Some (ascii_bytes ''LUDP'')"
| "TradingHaltReason_code TradingHaltReason_VolatilityTradingPauseStraddleCondition = Some (ascii_bytes ''LUDS'')"
| "TradingHaltReason_code TradingHaltReason_MarketWideCircuitBreakerLevel1 = Some (ascii_bytes ''MWC1'')"
| "TradingHaltReason_code TradingHaltReason_MarketWideCircuitBreakerLevel2 = Some (ascii_bytes ''MWC2'')"
| "TradingHaltReason_code TradingHaltReason_MarketWideCircuitBreakerLevel3 = Some (ascii_bytes ''MWC3'')"
| "TradingHaltReason_code TradingHaltReason_MarketWideCircuitBreakerCarryOver = Some (ascii_bytes ''MWC0'')"
| "TradingHaltReason_code TradingHaltReason_IpoNotYetTrading = Some (ascii_bytes ''IPO1'')"
| "TradingHaltReason_code TradingHaltReason_CorporateAction = Some (ascii_bytes ''M1  '')"
| "TradingHaltReason_code TradingHaltReason_QuotationNotAvailable = Some (ascii_bytes ''M2  '')"
| "TradingHaltReason_code TradingHaltReason_ReasonNotAvailable = Some (ascii_bytes ''    '')"
| "TradingHaltReason_code (TradingHaltReason_Unknown b) = None"

interpretation trading_halt_reason:
  wire_enum TradingHaltReason_from_bytes TradingHaltReason_code TradingHaltReason_Unknown
proof
  show "TradingHaltReason_from_bytes w = v" if "TradingHaltReason_code v = Some w" for v w
    using that by (cases v) (auto simp: TradingHaltReason_from_bytes_def)
  show "TradingHaltReason_code (TradingHaltReason_from_bytes w) = Some w \<or> TradingHaltReason_from_bytes w = TradingHaltReason_Unknown w" for w
    by (simp add: TradingHaltReason_from_bytes_def)
qed simp_all

datatype (plugins only: code size) TradingResumptionReason =
    TradingResumptionReason_NewsAndResumptionTimes
  | TradingResumptionReason_SingleSecurityTradingPause
  | TradingResumptionReason_QualificationsIssuesResolved
  | TradingResumptionReason_FilingRequirementsSatisfied
  | TradingResumptionReason_IssuerNewsNotForthcoming
  | TradingResumptionReason_QualificationsHaltEnded
  | TradingResumptionReason_QualificationsHaltConcluded
  | TradingResumptionReason_TradeHaltConcludedByOtherRegulatoryAuth
  | TradingResumptionReason_MarketWideCircuitBreakerResumption
  | TradingResumptionReason_NewIssueAvailable
  | TradingResumptionReason_IssueAvailable
  | TradingResumptionReason_IpoSecurityReleasedForQuotation
  | TradingResumptionReason_IpoSecurityPositioningWindowExtension
  | TradingResumptionReason_ReasonNotAvailable
  | TradingResumptionReason_Unknown bytes

definition TradingResumptionReason_from_bytes :: "bytes \<Rightarrow> TradingResumptionReason" where
  "TradingResumptionReason_from_bytes b =
   (if b = ascii_bytes ''T3  '' then TradingResumptionReason_NewsAndResumptionTimes
    else if b = ascii_bytes ''T7  '' then TradingResumptionReason_SingleSecurityTradingPause
    else if b = ascii_bytes ''R4  '' then TradingResumptionReason_QualificationsIssuesResolved
    else if b = ascii_bytes ''R9  '' then TradingResumptionReason_FilingRequirementsSatisfied
    else if b = ascii_bytes ''C3  '' then TradingResumptionReason_IssuerNewsNotForthcoming
    else if b = ascii_bytes ''C4  '' then TradingResumptionReason_QualificationsHaltEnded
    else if b = ascii_bytes ''C9  '' then TradingResumptionReason_QualificationsHaltConcluded
    else if b = ascii_bytes ''C11 '' then TradingResumptionReason_TradeHaltConcludedByOtherRegulatoryAuth
    else if b = ascii_bytes ''MWCQ'' then TradingResumptionReason_MarketWideCircuitBreakerResumption
    else if b = ascii_bytes ''R1  '' then TradingResumptionReason_NewIssueAvailable
    else if b = ascii_bytes ''R2  '' then TradingResumptionReason_IssueAvailable
    else if b = ascii_bytes ''IPOQ'' then TradingResumptionReason_IpoSecurityReleasedForQuotation
    else if b = ascii_bytes ''IPOE'' then TradingResumptionReason_IpoSecurityPositioningWindowExtension
    else if b = ascii_bytes ''    '' then TradingResumptionReason_ReasonNotAvailable
    else TradingResumptionReason_Unknown b)"

fun TradingResumptionReason_code :: "TradingResumptionReason \<Rightarrow> bytes option" where
  "TradingResumptionReason_code TradingResumptionReason_NewsAndResumptionTimes = Some (ascii_bytes ''T3  '')"
| "TradingResumptionReason_code TradingResumptionReason_SingleSecurityTradingPause = Some (ascii_bytes ''T7  '')"
| "TradingResumptionReason_code TradingResumptionReason_QualificationsIssuesResolved = Some (ascii_bytes ''R4  '')"
| "TradingResumptionReason_code TradingResumptionReason_FilingRequirementsSatisfied = Some (ascii_bytes ''R9  '')"
| "TradingResumptionReason_code TradingResumptionReason_IssuerNewsNotForthcoming = Some (ascii_bytes ''C3  '')"
| "TradingResumptionReason_code TradingResumptionReason_QualificationsHaltEnded = Some (ascii_bytes ''C4  '')"
| "TradingResumptionReason_code TradingResumptionReason_QualificationsHaltConcluded = Some (ascii_bytes ''C9  '')"
| "TradingResumptionReason_code TradingResumptionReason_TradeHaltConcludedByOtherRegulatoryAuth = Some (ascii_bytes ''C11 '')"
| "TradingResumptionReason_code TradingResumptionReason_MarketWideCircuitBreakerResumption = Some (ascii_bytes ''MWCQ'')"
| "TradingResumptionReason_code TradingResumptionReason_NewIssueAvailable = Some (ascii_bytes ''R1  '')"
| "TradingResumptionReason_code TradingResumptionReason_IssueAvailable = Some (ascii_bytes ''R2  '')"
| "TradingResumptionReason_code TradingResumptionReason_IpoSecurityReleasedForQuotation = Some (ascii_bytes ''IPOQ'')"
| "TradingResumptionReason_code TradingResumptionReason_IpoSecurityPositioningWindowExtension = Some (ascii_bytes ''IPOE'')"
| "TradingResumptionReason_code TradingResumptionReason_ReasonNotAvailable = Some (ascii_bytes ''    '')"
| "TradingResumptionReason_code (TradingResumptionReason_Unknown b) = None"

interpretation trading_resumption_reason:
  wire_enum TradingResumptionReason_from_bytes TradingResumptionReason_code TradingResumptionReason_Unknown
proof
  show "TradingResumptionReason_from_bytes w = v" if "TradingResumptionReason_code v = Some w" for v w
    using that by (cases v) (auto simp: TradingResumptionReason_from_bytes_def)
  show "TradingResumptionReason_code (TradingResumptionReason_from_bytes w) = Some w \<or> TradingResumptionReason_from_bytes w = TradingResumptionReason_Unknown w" for w
    by (simp add: TradingResumptionReason_from_bytes_def)
qed simp_all

datatype (plugins only: code size) IssueClassificationCode =
    IssueClassificationCode_AmericanDepositaryShare
  | IssueClassificationCode_Bond
  | IssueClassificationCode_CommonStock
  | IssueClassificationCode_DepositoryReceipt
  | IssueClassificationCode_OneFourFourA
  | IssueClassificationCode_LimitedPartnership
  | IssueClassificationCode_Notes
  | IssueClassificationCode_OrdinaryShare
  | IssueClassificationCode_PreferredStock
  | IssueClassificationCode_OtherSecurities
  | IssueClassificationCode_Right
  | IssueClassificationCode_SharesofBeneficialInterest
  | IssueClassificationCode_ConvertibleDebenture
  | IssueClassificationCode_Unit
  | IssueClassificationCode_UnitsBenifInt
  | IssueClassificationCode_Warrant
  | IssueClassificationCode_Unknown u8

definition IssueClassificationCode_from_byte :: "u8 \<Rightarrow> IssueClassificationCode" where
  "IssueClassificationCode_from_byte b =
   (if b = ascii CHR ''A'' then IssueClassificationCode_AmericanDepositaryShare
    else if b = ascii CHR ''B'' then IssueClassificationCode_Bond
    else if b = ascii CHR ''C'' then IssueClassificationCode_CommonStock
    else if b = ascii CHR ''F'' then IssueClassificationCode_DepositoryReceipt
    else if b = ascii CHR ''I'' then IssueClassificationCode_OneFourFourA
    else if b = ascii CHR ''L'' then IssueClassificationCode_LimitedPartnership
    else if b = ascii CHR ''N'' then IssueClassificationCode_Notes
    else if b = ascii CHR ''O'' then IssueClassificationCode_OrdinaryShare
    else if b = ascii CHR ''P'' then IssueClassificationCode_PreferredStock
    else if b = ascii CHR ''Q'' then IssueClassificationCode_OtherSecurities
    else if b = ascii CHR ''R'' then IssueClassificationCode_Right
    else if b = ascii CHR ''S'' then IssueClassificationCode_SharesofBeneficialInterest
    else if b = ascii CHR ''T'' then IssueClassificationCode_ConvertibleDebenture
    else if b = ascii CHR ''U'' then IssueClassificationCode_Unit
    else if b = ascii CHR ''V'' then IssueClassificationCode_UnitsBenifInt
    else if b = ascii CHR ''W'' then IssueClassificationCode_Warrant
    else IssueClassificationCode_Unknown b)"

fun IssueClassificationCode_discriminant :: "IssueClassificationCode \<Rightarrow> u8 option" where
  "IssueClassificationCode_discriminant IssueClassificationCode_AmericanDepositaryShare = Some (ascii CHR ''A'')"
| "IssueClassificationCode_discriminant IssueClassificationCode_Bond = Some (ascii CHR ''B'')"
| "IssueClassificationCode_discriminant IssueClassificationCode_CommonStock = Some (ascii CHR ''C'')"
| "IssueClassificationCode_discriminant IssueClassificationCode_DepositoryReceipt = Some (ascii CHR ''F'')"
| "IssueClassificationCode_discriminant IssueClassificationCode_OneFourFourA = Some (ascii CHR ''I'')"
| "IssueClassificationCode_discriminant IssueClassificationCode_LimitedPartnership = Some (ascii CHR ''L'')"
| "IssueClassificationCode_discriminant IssueClassificationCode_Notes = Some (ascii CHR ''N'')"
| "IssueClassificationCode_discriminant IssueClassificationCode_OrdinaryShare = Some (ascii CHR ''O'')"
| "IssueClassificationCode_discriminant IssueClassificationCode_PreferredStock = Some (ascii CHR ''P'')"
| "IssueClassificationCode_discriminant IssueClassificationCode_OtherSecurities = Some (ascii CHR ''Q'')"
| "IssueClassificationCode_discriminant IssueClassificationCode_Right = Some (ascii CHR ''R'')"
| "IssueClassificationCode_discriminant IssueClassificationCode_SharesofBeneficialInterest = Some (ascii CHR ''S'')"
| "IssueClassificationCode_discriminant IssueClassificationCode_ConvertibleDebenture = Some (ascii CHR ''T'')"
| "IssueClassificationCode_discriminant IssueClassificationCode_Unit = Some (ascii CHR ''U'')"
| "IssueClassificationCode_discriminant IssueClassificationCode_UnitsBenifInt = Some (ascii CHR ''V'')"
| "IssueClassificationCode_discriminant IssueClassificationCode_Warrant = Some (ascii CHR ''W'')"
| "IssueClassificationCode_discriminant (IssueClassificationCode_Unknown b) = None"

interpretation issue_classification_code:
  wire_enum IssueClassificationCode_from_byte IssueClassificationCode_discriminant IssueClassificationCode_Unknown
proof
  show "IssueClassificationCode_from_byte w = v" if "IssueClassificationCode_discriminant v = Some w" for v w
    using that by (cases v) (auto simp: IssueClassificationCode_from_byte_def)
  show "IssueClassificationCode_discriminant (IssueClassificationCode_from_byte w) = Some w \<or> IssueClassificationCode_from_byte w = IssueClassificationCode_Unknown w" for w
    by (simp add: IssueClassificationCode_from_byte_def)
qed simp_all

datatype (plugins only: code size) IssueSubTypeCode =
    IssueSubTypeCode_PreferredTrustSecurities
  | IssueSubTypeCode_AlphaIndexETNs
  | IssueSubTypeCode_IndexBasedDerivative
  | IssueSubTypeCode_CommonShares
  | IssueSubTypeCode_CommodityBasedTrustShares
  | IssueSubTypeCode_CommodityFuturesTrustShares
  | IssueSubTypeCode_CommodityLinkedSecurities
  | IssueSubTypeCode_CommodityIndexTrustShares
  | IssueSubTypeCode_CollateralizedMortgageObligation
  | IssueSubTypeCode_CurrencyTrustShares
  | IssueSubTypeCode_CommodityCurrencyLinkedSecurities
  | IssueSubTypeCode_CurrencyWarrants
  | IssueSubTypeCode_GlobalDepositaryShares
  | IssueSubTypeCode_ETFPortfolioDepositaryReceipt
  | IssueSubTypeCode_EquityGoldShares
  | IssueSubTypeCode_ETNEquityIndexLinkedSecurities
  | IssueSubTypeCode_NextSharesExchangeTradedManagedFund
  | IssueSubTypeCode_ExchangeTradedNotes
  | IssueSubTypeCode_EquityUnits
  | IssueSubTypeCode_HOLDRS
  | IssueSubTypeCode_ETNFixedIncomeLinkedSecurities
  | IssueSubTypeCode_ETNFuturesLinkedSecurities
  | IssueSubTypeCode_GlobalShares
  | IssueSubTypeCode_ETFIndexFundShares
  | IssueSubTypeCode_InterestRate
  | IssueSubTypeCode_IndexWarrant
  | IssueSubTypeCode_IndexLinkedExchangeableNotes
  | IssueSubTypeCode_CorporateBackedTrustSecurity
  | IssueSubTypeCode_ContingentLitigationRight
  | IssueSubTypeCode_LimitedLiabilityCompany
  | IssueSubTypeCode_EquityBasedDerivative
  | IssueSubTypeCode_ManagedFundShares
  | IssueSubTypeCode_ETNMultiFactorIndexLinkedSecurities
  | IssueSubTypeCode_ManagedTrustSecurities
  | IssueSubTypeCode_NYRegistryShares
  | IssueSubTypeCode_OpenEndedMutualFund
  | IssueSubTypeCode_PrivatelyHeldSecurity
  | IssueSubTypeCode_PoisonPill
  | IssueSubTypeCode_PartnershipUnits
  | IssueSubTypeCode_ClosedEndFunds
  | IssueSubTypeCode_RegS
  | IssueSubTypeCode_CommodityRedeemableCommodityLinkedSecurities
  | IssueSubTypeCode_ETNRedeemableFuturesLinkedSecurities
  | IssueSubTypeCode_REIT
  | IssueSubTypeCode_CommodityRedeemableCurrencyLinkedSecurities
  | IssueSubTypeCode_SEED
  | IssueSubTypeCode_SpotRateClosing
  | IssueSubTypeCode_SpotRateIntraday
  | IssueSubTypeCode_TrackingStock
  | IssueSubTypeCode_TrustCertificates
  | IssueSubTypeCode_TrustUnits
  | IssueSubTypeCode_Portal
  | IssueSubTypeCode_ContingentValueRight
  | IssueSubTypeCode_TrustIssuedReceipts
  | IssueSubTypeCode_WorldCurrencyOption
  | IssueSubTypeCode_Trust
  | IssueSubTypeCode_Other
  | IssueSubTypeCode_NotApplicable
  | IssueSubTypeCode_Unknown bytes

definition IssueSubTypeCode_from_bytes :: "bytes \<Rightarrow> IssueSubTypeCode" where
  "IssueSubTypeCode_from_bytes b =
   (if b = ascii_bytes ''A '' then IssueSubTypeCode_PreferredTrustSecurities
    else if b = ascii_bytes ''AI'' then IssueSubTypeCode_AlphaIndexETNs
    else if b = ascii_bytes ''B '' then IssueSubTypeCode_IndexBasedDerivative
    else if b = ascii_bytes ''C '' then IssueSubTypeCode_CommonShares
    else if b = ascii_bytes ''CB'' then IssueSubTypeCode_CommodityBasedTrustShares
    else if b = ascii_bytes ''CF'' then IssueSubTypeCode_CommodityFuturesTrustShares
    else if b = ascii_bytes ''CL'' then IssueSubTypeCode_CommodityLinkedSecurities
    else if b = ascii_bytes ''CM'' then IssueSubTypeCode_CommodityIndexTrustShares
    else if b = ascii_bytes ''CO'' then IssueSubTypeCode_CollateralizedMortgageObligation
    else if b = ascii_bytes ''CT'' then IssueSubTypeCode_CurrencyTrustShares
    else if b = ascii_bytes ''CU'' then IssueSubTypeCode_CommodityCurrencyLinkedSecurities
    else if b = ascii_bytes ''CW'' then IssueSubTypeCode_CurrencyWarrants
    else if b = ascii_bytes ''D '' then IssueSubTypeCode_GlobalDepositaryShares
    else if b = ascii_bytes ''E '' then IssueSubTypeCode_ETFPortfolioDepositaryReceipt
    else if b = ascii_bytes ''EG'' then IssueSubTypeCode_EquityGoldShares
    else if b = ascii_bytes ''EI'' then IssueSubTypeCode_ETNEquityIndexLinkedSecurities
    else if b = ascii_bytes ''EM'' then IssueSubTypeCode_NextSharesExchangeTradedManagedFund
    else if b = ascii_bytes ''EN'' then IssueSubTypeCode_ExchangeTradedNotes
    else if b = ascii_bytes ''EU'' then IssueSubTypeCode_EquityUnits
    else if b = ascii_bytes ''F '' then IssueSubTypeCode_HOLDRS
    else if b = ascii_bytes ''FI'' then IssueSubTypeCode_ETNFixedIncomeLinkedSecurities
    else if b = ascii_bytes ''FL'' then IssueSubTypeCode_ETNFuturesLinkedSecurities
    else if b = ascii_bytes ''G '' then IssueSubTypeCode_GlobalShares
    else if b = ascii_bytes ''I '' then IssueSubTypeCode_ETFIndexFundShares
    else if b = ascii_bytes ''IR'' then IssueSubTypeCode_InterestRate
    else if b = ascii_bytes ''IW'' then IssueSubTypeCode_IndexWarrant
    else if b = ascii_bytes ''IX'' then IssueSubTypeCode_IndexLinkedExchangeableNotes
    else if b = ascii_bytes ''J '' then IssueSubTypeCode_CorporateBackedTrustSecurity
    else if b = ascii_bytes ''L '' then IssueSubTypeCode_ContingentLitigationRight
    else if b = ascii_bytes ''LL'' then IssueSubTypeCode_LimitedLiabilityCompany
    else if b = ascii_bytes ''M '' then IssueSubTypeCode_EquityBasedDerivative
    else if b = ascii_bytes ''MF'' then IssueSubTypeCode_ManagedFundShares
    else if b = ascii_bytes ''ML'' then IssueSubTypeCode_ETNMultiFactorIndexLinkedSecurities
    else if b = ascii_bytes ''MT'' then IssueSubTypeCode_ManagedTrustSecurities
    else if b = ascii_bytes ''N '' then IssueSubTypeCode_NYRegistryShares
    else if b = ascii_bytes ''O '' then IssueSubTypeCode_OpenEndedMutualFund
    else if b = ascii_bytes ''P '' then IssueSubTypeCode_PrivatelyHeldSecurity
    else if b = ascii_bytes ''PP'' then IssueSubTypeCode_PoisonPill
    else if b = ascii_bytes ''PU'' then IssueSubTypeCode_PartnershipUnits
    else if b = ascii_bytes ''Q '' then IssueSubTypeCode_ClosedEndFunds
    else if b = ascii_bytes ''R '' then IssueSubTypeCode_RegS
    else if b = ascii_bytes ''RC'' then IssueSubTypeCode_CommodityRedeemableCommodityLinkedSecurities
    else if b = ascii_bytes ''RF'' then IssueSubTypeCode_ETNRedeemableFuturesLinkedSecurities
    else if b = ascii_bytes ''RT'' then IssueSubTypeCode_REIT
    else if b = ascii_bytes ''RU'' then IssueSubTypeCode_CommodityRedeemableCurrencyLinkedSecurities
    else if b = ascii_bytes ''S '' then IssueSubTypeCode_SEED
    else if b = ascii_bytes ''SC'' then IssueSubTypeCode_SpotRateClosing
    else if b = ascii_bytes ''SI'' then IssueSubTypeCode_SpotRateIntraday
    else if b = ascii_bytes ''T '' then IssueSubTypeCode_TrackingStock
    else if b = ascii_bytes ''TC'' then IssueSubTypeCode_TrustCertificates
    else if b = ascii_bytes ''TU'' then IssueSubTypeCode_TrustUnits
    else if b = ascii_bytes ''U '' then IssueSubTypeCode_Portal
    else if b = ascii_bytes ''V '' then IssueSubTypeCode_ContingentValueRight
    else if b = ascii_bytes ''W '' then IssueSubTypeCode_TrustIssuedReceipts
    else if b = ascii_bytes ''WC'' then IssueSubTypeCode_WorldCurrencyOption
    else if b = ascii_bytes ''X '' then IssueSubTypeCode_Trust
    else if b = ascii_bytes ''Y '' then IssueSubTypeCode_Other
    else if b = ascii_bytes ''Z '' then IssueSubTypeCode_NotApplicable
    else IssueSubTypeCode_Unknown b)"

text \<open>No codes are declared for it, so its decoder is checked against itself.\<close>

lemma issue_sub_types:
  "IssueSubTypeCode_PreferredTrustSecurities = IssueSubTypeCode_from_bytes (ascii_bytes ''A '')"
  "IssueSubTypeCode_AlphaIndexETNs = IssueSubTypeCode_from_bytes (ascii_bytes ''AI'')"
  "IssueSubTypeCode_IndexBasedDerivative = IssueSubTypeCode_from_bytes (ascii_bytes ''B '')"
  "IssueSubTypeCode_CommonShares = IssueSubTypeCode_from_bytes (ascii_bytes ''C '')"
  "IssueSubTypeCode_CommodityBasedTrustShares = IssueSubTypeCode_from_bytes (ascii_bytes ''CB'')"
  "IssueSubTypeCode_CommodityFuturesTrustShares = IssueSubTypeCode_from_bytes (ascii_bytes ''CF'')"
  "IssueSubTypeCode_CommodityLinkedSecurities = IssueSubTypeCode_from_bytes (ascii_bytes ''CL'')"
  "IssueSubTypeCode_CommodityIndexTrustShares = IssueSubTypeCode_from_bytes (ascii_bytes ''CM'')"
  "IssueSubTypeCode_CollateralizedMortgageObligation = IssueSubTypeCode_from_bytes (ascii_bytes ''CO'')"
  "IssueSubTypeCode_CurrencyTrustShares = IssueSubTypeCode_from_bytes (ascii_bytes ''CT'')"
  "IssueSubTypeCode_CommodityCurrencyLinkedSecurities = IssueSubTypeCode_from_bytes (ascii_bytes ''CU'')"
  "IssueSubTypeCode_CurrencyWarrants = IssueSubTypeCode_from_bytes (ascii_bytes ''CW'')"
  "IssueSubTypeCode_GlobalDepositaryShares = IssueSubTypeCode_from_bytes (ascii_bytes ''D '')"
  "IssueSubTypeCode_ETFPortfolioDepositaryReceipt = IssueSubTypeCode_from_bytes (ascii_bytes ''E '')"
  "IssueSubTypeCode_EquityGoldShares = IssueSubTypeCode_from_bytes (ascii_bytes ''EG'')"
  "IssueSubTypeCode_ETNEquityIndexLinkedSecurities = IssueSubTypeCode_from_bytes (ascii_bytes ''EI'')"
  "IssueSubTypeCode_NextSharesExchangeTradedManagedFund = IssueSubTypeCode_from_bytes (ascii_bytes ''EM'')"
  "IssueSubTypeCode_ExchangeTradedNotes = IssueSubTypeCode_from_bytes (ascii_bytes ''EN'')"
  "IssueSubTypeCode_EquityUnits = IssueSubTypeCode_from_bytes (ascii_bytes ''EU'')"
  "IssueSubTypeCode_HOLDRS = IssueSubTypeCode_from_bytes (ascii_bytes ''F '')"
  "IssueSubTypeCode_ETNFixedIncomeLinkedSecurities = IssueSubTypeCode_from_bytes (ascii_bytes ''FI'')"
  "IssueSubTypeCode_ETNFuturesLinkedSecurities = IssueSubTypeCode_from_bytes (ascii_bytes ''FL'')"
  "IssueSubTypeCode_GlobalShares = IssueSubTypeCode_from_bytes (ascii_bytes ''G '')"
  "IssueSubTypeCode_ETFIndexFundShares = IssueSubTypeCode_from_bytes (ascii_bytes ''I '')"
  "IssueSubTypeCode_InterestRate = IssueSubTypeCode_from_bytes (ascii_bytes ''IR'')"
  "IssueSubTypeCode_IndexWarrant = IssueSubTypeCode_from_bytes (ascii_bytes ''IW'')"
  "IssueSubTypeCode_IndexLinkedExchangeableNotes = IssueSubTypeCode_from_bytes (ascii_bytes ''IX'')"
  "IssueSubTypeCode_CorporateBackedTrustSecurity = IssueSubTypeCode_from_bytes (ascii_bytes ''J '')"
  "IssueSubTypeCode_ContingentLitigationRight = IssueSubTypeCode_from_bytes (ascii_bytes ''L '')"
  "IssueSubTypeCode_LimitedLiabilityCompany = IssueSubTypeCode_from_bytes (ascii_bytes ''LL'')"
  "IssueSubTypeCode_EquityBasedDerivative = IssueSubTypeCode_from_bytes (ascii_bytes ''M '')"
  "IssueSubTypeCode_ManagedFundShares = IssueSubTypeCode_from_bytes (ascii_bytes ''MF'')"
  "IssueSubTypeCode_ETNMultiFactorIndexLinkedSecurities = IssueSubTypeCode_from_bytes (ascii_bytes ''ML'')"
  "IssueSubTypeCode_ManagedTrustSecurities = IssueSubTypeCode_from_bytes (ascii_bytes ''MT'')"
  "IssueSubTypeCode_NYRegistryShares = IssueSubTypeCode_from_bytes (ascii_bytes ''N '')"
  "IssueSubTypeCode_OpenEndedMutualFund = IssueSubTypeCode_from_bytes (ascii_bytes ''O '')"
  "IssueSubTypeCode_PrivatelyHeldSecurity = IssueSubTypeCode_from_bytes (ascii_bytes ''P '')"
  "IssueSubTypeCode_PoisonPill = IssueSubTypeCode_from_bytes (ascii_bytes ''PP'')"
  "IssueSubTypeCode_PartnershipUnits = IssueSubTypeCode_from_bytes (ascii_bytes ''PU'')"
  "IssueSubTypeCode_ClosedEndFunds = IssueSubTypeCode_from_bytes (ascii_bytes ''Q '')"
  "IssueSubTypeCode_RegS = IssueSubTypeCode_from_bytes (ascii_bytes ''R '')"
  "IssueSubTypeCode_CommodityRedeemableCommodityLinkedSecurities = IssueSubTypeCode_from_bytes (ascii_bytes ''RC'')"
  "IssueSubTypeCode_ETNRedeemableFuturesLinkedSecurities = IssueSubTypeCode_from_bytes (ascii_bytes ''RF'')"
  "IssueSubTypeCode_REIT = IssueSubTypeCode_from_bytes (ascii_bytes ''RT'')"
  "IssueSubTypeCode_CommodityRedeemableCurrencyLinkedSecurities = IssueSubTypeCode_from_bytes (ascii_bytes ''RU'')"
  "IssueSubTypeCode_SEED = IssueSubTypeCode_from_bytes (ascii_bytes ''S '')"
  "IssueSubTypeCode_SpotRateClosing = IssueSubTypeCode_from_bytes (ascii_bytes ''SC'')"
  "IssueSubTypeCode_SpotRateIntraday = IssueSubTypeCode_from_bytes (ascii_bytes ''SI'')"
  "IssueSubTypeCode_TrackingStock = IssueSubTypeCode_from_bytes (ascii_bytes ''T '')"
  "IssueSubTypeCode_TrustCertificates = IssueSubTypeCode_from_bytes (ascii_bytes ''TC'')"
  "IssueSubTypeCode_TrustUnits = IssueSubTypeCode_from_bytes (ascii_bytes ''TU'')"
  "IssueSubTypeCode_Portal = IssueSubTypeCode_from_bytes (ascii_bytes ''U '')"
  "IssueSubTypeCode_ContingentValueRight = IssueSubTypeCode_from_bytes (ascii_bytes ''V '')"
  "IssueSubTypeCode_TrustIssuedReceipts = IssueSubTypeCode_from_bytes (ascii_bytes ''W '')"
  "IssueSubTypeCode_WorldCurrencyOption = IssueSubTypeCode_from_bytes (ascii_bytes ''WC'')"
  "IssueSubTypeCode_Trust = IssueSubTypeCode_from_bytes (ascii_bytes ''X '')"
  "IssueSubTypeCode_Other = IssueSubTypeCode_from_bytes (ascii_bytes ''Y '')"
  "IssueSubTypeCode_NotApplicable = IssueSubTypeCode_from_bytes (ascii_bytes ''Z '')"
  by (simp_all add: IssueSubTypeCode_from_bytes_def)

lemma issue_sub_type_codes: "\<exists>g. (\<forall>w. g (IssueSubTypeCode_from_bytes w) = w) \<and> (\<forall>u. g (IssueSubTypeCode_Unknown u) = u)"
proof (intro exI conjI allI)
  let ?g = "case_IssueSubTypeCode
    (ascii_bytes ''A '') (ascii_bytes ''AI'') (ascii_bytes ''B '') (ascii_bytes ''C '') (ascii_bytes ''CB'')
    (ascii_bytes ''CF'') (ascii_bytes ''CL'') (ascii_bytes ''CM'') (ascii_bytes ''CO'') (ascii_bytes ''CT'')
    (ascii_bytes ''CU'') (ascii_bytes ''CW'') (ascii_bytes ''D '') (ascii_bytes ''E '') (ascii_bytes ''EG'')
    (ascii_bytes ''EI'') (ascii_bytes ''EM'') (ascii_bytes ''EN'') (ascii_bytes ''EU'') (ascii_bytes ''F '')
    (ascii_bytes ''FI'') (ascii_bytes ''FL'') (ascii_bytes ''G '') (ascii_bytes ''I '') (ascii_bytes ''IR'')
    (ascii_bytes ''IW'') (ascii_bytes ''IX'') (ascii_bytes ''J '') (ascii_bytes ''L '') (ascii_bytes ''LL'')
    (ascii_bytes ''M '') (ascii_bytes ''MF'') (ascii_bytes ''ML'') (ascii_bytes ''MT'') (ascii_bytes ''N '')
    (ascii_bytes ''O '') (ascii_bytes ''P '') (ascii_bytes ''PP'') (ascii_bytes ''PU'') (ascii_bytes ''Q '')
    (ascii_bytes ''R '') (ascii_bytes ''RC'') (ascii_bytes ''RF'') (ascii_bytes ''RT'') (ascii_bytes ''RU'')
    (ascii_bytes ''S '') (ascii_bytes ''SC'') (ascii_bytes ''SI'') (ascii_bytes ''T '') (ascii_bytes ''TC'')
    (ascii_bytes ''TU'') (ascii_bytes ''U '') (ascii_bytes ''V '') (ascii_bytes ''W '') (ascii_bytes ''WC'')
    (ascii_bytes ''X '') (ascii_bytes ''Y '') (ascii_bytes ''Z '')
    (\<lambda>b. b)"
  show "?g (IssueSubTypeCode_from_bytes w) = w" for w by (simp add: IssueSubTypeCode_from_bytes_def)
  show "?g (IssueSubTypeCode_Unknown u) = u" for u by simp
qed

lemma issue_sub_type_inject: "IssueSubTypeCode_from_bytes v = IssueSubTypeCode_from_bytes w \<Longrightarrow> v = w"
  using issue_sub_type_codes by metis

lemma issue_sub_type_unknown: "IssueSubTypeCode_from_bytes w = IssueSubTypeCode_Unknown u \<Longrightarrow> w = u"
  using issue_sub_type_codes by metis

lemma issue_sub_type_decoded: "v \<in> range IssueSubTypeCode_from_bytes \<or> (\<exists>w. v = IssueSubTypeCode_Unknown w)"
  by (cases v) (simp_all add: issue_sub_types)

text \<open>The trading state of a stock together with the reason for it.\<close>

datatype TradingActionReason =
    TradingActionReason_Halted TradingHaltReason
  | TradingActionReason_Paused TradingHaltReason
  | TradingActionReason_QuotationOnly TradingResumptionReason
  | TradingActionReason_Trading TradingResumptionReason
  | TradingActionReason_Unknown u8 bytes

end
