(* ===== verification/Itch_Layout.thy ===== *)
theory Itch_Layout
  imports Itch_Enums
begin

text \<open>
  Fields of a packed struct: bytes of the image at an offset.  The locale \<open>wire_struct\<close>
  says that the fields of a message cover its bytes exactly, in order and without overlap.
\<close>

definition byte_at :: "nat \<Rightarrow> bytes \<Rightarrow> u8" where
  "byte_at i bs = bs ! i"

definition bytes_at :: "nat \<Rightarrow> nat \<Rightarrow> bytes \<Rightarrow> bytes" where
  "bytes_at i n bs = take n (drop i bs)"

lemma length_bytes_at [simp]: "i + n \<le> length bs \<Longrightarrow> length (bytes_at i n bs) = n"
  by (simp add: bytes_at_def)

lemma byte_at_bytes: "i < length bs \<Longrightarrow> [byte_at i bs] = bytes_at i 1 bs"
  by (simp add: byte_at_def bytes_at_def take_Suc_conv_app_nth [of 0, simplified] hd_drop_conv_nth
      take_Suc)

lemma bytes_at_join:
  "j = i + m \<Longrightarrow> bytes_at i m bs @ bytes_at j n bs = bytes_at i (m + n) bs"
  "j = i + m \<Longrightarrow> bytes_at i m bs @ bytes_at j n bs @ r = bytes_at i (m + n) bs @ r"
  by (simp_all add: bytes_at_def take_add add.commute)

lemma bytes_at_all: "length bs \<le> n \<Longrightarrow> bytes_at 0 n bs = bs"
  by (simp add: bytes_at_def)

locale wire_struct =
  fixes len :: nat and view :: "bytes \<Rightarrow> 'm" and as_bytes :: "'m \<Rightarrow> bytes"
  assumes as_bytes_view: "length bs = len \<Longrightarrow> as_bytes (view bs) = bs"
begin

lemma view_inject: "length bs = len \<Longrightarrow> length cs = len \<Longrightarrow> view bs = view cs \<longleftrightarrow> bs = cs"
  by (metis as_bytes_view)

end

end
