(* ===== verification/Itch_Admin.thy ===== *)
theory Itch_Admin
  imports Itch_Layout
begin

text \<open>
  The administrative messages of \<open>itch5/src/messages.rs\<close>: system events, the stock
  directory, trading status, market participants, circuit breakers, IPOs and halts.
  Each packed struct is a record of its raw fields (suffix \<open>_f\<close>); \<open>_view\<close> is the
  layout of \<open>repr(C, packed)\<close>, \<open>_as_bytes\<close> its inverse, and the accessors have
  the names of the code's methods.
\<close>

section \<open>SystemEvent\<close>

record SystemEvent =
  SystemEvent_tag_f :: u8
  SystemEvent_stock_locate_f :: bytes
  SystemEvent_tracking_number_f :: bytes
  SystemEvent_timestamp_f :: Timestamp
  SystemEvent_event_code_f :: u8

definition SystemEvent_LEN :: nat where "SystemEvent_LEN = 1 + 2 + 2 + 6 + 1"

definition SystemEvent_TAG :: u8 where "SystemEvent_TAG = ascii CHR ''S''"

definition SystemEvent_view :: "bytes \<Rightarrow> SystemEvent" where
  "SystemEvent_view bs =
     \<lparr>SystemEvent_tag_f = byte_at 0 bs,
      SystemEvent_stock_locate_f = bytes_at 1 2 bs,
      SystemEvent_tracking_number_f = bytes_at 3 2 bs,
      SystemEvent_timestamp_f = Timestamp (bytes_at 5 6 bs),
      SystemEvent_event_code_f = byte_at 11 bs\<rparr>"

definition SystemEvent_as_bytes :: "SystemEvent \<Rightarrow> bytes" where
  "SystemEvent_as_bytes m =
     [SystemEvent_tag_f m] @
     SystemEvent_stock_locate_f m @
     SystemEvent_tracking_number_f m @
     Timestamp_bytes (SystemEvent_timestamp_f m) @
     [SystemEvent_event_code_f m]"

interpretation system_event_layout:
  wire_struct SystemEvent_LEN SystemEvent_view SystemEvent_as_bytes
  by unfold_locales (simp add: SystemEvent_LEN_def SystemEvent_view_def
      SystemEvent_as_bytes_def byte_at_bytes bytes_at_join bytes_at_all)

definition SystemEvent_stock_locate :: "zerocopy \<Rightarrow> SystemEvent \<Rightarrow> u16" where
  "SystemEvent_stock_locate z m = zc_u16_get z (SystemEvent_stock_locate_f m)"

definition SystemEvent_tracking_number :: "zerocopy \<Rightarrow> SystemEvent \<Rightarrow> u16" where
  "SystemEvent_tracking_number z m = zc_u16_get z (SystemEvent_tracking_number_f m)"

definition SystemEvent_timestamp :: "SystemEvent \<Rightarrow> Timestamp" where
  "SystemEvent_timestamp m = SystemEvent_timestamp_f m"

definition SystemEvent_event_code :: "SystemEvent \<Rightarrow> SystemEventCode" where
  "SystemEvent_event_code m = SystemEventCode_from_byte (SystemEvent_event_code_f m)"

section \<open>StockDirectory\<close>

record StockDirectory =
  StockDirectory_tag_f :: u8
  StockDirectory_stock_locate_f :: bytes
  StockDirectory_tracking_number_f :: bytes
  StockDirectory_timestamp_f :: Timestamp
  StockDirectory_stock_f :: Symbol
  StockDirectory_market_category_f :: u8
  StockDirectory_financial_status_indicator_f :: u8
  StockDirectory_round_lot_size_f :: bytes
  StockDirectory_round_lots_only_f :: u8
  StockDirectory_issue_classification_f :: u8
  StockDirectory_issue_sub_type_f :: bytes
  StockDirectory_authenticity_f :: u8
  StockDirectory_short_sale_threshold_indicator_f :: u8
  StockDirectory_ipo_flag_f :: u8
  StockDirectory_luld_reference_price_tier_f :: u8
  StockDirectory_etp_flag_f :: u8
  StockDirectory_etp_leverage_factor_f :: bytes
  StockDirectory_inverse_indicator_f :: u8

definition StockDirectory_LEN :: nat where "StockDirectory_LEN = 1 + 2 + 2 + 6 + 8 + 1 + 1 + 4 + 1 + 1 + 2 + 1 + 1 + 1 + 1 + 1 + 4 + 1"

definition StockDirectory_TAG :: u8 where "StockDirectory_TAG = ascii CHR ''R''"

definition StockDirectory_view :: "bytes \<Rightarrow> StockDirectory" where
  "StockDirectory_view bs =
     \<lparr>StockDirectory_tag_f = byte_at 0 bs,
      StockDirectory_stock_locate_f = bytes_at 1 2 bs,
      StockDirectory_tracking_number_f = bytes_at 3 2 bs,
      StockDirectory_timestamp_f = Timestamp (bytes_at 5 6 bs),
      StockDirectory_stock_f = Symbol (bytes_at 11 8 bs),
      StockDirectory_market_category_f = byte_at 19 bs,
      StockDirectory_financial_status_indicator_f = byte_at 20 bs,
      StockDirectory_round_lot_size_f = bytes_at 21 4 bs,
      StockDirectory_round_lots_only_f = byte_at 25 bs,
      StockDirectory_issue_classification_f = byte_at 26 bs,
      StockDirectory_issue_sub_type_f = bytes_at 27 2 bs,
      StockDirectory_authenticity_f = byte_at 29 bs,
      StockDirectory_short_sale_threshold_indicator_f = byte_at 30 bs,
      StockDirectory_ipo_flag_f = byte_at 31 bs,
      StockDirectory_luld_reference_price_tier_f = byte_at 32 bs,
      StockDirectory_etp_flag_f = byte_at 33 bs,
      StockDirectory_etp_leverage_factor_f = bytes_at 34 4 bs,
      StockDirectory_inverse_indicator_f = byte_at 38 bs\<rparr>"

definition StockDirectory_as_bytes :: "StockDirectory \<Rightarrow> bytes" where
  "StockDirectory_as_bytes m =
     [StockDirectory_tag_f m] @
     StockDirectory_stock_locate_f m @
     StockDirectory_tracking_number_f m @
     Timestamp_bytes (StockDirectory_timestamp_f m) @
     Symbol_bytes (StockDirectory_stock_f m) @
     [StockDirectory_market_category_f m] @
     [StockDirectory_financial_status_indicator_f m] @
     StockDirectory_round_lot_size_f m @
     [StockDirectory_round_lots_only_f m] @
     [StockDirectory_issue_classification_f m] @
     StockDirectory_issue_sub_type_f m @
     [StockDirectory_authenticity_f m] @
     [StockDirectory_short_sale_threshold_indicator_f m] @
     [StockDirectory_ipo_flag_f m] @
     [StockDirectory_luld_reference_price_tier_f m] @
     [StockDirectory_etp_flag_f m] @
     StockDirectory_etp_leverage_factor_f m @
     [StockDirectory_inverse_indicator_f m]"

interpretation stock_directory_layout:
  wire_struct StockDirectory_LEN StockDirectory_view StockDirectory_as_bytes
  by unfold_locales (simp add: StockDirectory_LEN_def StockDirectory_view_def
      StockDirectory_as_bytes_def byte_at_bytes bytes_at_join bytes_at_all)

definition StockDirectory_stock_locate :: "zerocopy \<Rightarrow> StockDirectory \<Rightarrow> u16" where
  "StockDirectory_stock_locate z m = zc_u16_get z (StockDirectory_stock_locate_f m)"

definition StockDirectory_tracking_number :: "zerocopy \<Rightarrow> StockDirectory \<Rightarrow> u16" where
  "StockDirectory_tracking_number z m = zc_u16_get z (StockDirectory_tracking_number_f m)"

definition StockDirectory_timestamp :: "StockDirectory \<Rightarrow> Timestamp" where
  "StockDirectory_timestamp m = StockDirectory_timestamp_f m"

definition StockDirectory_stock :: "StockDirectory \<Rightarrow> Symbol" where
  "StockDirectory_stock m = StockDirectory_stock_f m"

definition StockDirectory_market_category :: "StockDirectory \<Rightarrow> MarketCategory" where
  "StockDirectory_market_category m = MarketCategory_from_byte (StockDirectory_market_category_f m)"

definition StockDirectory_financial_status_indicator :: "StockDirectory \<Rightarrow> FinancialStatusIndicator" where
  "StockDirectory_financial_status_indicator m = FinancialStatusIndicator_from_byte (StockDirectory_financial_status_indicator_f m)"

definition StockDirectory_round_lot_size :: "zerocopy \<Rightarrow> StockDirectory \<Rightarrow> u32" where
  "StockDirectory_round_lot_size z m = zc_u32_get z (StockDirectory_round_lot_size_f m)"

definition StockDirectory_round_lots_only :: "StockDirectory \<Rightarrow> RoundLotsOnly" where
  "StockDirectory_round_lots_only m = RoundLotsOnly_from_byte (StockDirectory_round_lots_only_f m)"

definition StockDirectory_issue_classification :: "StockDirectory \<Rightarrow> IssueClassificationCode" where
  "StockDirectory_issue_classification m = IssueClassificationCode_from_byte (StockDirectory_issue_classification_f m)"

definition StockDirectory_issue_sub_type :: "StockDirectory \<Rightarrow> IssueSubTypeCode" where
  "StockDirectory_issue_sub_type m = IssueSubTypeCode_from_bytes (StockDirectory_issue_sub_type_f m)"

definition StockDirectory_authenticity :: "StockDirectory \<Rightarrow> Authenticity" where
  "StockDirectory_authenticity m = Authenticity_from_byte (StockDirectory_authenticity_f m)"

definition StockDirectory_short_sale_threshold_indicator :: "StockDirectory \<Rightarrow> ShortSaleThresholdIndicator" where
  "StockDirectory_short_sale_threshold_indicator m = ShortSaleThresholdIndicator_from_byte (StockDirectory_short_sale_threshold_indicator_f m)"

definition StockDirectory_ipo_flag :: "StockDirectory \<Rightarrow> IpoFlag" where
  "StockDirectory_ipo_flag m = IpoFlag_from_byte (StockDirectory_ipo_flag_f m)"

definition StockDirectory_luld_reference_price_tier :: "StockDirectory \<Rightarrow> LuldReferencePriceTier" where
  "StockDirectory_luld_reference_price_tier m = LuldReferencePriceTier_from_byte (StockDirectory_luld_reference_price_tier_f m)"

definition StockDirectory_etp_flag :: "StockDirectory \<Rightarrow> EtpFlag" where
  "StockDirectory_etp_flag m = EtpFlag_from_byte (StockDirectory_etp_flag_f m)"

definition StockDirectory_etp_leverage_factor :: "zerocopy \<Rightarrow> StockDirectory \<Rightarrow> u32" where
  "StockDirectory_etp_leverage_factor z m = zc_u32_get z (StockDirectory_etp_leverage_factor_f m)"

definition StockDirectory_inverse_indicator :: "StockDirectory \<Rightarrow> InverseIndicator" where
  "StockDirectory_inverse_indicator m = InverseIndicator_from_byte (StockDirectory_inverse_indicator_f m)"

section \<open>StockTradingAction\<close>

record StockTradingAction =
  StockTradingAction_tag_f :: u8
  StockTradingAction_stock_locate_f :: bytes
  StockTradingAction_tracking_number_f :: bytes
  StockTradingAction_timestamp_f :: Timestamp
  StockTradingAction_stock_f :: Symbol
  StockTradingAction_trading_state_f :: u8
  StockTradingAction_reserved_f :: u8
  StockTradingAction_reason_f :: bytes

definition StockTradingAction_LEN :: nat where "StockTradingAction_LEN = 1 + 2 + 2 + 6 + 8 + 1 + 1 + 4"

definition StockTradingAction_TAG :: u8 where "StockTradingAction_TAG = ascii CHR ''H''"

definition StockTradingAction_view :: "bytes \<Rightarrow> StockTradingAction" where
  "StockTradingAction_view bs =
     \<lparr>StockTradingAction_tag_f = byte_at 0 bs,
      StockTradingAction_stock_locate_f = bytes_at 1 2 bs,
      StockTradingAction_tracking_number_f = bytes_at 3 2 bs,
      StockTradingAction_timestamp_f = Timestamp (bytes_at 5 6 bs),
      StockTradingAction_stock_f = Symbol (bytes_at 11 8 bs),
      StockTradingAction_trading_state_f = byte_at 19 bs,
      StockTradingAction_reserved_f = byte_at 20 bs,
      StockTradingAction_reason_f = bytes_at 21 4 bs\<rparr>"

definition StockTradingAction_as_bytes :: "StockTradingAction \<Rightarrow> bytes" where
  "StockTradingAction_as_bytes m =
     [StockTradingAction_tag_f m] @
     StockTradingAction_stock_locate_f m @
     StockTradingAction_tracking_number_f m @
     Timestamp_bytes (StockTradingAction_timestamp_f m) @
     Symbol_bytes (StockTradingAction_stock_f m) @
     [StockTradingAction_trading_state_f m] @
     [StockTradingAction_reserved_f m] @
     StockTradingAction_reason_f m"

interpretation stock_trading_action_layout:
  wire_struct StockTradingAction_LEN StockTradingAction_view StockTradingAction_as_bytes
  by unfold_locales (simp add: StockTradingAction_LEN_def StockTradingAction_view_def
      StockTradingAction_as_bytes_def byte_at_bytes bytes_at_join bytes_at_all)

definition StockTradingAction_stock_locate :: "zerocopy \<Rightarrow> StockTradingAction \<Rightarrow> u16" where
  "StockTradingAction_stock_locate z m = zc_u16_get z (StockTradingAction_stock_locate_f m)"

definition StockTradingAction_tracking_number :: "zerocopy \<Rightarrow> StockTradingAction \<Rightarrow> u16" where
  "StockTradingAction_tracking_number z m = zc_u16_get z (StockTradingAction_tracking_number_f m)"

definition StockTradingAction_timestamp :: "StockTradingAction \<Rightarrow> Timestamp" where
  "StockTradingAction_timestamp m = StockTradingAction_timestamp_f m"

definition StockTradingAction_stock :: "StockTradingAction \<Rightarrow> Symbol" where
  "StockTradingAction_stock m = StockTradingAction_stock_f m"

definition StockTradingAction_trading_state :: "StockTradingAction \<Rightarrow> TradingState" where
  "StockTradingAction_trading_state m = TradingState_from_byte (StockTradingAction_trading_state_f m)"

definition StockTradingAction_reserved :: "StockTradingAction \<Rightarrow> u8" where
  "StockTradingAction_reserved m = StockTradingAction_reserved_f m"

definition StockTradingAction_reason :: "StockTradingAction \<Rightarrow> TradingActionReason" where
  "StockTradingAction_reason m =
     (case StockTradingAction_trading_state m of
        TradingState_Halted \<Rightarrow>
          TradingActionReason_Halted (TradingHaltReason_from_bytes (StockTradingAction_reason_f m))
      | TradingState_Paused \<Rightarrow>
          TradingActionReason_Paused (TradingHaltReason_from_bytes (StockTradingAction_reason_f m))
      | TradingState_QuotationOnly \<Rightarrow>
          TradingActionReason_QuotationOnly (TradingResumptionReason_from_bytes (StockTradingAction_reason_f m))
      | TradingState_Trading \<Rightarrow>
          TradingActionReason_Trading (TradingResumptionReason_from_bytes (StockTradingAction_reason_f m))
      | TradingState_Unknown ident \<Rightarrow>
          TradingActionReason_Unknown ident (StockTradingAction_reason_f m))"

section \<open>RegSHORestriction\<close>

record RegSHORestriction =
  RegSHORestriction_tag_f :: u8
  RegSHORestriction_locate_code_f :: bytes
  RegSHORestriction_tracking_number_f :: bytes
  RegSHORestriction_timestamp_f :: Timestamp
  RegSHORestriction_stock_f :: Symbol
  RegSHORestriction_reg_sho_action_f :: u8

definition RegSHORestriction_LEN :: nat where "RegSHORestriction_LEN = 1 + 2 + 2 + 6 + 8 + 1"

definition RegSHORestriction_TAG :: u8 where "RegSHORestriction_TAG = ascii CHR ''Y''"

definition RegSHORestriction_view :: "bytes \<Rightarrow> RegSHORestriction" where
  "RegSHORestriction_view bs =
     \<lparr>RegSHORestriction_tag_f = byte_at 0 bs,
      RegSHORestriction_locate_code_f = bytes_at 1 2 bs,
      RegSHORestriction_tracking_number_f = bytes_at 3 2 bs,
      RegSHORestriction_timestamp_f = Timestamp (bytes_at 5 6 bs),
      RegSHORestriction_stock_f = Symbol (bytes_at 11 8 bs),
      RegSHORestriction_reg_sho_action_f = byte_at 19 bs\<rparr>"

definition RegSHORestriction_as_bytes :: "RegSHORestriction \<Rightarrow> bytes" where
  "RegSHORestriction_as_bytes m =
     [RegSHORestriction_tag_f m] @
     RegSHORestriction_locate_code_f m @
     RegSHORestriction_tracking_number_f m @
     Timestamp_bytes (RegSHORestriction_timestamp_f m) @
     Symbol_bytes (RegSHORestriction_stock_f m) @
     [RegSHORestriction_reg_sho_action_f m]"

interpretation reg_sho_restriction_layout:
  wire_struct RegSHORestriction_LEN RegSHORestriction_view RegSHORestriction_as_bytes
  by unfold_locales (simp add: RegSHORestriction_LEN_def RegSHORestriction_view_def
      RegSHORestriction_as_bytes_def byte_at_bytes bytes_at_join bytes_at_all)

definition RegSHORestriction_locate_code :: "zerocopy \<Rightarrow> RegSHORestriction \<Rightarrow> u16" where
  "RegSHORestriction_locate_code z m = zc_u16_get z (RegSHORestriction_locate_code_f m)"

definition RegSHORestriction_tracking_number :: "zerocopy \<Rightarrow> RegSHORestriction \<Rightarrow> u16" where
  "RegSHORestriction_tracking_number z m = zc_u16_get z (RegSHORestriction_tracking_number_f m)"

definition RegSHORestriction_timestamp :: "RegSHORestriction \<Rightarrow> Timestamp" where
  "RegSHORestriction_timestamp m = RegSHORestriction_timestamp_f m"

definition RegSHORestriction_stock :: "RegSHORestriction \<Rightarrow> Symbol" where
  "RegSHORestriction_stock m = RegSHORestriction_stock_f m"

definition RegSHORestriction_reg_sho_action :: "RegSHORestriction \<Rightarrow> RegShoAction" where
  "RegSHORestriction_reg_sho_action m = RegShoAction_from_byte (RegSHORestriction_reg_sho_action_f m)"

section \<open>MarketParticipantPosition\<close>

record MarketParticipantPosition =
  MarketParticipantPosition_tag_f :: u8
  MarketParticipantPosition_stock_locate_f :: bytes
  MarketParticipantPosition_tracking_number_f :: bytes
  MarketParticipantPosition_timestamp_f :: Timestamp
  MarketParticipantPosition_mpid_f :: bytes
  MarketParticipantPosition_stock_f :: Symbol
  MarketParticipantPosition_primary_market_maker_f :: u8
  MarketParticipantPosition_market_maker_mode_f :: u8
  MarketParticipantPosition_market_participant_state_f :: u8

definition MarketParticipantPosition_LEN :: nat where "MarketParticipantPosition_LEN = 1 + 2 + 2 + 6 + 4 + 8 + 1 + 1 + 1"

definition MarketParticipantPosition_TAG :: u8 where "MarketParticipantPosition_TAG = ascii CHR ''L''"

definition MarketParticipantPosition_view :: "bytes \<Rightarrow> MarketParticipantPosition" where
  "MarketParticipantPosition_view bs =
     \<lparr>MarketParticipantPosition_tag_f = byte_at 0 bs,
      MarketParticipantPosition_stock_locate_f = bytes_at 1 2 bs,
      MarketParticipantPosition_tracking_number_f = bytes_at 3 2 bs,
      MarketParticipantPosition_timestamp_f = Timestamp (bytes_at 5 6 bs),
      MarketParticipantPosition_mpid_f = bytes_at 11 4 bs,
      MarketParticipantPosition_stock_f = Symbol (bytes_at 15 8 bs),
      MarketParticipantPosition_primary_market_maker_f = byte_at 23 bs,
      MarketParticipantPosition_market_maker_mode_f = byte_at 24 bs,
      MarketParticipantPosition_market_participant_state_f = byte_at 25 bs\<rparr>"

definition MarketParticipantPosition_as_bytes :: "MarketParticipantPosition \<Rightarrow> bytes" where
  "MarketParticipantPosition_as_bytes m =
     [MarketParticipantPosition_tag_f m] @
     MarketParticipantPosition_stock_locate_f m @
     MarketParticipantPosition_tracking_number_f m @
     Timestamp_bytes (MarketParticipantPosition_timestamp_f m) @
     MarketParticipantPosition_mpid_f m @
     Symbol_bytes (MarketParticipantPosition_stock_f m) @
     [MarketParticipantPosition_primary_market_maker_f m] @
     [MarketParticipantPosition_market_maker_mode_f m] @
     [MarketParticipantPosition_market_participant_state_f m]"

interpretation market_participant_position_layout:
  wire_struct MarketParticipantPosition_LEN MarketParticipantPosition_view MarketParticipantPosition_as_bytes
  by unfold_locales (simp add: MarketParticipantPosition_LEN_def MarketParticipantPosition_view_def
      MarketParticipantPosition_as_bytes_def byte_at_bytes bytes_at_join bytes_at_all)

definition MarketParticipantPosition_stock_locate :: "zerocopy \<Rightarrow> MarketParticipantPosition \<Rightarrow> u16" where
  "MarketParticipantPosition_stock_locate z m = zc_u16_get z (MarketParticipantPosition_stock_locate_f m)"

definition MarketParticipantPosition_tracking_number :: "zerocopy \<Rightarrow> MarketParticipantPosition \<Rightarrow> u16" where
  "MarketParticipantPosition_tracking_number z m = zc_u16_get z (MarketParticipantPosition_tracking_number_f m)"

definition MarketParticipantPosition_timestamp :: "MarketParticipantPosition \<Rightarrow> Timestamp" where
  "MarketParticipantPosition_timestamp m = MarketParticipantPosition_timestamp_f m"

definition MarketParticipantPosition_mpid :: "MarketParticipantPosition \<Rightarrow> bytes" where
  "MarketParticipantPosition_mpid m = MarketParticipantPosition_mpid_f m"

definition MarketParticipantPosition_stock :: "MarketParticipantPosition \<Rightarrow> Symbol" where
  "MarketParticipantPosition_stock m = MarketParticipantPosition_stock_f m"

definition MarketParticipantPosition_primary_market_maker :: "MarketParticipantPosition \<Rightarrow> PrimaryMarketMaker" where
  "MarketParticipantPosition_primary_market_maker m = PrimaryMarketMaker_from_byte (MarketParticipantPosition_primary_market_maker_f m)"

definition MarketParticipantPosition_market_maker_mode :: "MarketParticipantPosition \<Rightarrow> MarketMakerMode" where
  "MarketParticipantPosition_market_maker_mode m = MarketMakerMode_from_byte (MarketParticipantPosition_market_maker_mode_f m)"

definition MarketParticipantPosition_market_participant_state :: "MarketParticipantPosition \<Rightarrow> MarketParticipantState" where
  "MarketParticipantPosition_market_participant_state m = MarketParticipantState_from_byte (MarketParticipantPosition_market_participant_state_f m)"

section \<open>MWCBDeclineLevel\<close>

record MWCBDeclineLevel =
  MWCBDeclineLevel_tag_f :: u8
  MWCBDeclineLevel_stock_locate_f :: bytes
  MWCBDeclineLevel_tracking_number_f :: bytes
  MWCBDeclineLevel_timestamp_f :: Timestamp
  MWCBDeclineLevel_level_1_f :: Price8
  MWCBDeclineLevel_level_2_f :: Price8
  MWCBDeclineLevel_level_3_f :: Price8

definition MWCBDeclineLevel_LEN :: nat where "MWCBDeclineLevel_LEN = 1 + 2 + 2 + 6 + 8 + 8 + 8"

definition MWCBDeclineLevel_TAG :: u8 where "MWCBDeclineLevel_TAG = ascii CHR ''V''"

definition MWCBDeclineLevel_view :: "bytes \<Rightarrow> MWCBDeclineLevel" where
  "MWCBDeclineLevel_view bs =
     \<lparr>MWCBDeclineLevel_tag_f = byte_at 0 bs,
      MWCBDeclineLevel_stock_locate_f = bytes_at 1 2 bs,
      MWCBDeclineLevel_tracking_number_f = bytes_at 3 2 bs,
      MWCBDeclineLevel_timestamp_f = Timestamp (bytes_at 5 6 bs),
      MWCBDeclineLevel_level_1_f = Price8 (bytes_at 11 8 bs),
      MWCBDeclineLevel_level_2_f = Price8 (bytes_at 19 8 bs),
      MWCBDeclineLevel_level_3_f = Price8 (bytes_at 27 8 bs)\<rparr>"

definition MWCBDeclineLevel_as_bytes :: "MWCBDeclineLevel \<Rightarrow> bytes" where
  "MWCBDeclineLevel_as_bytes m =
     [MWCBDeclineLevel_tag_f m] @
     MWCBDeclineLevel_stock_locate_f m @
     MWCBDeclineLevel_tracking_number_f m @
     Timestamp_bytes (MWCBDeclineLevel_timestamp_f m) @
     Price8_bytes (MWCBDeclineLevel_level_1_f m) @
     Price8_bytes (MWCBDeclineLevel_level_2_f m) @
     Price8_bytes (MWCBDeclineLevel_level_3_f m)"

interpretation mwcb_decline_level_layout:
  wire_struct MWCBDeclineLevel_LEN MWCBDeclineLevel_view MWCBDeclineLevel_as_bytes
  by unfold_locales (simp add: MWCBDeclineLevel_LEN_def MWCBDeclineLevel_view_def
      MWCBDeclineLevel_as_bytes_def byte_at_bytes bytes_at_join bytes_at_all)

definition MWCBDeclineLevel_stock_locate :: "zerocopy \<Rightarrow> MWCBDeclineLevel \<Rightarrow> u16" where
  "MWCBDeclineLevel_stock_locate z m = zc_u16_get z (MWCBDeclineLevel_stock_locate_f m)"

definition MWCBDeclineLevel_tracking_number :: "zerocopy \<Rightarrow> MWCBDeclineLevel \<Rightarrow> u16" where
  "MWCBDeclineLevel_tracking_number z m = zc_u16_get z (MWCBDeclineLevel_tracking_number_f m)"

definition MWCBDeclineLevel_timestamp :: "MWCBDeclineLevel \<Rightarrow> Timestamp" where
  "MWCBDeclineLevel_timestamp m = MWCBDeclineLevel_timestamp_f m"

definition MWCBDeclineLevel_level_1 :: "MWCBDeclineLevel \<Rightarrow> Price8" where
  "MWCBDeclineLevel_level_1 m = MWCBDeclineLevel_level_1_f m"

definition MWCBDeclineLevel_level_2 :: "MWCBDeclineLevel \<Rightarrow> Price8" where
  "MWCBDeclineLevel_level_2 m = MWCBDeclineLevel_level_2_f m"

definition MWCBDeclineLevel_level_3 :: "MWCBDeclineLevel \<Rightarrow> Price8" where
  "MWCBDeclineLevel_level_3 m = MWCBDeclineLevel_level_3_f m"

section \<open>MWCBStatus\<close>

record MWCBStatus =
  MWCBStatus_tag_f :: u8
  MWCBStatus_stock_locate_f :: bytes
  MWCBStatus_tracking_number_f :: bytes
  MWCBStatus_timestamp_f :: Timestamp
  MWCBStatus_breached_level_f :: u8

definition MWCBStatus_LEN :: nat where "MWCBStatus_LEN = 1 + 2 + 2 + 6 + 1"

definition MWCBStatus_TAG :: u8 where "MWCBStatus_TAG = ascii CHR ''W''"

definition MWCBStatus_view :: "bytes \<Rightarrow> MWCBStatus" where
  "MWCBStatus_view bs =
     \<lparr>MWCBStatus_tag_f = byte_at 0 bs,
      MWCBStatus_stock_locate_f = bytes_at 1 2 bs,
      MWCBStatus_tracking_number_f = bytes_at 3 2 bs,
      MWCBStatus_timestamp_f = Timestamp (bytes_at 5 6 bs),
      MWCBStatus_breached_level_f = byte_at 11 bs\<rparr>"

definition MWCBStatus_as_bytes :: "MWCBStatus \<Rightarrow> bytes" where
  "MWCBStatus_as_bytes m =
     [MWCBStatus_tag_f m] @
     MWCBStatus_stock_locate_f m @
     MWCBStatus_tracking_number_f m @
     Timestamp_bytes (MWCBStatus_timestamp_f m) @
     [MWCBStatus_breached_level_f m]"

interpretation mwcb_status_layout:
  wire_struct MWCBStatus_LEN MWCBStatus_view MWCBStatus_as_bytes
  by unfold_locales (simp add: MWCBStatus_LEN_def MWCBStatus_view_def
      MWCBStatus_as_bytes_def byte_at_bytes bytes_at_join bytes_at_all)

definition MWCBStatus_stock_locate :: "zerocopy \<Rightarrow> MWCBStatus \<Rightarrow> u16" where
  "MWCBStatus_stock_locate z m = zc_u16_get z (MWCBStatus_stock_locate_f m)"

definition MWCBStatus_tracking_number :: "zerocopy \<Rightarrow> MWCBStatus \<Rightarrow> u16" where
  "MWCBStatus_tracking_number z m = zc_u16_get z (MWCBStatus_tracking_number_f m)"

definition MWCBStatus_timestamp :: "MWCBStatus \<Rightarrow> Timestamp" where
  "MWCBStatus_timestamp m = MWCBStatus_timestamp_f m"

definition MWCBStatus_breached_level :: "MWCBStatus \<Rightarrow> BreachedLevel" where
  "MWCBStatus_breached_level m = BreachedLevel_from_byte (MWCBStatus_breached_level_f m)"

section \<open>QuotingPeriodUpdate\<close>

record QuotingPeriodUpdate =
  QuotingPeriodUpdate_tag_f :: u8
  QuotingPeriodUpdate_stock_locate_f :: bytes
  QuotingPeriodUpdate_tracking_number_f :: bytes
  QuotingPeriodUpdate_timestamp_f :: Timestamp
  QuotingPeriodUpdate_stock_f :: Symbol
  QuotingPeriodUpdate_ipo_quotation_release_time_f :: bytes
  QuotingPeriodUpdate_ipo_quotation_release_qualifier_f :: u8
  QuotingPeriodUpdate_ipo_price_f :: Price4

definition QuotingPeriodUpdate_LEN :: nat where "QuotingPeriodUpdate_LEN = 1 + 2 + 2 + 6 + 8 + 4 + 1 + 4"

definition QuotingPeriodUpdate_TAG :: u8 where "QuotingPeriodUpdate_TAG = ascii CHR ''K''"

definition QuotingPeriodUpdate_view :: "bytes \<Rightarrow> QuotingPeriodUpdate" where
  "QuotingPeriodUpdate_view bs =
     \<lparr>QuotingPeriodUpdate_tag_f = byte_at 0 bs,
      QuotingPeriodUpdate_stock_locate_f = bytes_at 1 2 bs,
      QuotingPeriodUpdate_tracking_number_f = bytes_at 3 2 bs,
      QuotingPeriodUpdate_timestamp_f = Timestamp (bytes_at 5 6 bs),
      QuotingPeriodUpdate_stock_f = Symbol (bytes_at 11 8 bs),
      QuotingPeriodUpdate_ipo_quotation_release_time_f = bytes_at 19 4 bs,
      QuotingPeriodUpdate_ipo_quotation_release_qualifier_f = byte_at 23 bs,
      QuotingPeriodUpdate_ipo_price_f = Price4 (bytes_at 24 4 bs)\<rparr>"

definition QuotingPeriodUpdate_as_bytes :: "QuotingPeriodUpdate \<Rightarrow> bytes" where
  "QuotingPeriodUpdate_as_bytes m =
     [QuotingPeriodUpdate_tag_f m] @
     QuotingPeriodUpdate_stock_locate_f m @
     QuotingPeriodUpdate_tracking_number_f m @
     Timestamp_bytes (QuotingPeriodUpdate_timestamp_f m) @
     Symbol_bytes (QuotingPeriodUpdate_stock_f m) @
     QuotingPeriodUpdate_ipo_quotation_release_time_f m @
     [QuotingPeriodUpdate_ipo_quotation_release_qualifier_f m] @
     Price4_bytes (QuotingPeriodUpdate_ipo_price_f m)"

interpretation quoting_period_update_layout:
  wire_struct QuotingPeriodUpdate_LEN QuotingPeriodUpdate_view QuotingPeriodUpdate_as_bytes
  by unfold_locales (simp add: QuotingPeriodUpdate_LEN_def QuotingPeriodUpdate_view_def
      QuotingPeriodUpdate_as_bytes_def byte_at_bytes bytes_at_join bytes_at_all)

definition QuotingPeriodUpdate_stock_locate :: "zerocopy \<Rightarrow> QuotingPeriodUpdate \<Rightarrow> u16" where
  "QuotingPeriodUpdate_stock_locate z m = zc_u16_get z (QuotingPeriodUpdate_stock_locate_f m)"

definition QuotingPeriodUpdate_tracking_number :: "zerocopy \<Rightarrow> QuotingPeriodUpdate \<Rightarrow> u16" where
  "QuotingPeriodUpdate_tracking_number z m = zc_u16_get z (QuotingPeriodUpdate_tracking_number_f m)"

definition QuotingPeriodUpdate_timestamp :: "QuotingPeriodUpdate \<Rightarrow> Timestamp" where
  "QuotingPeriodUpdate_timestamp m = QuotingPeriodUpdate_timestamp_f m"

definition QuotingPeriodUpdate_stock :: "QuotingPeriodUpdate \<Rightarrow> Symbol" where
  "QuotingPeriodUpdate_stock m = QuotingPeriodUpdate_stock_f m"

definition QuotingPeriodUpdate_ipo_quotation_release_time :: "zerocopy \<Rightarrow> QuotingPeriodUpdate \<Rightarrow> u32" where
  "QuotingPeriodUpdate_ipo_quotation_release_time z m = zc_u32_get z (QuotingPeriodUpdate_ipo_quotation_release_time_f m)"

definition QuotingPeriodUpdate_ipo_quotation_release_qualifier :: "QuotingPeriodUpdate \<Rightarrow> IpoQuotationReleaseQualifier" where
  "QuotingPeriodUpdate_ipo_quotation_release_qualifier m = IpoQuotationReleaseQualifier_from_byte (QuotingPeriodUpdate_ipo_quotation_release_qualifier_f m)"

definition QuotingPeriodUpdate_ipo_price :: "QuotingPeriodUpdate \<Rightarrow> Price4" where
  "QuotingPeriodUpdate_ipo_price m = QuotingPeriodUpdate_ipo_price_f m"

section \<open>LULDAuctionCollar\<close>

record LULDAuctionCollar =
  LULDAuctionCollar_tag_f :: u8
  LULDAuctionCollar_stock_locate_f :: bytes
  LULDAuctionCollar_tracking_number_f :: bytes
  LULDAuctionCollar_timestamp_f :: Timestamp
  LULDAuctionCollar_stock_f :: Symbol
  LULDAuctionCollar_auction_collar_reference_price_f :: Price4
  LULDAuctionCollar_upper_auction_collar_price_f :: Price4
  LULDAuctionCollar_lower_auction_collar_price_f :: Price4
  LULDAuctionCollar_auction_collar_extension_f :: Price4

definition LULDAuctionCollar_LEN :: nat where "LULDAuctionCollar_LEN = 1 + 2 + 2 + 6 + 8 + 4 + 4 + 4 + 4"

definition LULDAuctionCollar_TAG :: u8 where "LULDAuctionCollar_TAG = ascii CHR ''J''"

definition LULDAuctionCollar_view :: "bytes \<Rightarrow> LULDAuctionCollar" where
  "LULDAuctionCollar_view bs =
     \<lparr>LULDAuctionCollar_tag_f = byte_at 0 bs,
      LULDAuctionCollar_stock_locate_f = bytes_at 1 2 bs,
      LULDAuctionCollar_tracking_number_f = bytes_at 3 2 bs,
      LULDAuctionCollar_timestamp_f = Timestamp (bytes_at 5 6 bs),
      LULDAuctionCollar_stock_f = Symbol (bytes_at 11 8 bs),
      LULDAuctionCollar_auction_collar_reference_price_f = Price4 (bytes_at 19 4 bs),
      LULDAuctionCollar_upper_auction_collar_price_f = Price4 (bytes_at 23 4 bs),
      LULDAuctionCollar_lower_auction_collar_price_f = Price4 (bytes_at 27 4 bs),
      LULDAuctionCollar_auction_collar_extension_f = Price4 (bytes_at 31 4 bs)\<rparr>"

definition LULDAuctionCollar_as_bytes :: "LULDAuctionCollar \<Rightarrow> bytes" where
  "LULDAuctionCollar_as_bytes m =
     [LULDAuctionCollar_tag_f m] @
     LULDAuctionCollar_stock_locate_f m @
     LULDAuctionCollar_tracking_number_f m @
     Timestamp_bytes (LULDAuctionCollar_timestamp_f m) @
     Symbol_bytes (LULDAuctionCollar_stock_f m) @
     Price4_bytes (LULDAuctionCollar_auction_collar_reference_price_f m) @
     Price4_bytes (LULDAuctionCollar_upper_auction_collar_price_f m) @
     Price4_bytes (LULDAuctionCollar_lower_auction_collar_price_f m) @
     Price4_bytes (LULDAuctionCollar_auction_collar_extension_f m)"

interpretation luld_auction_collar_layout:
  wire_struct LULDAuctionCollar_LEN LULDAuctionCollar_view LULDAuctionCollar_as_bytes
  by unfold_locales (simp add: LULDAuctionCollar_LEN_def LULDAuctionCollar_view_def
      LULDAuctionCollar_as_bytes_def byte_at_bytes bytes_at_join bytes_at_all)

definition LULDAuctionCollar_stock_locate :: "zerocopy \<Rightarrow> LULDAuctionCollar \<Rightarrow> u16" where
  "LULDAuctionCollar_stock_locate z m = zc_u16_get z (LULDAuctionCollar_stock_locate_f m)"

definition LULDAuctionCollar_tracking_number :: "zerocopy \<Rightarrow> LULDAuctionCollar \<Rightarrow> u16" where
  "LULDAuctionCollar_tracking_number z m = zc_u16_get z (LULDAuctionCollar_tracking_number_f m)"

definition LULDAuctionCollar_timestamp :: "LULDAuctionCollar \<Rightarrow> Timestamp" where
  "LULDAuctionCollar_timestamp m = LULDAuctionCollar_timestamp_f m"

definition LULDAuctionCollar_stock :: "LULDAuctionCollar \<Rightarrow> Symbol" where
  "LULDAuctionCollar_stock m = LULDAuctionCollar_stock_f m"

definition LULDAuctionCollar_auction_collar_reference_price :: "LULDAuctionCollar \<Rightarrow> Price4" where
  "LULDAuctionCollar_auction_collar_reference_price m = LULDAuctionCollar_auction_collar_reference_price_f m"

definition LULDAuctionCollar_upper_auction_collar_price :: "LULDAuctionCollar \<Rightarrow> Price4" where
  "LULDAuctionCollar_upper_auction_collar_price m = LULDAuctionCollar_upper_auction_collar_price_f m"

definition LULDAuctionCollar_lower_auction_collar_price :: "LULDAuctionCollar \<Rightarrow> Price4" where
  "LULDAuctionCollar_lower_auction_collar_price m = LULDAuctionCollar_lower_auction_collar_price_f m"

definition LULDAuctionCollar_auction_collar_extension :: "LULDAuctionCollar \<Rightarrow> Price4" where
  "LULDAuctionCollar_auction_collar_extension m = LULDAuctionCollar_auction_collar_extension_f m"

section \<open>OperationalHalt\<close>

record OperationalHalt =
  OperationalHalt_tag_f :: u8
  OperationalHalt_stock_locate_f :: bytes
  OperationalHalt_tracking_number_f :: bytes
  OperationalHalt_timestamp_f :: Timestamp
  OperationalHalt_stock_f :: Symbol
  OperationalHalt_market_code_f :: u8
  OperationalHalt_operational_halt_action_f :: u8

definition OperationalHalt_LEN :: nat where "OperationalHalt_LEN = 1 + 2 + 2 + 6 + 8 + 1 + 1"

definition OperationalHalt_TAG :: u8 where "OperationalHalt_TAG = ascii CHR ''h''"

definition OperationalHalt_view :: "bytes \<Rightarrow> OperationalHalt" where
  "OperationalHalt_view bs =
     \<lparr>OperationalHalt_tag_f = byte_at 0 bs,
      OperationalHalt_stock_locate_f = bytes_at 1 2 bs,
      OperationalHalt_tracking_number_f = bytes_at 3 2 bs,
      OperationalHalt_timestamp_f = Timestamp (bytes_at 5 6 bs),
      OperationalHalt_stock_f = Symbol (bytes_at 11 8 bs),
      OperationalHalt_market_code_f = byte_at 19 bs,
      OperationalHalt_operational_halt_action_f = byte_at 20 bs\<rparr>"

definition OperationalHalt_as_bytes :: "OperationalHalt \<Rightarrow> bytes" where
  "OperationalHalt_as_bytes m =
     [OperationalHalt_tag_f m] @
     OperationalHalt_stock_locate_f m @
     OperationalHalt_tracking_number_f m @
     Timestamp_bytes (OperationalHalt_timestamp_f m) @
     Symbol_bytes (OperationalHalt_stock_f m) @
     [OperationalHalt_market_code_f m] @
     [OperationalHalt_operational_halt_action_f m]"

interpretation operational_halt_layout:
  wire_struct OperationalHalt_LEN OperationalHalt_view OperationalHalt_as_bytes
  by unfold_locales (simp add: OperationalHalt_LEN_def OperationalHalt_view_def
      OperationalHalt_as_bytes_def byte_at_bytes bytes_at_join bytes_at_all)

definition OperationalHalt_stock_locate :: "zerocopy \<Rightarrow> OperationalHalt \<Rightarrow> u16" where
  "OperationalHalt_stock_locate z m = zc_u16_get z (OperationalHalt_stock_locate_f m)"

definition OperationalHalt_tracking_number :: "zerocopy \<Rightarrow> OperationalHalt \<Rightarrow> u16" where
  "OperationalHalt_tracking_number z m = zc_u16_get z (OperationalHalt_tracking_number_f m)"

definition OperationalHalt_timestamp :: "OperationalHalt \<Rightarrow> Timestamp" where
  "OperationalHalt_timestamp m = OperationalHalt_timestamp_f m"

definition OperationalHalt_stock :: "OperationalHalt \<Rightarrow> Symbol" where
  "OperationalHalt_stock m = OperationalHalt_stock_f m"

definition OperationalHalt_market_code :: "OperationalHalt \<Rightarrow> MarketCode" where
  "OperationalHalt_market_code m = MarketCode_from_byte (OperationalHalt_market_code_f m)"

definition OperationalHalt_operational_halt_action :: "OperationalHalt \<Rightarrow> OperationalHaltAction" where
  "OperationalHalt_operational_halt_action m = OperationalHaltAction_from_byte (OperationalHalt_operational_halt_action_f m)"

end
