(* ===== verification/Itch_Orders.thy ===== *)
theory Itch_Orders
  imports Itch_Layout
begin

text \<open>
  The order, trade and auction messages of \<open>itch5/src/messages.rs\<close>.
  Each packed struct is a record of its raw fields (suffix \<open>_f\<close>); \<open>_view\<close> is the
  layout of \<open>repr(C, packed)\<close>, \<open>_as_bytes\<close> its inverse, and the accessors have
  the names of the code's methods.
\<close>

section \<open>AddOrderNoMPIDAttribution\<close>

record AddOrderNoMPIDAttribution =
  AddOrderNoMPIDAttribution_tag_f :: u8
  AddOrderNoMPIDAttribution_stock_locate_f :: bytes
  AddOrderNoMPIDAttribution_tracking_number_f :: bytes
  AddOrderNoMPIDAttribution_timestamp_f :: Timestamp
  AddOrderNoMPIDAttribution_order_reference_number_f :: bytes
  AddOrderNoMPIDAttribution_buy_sell_indicator_f :: u8
  AddOrderNoMPIDAttribution_shares_f :: bytes
  AddOrderNoMPIDAttribution_stock_f :: Symbol
  AddOrderNoMPIDAttribution_price_f :: Price4

definition AddOrderNoMPIDAttribution_LEN :: nat where "AddOrderNoMPIDAttribution_LEN = 1 + 2 + 2 + 6 + 8 + 1 + 4 + 8 + 4"

definition AddOrderNoMPIDAttribution_TAG :: u8 where "AddOrderNoMPIDAttribution_TAG = ascii CHR ''A''"

definition AddOrderNoMPIDAttribution_view :: "bytes \<Rightarrow> AddOrderNoMPIDAttribution" where
  "AddOrderNoMPIDAttribution_view bs =
     \<lparr>AddOrderNoMPIDAttribution_tag_f = byte_at 0 bs,
      AddOrderNoMPIDAttribution_stock_locate_f = bytes_at 1 2 bs,
      AddOrderNoMPIDAttribution_tracking_number_f = bytes_at 3 2 bs,
      AddOrderNoMPIDAttribution_timestamp_f = Timestamp (bytes_at 5 6 bs),
      AddOrderNoMPIDAttribution_order_reference_number_f = bytes_at 11 8 bs,
      AddOrderNoMPIDAttribution_buy_sell_indicator_f = byte_at 19 bs,
      AddOrderNoMPIDAttribution_shares_f = bytes_at 20 4 bs,
      AddOrderNoMPIDAttribution_stock_f = Symbol (bytes_at 24 8 bs),
      AddOrderNoMPIDAttribution_price_f = Price4 (bytes_at 32 4 bs)\<rparr>"

definition AddOrderNoMPIDAttribution_as_bytes :: "AddOrderNoMPIDAttribution \<Rightarrow> bytes" where
  "AddOrderNoMPIDAttribution_as_bytes m =
     [AddOrderNoMPIDAttribution_tag_f m] @
     AddOrderNoMPIDAttribution_stock_locate_f m @
     AddOrderNoMPIDAttribution_tracking_number_f m @
     Timestamp_bytes (AddOrderNoMPIDAttribution_timestamp_f m) @
     AddOrderNoMPIDAttribution_order_reference_number_f m @
     [AddOrderNoMPIDAttribution_buy_sell_indicator_f m] @
     AddOrderNoMPIDAttribution_shares_f m @
     Symbol_bytes (AddOrderNoMPIDAttribution_stock_f m) @
     Price4_bytes (AddOrderNoMPIDAttribution_price_f m)"

interpretation add_order_no_mpid_attribution_layout:
  wire_struct AddOrderNoMPIDAttribution_LEN AddOrderNoMPIDAttribution_view AddOrderNoMPIDAttribution_as_bytes
  by unfold_locales (simp add: AddOrderNoMPIDAttribution_LEN_def AddOrderNoMPIDAttribution_view_def
      AddOrderNoMPIDAttribution_as_bytes_def byte_at_bytes bytes_at_join bytes_at_all)

definition AddOrderNoMPIDAttribution_stock_locate :: "zerocopy \<Rightarrow> AddOrderNoMPIDAttribution \<Rightarrow> u16" where
  "AddOrderNoMPIDAttribution_stock_locate z m = zc_u16_get z (AddOrderNoMPIDAttribution_stock_locate_f m)"

definition AddOrderNoMPIDAttribution_tracking_number :: "zerocopy \<Rightarrow> AddOrderNoMPIDAttribution \<Rightarrow> u16" where
  "AddOrderNoMPIDAttribution_tracking_number z m = zc_u16_get z (AddOrderNoMPIDAttribution_tracking_number_f m)"

definition AddOrderNoMPIDAttribution_timestamp :: "AddOrderNoMPIDAttribution \<Rightarrow> Timestamp" where
  "AddOrderNoMPIDAttribution_timestamp m = AddOrderNoMPIDAttribution_timestamp_f m"

definition AddOrderNoMPIDAttribution_order_reference_number :: "zerocopy \<Rightarrow> AddOrderNoMPIDAttribution \<Rightarrow> u64" where
  "AddOrderNoMPIDAttribution_order_reference_number z m = zc_u64_get z (AddOrderNoMPIDAttribution_order_reference_number_f m)"

definition AddOrderNoMPIDAttribution_buy_sell_indicator :: "AddOrderNoMPIDAttribution \<Rightarrow> BuySellIndicator" where
  "AddOrderNoMPIDAttribution_buy_sell_indicator m = BuySellIndicator_from_byte (AddOrderNoMPIDAttribution_buy_sell_indicator_f m)"

definition AddOrderNoMPIDAttribution_shares :: "zerocopy \<Rightarrow> AddOrderNoMPIDAttribution \<Rightarrow> u32" where
  "AddOrderNoMPIDAttribution_shares z m = zc_u32_get z (AddOrderNoMPIDAttribution_shares_f m)"

definition AddOrderNoMPIDAttribution_stock :: "AddOrderNoMPIDAttribution \<Rightarrow> Symbol" where
  "AddOrderNoMPIDAttribution_stock m = AddOrderNoMPIDAttribution_stock_f m"

definition AddOrderNoMPIDAttribution_price :: "AddOrderNoMPIDAttribution \<Rightarrow> Price4" where
  "AddOrderNoMPIDAttribution_price m = AddOrderNoMPIDAttribution_price_f m"

section \<open>AddOrderWithMPIDAttribution\<close>

record AddOrderWithMPIDAttribution =
  AddOrderWithMPIDAttribution_tag_f :: u8
  AddOrderWithMPIDAttribution_stock_locate_f :: bytes
  AddOrderWithMPIDAttribution_tracking_number_f :: bytes
  AddOrderWithMPIDAttribution_timestamp_f :: Timestamp
  AddOrderWithMPIDAttribution_order_reference_number_f :: bytes
  AddOrderWithMPIDAttribution_buy_sell_indicator_f :: u8
  AddOrderWithMPIDAttribution_shares_f :: bytes
  AddOrderWithMPIDAttribution_stock_f :: Symbol
  AddOrderWithMPIDAttribution_price_f :: Price4
  AddOrderWithMPIDAttribution_attribution_f :: bytes

definition AddOrderWithMPIDAttribution_LEN :: nat where "AddOrderWithMPIDAttribution_LEN = 1 + 2 + 2 + 6 + 8 + 1 + 4 + 8 + 4 + 4"

definition AddOrderWithMPIDAttribution_TAG :: u8 where "AddOrderWithMPIDAttribution_TAG = ascii CHR ''F''"

definition AddOrderWithMPIDAttribution_view :: "bytes \<Rightarrow> AddOrderWithMPIDAttribution" where
  "AddOrderWithMPIDAttribution_view bs =
     \<lparr>AddOrderWithMPIDAttribution_tag_f = byte_at 0 bs,
      AddOrderWithMPIDAttribution_stock_locate_f = bytes_at 1 2 bs,
      AddOrderWithMPIDAttribution_tracking_number_f = bytes_at 3 2 bs,
      AddOrderWithMPIDAttribution_timestamp_f = Timestamp (bytes_at 5 6 bs),
      AddOrderWithMPIDAttribution_order_reference_number_f = bytes_at 11 8 bs,
      AddOrderWithMPIDAttribution_buy_sell_indicator_f = byte_at 19 bs,
      AddOrderWithMPIDAttribution_shares_f = bytes_at 20 4 bs,
      AddOrderWithMPIDAttribution_stock_f = Symbol (bytes_at 24 8 bs),
      AddOrderWithMPIDAttribution_price_f = Price4 (bytes_at 32 4 bs),
      AddOrderWithMPIDAttribution_attribution_f = bytes_at 36 4 bs\<rparr>"

definition AddOrderWithMPIDAttribution_as_bytes :: "AddOrderWithMPIDAttribution \<Rightarrow> bytes" where
  "AddOrderWithMPIDAttribution_as_bytes m =
     [AddOrderWithMPIDAttribution_tag_f m] @
     AddOrderWithMPIDAttribution_stock_locate_f m @
     AddOrderWithMPIDAttribution_tracking_number_f m @
     Timestamp_bytes (AddOrderWithMPIDAttribution_timestamp_f m) @
     AddOrderWithMPIDAttribution_order_reference_number_f m @
     [AddOrderWithMPIDAttribution_buy_sell_indicator_f m] @
     AddOrderWithMPIDAttribution_shares_f m @
     Symbol_bytes (AddOrderWithMPIDAttribution_stock_f m) @
     Price4_bytes (AddOrderWithMPIDAttribution_price_f m) @
     AddOrderWithMPIDAttribution_attribution_f m"

interpretation add_order_with_mpid_attribution_layout:
  wire_struct AddOrderWithMPIDAttribution_LEN AddOrderWithMPIDAttribution_view AddOrderWithMPIDAttribution_as_bytes
  by unfold_locales (simp add: AddOrderWithMPIDAttribution_LEN_def AddOrderWithMPIDAttribution_view_def
      AddOrderWithMPIDAttribution_as_bytes_def byte_at_bytes bytes_at_join bytes_at_all)

definition AddOrderWithMPIDAttribution_stock_locate :: "zerocopy \<Rightarrow> AddOrderWithMPIDAttribution \<Rightarrow> u16" where
  "AddOrderWithMPIDAttribution_stock_locate z m = zc_u16_get z (AddOrderWithMPIDAttribution_stock_locate_f m)"

definition AddOrderWithMPIDAttribution_tracking_number :: "zerocopy \<Rightarrow> AddOrderWithMPIDAttribution \<Rightarrow> u16" where
  "AddOrderWithMPIDAttribution_tracking_number z m = zc_u16_get z (AddOrderWithMPIDAttribution_tracking_number_f m)"

definition AddOrderWithMPIDAttribution_timestamp :: "AddOrderWithMPIDAttribution \<Rightarrow> Timestamp" where
  "AddOrderWithMPIDAttribution_timestamp m = AddOrderWithMPIDAttribution_timestamp_f m"

definition AddOrderWithMPIDAttribution_order_reference_number :: "zerocopy \<Rightarrow> AddOrderWithMPIDAttribution \<Rightarrow> u64" where
  "AddOrderWithMPIDAttribution_order_reference_number z m = zc_u64_get z (AddOrderWithMPIDAttribution_order_reference_number_f m)"

definition AddOrderWithMPIDAttribution_buy_sell_indicator :: "AddOrderWithMPIDAttribution \<Rightarrow> BuySellIndicator" where
  "AddOrderWithMPIDAttribution_buy_sell_indicator m = BuySellIndicator_from_byte (AddOrderWithMPIDAttribution_buy_sell_indicator_f m)"

definition AddOrderWithMPIDAttribution_shares :: "zerocopy \<Rightarrow> AddOrderWithMPIDAttribution \<Rightarrow> u32" where
  "AddOrderWithMPIDAttribution_shares z m = zc_u32_get z (AddOrderWithMPIDAttribution_shares_f m)"

definition AddOrderWithMPIDAttribution_stock :: "AddOrderWithMPIDAttribution \<Rightarrow> Symbol" where
  "AddOrderWithMPIDAttribution_stock m = AddOrderWithMPIDAttribution_stock_f m"

definition AddOrderWithMPIDAttribution_price :: "AddOrderWithMPIDAttribution \<Rightarrow> Price4" where
  "AddOrderWithMPIDAttribution_price m = AddOrderWithMPIDAttribution_price_f m"

definition AddOrderWithMPIDAttribution_attribution :: "AddOrderWithMPIDAttribution \<Rightarrow> bytes" where
  "AddOrderWithMPIDAttribution_attribution m = AddOrderWithMPIDAttribution_attribution_f m"

section \<open>OrderExecuted\<close>

record OrderExecuted =
  OrderExecuted_tag_f :: u8
  OrderExecuted_stock_locate_f :: bytes
  OrderExecuted_tracking_number_f :: bytes
  OrderExecuted_timestamp_f :: Timestamp
  OrderExecuted_order_reference_number_f :: bytes
  OrderExecuted_executed_shares_f :: bytes
  OrderExecuted_match_number_f :: bytes

definition OrderExecuted_LEN :: nat where "OrderExecuted_LEN = 1 + 2 + 2 + 6 + 8 + 4 + 8"

definition OrderExecuted_TAG :: u8 where "OrderExecuted_TAG = ascii CHR ''E''"

definition OrderExecuted_view :: "bytes \<Rightarrow> OrderExecuted" where
  "OrderExecuted_view bs =
     \<lparr>OrderExecuted_tag_f = byte_at 0 bs,
      OrderExecuted_stock_locate_f = bytes_at 1 2 bs,
      OrderExecuted_tracking_number_f = bytes_at 3 2 bs,
      OrderExecuted_timestamp_f = Timestamp (bytes_at 5 6 bs),
      OrderExecuted_order_reference_number_f = bytes_at 11 8 bs,
      OrderExecuted_executed_shares_f = bytes_at 19 4 bs,
      OrderExecuted_match_number_f = bytes_at 23 8 bs\<rparr>"

definition OrderExecuted_as_bytes :: "OrderExecuted \<Rightarrow> bytes" where
  "OrderExecuted_as_bytes m =
     [OrderExecuted_tag_f m] @
     OrderExecuted_stock_locate_f m @
     OrderExecuted_tracking_number_f m @
     Timestamp_bytes (OrderExecuted_timestamp_f m) @
     OrderExecuted_order_reference_number_f m @
     OrderExecuted_executed_shares_f m @
     OrderExecuted_match_number_f m"

interpretation order_executed_layout:
  wire_struct OrderExecuted_LEN OrderExecuted_view OrderExecuted_as_bytes
  by unfold_locales (simp add: OrderExecuted_LEN_def OrderExecuted_view_def
      OrderExecuted_as_bytes_def byte_at_bytes bytes_at_join bytes_at_all)

definition OrderExecuted_stock_locate :: "zerocopy \<Rightarrow> OrderExecuted \<Rightarrow> u16" where
  "OrderExecuted_stock_locate z m = zc_u16_get z (OrderExecuted_stock_locate_f m)"

definition OrderExecuted_tracking_number :: "zerocopy \<Rightarrow> OrderExecuted \<Rightarrow> u16" where
  "OrderExecuted_tracking_number z m = zc_u16_get z (OrderExecuted_tracking_number_f m)"

definition OrderExecuted_timestamp :: "OrderExecuted \<Rightarrow> Timestamp" where
  "OrderExecuted_timestamp m = OrderExecuted_timestamp_f m"

definition OrderExecuted_order_reference_number :: "zerocopy \<Rightarrow> OrderExecuted \<Rightarrow> u64" where
  "OrderExecuted_order_reference_number z m = zc_u64_get z (OrderExecuted_order_reference_number_f m)"

definition OrderExecuted_executed_shares :: "zerocopy \<Rightarrow> OrderExecuted \<Rightarrow> u32" where
  "OrderExecuted_executed_shares z m = zc_u32_get z (OrderExecuted_executed_shares_f m)"

definition OrderExecuted_match_number :: "zerocopy \<Rightarrow> OrderExecuted \<Rightarrow> u64" where
  "OrderExecuted_match_number z m = zc_u64_get z (OrderExecuted_match_number_f m)"

section \<open>OrderExecutedWithPrice\<close>

record OrderExecutedWithPrice =
  OrderExecutedWithPrice_tag_f :: u8
  OrderExecutedWithPrice_stock_locate_f :: bytes
  OrderExecutedWithPrice_tracking_number_f :: bytes
  OrderExecutedWithPrice_timestamp_f :: Timestamp
  OrderExecutedWithPrice_order_reference_number_f :: bytes
  OrderExecutedWithPrice_executed_shares_f :: bytes
  OrderExecutedWithPrice_match_number_f :: bytes
  OrderExecutedWithPrice_printable_f :: u8
  OrderExecutedWithPrice_execution_price_f :: Price4

definition OrderExecutedWithPrice_LEN :: nat where "OrderExecutedWithPrice_LEN = 1 + 2 + 2 + 6 + 8 + 4 + 8 + 1 + 4"

definition OrderExecutedWithPrice_TAG :: u8 where "OrderExecutedWithPrice_TAG = ascii CHR ''C''"

definition OrderExecutedWithPrice_view :: "bytes \<Rightarrow> OrderExecutedWithPrice" where
  "OrderExecutedWithPrice_view bs =
     \<lparr>OrderExecutedWithPrice_tag_f = byte_at 0 bs,
      OrderExecutedWithPrice_stock_locate_f = bytes_at 1 2 bs,
      OrderExecutedWithPrice_tracking_number_f = bytes_at 3 2 bs,
      OrderExecutedWithPrice_timestamp_f = Timestamp (bytes_at 5 6 bs),
      OrderExecutedWithPrice_order_reference_number_f = bytes_at 11 8 bs,
      OrderExecutedWithPrice_executed_shares_f = bytes_at 19 4 bs,
      OrderExecutedWithPrice_match_number_f = bytes_at 23 8 bs,
      OrderExecutedWithPrice_printable_f = byte_at 31 bs,
      OrderExecutedWithPrice_execution_price_f = Price4 (bytes_at 32 4 bs)\<rparr>"

definition OrderExecutedWithPrice_as_bytes :: "OrderExecutedWithPrice \<Rightarrow> bytes" where
  "OrderExecutedWithPrice_as_bytes m =
     [OrderExecutedWithPrice_tag_f m] @
     OrderExecutedWithPrice_stock_locate_f m @
     OrderExecutedWithPrice_tracking_number_f m @
     Timestamp_bytes (OrderExecutedWithPrice_timestamp_f m) @
     OrderExecutedWithPrice_order_reference_number_f m @
     OrderExecutedWithPrice_executed_shares_f m @
     OrderExecutedWithPrice_match_number_f m @
     [OrderExecutedWithPrice_printable_f m] @
     Price4_bytes (OrderExecutedWithPrice_execution_price_f m)"

interpretation order_executed_with_price_layout:
  wire_struct OrderExecutedWithPrice_LEN OrderExecutedWithPrice_view OrderExecutedWithPrice_as_bytes
  by unfold_locales (simp add: OrderExecutedWithPrice_LEN_def OrderExecutedWithPrice_view_def
      OrderExecutedWithPrice_as_bytes_def byte_at_bytes bytes_at_join bytes_at_all)

definition OrderExecutedWithPrice_stock_locate :: "zerocopy \<Rightarrow> OrderExecutedWithPrice \<Rightarrow> u16" where
  "OrderExecutedWithPrice_stock_locate z m = zc_u16_get z (OrderExecutedWithPrice_stock_locate_f m)"

definition OrderExecutedWithPrice_tracking_number :: "zerocopy \<Rightarrow> OrderExecutedWithPrice \<Rightarrow> u16" where
  "OrderExecutedWithPrice_tracking_number z m = zc_u16_get z (OrderExecutedWithPrice_tracking_number_f m)"

definition OrderExecutedWithPrice_timestamp :: "OrderExecutedWithPrice \<Rightarrow> Timestamp" where
  "OrderExecutedWithPrice_timestamp m = OrderExecutedWithPrice_timestamp_f m"

definition OrderExecutedWithPrice_order_reference_number :: "zerocopy \<Rightarrow> OrderExecutedWithPrice \<Rightarrow> u64" where
  "OrderExecutedWithPrice_order_reference_number z m = zc_u64_get z (OrderExecutedWithPrice_order_reference_number_f m)"

definition OrderExecutedWithPrice_executed_shares :: "zerocopy \<Rightarrow> OrderExecutedWithPrice \<Rightarrow> u32" where
  "OrderExecutedWithPrice_executed_shares z m = zc_u32_get z (OrderExecutedWithPrice_executed_shares_f m)"

definition OrderExecutedWithPrice_match_number :: "zerocopy \<Rightarrow> OrderExecutedWithPrice \<Rightarrow> u64" where
  "OrderExecutedWithPrice_match_number z m = zc_u64_get z (OrderExecutedWithPrice_match_number_f m)"

definition OrderExecutedWithPrice_printable :: "OrderExecutedWithPrice \<Rightarrow> Printable" where
  "OrderExecutedWithPrice_printable m = Printable_from_byte (OrderExecutedWithPrice_printable_f m)"

definition OrderExecutedWithPrice_execution_price :: "OrderExecutedWithPrice \<Rightarrow> Price4" where
  "OrderExecutedWithPrice_execution_price m = OrderExecutedWithPrice_execution_price_f m"

section \<open>OrderCancel\<close>

record OrderCancel =
  OrderCancel_tag_f :: u8
  OrderCancel_stock_locate_f :: bytes
  OrderCancel_tracking_number_f :: bytes
  OrderCancel_timestamp_f :: Timestamp
  OrderCancel_order_reference_number_f :: bytes
  OrderCancel_cancelled_shares_f :: bytes

definition OrderCancel_LEN :: nat where "OrderCancel_LEN = 1 + 2 + 2 + 6 + 8 + 4"

definition OrderCancel_TAG :: u8 where "OrderCancel_TAG = ascii CHR ''X''"

definition OrderCancel_view :: "bytes \<Rightarrow> OrderCancel" where
  "OrderCancel_view bs =
     \<lparr>OrderCancel_tag_f = byte_at 0 bs,
      OrderCancel_stock_locate_f = bytes_at 1 2 bs,
      OrderCancel_tracking_number_f = bytes_at 3 2 bs,
      OrderCancel_timestamp_f = Timestamp (bytes_at 5 6 bs),
      OrderCancel_order_reference_number_f = bytes_at 11 8 bs,
      OrderCancel_cancelled_shares_f = bytes_at 19 4 bs\<rparr>"

definition OrderCancel_as_bytes :: "OrderCancel \<Rightarrow> bytes" where
  "OrderCancel_as_bytes m =
     [OrderCancel_tag_f m] @
     OrderCancel_stock_locate_f m @
     OrderCancel_tracking_number_f m @
     Timestamp_bytes (OrderCancel_timestamp_f m) @
     OrderCancel_order_reference_number_f m @
     OrderCancel_cancelled_shares_f m"

interpretation order_cancel_layout:
  wire_struct OrderCancel_LEN OrderCancel_view OrderCancel_as_bytes
  by unfold_locales (simp add: OrderCancel_LEN_def OrderCancel_view_def
      OrderCancel_as_bytes_def byte_at_bytes bytes_at_join bytes_at_all)

definition OrderCancel_stock_locate :: "zerocopy \<Rightarrow> OrderCancel \<Rightarrow> u16" where
  "OrderCancel_stock_locate z m = zc_u16_get z (OrderCancel_stock_locate_f m)"

definition OrderCancel_tracking_number :: "zerocopy \<Rightarrow> OrderCancel \<Rightarrow> u16" where
  "OrderCancel_tracking_number z m = zc_u16_get z (OrderCancel_tracking_number_f m)"

definition OrderCancel_timestamp :: "OrderCancel \<Rightarrow> Timestamp" where
  "OrderCancel_timestamp m = OrderCancel_timestamp_f m"

definition OrderCancel_order_reference_number :: "zerocopy \<Rightarrow> OrderCancel \<Rightarrow> u64" where
  "OrderCancel_order_reference_number z m = zc_u64_get z (OrderCancel_order_reference_number_f m)"

definition OrderCancel_cancelled_shares :: "zerocopy \<Rightarrow> OrderCancel \<Rightarrow> u32" where
  "OrderCancel_cancelled_shares z m = zc_u32_get z (OrderCancel_cancelled_shares_f m)"

section \<open>OrderDelete\<close>

record OrderDelete =
  OrderDelete_tag_f :: u8
  OrderDelete_stock_locate_f :: bytes
  OrderDelete_tracking_number_f :: bytes
  OrderDelete_timestamp_f :: Timestamp
  OrderDelete_order_reference_number_f :: bytes

definition OrderDelete_LEN :: nat where "OrderDelete_LEN = 1 + 2 + 2 + 6 + 8"

definition OrderDelete_TAG :: u8 where "OrderDelete_TAG = ascii CHR ''D''"

definition OrderDelete_view :: "bytes \<Rightarrow> OrderDelete" where
  "OrderDelete_view bs =
     \<lparr>OrderDelete_tag_f = byte_at 0 bs,
      OrderDelete_stock_locate_f = bytes_at 1 2 bs,
      OrderDelete_tracking_number_f = bytes_at 3 2 bs,
      OrderDelete_timestamp_f = Timestamp (bytes_at 5 6 bs),
      OrderDelete_order_reference_number_f = bytes_at 11 8 bs\<rparr>"

definition OrderDelete_as_bytes :: "OrderDelete \<Rightarrow> bytes" where
  "OrderDelete_as_bytes m =
     [OrderDelete_tag_f m] @
     OrderDelete_stock_locate_f m @
     OrderDelete_tracking_number_f m @
     Timestamp_bytes (OrderDelete_timestamp_f m) @
     OrderDelete_order_reference_number_f m"

interpretation order_delete_layout:
  wire_struct OrderDelete_LEN OrderDelete_view OrderDelete_as_bytes
  by unfold_locales (simp add: OrderDelete_LEN_def OrderDelete_view_def
      OrderDelete_as_bytes_def byte_at_bytes bytes_at_join bytes_at_all)

definition OrderDelete_stock_locate :: "zerocopy \<Rightarrow> OrderDelete \<Rightarrow> u16" where
  "OrderDelete_stock_locate z m = zc_u16_get z (OrderDelete_stock_locate_f m)"

definition OrderDelete_tracking_number :: "zerocopy \<Rightarrow> OrderDelete \<Rightarrow> u16" where
  "OrderDelete_tracking_number z m = zc_u16_get z (OrderDelete_tracking_number_f m)"

definition OrderDelete_timestamp :: "OrderDelete \<Rightarrow> Timestamp" where
  "OrderDelete_timestamp m = OrderDelete_timestamp_f m"

definition OrderDelete_order_reference_number :: "zerocopy \<Rightarrow> OrderDelete \<Rightarrow> u64" where
  "OrderDelete_order_reference_number z m = zc_u64_get z (OrderDelete_order_reference_number_f m)"

section \<open>OrderReplace\<close>

record OrderReplace =
  OrderReplace_tag_f :: u8
  OrderReplace_stock_locate_f :: bytes
  OrderReplace_tracking_number_f :: bytes
  OrderReplace_timestamp_f :: Timestamp
  OrderReplace_original_order_reference_number_f :: bytes
  OrderReplace_new_order_reference_number_f :: bytes
  OrderReplace_shares_f :: bytes
  OrderReplace_price_f :: Price4

definition OrderReplace_LEN :: nat where "OrderReplace_LEN = 1 + 2 + 2 + 6 + 8 + 8 + 4 + 4"

definition OrderReplace_TAG :: u8 where "OrderReplace_TAG = ascii CHR ''U''"

definition OrderReplace_view :: "bytes \<Rightarrow> OrderReplace" where
  "OrderReplace_view bs =
     \<lparr>OrderReplace_tag_f = byte_at 0 bs,
      OrderReplace_stock_locate_f = bytes_at 1 2 bs,
      OrderReplace_tracking_number_f = bytes_at 3 2 bs,
      OrderReplace_timestamp_f = Timestamp (bytes_at 5 6 bs),
      OrderReplace_original_order_reference_number_f = bytes_at 11 8 bs,
      OrderReplace_new_order_reference_number_f = bytes_at 19 8 bs,
      OrderReplace_shares_f = bytes_at 27 4 bs,
      OrderReplace_price_f = Price4 (bytes_at 31 4 bs)\<rparr>"

definition OrderReplace_as_bytes :: "OrderReplace \<Rightarrow> bytes" where
  "OrderReplace_as_bytes m =
     [OrderReplace_tag_f m] @
     OrderReplace_stock_locate_f m @
     OrderReplace_tracking_number_f m @
     Timestamp_bytes (OrderReplace_timestamp_f m) @
     OrderReplace_original_order_reference_number_f m @
     OrderReplace_new_order_reference_number_f m @
     OrderReplace_shares_f m @
     Price4_bytes (OrderReplace_price_f m)"

interpretation order_replace_layout:
  wire_struct OrderReplace_LEN OrderReplace_view OrderReplace_as_bytes
  by unfold_locales (simp add: OrderReplace_LEN_def OrderReplace_view_def
      OrderReplace_as_bytes_def byte_at_bytes bytes_at_join bytes_at_all)

definition OrderReplace_stock_locate :: "zerocopy \<Rightarrow> OrderReplace \<Rightarrow> u16" where
  "OrderReplace_stock_locate z m = zc_u16_get z (OrderReplace_stock_locate_f m)"

definition OrderReplace_tracking_number :: "zerocopy \<Rightarrow> OrderReplace \<Rightarrow> u16" where
  "OrderReplace_tracking_number z m = zc_u16_get z (OrderReplace_tracking_number_f m)"

definition OrderReplace_timestamp :: "OrderReplace \<Rightarrow> Timestamp" where
  "OrderReplace_timestamp m = OrderReplace_timestamp_f m"

definition OrderReplace_original_order_reference_number :: "zerocopy \<Rightarrow> OrderReplace \<Rightarrow> u64" where
  "OrderReplace_original_order_reference_number z m = zc_u64_get z (OrderReplace_original_order_reference_number_f m)"

definition OrderReplace_new_order_reference_number :: "zerocopy \<Rightarrow> OrderReplace \<Rightarrow> u64" where
  "OrderReplace_new_order_reference_number z m = zc_u64_get z (OrderReplace_new_order_reference_number_f m)"

definition OrderReplace_shares :: "zerocopy \<Rightarrow> OrderReplace \<Rightarrow> u32" where
  "OrderReplace_shares z m = zc_u32_get z (OrderReplace_shares_f m)"

definition OrderReplace_price :: "OrderReplace \<Rightarrow> Price4" where
  "OrderReplace_price m = OrderReplace_price_f m"

section \<open>Trade\<close>

record Trade =
  Trade_tag_f :: u8
  Trade_stock_locate_f :: bytes
  Trade_tracking_number_f :: bytes
  Trade_timestamp_f :: Timestamp
  Trade_order_reference_number_f :: bytes
  Trade_buy_sell_indicator_f :: u8
  Trade_shares_f :: bytes
  Trade_stock_f :: Symbol
  Trade_price_f :: Price4
  Trade_match_number_f :: bytes

definition Trade_LEN :: nat where "Trade_LEN = 1 + 2 + 2 + 6 + 8 + 1 + 4 + 8 + 4 + 8"

definition Trade_TAG :: u8 where "Trade_TAG = ascii CHR ''P''"

definition Trade_view :: "bytes \<Rightarrow> Trade" where
  "Trade_view bs =
     \<lparr>Trade_tag_f = byte_at 0 bs,
      Trade_stock_locate_f = bytes_at 1 2 bs,
      Trade_tracking_number_f = bytes_at 3 2 bs,
      Trade_timestamp_f = Timestamp (bytes_at 5 6 bs),
      Trade_order_reference_number_f = bytes_at 11 8 bs,
      Trade_buy_sell_indicator_f = byte_at 19 bs,
      Trade_shares_f = bytes_at 20 4 bs,
      Trade_stock_f = Symbol (bytes_at 24 8 bs),
      Trade_price_f = Price4 (bytes_at 32 4 bs),
      Trade_match_number_f = bytes_at 36 8 bs\<rparr>"

definition Trade_as_bytes :: "Trade \<Rightarrow> bytes" where
  "Trade_as_bytes m =
     [Trade_tag_f m] @
     Trade_stock_locate_f m @
     Trade_tracking_number_f m @
     Timestamp_bytes (Trade_timestamp_f m) @
     Trade_order_reference_number_f m @
     [Trade_buy_sell_indicator_f m] @
     Trade_shares_f m @
     Symbol_bytes (Trade_stock_f m) @
     Price4_bytes (Trade_price_f m) @
     Trade_match_number_f m"

interpretation trade_layout:
  wire_struct Trade_LEN Trade_view Trade_as_bytes
  by unfold_locales (simp add: Trade_LEN_def Trade_view_def
      Trade_as_bytes_def byte_at_bytes bytes_at_join bytes_at_all)

definition Trade_stock_locate :: "zerocopy \<Rightarrow> Trade \<Rightarrow> u16" where
  "Trade_stock_locate z m = zc_u16_get z (Trade_stock_locate_f m)"

definition Trade_tracking_number :: "zerocopy \<Rightarrow> Trade \<Rightarrow> u16" where
  "Trade_tracking_number z m = zc_u16_get z (Trade_tracking_number_f m)"

definition Trade_timestamp :: "Trade \<Rightarrow> Timestamp" where
  "Trade_timestamp m = Trade_timestamp_f m"

definition Trade_order_reference_number :: "zerocopy \<Rightarrow> Trade \<Rightarrow> u64" where
  "Trade_order_reference_number z m = zc_u64_get z (Trade_order_reference_number_f m)"

definition Trade_buy_sell_indicator :: "Trade \<Rightarrow> BuySellIndicator" where
  "Trade_buy_sell_indicator m = BuySellIndicator_from_byte (Trade_buy_sell_indicator_f m)"

definition Trade_shares :: "zerocopy \<Rightarrow> Trade \<Rightarrow> u32" where
  "Trade_shares z m = zc_u32_get z (Trade_shares_f m)"

definition Trade_stock :: "Trade \<Rightarrow> Symbol" where
  "Trade_stock m = Trade_stock_f m"

definition Trade_price :: "Trade \<Rightarrow> Price4" where
  "Trade_price m = Trade_price_f m"

definition Trade_match_number :: "zerocopy \<Rightarrow> Trade \<Rightarrow> u64" where
  "Trade_match_number z m = zc_u64_get z (Trade_match_number_f m)"

section \<open>CrossTrade\<close>

record CrossTrade =
  CrossTrade_tag_f :: u8
  CrossTrade_stock_locate_f :: bytes
  CrossTrade_tracking_number_f :: bytes
  CrossTrade_timestamp_f :: Timestamp
  CrossTrade_shares_f :: bytes
  CrossTrade_stock_f :: Symbol
  CrossTrade_cross_price_f :: Price4
  CrossTrade_match_number_f :: bytes
  CrossTrade_cross_type_f :: u8

definition CrossTrade_LEN :: nat where "CrossTrade_LEN = 1 + 2 + 2 + 6 + 8 + 8 + 4 + 8 + 1"

definition CrossTrade_TAG :: u8 where "CrossTrade_TAG = ascii CHR ''Q''"

definition CrossTrade_view :: "bytes \<Rightarrow> CrossTrade" where
  "CrossTrade_view bs =
     \<lparr>CrossTrade_tag_f = byte_at 0 bs,
      CrossTrade_stock_locate_f = bytes_at 1 2 bs,
      CrossTrade_tracking_number_f = bytes_at 3 2 bs,
      CrossTrade_timestamp_f = Timestamp (bytes_at 5 6 bs),
      CrossTrade_shares_f = bytes_at 11 8 bs,
      CrossTrade_stock_f = Symbol (bytes_at 19 8 bs),
      CrossTrade_cross_price_f = Price4 (bytes_at 27 4 bs),
      CrossTrade_match_number_f = bytes_at 31 8 bs,
      CrossTrade_cross_type_f = byte_at 39 bs\<rparr>"

definition CrossTrade_as_bytes :: "CrossTrade \<Rightarrow> bytes" where
  "CrossTrade_as_bytes m =
     [CrossTrade_tag_f m] @
     CrossTrade_stock_locate_f m @
     CrossTrade_tracking_number_f m @
     Timestamp_bytes (CrossTrade_timestamp_f m) @
     CrossTrade_shares_f m @
     Symbol_bytes (CrossTrade_stock_f m) @
     Price4_bytes (CrossTrade_cross_price_f m) @
     CrossTrade_match_number_f m @
     [CrossTrade_cross_type_f m]"

interpretation cross_trade_layout:
  wire_struct CrossTrade_LEN CrossTrade_view CrossTrade_as_bytes
  by unfold_locales (simp add: CrossTrade_LEN_def CrossTrade_view_def
      CrossTrade_as_bytes_def byte_at_bytes bytes_at_join bytes_at_all)

definition CrossTrade_stock_locate :: "zerocopy \<Rightarrow> CrossTrade \<Rightarrow> u16" where
  "CrossTrade_stock_locate z m = zc_u16_get z (CrossTrade_stock_locate_f m)"

definition CrossTrade_tracking_number :: "zerocopy \<Rightarrow> CrossTrade \<Rightarrow> u16" where
  "CrossTrade_tracking_number z m = zc_u16_get z (CrossTrade_tracking_number_f m)"

definition CrossTrade_timestamp :: "CrossTrade \<Rightarrow> Timestamp" where
  "CrossTrade_timestamp m = CrossTrade_timestamp_f m"

definition CrossTrade_shares :: "zerocopy \<Rightarrow> CrossTrade \<Rightarrow> u64" where
  "CrossTrade_shares z m = zc_u64_get z (CrossTrade_shares_f m)"

definition CrossTrade_stock :: "CrossTrade \<Rightarrow> Symbol" where
  "CrossTrade_stock m = CrossTrade_stock_f m"

definition CrossTrade_cross_price :: "CrossTrade \<Rightarrow> Price4" where
  "CrossTrade_cross_price m = CrossTrade_cross_price_f m"

definition CrossTrade_match_number :: "zerocopy \<Rightarrow> CrossTrade \<Rightarrow> u64" where
  "CrossTrade_match_number z m = zc_u64_get z (CrossTrade_match_number_f m)"

definition CrossTrade_cross_type :: "CrossTrade \<Rightarrow> CrossType" where
  "CrossTrade_cross_type m = CrossType_from_byte (CrossTrade_cross_type_f m)"

section \<open>BrokenTrade\<close>

record BrokenTrade =
  BrokenTrade_tag_f :: u8
  BrokenTrade_stock_locate_f :: bytes
  BrokenTrade_tracking_number_f :: bytes
  BrokenTrade_timestamp_f :: Timestamp
  BrokenTrade_match_number_f :: bytes

definition BrokenTrade_LEN :: nat where "BrokenTrade_LEN = 1 + 2 + 2 + 6 + 8"

definition BrokenTrade_TAG :: u8 where "BrokenTrade_TAG = ascii CHR ''B''"

definition BrokenTrade_view :: "bytes \<Rightarrow> BrokenTrade" where
  "BrokenTrade_view bs =
     \<lparr>BrokenTrade_tag_f = byte_at 0 bs,
      BrokenTrade_stock_locate_f = bytes_at 1 2 bs,
      BrokenTrade_tracking_number_f = bytes_at 3 2 bs,
      BrokenTrade_timestamp_f = Timestamp (bytes_at 5 6 bs),
      BrokenTrade_match_number_f = bytes_at 11 8 bs\<rparr>"

definition BrokenTrade_as_bytes :: "BrokenTrade \<Rightarrow> bytes" where
  "BrokenTrade_as_bytes m =
     [BrokenTrade_tag_f m] @
     BrokenTrade_stock_locate_f m @
     BrokenTrade_tracking_number_f m @
     Timestamp_bytes (BrokenTrade_timestamp_f m) @
     BrokenTrade_match_number_f m"

interpretation broken_trade_layout:
  wire_struct BrokenTrade_LEN BrokenTrade_view BrokenTrade_as_bytes
  by unfold_locales (simp add: BrokenTrade_LEN_def BrokenTrade_view_def
      BrokenTrade_as_bytes_def byte_at_bytes bytes_at_join bytes_at_all)

definition BrokenTrade_stock_locate :: "zerocopy \<Rightarrow> BrokenTrade \<Rightarrow> u16" where
  "BrokenTrade_stock_locate z m = zc_u16_get z (BrokenTrade_stock_locate_f m)"

definition BrokenTrade_tracking_number :: "zerocopy \<Rightarrow> BrokenTrade \<Rightarrow> u16" where
  "BrokenTrade_tracking_number z m = zc_u16_get z (BrokenTrade_tracking_number_f m)"

definition BrokenTrade_timestamp :: "BrokenTrade \<Rightarrow> Timestamp" where
  "BrokenTrade_timestamp m = BrokenTrade_timestamp_f m"

definition BrokenTrade_match_number :: "zerocopy \<Rightarrow> BrokenTrade \<Rightarrow> u64" where
  "BrokenTrade_match_number z m = zc_u64_get z (BrokenTrade_match_number_f m)"

section \<open>NetOrderImbalanceIndicator\<close>

record NetOrderImbalanceIndicator =
  NetOrderImbalanceIndicator_tag_f :: u8
  NetOrderImbalanceIndicator_stock_locate_f :: bytes
  NetOrderImbalanceIndicator_tracking_number_f :: bytes
  NetOrderImbalanceIndicator_timestamp_f :: Timestamp
  NetOrderImbalanceIndicator_paired_shares_f :: bytes
  NetOrderImbalanceIndicator_imbalance_shares_f :: bytes
  NetOrderImbalanceIndicator_imbalance_direction_f :: u8
  NetOrderImbalanceIndicator_stock_f :: Symbol
  NetOrderImbalanceIndicator_far_price_f :: Price4
  NetOrderImbalanceIndicator_near_price_f :: Price4
  NetOrderImbalanceIndicator_current_reference_price_f :: Price4
  NetOrderImbalanceIndicator_cross_type_f :: u8
  NetOrderImbalanceIndicator_price_variation_indicator_f :: u8

definition NetOrderImbalanceIndicator_LEN :: nat where "NetOrderImbalanceIndicator_LEN = 1 + 2 + 2 + 6 + 8 + 8 + 1 + 8 + 4 + 4 + 4 + 1 + 1"

definition NetOrderImbalanceIndicator_TAG :: u8 where "NetOrderImbalanceIndicator_TAG = ascii CHR ''I''"

definition NetOrderImbalanceIndicator_view :: "bytes \<Rightarrow> NetOrderImbalanceIndicator" where
  "NetOrderImbalanceIndicator_view bs =
     \<lparr>NetOrderImbalanceIndicator_tag_f = byte_at 0 bs,
      NetOrderImbalanceIndicator_stock_locate_f = bytes_at 1 2 bs,
      NetOrderImbalanceIndicator_tracking_number_f = bytes_at 3 2 bs,
      NetOrderImbalanceIndicator_timestamp_f = Timestamp (bytes_at 5 6 bs),
      NetOrderImbalanceIndicator_paired_shares_f = bytes_at 11 8 bs,
      NetOrderImbalanceIndicator_imbalance_shares_f = bytes_at 19 8 bs,
      NetOrderImbalanceIndicator_imbalance_direction_f = byte_at 27 bs,
      NetOrderImbalanceIndicator_stock_f = Symbol (bytes_at 28 8 bs),
      NetOrderImbalanceIndicator_far_price_f = Price4 (bytes_at 36 4 bs),
      NetOrderImbalanceIndicator_near_price_f = Price4 (bytes_at 40 4 bs),
      NetOrderImbalanceIndicator_current_reference_price_f = Price4 (bytes_at 44 4 bs),
      NetOrderImbalanceIndicator_cross_type_f = byte_at 48 bs,
      NetOrderImbalanceIndicator_price_variation_indicator_f = byte_at 49 bs\<rparr>"

definition NetOrderImbalanceIndicator_as_bytes :: "NetOrderImbalanceIndicator \<Rightarrow> bytes" where
  "NetOrderImbalanceIndicator_as_bytes m =
     [NetOrderImbalanceIndicator_tag_f m] @
     NetOrderImbalanceIndicator_stock_locate_f m @
     NetOrderImbalanceIndicator_tracking_number_f m @
     Timestamp_bytes (NetOrderImbalanceIndicator_timestamp_f m) @
     NetOrderImbalanceIndicator_paired_shares_f m @
     NetOrderImbalanceIndicator_imbalance_shares_f m @
     [NetOrderImbalanceIndicator_imbalance_direction_f m] @
     Symbol_bytes (NetOrderImbalanceIndicator_stock_f m) @
     Price4_bytes (NetOrderImbalanceIndicator_far_price_f m) @
     Price4_bytes (NetOrderImbalanceIndicator_near_price_f m) @
     Price4_bytes (NetOrderImbalanceIndicator_current_reference_price_f m) @
     [NetOrderImbalanceIndicator_cross_type_f m] @
     [NetOrderImbalanceIndicator_price_variation_indicator_f m]"

interpretation net_order_imbalance_indicator_layout:
  wire_struct NetOrderImbalanceIndicator_LEN NetOrderImbalanceIndicator_view NetOrderImbalanceIndicator_as_bytes
  by unfold_locales (simp add: NetOrderImbalanceIndicator_LEN_def NetOrderImbalanceIndicator_view_def
      NetOrderImbalanceIndicator_as_bytes_def byte_at_bytes bytes_at_join bytes_at_all)

definition NetOrderImbalanceIndicator_stock_locate :: "zerocopy \<Rightarrow> NetOrderImbalanceIndicator \<Rightarrow> u16" where
  "NetOrderImbalanceIndicator_stock_locate z m = zc_u16_get z (NetOrderImbalanceIndicator_stock_locate_f m)"

definition NetOrderImbalanceIndicator_tracking_number :: "zerocopy \<Rightarrow> NetOrderImbalanceIndicator \<Rightarrow> u16" where
  "NetOrderImbalanceIndicator_tracking_number z m = zc_u16_get z (NetOrderImbalanceIndicator_tracking_number_f m)"

definition NetOrderImbalanceIndicator_timestamp :: "NetOrderImbalanceIndicator \<Rightarrow> Timestamp" where
  "NetOrderImbalanceIndicator_timestamp m = NetOrderImbalanceIndicator_timestamp_f m"

definition NetOrderImbalanceIndicator_paired_shares :: "zerocopy \<Rightarrow> NetOrderImbalanceIndicator \<Rightarrow> u64" where
  "NetOrderImbalanceIndicator_paired_shares z m = zc_u64_get z (NetOrderImbalanceIndicator_paired_shares_f m)"

definition NetOrderImbalanceIndicator_imbalance_shares :: "zerocopy \<Rightarrow> NetOrderImbalanceIndicator \<Rightarrow> u64" where
  "NetOrderImbalanceIndicator_imbalance_shares z m = zc_u64_get z (NetOrderImbalanceIndicator_imbalance_shares_f m)"

definition NetOrderImbalanceIndicator_imbalance_direction :: "NetOrderImbalanceIndicator \<Rightarrow> ImbalanceDirection" where
  "NetOrderImbalanceIndicator_imbalance_direction m = ImbalanceDirection_from_byte (NetOrderImbalanceIndicator_imbalance_direction_f m)"

definition NetOrderImbalanceIndicator_stock :: "NetOrderImbalanceIndicator \<Rightarrow> Symbol" where
  "NetOrderImbalanceIndicator_stock m = NetOrderImbalanceIndicator_stock_f m"

definition NetOrderImbalanceIndicator_far_price :: "NetOrderImbalanceIndicator \<Rightarrow> Price4" where
  "NetOrderImbalanceIndicator_far_price m = NetOrderImbalanceIndicator_far_price_f m"

definition NetOrderImbalanceIndicator_near_price :: "NetOrderImbalanceIndicator \<Rightarrow> Price4" where
  "NetOrderImbalanceIndicator_near_price m = NetOrderImbalanceIndicator_near_price_f m"

definition NetOrderImbalanceIndicator_current_reference_price :: "NetOrderImbalanceIndicator \<Rightarrow> Price4" where
  "NetOrderImbalanceIndicator_current_reference_price m = NetOrderImbalanceIndicator_current_reference_price_f m"

definition NetOrderImbalanceIndicator_cross_type :: "NetOrderImbalanceIndicator \<Rightarrow> CrossType" where
  "NetOrderImbalanceIndicator_cross_type m = CrossType_from_byte (NetOrderImbalanceIndicator_cross_type_f m)"

definition NetOrderImbalanceIndicator_price_variation_indicator :: "NetOrderImbalanceIndicator \<Rightarrow> PriceVariationIndicator" where
  "NetOrderImbalanceIndicator_price_variation_indicator m = PriceVariationIndicator_from_byte (NetOrderImbalanceIndicator_price_variation_indicator_f m)"

section \<open>RetailPriceImprovementIndicator\<close>

record RetailPriceImprovementIndicator =
  RetailPriceImprovementIndicator_tag_f :: u8
  RetailPriceImprovementIndicator_stock_locate_f :: bytes
  RetailPriceImprovementIndicator_tracking_number_f :: bytes
  RetailPriceImprovementIndicator_timestamp_f :: Timestamp
  RetailPriceImprovementIndicator_stock_f :: Symbol
  RetailPriceImprovementIndicator_interest_flag_f :: u8

definition RetailPriceImprovementIndicator_LEN :: nat where "RetailPriceImprovementIndicator_LEN = 1 + 2 + 2 + 6 + 8 + 1"

definition RetailPriceImprovementIndicator_TAG :: u8 where "RetailPriceImprovementIndicator_TAG = ascii CHR ''N''"

definition RetailPriceImprovementIndicator_view :: "bytes \<Rightarrow> RetailPriceImprovementIndicator" where
  "RetailPriceImprovementIndicator_view bs =
     \<lparr>RetailPriceImprovementIndicator_tag_f = byte_at 0 bs,
      RetailPriceImprovementIndicator_stock_locate_f = bytes_at 1 2 bs,
      RetailPriceImprovementIndicator_tracking_number_f = bytes_at 3 2 bs,
      RetailPriceImprovementIndicator_timestamp_f = Timestamp (bytes_at 5 6 bs),
      RetailPriceImprovementIndicator_stock_f = Symbol (bytes_at 11 8 bs),
      RetailPriceImprovementIndicator_interest_flag_f = byte_at 19 bs\<rparr>"

definition RetailPriceImprovementIndicator_as_bytes :: "RetailPriceImprovementIndicator \<Rightarrow> bytes" where
  "RetailPriceImprovementIndicator_as_bytes m =
     [RetailPriceImprovementIndicator_tag_f m] @
     RetailPriceImprovementIndicator_stock_locate_f m @
     RetailPriceImprovementIndicator_tracking_number_f m @
     Timestamp_bytes (RetailPriceImprovementIndicator_timestamp_f m) @
     Symbol_bytes (RetailPriceImprovementIndicator_stock_f m) @
     [RetailPriceImprovementIndicator_interest_flag_f m]"

interpretation retail_price_improvement_indicator_layout:
  wire_struct RetailPriceImprovementIndicator_LEN RetailPriceImprovementIndicator_view RetailPriceImprovementIndicator_as_bytes
  by unfold_locales (simp add: RetailPriceImprovementIndicator_LEN_def RetailPriceImprovementIndicator_view_def
      RetailPriceImprovementIndicator_as_bytes_def byte_at_bytes bytes_at_join bytes_at_all)

definition RetailPriceImprovementIndicator_stock_locate :: "zerocopy \<Rightarrow> RetailPriceImprovementIndicator \<Rightarrow> u16" where
  "RetailPriceImprovementIndicator_stock_locate z m = zc_u16_get z (RetailPriceImprovementIndicator_stock_locate_f m)"

definition RetailPriceImprovementIndicator_tracking_number :: "zerocopy \<Rightarrow> RetailPriceImprovementIndicator \<Rightarrow> u16" where
  "RetailPriceImprovementIndicator_tracking_number z m = zc_u16_get z (RetailPriceImprovementIndicator_tracking_number_f m)"

definition RetailPriceImprovementIndicator_timestamp :: "RetailPriceImprovementIndicator \<Rightarrow> Timestamp" where
  "RetailPriceImprovementIndicator_timestamp m = RetailPriceImprovementIndicator_timestamp_f m"

definition RetailPriceImprovementIndicator_stock :: "RetailPriceImprovementIndicator \<Rightarrow> Symbol" where
  "RetailPriceImprovementIndicator_stock m = RetailPriceImprovementIndicator_stock_f m"

definition RetailPriceImprovementIndicator_interest_flag :: "RetailPriceImprovementIndicator \<Rightarrow> InterestFlag" where
  "RetailPriceImprovementIndicator_interest_flag m = InterestFlag_from_byte (RetailPriceImprovementIndicator_interest_flag_f m)"

section \<open>DirectListingwithCapitalRaisePriceDiscovery\<close>

record DirectListingwithCapitalRaisePriceDiscovery =
  DirectListingwithCapitalRaisePriceDiscovery_tag_f :: u8
  DirectListingwithCapitalRaisePriceDiscovery_stock_locate_f :: bytes
  DirectListingwithCapitalRaisePriceDiscovery_tracking_number_f :: bytes
  DirectListingwithCapitalRaisePriceDiscovery_timestamp_f :: Timestamp
  DirectListingwithCapitalRaisePriceDiscovery_stock_f :: Symbol
  DirectListingwithCapitalRaisePriceDiscovery_open_eligibility_status_f :: u8
  DirectListingwithCapitalRaisePriceDiscovery_minimum_allowable_price_f :: Price4
  DirectListingwithCapitalRaisePriceDiscovery_maximum_allowable_price_f :: Price4
  DirectListingwithCapitalRaisePriceDiscovery_near_execution_price_f :: Price4
  DirectListingwithCapitalRaisePriceDiscovery_near_execution_time_f :: bytes
  DirectListingwithCapitalRaisePriceDiscovery_lower_price_range_collar_f :: Price4
  DirectListingwithCapitalRaisePriceDiscovery_upper_price_range_collar_f :: Price4

definition DirectListingwithCapitalRaisePriceDiscovery_LEN :: nat where "DirectListingwithCapitalRaisePriceDiscovery_LEN = 1 + 2 + 2 + 6 + 8 + 1 + 4 + 4 + 4 + 8 + 4 + 4"

definition DirectListingwithCapitalRaisePriceDiscovery_TAG :: u8 where "DirectListingwithCapitalRaisePriceDiscovery_TAG = ascii CHR ''O''"

definition DirectListingwithCapitalRaisePriceDiscovery_view :: "bytes \<Rightarrow> DirectListingwithCapitalRaisePriceDiscovery" where
  "DirectListingwithCapitalRaisePriceDiscovery_view bs =
     \<lparr>DirectListingwithCapitalRaisePriceDiscovery_tag_f = byte_at 0 bs,
      DirectListingwithCapitalRaisePriceDiscovery_stock_locate_f = bytes_at 1 2 bs,
      DirectListingwithCapitalRaisePriceDiscovery_tracking_number_f = bytes_at 3 2 bs,
      DirectListingwithCapitalRaisePriceDiscovery_timestamp_f = Timestamp (bytes_at 5 6 bs),
      DirectListingwithCapitalRaisePriceDiscovery_stock_f = Symbol (bytes_at 11 8 bs),
      DirectListingwithCapitalRaisePriceDiscovery_open_eligibility_status_f = byte_at 19 bs,
      DirectListingwithCapitalRaisePriceDiscovery_minimum_allowable_price_f = Price4 (bytes_at 20 4 bs),
      DirectListingwithCapitalRaisePriceDiscovery_maximum_allowable_price_f = Price4 (bytes_at 24 4 bs),
      DirectListingwithCapitalRaisePriceDiscovery_near_execution_price_f = Price4 (bytes_at 28 4 bs),
      DirectListingwithCapitalRaisePriceDiscovery_near_execution_time_f = bytes_at 32 8 bs,
      DirectListingwithCapitalRaisePriceDiscovery_lower_price_range_collar_f = Price4 (bytes_at 40 4 bs),
      DirectListingwithCapitalRaisePriceDiscovery_upper_price_range_collar_f = Price4 (bytes_at 44 4 bs)\<rparr>"

definition DirectListingwithCapitalRaisePriceDiscovery_as_bytes :: "DirectListingwithCapitalRaisePriceDiscovery \<Rightarrow> bytes" where
  "DirectListingwithCapitalRaisePriceDiscovery_as_bytes m =
     [DirectListingwithCapitalRaisePriceDiscovery_tag_f m] @
     DirectListingwithCapitalRaisePriceDiscovery_stock_locate_f m @
     DirectListingwithCapitalRaisePriceDiscovery_tracking_number_f m @
     Timestamp_bytes (DirectListingwithCapitalRaisePriceDiscovery_timestamp_f m) @
     Symbol_bytes (DirectListingwithCapitalRaisePriceDiscovery_stock_f m) @
     [DirectListingwithCapitalRaisePriceDiscovery_open_eligibility_status_f m] @
     Price4_bytes (DirectListingwithCapitalRaisePriceDiscovery_minimum_allowable_price_f m) @
     Price4_bytes (DirectListingwithCapitalRaisePriceDiscovery_maximum_allowable_price_f m) @
     Price4_bytes (DirectListingwithCapitalRaisePriceDiscovery_near_execution_price_f m) @
     DirectListingwithCapitalRaisePriceDiscovery_near_execution_time_f m @
     Price4_bytes (DirectListingwithCapitalRaisePriceDiscovery_lower_price_range_collar_f m) @
     Price4_bytes (DirectListingwithCapitalRaisePriceDiscovery_upper_price_range_collar_f m)"

interpretation direct_listingwith_capital_raise_price_discovery_layout:
  wire_struct DirectListingwithCapitalRaisePriceDiscovery_LEN DirectListingwithCapitalRaisePriceDiscovery_view DirectListingwithCapitalRaisePriceDiscovery_as_bytes
  by unfold_locales (simp add: DirectListingwithCapitalRaisePriceDiscovery_LEN_def DirectListingwithCapitalRaisePriceDiscovery_view_def
      DirectListingwithCapitalRaisePriceDiscovery_as_bytes_def byte_at_bytes bytes_at_join bytes_at_all)

definition DirectListingwithCapitalRaisePriceDiscovery_stock_locate :: "zerocopy \<Rightarrow> DirectListingwithCapitalRaisePriceDiscovery \<Rightarrow> u16" where
  "DirectListingwithCapitalRaisePriceDiscovery_stock_locate z m = zc_u16_get z (DirectListingwithCapitalRaisePriceDiscovery_stock_locate_f m)"

definition DirectListingwithCapitalRaisePriceDiscovery_tracking_number :: "zerocopy \<Rightarrow> DirectListingwithCapitalRaisePriceDiscovery \<Rightarrow> u16" where
  "DirectListingwithCapitalRaisePriceDiscovery_tracking_number z m = zc_u16_get z (DirectListingwithCapitalRaisePriceDiscovery_tracking_number_f m)"

definition DirectListingwithCapitalRaisePriceDiscovery_timestamp :: "DirectListingwithCapitalRaisePriceDiscovery \<Rightarrow> Timestamp" where
  "DirectListingwithCapitalRaisePriceDiscovery_timestamp m = DirectListingwithCapitalRaisePriceDiscovery_timestamp_f m"

definition DirectListingwithCapitalRaisePriceDiscovery_stock :: "DirectListingwithCapitalRaisePriceDiscovery \<Rightarrow> Symbol" where
  "DirectListingwithCapitalRaisePriceDiscovery_stock m = DirectListingwithCapitalRaisePriceDiscovery_stock_f m"

definition DirectListingwithCapitalRaisePriceDiscovery_open_eligibility_status :: "DirectListingwithCapitalRaisePriceDiscovery \<Rightarrow> OpenEligibilityStatus" where
  "DirectListingwithCapitalRaisePriceDiscovery_open_eligibility_status m = OpenEligibilityStatus_from_byte (DirectListingwithCapitalRaisePriceDiscovery_open_eligibility_status_f m)"

definition DirectListingwithCapitalRaisePriceDiscovery_minimum_allowable_price :: "DirectListingwithCapitalRaisePriceDiscovery \<Rightarrow> Price4" where
  "DirectListingwithCapitalRaisePriceDiscovery_minimum_allowable_price m = DirectListingwithCapitalRaisePriceDiscovery_minimum_allowable_price_f m"

definition DirectListingwithCapitalRaisePriceDiscovery_maximum_allowable_price :: "DirectListingwithCapitalRaisePriceDiscovery \<Rightarrow> Price4" where
  "DirectListingwithCapitalRaisePriceDiscovery_maximum_allowable_price m = DirectListingwithCapitalRaisePriceDiscovery_maximum_allowable_price_f m"

definition DirectListingwithCapitalRaisePriceDiscovery_near_execution_price :: "DirectListingwithCapitalRaisePriceDiscovery \<Rightarrow> Price4" where
  "DirectListingwithCapitalRaisePriceDiscovery_near_execution_price m = DirectListingwithCapitalRaisePriceDiscovery_near_execution_price_f m"

definition DirectListingwithCapitalRaisePriceDiscovery_near_execution_time :: "zerocopy \<Rightarrow> DirectListingwithCapitalRaisePriceDiscovery \<Rightarrow> u64" where
  "DirectListingwithCapitalRaisePriceDiscovery_near_execution_time z m = zc_u64_get z (DirectListingwithCapitalRaisePriceDiscovery_near_execution_time_f m)"

definition DirectListingwithCapitalRaisePriceDiscovery_lower_price_range_collar :: "DirectListingwithCapitalRaisePriceDiscovery \<Rightarrow> Price4" where
  "DirectListingwithCapitalRaisePriceDiscovery_lower_price_range_collar m = DirectListingwithCapitalRaisePriceDiscovery_lower_price_range_collar_f m"

definition DirectListingwithCapitalRaisePriceDiscovery_upper_price_range_collar :: "DirectListingwithCapitalRaisePriceDiscovery \<Rightarrow> Price4" where
  "DirectListingwithCapitalRaisePriceDiscovery_upper_price_range_collar m = DirectListingwithCapitalRaisePriceDiscovery_upper_price_range_collar_f m"

end
