(* ===== verification/Itch_Parse.thy ===== *)
theory Itch_Parse
  imports Itch_Admin Itch_Orders
begin

text \<open>
  The streaming parser of \<open>itch5/src/parse.rs\<close> with the errors of \<open>itch5/src/error.rs\<close>.
  The visitor trait \<open>MessageHandler\<close> is a record of its methods, each a function of the
  message and the visitor's state; \<open>parse_stream\<close> returns the visitor's state and the
  parser's buffer with its result.  \<^const>\<open>None\<close> is a panic.
\<close>

section \<open>The visitor\<close>

datatype parse_error = EmptyBuffer | UnknownMessageType u8 | MalformedData

text \<open>\<open>ParseError\<close>'s \<open>Display\<close>; the number of \<open>{t}\<close> is printed by \<open>dec\<close>.\<close>

fun parse_error_fmt :: "(nat \<Rightarrow> string) \<Rightarrow> parse_error \<Rightarrow> string" where
  "parse_error_fmt dec EmptyBuffer = ''attempted to parse empty input''"
| "parse_error_fmt dec (UnknownMessageType t) = ''unknown message type '' @ dec (unat t)"
| "parse_error_fmt dec MalformedData = ''malformed input data''"

datatype control_flow = Continue | Break

record 's MessageHandler =
  on_system_event :: "SystemEvent \<Rightarrow> 's \<Rightarrow> 's \<times> control_flow"
  on_stock_directory :: "StockDirectory \<Rightarrow> 's \<Rightarrow> 's \<times> control_flow"
  on_stock_trading_action :: "StockTradingAction \<Rightarrow> 's \<Rightarrow> 's \<times> control_flow"
  on_reg_sho_restriction :: "RegSHORestriction \<Rightarrow> 's \<Rightarrow> 's \<times> control_flow"
  on_market_participant_position :: "MarketParticipantPosition \<Rightarrow> 's \<Rightarrow> 's \<times> control_flow"
  on_mwcb_decline_level :: "MWCBDeclineLevel \<Rightarrow> 's \<Rightarrow> 's \<times> control_flow"
  on_mwcb_status :: "MWCBStatus \<Rightarrow> 's \<Rightarrow> 's \<times> control_flow"
  on_quoting_period_update :: "QuotingPeriodUpdate \<Rightarrow> 's \<Rightarrow> 's \<times> control_flow"
  on_luld_auction_collar :: "LULDAuctionCollar \<Rightarrow> 's \<Rightarrow> 's \<times> control_flow"
  on_operational_halt :: "OperationalHalt \<Rightarrow> 's \<Rightarrow> 's \<times> control_flow"
  on_add_order_no_mpid_attribution :: "AddOrderNoMPIDAttribution \<Rightarrow> 's \<Rightarrow> 's \<times> control_flow"
  on_add_order_with_mpid_attribution :: "AddOrderWithMPIDAttribution \<Rightarrow> 's \<Rightarrow> 's \<times> control_flow"
  on_order_executed :: "OrderExecuted \<Rightarrow> 's \<Rightarrow> 's \<times> control_flow"
  on_order_executed_with_price :: "OrderExecutedWithPrice \<Rightarrow> 's \<Rightarrow> 's \<times> control_flow"
  on_order_cancel :: "OrderCancel \<Rightarrow> 's \<Rightarrow> 's \<times> control_flow"
  on_order_delete :: "OrderDelete \<Rightarrow> 's \<Rightarrow> 's \<times> control_flow"
  on_order_replace :: "OrderReplace \<Rightarrow> 's \<Rightarrow> 's \<times> control_flow"
  on_trade :: "Trade \<Rightarrow> 's \<Rightarrow> 's \<times> control_flow"
  on_cross_trade :: "CrossTrade \<Rightarrow> 's \<Rightarrow> 's \<times> control_flow"
  on_broken_trade :: "BrokenTrade \<Rightarrow> 's \<Rightarrow> 's \<times> control_flow"
  on_net_order_imbalance_indicator :: "NetOrderImbalanceIndicator \<Rightarrow> 's \<Rightarrow> 's \<times> control_flow"
  on_retail_price_improvement_indicator :: "RetailPriceImprovementIndicator \<Rightarrow> 's \<Rightarrow> 's \<times> control_flow"
  on_direct_listing_with_capital_raise_price_discovery :: "DirectListingwithCapitalRaisePriceDiscovery \<Rightarrow> 's \<Rightarrow> 's \<times> control_flow"

text \<open>The default methods: no state change, \<open>Continue\<close>.\<close>

definition default_handler :: "'s MessageHandler" where
  "default_handler =
     \<lparr>on_system_event = (\<lambda>_ s. (s, Continue)),
      on_stock_directory = (\<lambda>_ s. (s, Continue)),
      on_stock_trading_action = (\<lambda>_ s. (s, Continue)),
      on_reg_sho_restriction = (\<lambda>_ s. (s, Continue)),
      on_market_participant_position = (\<lambda>_ s. (s, Continue)),
      on_mwcb_decline_level = (\<lambda>_ s. (s, Continue)),
      on_mwcb_status = (\<lambda>_ s. (s, Continue)),
      on_quoting_period_update = (\<lambda>_ s. (s, Continue)),
      on_luld_auction_collar = (\<lambda>_ s. (s, Continue)),
      on_operational_halt = (\<lambda>_ s. (s, Continue)),
      on_add_order_no_mpid_attribution = (\<lambda>_ s. (s, Continue)),
      on_add_order_with_mpid_attribution = (\<lambda>_ s. (s, Continue)),
      on_order_executed = (\<lambda>_ s. (s, Continue)),
      on_order_executed_with_price = (\<lambda>_ s. (s, Continue)),
      on_order_cancel = (\<lambda>_ s. (s, Continue)),
      on_order_delete = (\<lambda>_ s. (s, Continue)),
      on_order_replace = (\<lambda>_ s. (s, Continue)),
      on_trade = (\<lambda>_ s. (s, Continue)),
      on_cross_trade = (\<lambda>_ s. (s, Continue)),
      on_broken_trade = (\<lambda>_ s. (s, Continue)),
      on_net_order_imbalance_indicator = (\<lambda>_ s. (s, Continue)),
      on_retail_price_improvement_indicator = (\<lambda>_ s. (s, Continue)),
      on_direct_listing_with_capital_raise_price_discovery = (\<lambda>_ s. (s, Continue))\<rparr>"

section \<open>Framing\<close>

definition known_tag :: "u8 \<Rightarrow> bool" where
  "known_tag t \<longleftrightarrow> t \<in> set (ascii_bytes ''SRHYLVWKJhAFECXDUPQBINO'')"

text \<open>
  \<open>parse_one\<close>: split off the length prefix and the body, and check the tag.
\<close>

definition parse_one :: "bytes \<Rightarrow> parse_error + (bytes \<times> bytes)" where
  "parse_one buf =
     (case split_at_checked buf 2 of
        None \<Rightarrow> Inl EmptyBuffer
      | Some (len_bytes, rest) \<Rightarrow>
          (case split_at_checked rest (unat (u16_from_be len_bytes)) of
             None \<Rightarrow> Inl MalformedData
           | Some (body, rest') \<Rightarrow>
               (case body of
                  tag # _ \<Rightarrow> if known_tag tag then Inr (body, rest') else Inl (UnknownMessageType tag)
                | [] \<Rightarrow> Inl MalformedData)))"

text \<open>\<open>cast::<T>\<close>, for the type of the given size and layout.\<close>

definition cast :: "zerocopy \<Rightarrow> nat \<Rightarrow> (bytes \<Rightarrow> 'm) \<Rightarrow> bytes \<Rightarrow> parse_error + 'm" where
  "cast z len view body =
     (case zc_ref_from_bytes z len body of None \<Rightarrow> Inl MalformedData | Some img \<Rightarrow> Inr (view img))"

section \<open>Dispatch and the loop\<close>

text \<open>\<open>handler.f(cast(body)?)\<close>: a failed cast returns before the handler is called.\<close>

definition call ::
  "('m \<Rightarrow> 's \<Rightarrow> 's \<times> control_flow) \<Rightarrow> parse_error + 'm \<Rightarrow> 's \<Rightarrow> 's \<times> (parse_error + control_flow)"
  where
  "call f c s =
     (case c of Inl e \<Rightarrow> (s, Inl e) | Inr m \<Rightarrow> (case f m s of (s', cf) \<Rightarrow> (s', Inr cf)))"

definition dispatch ::
  "zerocopy \<Rightarrow> 's MessageHandler \<Rightarrow> u8 \<Rightarrow> bytes \<Rightarrow> 's \<Rightarrow> 's \<times> (parse_error + control_flow)" where
  "dispatch z h tag body s =
     (if tag = ascii CHR ''S'' then call (on_system_event h) (cast z SystemEvent_LEN SystemEvent_view body) s
      else if tag = ascii CHR ''R'' then call (on_stock_directory h) (cast z StockDirectory_LEN StockDirectory_view body) s
      else if tag = ascii CHR ''H'' then call (on_stock_trading_action h) (cast z StockTradingAction_LEN StockTradingAction_view body) s
      else if tag = ascii CHR ''Y'' then call (on_reg_sho_restriction h) (cast z RegSHORestriction_LEN RegSHORestriction_view body) s
      else if tag = ascii CHR ''L'' then call (on_market_participant_position h) (cast z MarketParticipantPosition_LEN MarketParticipantPosition_view body) s
      else if tag = ascii CHR ''V'' then call (on_mwcb_decline_level h) (cast z MWCBDeclineLevel_LEN MWCBDeclineLevel_view body) s
      else if tag = ascii CHR ''W'' then call (on_mwcb_status h) (cast z MWCBStatus_LEN MWCBStatus_view body) s
      else if tag = ascii CHR ''K'' then call (on_quoting_period_update h) (cast z QuotingPeriodUpdate_LEN QuotingPeriodUpdate_view body) s
      else if tag = ascii CHR ''J'' then call (on_luld_auction_collar h) (cast z LULDAuctionCollar_LEN LULDAuctionCollar_view body) s
      else if tag = ascii CHR ''h'' then call (on_operational_halt h) (cast z OperationalHalt_LEN OperationalHalt_view body) s
      else if tag = ascii CHR ''A'' then call (on_add_order_no_mpid_attribution h) (cast z AddOrderNoMPIDAttribution_LEN AddOrderNoMPIDAttribution_view body) s
      else if tag = ascii CHR ''F'' then call (on_add_order_with_mpid_attribution h) (cast z AddOrderWithMPIDAttribution_LEN AddOrderWithMPIDAttribution_view body) s
      else if tag = ascii CHR ''E'' then call (on_order_executed h) (cast z OrderExecuted_LEN OrderExecuted_view body) s
      else if tag = ascii CHR ''C'' then call (on_order_executed_with_price h) (cast z OrderExecutedWithPrice_LEN OrderExecutedWithPrice_view body) s
      else if tag = ascii CHR ''X'' then call (on_order_cancel h) (cast z OrderCancel_LEN OrderCancel_view body) s
      else if tag = ascii CHR ''D'' then call (on_order_delete h) (cast z OrderDelete_LEN OrderDelete_view body) s
      else if tag = ascii CHR ''U'' then call (on_order_replace h) (cast z OrderReplace_LEN OrderReplace_view body) s
      else if tag = ascii CHR ''P'' then call (on_trade h) (cast z Trade_LEN Trade_view body) s
      else if tag = ascii CHR ''Q'' then call (on_cross_trade h) (cast z CrossTrade_LEN CrossTrade_view body) s
      else if tag = ascii CHR ''B'' then call (on_broken_trade h) (cast z BrokenTrade_LEN BrokenTrade_view body) s
      else if tag = ascii CHR ''I'' then call (on_net_order_imbalance_indicator h) (cast z NetOrderImbalanceIndicator_LEN NetOrderImbalanceIndicator_view body) s
      else if tag = ascii CHR ''N'' then call (on_retail_price_improvement_indicator h) (cast z RetailPriceImprovementIndicator_LEN RetailPriceImprovementIndicator_view body) s
      else if tag = ascii CHR ''O'' then call (on_direct_listing_with_capital_raise_price_discovery h) (cast z DirectListingwithCapitalRaisePriceDiscovery_LEN DirectListingwithCapitalRaisePriceDiscovery_view body) s
      else (s, Inl (UnknownMessageType tag)))"

lemma parse_one_shorter:
  "parse_one buf = Inr (body, rest) \<Longrightarrow> length rest < length buf"
  by (auto simp: parse_one_def split_at_checked_def split: if_splits option.splits list.splits)

function parse_stream ::
  "zerocopy \<Rightarrow> 's MessageHandler \<Rightarrow> bytes \<Rightarrow> 's \<Rightarrow> ('s \<times> bytes \<times> (parse_error + unit)) run" where
  "parse_stream z h buf s =
     (if buf = [] then Some (s, buf, Inr ())
      else case parse_one buf of
        Inl e \<Rightarrow> Some (s, buf, Inl e)
      | Inr (body, rest) \<Rightarrow>
          (case vec_get body 0 of
             None \<Rightarrow> panic
           | Some tag \<Rightarrow>
               (case dispatch z h tag body s of
                  (s', Inl e) \<Rightarrow> Some (s', rest, Inl e)
                | (s', Inr Break) \<Rightarrow> Some (s', rest, Inr ())
                | (s', Inr Continue) \<Rightarrow> parse_stream z h rest s')))"
  by pat_completeness auto
termination
  by (relation "measure (\<lambda>(z, h, buf, s). length buf)") (auto simp: parse_one_shorter)

declare parse_stream.simps [simp del]

section \<open>What the parser promises\<close>

text \<open>The messages of the protocol, and the call a visitor gets for each.\<close>

datatype itch_message =
    M_SystemEvent SystemEvent
  | M_StockDirectory StockDirectory
  | M_StockTradingAction StockTradingAction
  | M_RegSHORestriction RegSHORestriction
  | M_MarketParticipantPosition MarketParticipantPosition
  | M_MWCBDeclineLevel MWCBDeclineLevel
  | M_MWCBStatus MWCBStatus
  | M_QuotingPeriodUpdate QuotingPeriodUpdate
  | M_LULDAuctionCollar LULDAuctionCollar
  | M_OperationalHalt OperationalHalt
  | M_AddOrderNoMPIDAttribution AddOrderNoMPIDAttribution
  | M_AddOrderWithMPIDAttribution AddOrderWithMPIDAttribution
  | M_OrderExecuted OrderExecuted
  | M_OrderExecutedWithPrice OrderExecutedWithPrice
  | M_OrderCancel OrderCancel
  | M_OrderDelete OrderDelete
  | M_OrderReplace OrderReplace
  | M_Trade Trade
  | M_CrossTrade CrossTrade
  | M_BrokenTrade BrokenTrade
  | M_NetOrderImbalanceIndicator NetOrderImbalanceIndicator
  | M_RetailPriceImprovementIndicator RetailPriceImprovementIndicator
  | M_DirectListingwithCapitalRaisePriceDiscovery DirectListingwithCapitalRaisePriceDiscovery

fun handle :: "'s MessageHandler \<Rightarrow> itch_message \<Rightarrow> 's \<Rightarrow> 's \<times> control_flow" where
  "handle h (M_SystemEvent m) = on_system_event h m"
| "handle h (M_StockDirectory m) = on_stock_directory h m"
| "handle h (M_StockTradingAction m) = on_stock_trading_action h m"
| "handle h (M_RegSHORestriction m) = on_reg_sho_restriction h m"
| "handle h (M_MarketParticipantPosition m) = on_market_participant_position h m"
| "handle h (M_MWCBDeclineLevel m) = on_mwcb_decline_level h m"
| "handle h (M_MWCBStatus m) = on_mwcb_status h m"
| "handle h (M_QuotingPeriodUpdate m) = on_quoting_period_update h m"
| "handle h (M_LULDAuctionCollar m) = on_luld_auction_collar h m"
| "handle h (M_OperationalHalt m) = on_operational_halt h m"
| "handle h (M_AddOrderNoMPIDAttribution m) = on_add_order_no_mpid_attribution h m"
| "handle h (M_AddOrderWithMPIDAttribution m) = on_add_order_with_mpid_attribution h m"
| "handle h (M_OrderExecuted m) = on_order_executed h m"
| "handle h (M_OrderExecutedWithPrice m) = on_order_executed_with_price h m"
| "handle h (M_OrderCancel m) = on_order_cancel h m"
| "handle h (M_OrderDelete m) = on_order_delete h m"
| "handle h (M_OrderReplace m) = on_order_replace h m"
| "handle h (M_Trade m) = on_trade h m"
| "handle h (M_CrossTrade m) = on_cross_trade h m"
| "handle h (M_BrokenTrade m) = on_broken_trade h m"
| "handle h (M_NetOrderImbalanceIndicator m) = on_net_order_imbalance_indicator h m"
| "handle h (M_RetailPriceImprovementIndicator m) = on_retail_price_improvement_indicator h m"
| "handle h (M_DirectListingwithCapitalRaisePriceDiscovery m) = on_direct_listing_with_capital_raise_price_discovery h m"

definition decode_body :: "bytes \<Rightarrow> itch_message option" where
  "decode_body body =
     (case body of
        [] \<Rightarrow> None
      | tag # _ \<Rightarrow>
          (if tag = SystemEvent_TAG then (if length body = SystemEvent_LEN then Some (M_SystemEvent (SystemEvent_view body)) else None)
           else if tag = StockDirectory_TAG then (if length body = StockDirectory_LEN then Some (M_StockDirectory (StockDirectory_view body)) else None)
           else if tag = StockTradingAction_TAG then (if length body = StockTradingAction_LEN then Some (M_StockTradingAction (StockTradingAction_view body)) else None)
           else if tag = RegSHORestriction_TAG then (if length body = RegSHORestriction_LEN then Some (M_RegSHORestriction (RegSHORestriction_view body)) else None)
           else if tag = MarketParticipantPosition_TAG then (if length body = MarketParticipantPosition_LEN then Some (M_MarketParticipantPosition (MarketParticipantPosition_view body)) else None)
           else if tag = MWCBDeclineLevel_TAG then (if length body = MWCBDeclineLevel_LEN then Some (M_MWCBDeclineLevel (MWCBDeclineLevel_view body)) else None)
           else if tag = MWCBStatus_TAG then (if length body = MWCBStatus_LEN then Some (M_MWCBStatus (MWCBStatus_view body)) else None)
           else if tag = QuotingPeriodUpdate_TAG then (if length body = QuotingPeriodUpdate_LEN then Some (M_QuotingPeriodUpdate (QuotingPeriodUpdate_view body)) else None)
           else if tag = LULDAuctionCollar_TAG then (if length body = LULDAuctionCollar_LEN then Some (M_LULDAuctionCollar (LULDAuctionCollar_view body)) else None)
           else if tag = OperationalHalt_TAG then (if length body = OperationalHalt_LEN then Some (M_OperationalHalt (OperationalHalt_view body)) else None)
           else if tag = AddOrderNoMPIDAttribution_TAG then (if length body = AddOrderNoMPIDAttribution_LEN then Some (M_AddOrderNoMPIDAttribution (AddOrderNoMPIDAttribution_view body)) else None)
           else if tag = AddOrderWithMPIDAttribution_TAG then (if length body = AddOrderWithMPIDAttribution_LEN then Some (M_AddOrderWithMPIDAttribution (AddOrderWithMPIDAttribution_view body)) else None)
           else if tag = OrderExecuted_TAG then (if length body = OrderExecuted_LEN then Some (M_OrderExecuted (OrderExecuted_view body)) else None)
           else if tag = OrderExecutedWithPrice_TAG then (if length body = OrderExecutedWithPrice_LEN then Some (M_OrderExecutedWithPrice (OrderExecutedWithPrice_view body)) else None)
           else if tag = OrderCancel_TAG then (if length body = OrderCancel_LEN then Some (M_OrderCancel (OrderCancel_view body)) else None)
           else if tag = OrderDelete_TAG then (if length body = OrderDelete_LEN then Some (M_OrderDelete (OrderDelete_view body)) else None)
           else if tag = OrderReplace_TAG then (if length body = OrderReplace_LEN then Some (M_OrderReplace (OrderReplace_view body)) else None)
           else if tag = Trade_TAG then (if length body = Trade_LEN then Some (M_Trade (Trade_view body)) else None)
           else if tag = CrossTrade_TAG then (if length body = CrossTrade_LEN then Some (M_CrossTrade (CrossTrade_view body)) else None)
           else if tag = BrokenTrade_TAG then (if length body = BrokenTrade_LEN then Some (M_BrokenTrade (BrokenTrade_view body)) else None)
           else if tag = NetOrderImbalanceIndicator_TAG then (if length body = NetOrderImbalanceIndicator_LEN then Some (M_NetOrderImbalanceIndicator (NetOrderImbalanceIndicator_view body)) else None)
           else if tag = RetailPriceImprovementIndicator_TAG then (if length body = RetailPriceImprovementIndicator_LEN then Some (M_RetailPriceImprovementIndicator (RetailPriceImprovementIndicator_view body)) else None)
           else if tag = DirectListingwithCapitalRaisePriceDiscovery_TAG then (if length body = DirectListingwithCapitalRaisePriceDiscovery_LEN then Some (M_DirectListingwithCapitalRaisePriceDiscovery (DirectListingwithCapitalRaisePriceDiscovery_view body)) else None)
           else None))"

lemmas tag_defs =
  SystemEvent_TAG_def StockDirectory_TAG_def StockTradingAction_TAG_def RegSHORestriction_TAG_def
  MarketParticipantPosition_TAG_def MWCBDeclineLevel_TAG_def MWCBStatus_TAG_def
  QuotingPeriodUpdate_TAG_def LULDAuctionCollar_TAG_def OperationalHalt_TAG_def
  AddOrderNoMPIDAttribution_TAG_def AddOrderWithMPIDAttribution_TAG_def OrderExecuted_TAG_def
  OrderExecutedWithPrice_TAG_def OrderCancel_TAG_def OrderDelete_TAG_def OrderReplace_TAG_def
  Trade_TAG_def CrossTrade_TAG_def BrokenTrade_TAG_def NetOrderImbalanceIndicator_TAG_def
  RetailPriceImprovementIndicator_TAG_def DirectListingwithCapitalRaisePriceDiscovery_TAG_def

lemma call_cast:
  "zerocopy_ok z \<Longrightarrow>
   call f (cast z len view body) s =
     (if length body = len then (case f (view body) s of (s', cf) \<Rightarrow> (s', Inr cf))
      else (s, Inl MalformedData))"
  by (simp add: call_def cast_def zc_ref)

lemma dispatch_tag:
  "dispatch z h (ascii CHR ''S'') body s =
     call (on_system_event h) (cast z SystemEvent_LEN SystemEvent_view body) s"
  "dispatch z h (ascii CHR ''R'') body s =
     call (on_stock_directory h) (cast z StockDirectory_LEN StockDirectory_view body) s"
  "dispatch z h (ascii CHR ''H'') body s =
     call (on_stock_trading_action h) (cast z StockTradingAction_LEN StockTradingAction_view body) s"
  "dispatch z h (ascii CHR ''Y'') body s =
     call (on_reg_sho_restriction h) (cast z RegSHORestriction_LEN RegSHORestriction_view body) s"
  "dispatch z h (ascii CHR ''L'') body s =
     call (on_market_participant_position h) (cast z MarketParticipantPosition_LEN MarketParticipantPosition_view body) s"
  "dispatch z h (ascii CHR ''V'') body s =
     call (on_mwcb_decline_level h) (cast z MWCBDeclineLevel_LEN MWCBDeclineLevel_view body) s"
  "dispatch z h (ascii CHR ''W'') body s =
     call (on_mwcb_status h) (cast z MWCBStatus_LEN MWCBStatus_view body) s"
  "dispatch z h (ascii CHR ''K'') body s =
     call (on_quoting_period_update h) (cast z QuotingPeriodUpdate_LEN QuotingPeriodUpdate_view body) s"
  "dispatch z h (ascii CHR ''J'') body s =
     call (on_luld_auction_collar h) (cast z LULDAuctionCollar_LEN LULDAuctionCollar_view body) s"
  "dispatch z h (ascii CHR ''h'') body s =
     call (on_operational_halt h) (cast z OperationalHalt_LEN OperationalHalt_view body) s"
  "dispatch z h (ascii CHR ''A'') body s =
     call (on_add_order_no_mpid_attribution h) (cast z AddOrderNoMPIDAttribution_LEN AddOrderNoMPIDAttribution_view body) s"
  "dispatch z h (ascii CHR ''F'') body s =
     call (on_add_order_with_mpid_attribution h) (cast z AddOrderWithMPIDAttribution_LEN AddOrderWithMPIDAttribution_view body) s"
  "dispatch z h (ascii CHR ''E'') body s =
     call (on_order_executed h) (cast z OrderExecuted_LEN OrderExecuted_view body) s"
  "dispatch z h (ascii CHR ''C'') body s =
     call (on_order_executed_with_price h) (cast z OrderExecutedWithPrice_LEN OrderExecutedWithPrice_view body) s"
  "dispatch z h (ascii CHR ''X'') body s =
     call (on_order_cancel h) (cast z OrderCancel_LEN OrderCancel_view body) s"
  "dispatch z h (ascii CHR ''D'') body s =
     call (on_order_delete h) (cast z OrderDelete_LEN OrderDelete_view body) s"
  "dispatch z h (ascii CHR ''U'') body s =
     call (on_order_replace h) (cast z OrderReplace_LEN OrderReplace_view body) s"
  "dispatch z h (ascii CHR ''P'') body s =
     call (on_trade h) (cast z Trade_LEN Trade_view body) s"
  "dispatch z h (ascii CHR ''Q'') body s =
     call (on_cross_trade h) (cast z CrossTrade_LEN CrossTrade_view body) s"
  "dispatch z h (ascii CHR ''B'') body s =
     call (on_broken_trade h) (cast z BrokenTrade_LEN BrokenTrade_view body) s"
  "dispatch z h (ascii CHR ''I'') body s =
     call (on_net_order_imbalance_indicator h) (cast z NetOrderImbalanceIndicator_LEN NetOrderImbalanceIndicator_view body) s"
  "dispatch z h (ascii CHR ''N'') body s =
     call (on_retail_price_improvement_indicator h) (cast z RetailPriceImprovementIndicator_LEN RetailPriceImprovementIndicator_view body) s"
  "dispatch z h (ascii CHR ''O'') body s =
     call (on_direct_listing_with_capital_raise_price_discovery h) (cast z DirectListingwithCapitalRaisePriceDiscovery_LEN DirectListingwithCapitalRaisePriceDiscovery_view body) s"
  by (simp_all add: dispatch_def)

lemma decode_body_tag:
  "decode_body (ascii CHR ''S'' # r) =
     (if length (ascii CHR ''S'' # r) = SystemEvent_LEN then Some (M_SystemEvent (SystemEvent_view (ascii CHR ''S'' # r))) else None)"
  "decode_body (ascii CHR ''R'' # r) =
     (if length (ascii CHR ''R'' # r) = StockDirectory_LEN then Some (M_StockDirectory (StockDirectory_view (ascii CHR ''R'' # r))) else None)"
  "decode_body (ascii CHR ''H'' # r) =
     (if length (ascii CHR ''H'' # r) = StockTradingAction_LEN then Some (M_StockTradingAction (StockTradingAction_view (ascii CHR ''H'' # r))) else None)"
  "decode_body (ascii CHR ''Y'' # r) =
     (if length (ascii CHR ''Y'' # r) = RegSHORestriction_LEN then Some (M_RegSHORestriction (RegSHORestriction_view (ascii CHR ''Y'' # r))) else None)"
  "decode_body (ascii CHR ''L'' # r) =
     (if length (ascii CHR ''L'' # r) = MarketParticipantPosition_LEN then Some (M_MarketParticipantPosition (MarketParticipantPosition_view (ascii CHR ''L'' # r))) else None)"
  "decode_body (ascii CHR ''V'' # r) =
     (if length (ascii CHR ''V'' # r) = MWCBDeclineLevel_LEN then Some (M_MWCBDeclineLevel (MWCBDeclineLevel_view (ascii CHR ''V'' # r))) else None)"
  "decode_body (ascii CHR ''W'' # r) =
     (if length (ascii CHR ''W'' # r) = MWCBStatus_LEN then Some (M_MWCBStatus (MWCBStatus_view (ascii CHR ''W'' # r))) else None)"
  "decode_body (ascii CHR ''K'' # r) =
     (if length (ascii CHR ''K'' # r) = QuotingPeriodUpdate_LEN then Some (M_QuotingPeriodUpdate (QuotingPeriodUpdate_view (ascii CHR ''K'' # r))) else None)"
  "decode_body (ascii CHR ''J'' # r) =
     (if length (ascii CHR ''J'' # r) = LULDAuctionCollar_LEN then Some (M_LULDAuctionCollar (LULDAuctionCollar_view (ascii CHR ''J'' # r))) else None)"
  "decode_body (ascii CHR ''h'' # r) =
     (if length (ascii CHR ''h'' # r) = OperationalHalt_LEN then Some (M_OperationalHalt (OperationalHalt_view (ascii CHR ''h'' # r))) else None)"
  "decode_body (ascii CHR ''A'' # r) =
     (if length (ascii CHR ''A'' # r) = AddOrderNoMPIDAttribution_LEN then Some (M_AddOrderNoMPIDAttribution (AddOrderNoMPIDAttribution_view (ascii CHR ''A'' # r))) else None)"
  "decode_body (ascii CHR ''F'' # r) =
     (if length (ascii CHR ''F'' # r) = AddOrderWithMPIDAttribution_LEN then Some (M_AddOrderWithMPIDAttribution (AddOrderWithMPIDAttribution_view (ascii CHR ''F'' # r))) else None)"
  "decode_body (ascii CHR ''E'' # r) =
     (if length (ascii CHR ''E'' # r) = OrderExecuted_LEN then Some (M_OrderExecuted (OrderExecuted_view (ascii CHR ''E'' # r))) else None)"
  "decode_body (ascii CHR ''C'' # r) =
     (if length (ascii CHR ''C'' # r) = OrderExecutedWithPrice_LEN then Some (M_OrderExecutedWithPrice (OrderExecutedWithPrice_view (ascii CHR ''C'' # r))) else None)"
  "decode_body (ascii CHR ''X'' # r) =
     (if length (ascii CHR ''X'' # r) = OrderCancel_LEN then Some (M_OrderCancel (OrderCancel_view (ascii CHR ''X'' # r))) else None)"
  "decode_body (ascii CHR ''D'' # r) =
     (if length (ascii CHR ''D'' # r) = OrderDelete_LEN then Some (M_OrderDelete (OrderDelete_view (ascii CHR ''D'' # r))) else None)"
  "decode_body (ascii CHR ''U'' # r) =
     (if length (ascii CHR ''U'' # r) = OrderReplace_LEN then Some (M_OrderReplace (OrderReplace_view (ascii CHR ''U'' # r))) else None)"
  "decode_body (ascii CHR ''P'' # r) =
     (if length (ascii CHR ''P'' # r) = Trade_LEN then Some (M_Trade (Trade_view (ascii CHR ''P'' # r))) else None)"
  "decode_body (ascii CHR ''Q'' # r) =
     (if length (ascii CHR ''Q'' # r) = CrossTrade_LEN then Some (M_CrossTrade (CrossTrade_view (ascii CHR ''Q'' # r))) else None)"
  "decode_body (ascii CHR ''B'' # r) =
     (if length (ascii CHR ''B'' # r) = BrokenTrade_LEN then Some (M_BrokenTrade (BrokenTrade_view (ascii CHR ''B'' # r))) else None)"
  "decode_body (ascii CHR ''I'' # r) =
     (if length (ascii CHR ''I'' # r) = NetOrderImbalanceIndicator_LEN then Some (M_NetOrderImbalanceIndicator (NetOrderImbalanceIndicator_view (ascii CHR ''I'' # r))) else None)"
  "decode_body (ascii CHR ''N'' # r) =
     (if length (ascii CHR ''N'' # r) = RetailPriceImprovementIndicator_LEN then Some (M_RetailPriceImprovementIndicator (RetailPriceImprovementIndicator_view (ascii CHR ''N'' # r))) else None)"
  "decode_body (ascii CHR ''O'' # r) =
     (if length (ascii CHR ''O'' # r) = DirectListingwithCapitalRaisePriceDiscovery_LEN then Some (M_DirectListingwithCapitalRaisePriceDiscovery (DirectListingwithCapitalRaisePriceDiscovery_view (ascii CHR ''O'' # r))) else None)"
  by (simp_all add: decode_body_def tag_defs)

lemma known_tagE:
  assumes "known_tag t"
  obtains "t = ascii CHR ''S''"
  | "t = ascii CHR ''R''"
  | "t = ascii CHR ''H''"
  | "t = ascii CHR ''Y''"
  | "t = ascii CHR ''L''"
  | "t = ascii CHR ''V''"
  | "t = ascii CHR ''W''"
  | "t = ascii CHR ''K''"
  | "t = ascii CHR ''J''"
  | "t = ascii CHR ''h''"
  | "t = ascii CHR ''A''"
  | "t = ascii CHR ''F''"
  | "t = ascii CHR ''E''"
  | "t = ascii CHR ''C''"
  | "t = ascii CHR ''X''"
  | "t = ascii CHR ''D''"
  | "t = ascii CHR ''U''"
  | "t = ascii CHR ''P''"
  | "t = ascii CHR ''Q''"
  | "t = ascii CHR ''B''"
  | "t = ascii CHR ''I''"
  | "t = ascii CHR ''N''"
  | "t = ascii CHR ''O''"
  using assms by (auto simp: known_tag_def ascii_bytes_def)

lemma dispatch_decode:
  assumes z: "zerocopy_ok z" and "body = tag # rest" and "known_tag tag"
  shows "dispatch z h tag body s =
    (case decode_body body of
       None \<Rightarrow> (s, Inl MalformedData)
     | Some m \<Rightarrow> (case handle h m s of (s', cf) \<Rightarrow> (s', Inr cf)))"
  using assms(3)
  by (cases rule: known_tagE)
    (simp_all only: assms(2) dispatch_tag decode_body_tag call_cast [OF z] split: if_split,
     simp_all)

end
