(* ===== verification/Itch_Display.thy ===== *)
theory Itch_Display
  imports Itch_Enums
begin

text \<open>
  How the reasons of a trading action print.  The dashes of the literals are multi-byte in
  UTF-8; \<open>debug\<close> stands for the standard library's \<open>{:?}\<close> of a \<open>str\<close>, which follows
  the Unicode tables.
\<close>

definition en_dash :: string where "en_dash = [CHR 0xE2, CHR 0x80, CHR 0x93]"

definition em_dash :: string where "em_dash = [CHR 0xE2, CHR 0x80, CHR 0x94]"

fun TradingHaltReason_fmt :: "(string \<Rightarrow> string) \<Rightarrow> TradingHaltReason \<Rightarrow> string" where
  "TradingHaltReason_fmt debug TradingHaltReason_HaltNewsPending =
     ''T1   '' @ en_dash @ '' Halt News Pending''"
| "TradingHaltReason_fmt debug TradingHaltReason_HaltNewsDisseminated =
     ''T2   '' @ en_dash @ '' Halt News Disseminated''"
| "TradingHaltReason_fmt debug TradingHaltReason_SingleSecurityTradingPause =
     ''T5   '' @ en_dash @ '' Single Security Trading Pause In Effect''"
| "TradingHaltReason_fmt debug TradingHaltReason_RegulatoryHaltExtraordinaryMarketActivity =
     ''T6   '' @ en_dash @ '' Regulatory Halt: Extraordinary Market Activity''"
| "TradingHaltReason_fmt debug TradingHaltReason_HaltEtf =
     ''T8   '' @ en_dash @ '' Halt ETF''"
| "TradingHaltReason_fmt debug TradingHaltReason_HaltInformationRequestedByListingMarket =
     ''T12  '' @ en_dash @ '' Trading Halted; For Information Requested by Listing Market''"
| "TradingHaltReason_fmt debug TradingHaltReason_HaltNonCompliance =
     ''H4   '' @ en_dash @ '' Halt Non-Compliance''"
| "TradingHaltReason_fmt debug TradingHaltReason_HaltFilingsNotCurrent =
     ''H9   '' @ en_dash @ '' Halt Filings Not Current''"
| "TradingHaltReason_fmt debug TradingHaltReason_HaltSecTradingSuspension =
     ''H10  '' @ en_dash @ '' Halt SEC Trading Suspension''"
| "TradingHaltReason_fmt debug TradingHaltReason_HaltRegulatoryConcern =
     ''H11  '' @ en_dash @ '' Halt Regulatory Concern''"
| "TradingHaltReason_fmt debug TradingHaltReason_OperationsHalt =
     ''O1   '' @ en_dash @ '' Operations Halt; Contact Market Operations''"
| "TradingHaltReason_fmt debug TradingHaltReason_VolatilityTradingPause =
     ''LUDP '' @ en_dash @ '' Volatility Trading Pause''"
| "TradingHaltReason_fmt debug TradingHaltReason_VolatilityTradingPauseStraddleCondition =
     ''LUDS '' @ en_dash @ '' Volatility Trading Pause: Straddle Condition''"
| "TradingHaltReason_fmt debug TradingHaltReason_MarketWideCircuitBreakerLevel1 =
     ''MWC1 '' @ en_dash @ '' Market Wide Circuit Breaker Halt '' @ en_dash @ '' Level 1''"
| "TradingHaltReason_fmt debug TradingHaltReason_MarketWideCircuitBreakerLevel2 =
     ''MWC2 '' @ en_dash @ '' Market Wide Circuit Breaker Halt '' @ en_dash @ '' Level 2''"
| "TradingHaltReason_fmt debug TradingHaltReason_MarketWideCircuitBreakerLevel3 =
     ''MWC3 '' @ en_dash @ '' Market Wide Circuit Breaker Halt '' @ en_dash @ '' Level 3''"
| "TradingHaltReason_fmt debug TradingHaltReason_MarketWideCircuitBreakerCarryOver =
     ''MWC0 '' @ en_dash @ '' Market Wide Circuit Breaker Halt '' @ en_dash @ '' Carry over from previous day''"
| "TradingHaltReason_fmt debug TradingHaltReason_IpoNotYetTrading =
     ''IPO1 '' @ en_dash @ '' IPO Issue Not Yet Trading''"
| "TradingHaltReason_fmt debug TradingHaltReason_CorporateAction =
     ''M1   '' @ en_dash @ '' Corporate Action''"
| "TradingHaltReason_fmt debug TradingHaltReason_QuotationNotAvailable =
     ''M2   '' @ en_dash @ '' Quotation Not Available''"
| "TradingHaltReason_fmt debug TradingHaltReason_ReasonNotAvailable =
     ''     '' @ en_dash @ '' Reason Not Available''"
| "TradingHaltReason_fmt debug (TradingHaltReason_Unknown b) =
     ''Unknown('' @ debug (case from_utf8 b of None \<Rightarrow> ''?'' | Some t \<Rightarrow> t) @ '')''"

fun TradingResumptionReason_fmt :: "(string \<Rightarrow> string) \<Rightarrow> TradingResumptionReason \<Rightarrow> string" where
  "TradingResumptionReason_fmt debug TradingResumptionReason_NewsAndResumptionTimes =
     ''T3   '' @ en_dash @ '' News and Resumption Times''"
| "TradingResumptionReason_fmt debug TradingResumptionReason_SingleSecurityTradingPause =
     ''T7   '' @ en_dash @ '' Single Security Trading Pause / Quotation Only Period''"
| "TradingResumptionReason_fmt debug TradingResumptionReason_QualificationsIssuesResolved =
     ''R4   '' @ en_dash @ '' Qualifications Issues Reviewed/Resolved; Quotations/Trading to Resume''"
| "TradingResumptionReason_fmt debug TradingResumptionReason_FilingRequirementsSatisfied =
     ''R9   '' @ en_dash @ '' Filing Requirements Satisfied/Resolved; Quotations/Trading To Resume''"
| "TradingResumptionReason_fmt debug TradingResumptionReason_IssuerNewsNotForthcoming =
     ''C3   '' @ en_dash @ '' Issuer News Not Forthcoming; Quotations/Trading To Resume''"
| "TradingResumptionReason_fmt debug TradingResumptionReason_QualificationsHaltEnded =
     ''C4   '' @ en_dash @ '' Qualifications Halt ended Maintenance Requirements Met; Resume''"
| "TradingResumptionReason_fmt debug TradingResumptionReason_QualificationsHaltConcluded =
     ''C9   '' @ en_dash @ '' Qualifications Halt Concluded; Filings Met; Quotes/Trades To Resume''"
| "TradingResumptionReason_fmt debug TradingResumptionReason_TradeHaltConcludedByOtherRegulatoryAuth =
     ''C11  '' @ en_dash @ '' Trade Halt Concluded By Other Regulatory Auth.; Quotes/Trades Resume''"
| "TradingResumptionReason_fmt debug TradingResumptionReason_MarketWideCircuitBreakerResumption =
     ''MWCQ '' @ en_dash @ '' Market Wide Circuit Breaker Resumption''"
| "TradingResumptionReason_fmt debug TradingResumptionReason_NewIssueAvailable =
     ''R1   '' @ en_dash @ '' New Issue Available''"
| "TradingResumptionReason_fmt debug TradingResumptionReason_IssueAvailable =
     ''R2   '' @ en_dash @ '' Issue Available''"
| "TradingResumptionReason_fmt debug TradingResumptionReason_IpoSecurityReleasedForQuotation =
     ''IPOQ '' @ en_dash @ '' IPO Security Released for Quotation (Nasdaq Securities Only)''"
| "TradingResumptionReason_fmt debug TradingResumptionReason_IpoSecurityPositioningWindowExtension =
     ''IPOE '' @ en_dash @ '' IPO Security '' @ em_dash @ '' Positioning Window Extension (Nasdaq Securities Only)''"
| "TradingResumptionReason_fmt debug TradingResumptionReason_ReasonNotAvailable =
     ''     '' @ en_dash @ '' Reason Not Available''"
| "TradingResumptionReason_fmt debug (TradingResumptionReason_Unknown b) =
     ''Unknown('' @ debug (case from_utf8 b of None \<Rightarrow> ''?'' | Some t \<Rightarrow> t) @ '')''"

text \<open>The text of a known reason starts with the four bytes of its code.\<close>

lemma halt_fmt_code:
  "TradingHaltReason_code v = Some w \<Longrightarrow> ascii_bytes (take 4 (TradingHaltReason_fmt debug v)) = w"
  by (cases v) auto

lemma resumption_fmt_code:
  "TradingResumptionReason_code v = Some w \<Longrightarrow> ascii_bytes (take 4 (TradingResumptionReason_fmt debug v)) = w"
  by (cases v) auto

end
