(* ===== verification/Itch_Spec.thy ===== *)
theory Itch_Spec
  imports Itch_Parse Itch_Display
begin

text \<open>
  What the ITCH crate promises: the length table of the protocol, the bytes of a message, the
  framing, and the sequence of calls a visitor receives.
\<close>

section \<open>Messages and their bytes\<close>

text \<open>The body lengths the Nasdaq specification fixes, by tag.\<close>

definition wire_lengths :: "(u8 \<times> nat) list" where
  "wire_lengths =
     [(ascii CHR ''S'', 12),
      (ascii CHR ''R'', 39),
      (ascii CHR ''H'', 25),
      (ascii CHR ''Y'', 20),
      (ascii CHR ''L'', 26),
      (ascii CHR ''V'', 35),
      (ascii CHR ''W'', 12),
      (ascii CHR ''K'', 28),
      (ascii CHR ''J'', 35),
      (ascii CHR ''h'', 21),
      (ascii CHR ''A'', 36),
      (ascii CHR ''F'', 40),
      (ascii CHR ''E'', 31),
      (ascii CHR ''C'', 36),
      (ascii CHR ''X'', 23),
      (ascii CHR ''D'', 19),
      (ascii CHR ''U'', 35),
      (ascii CHR ''P'', 44),
      (ascii CHR ''Q'', 40),
      (ascii CHR ''B'', 19),
      (ascii CHR ''I'', 50),
      (ascii CHR ''N'', 20),
      (ascii CHR ''O'', 48)]"

fun encode_message :: "itch_message \<Rightarrow> bytes" where
  "encode_message (M_SystemEvent m) = SystemEvent_as_bytes m"
| "encode_message (M_StockDirectory m) = StockDirectory_as_bytes m"
| "encode_message (M_StockTradingAction m) = StockTradingAction_as_bytes m"
| "encode_message (M_RegSHORestriction m) = RegSHORestriction_as_bytes m"
| "encode_message (M_MarketParticipantPosition m) = MarketParticipantPosition_as_bytes m"
| "encode_message (M_MWCBDeclineLevel m) = MWCBDeclineLevel_as_bytes m"
| "encode_message (M_MWCBStatus m) = MWCBStatus_as_bytes m"
| "encode_message (M_QuotingPeriodUpdate m) = QuotingPeriodUpdate_as_bytes m"
| "encode_message (M_LULDAuctionCollar m) = LULDAuctionCollar_as_bytes m"
| "encode_message (M_OperationalHalt m) = OperationalHalt_as_bytes m"
| "encode_message (M_AddOrderNoMPIDAttribution m) = AddOrderNoMPIDAttribution_as_bytes m"
| "encode_message (M_AddOrderWithMPIDAttribution m) = AddOrderWithMPIDAttribution_as_bytes m"
| "encode_message (M_OrderExecuted m) = OrderExecuted_as_bytes m"
| "encode_message (M_OrderExecutedWithPrice m) = OrderExecutedWithPrice_as_bytes m"
| "encode_message (M_OrderCancel m) = OrderCancel_as_bytes m"
| "encode_message (M_OrderDelete m) = OrderDelete_as_bytes m"
| "encode_message (M_OrderReplace m) = OrderReplace_as_bytes m"
| "encode_message (M_Trade m) = Trade_as_bytes m"
| "encode_message (M_CrossTrade m) = CrossTrade_as_bytes m"
| "encode_message (M_BrokenTrade m) = BrokenTrade_as_bytes m"
| "encode_message (M_NetOrderImbalanceIndicator m) = NetOrderImbalanceIndicator_as_bytes m"
| "encode_message (M_RetailPriceImprovementIndicator m) = RetailPriceImprovementIndicator_as_bytes m"
| "encode_message (M_DirectListingwithCapitalRaisePriceDiscovery m) = DirectListingwithCapitalRaisePriceDiscovery_as_bytes m"

lemmas len_defs =
    SystemEvent_LEN_def StockDirectory_LEN_def StockTradingAction_LEN_def
    RegSHORestriction_LEN_def MarketParticipantPosition_LEN_def MWCBDeclineLevel_LEN_def
    MWCBStatus_LEN_def QuotingPeriodUpdate_LEN_def LULDAuctionCollar_LEN_def
    OperationalHalt_LEN_def AddOrderNoMPIDAttribution_LEN_def
    AddOrderWithMPIDAttribution_LEN_def OrderExecuted_LEN_def OrderExecutedWithPrice_LEN_def
    OrderCancel_LEN_def OrderDelete_LEN_def OrderReplace_LEN_def Trade_LEN_def
    CrossTrade_LEN_def BrokenTrade_LEN_def NetOrderImbalanceIndicator_LEN_def
    RetailPriceImprovementIndicator_LEN_def
    DirectListingwithCapitalRaisePriceDiscovery_LEN_def

lemma decode_encode_message:
  assumes "decode_body body = Some m"
  shows "encode_message m = body"
proof (cases body)
  case Nil
  with assms show ?thesis by (simp add: decode_body_def)
next
  case (Cons t r)
  have known: "known_tag t"
  proof (rule ccontr)
    assume "\<not> known_tag t"
    then have "decode_body (t # r) = None"
      by (simp add: decode_body_def known_tag_def ascii_bytes_def tag_defs)
    with assms Cons show False by simp
  qed
  note layouts = system_event_layout.as_bytes_view
    stock_directory_layout.as_bytes_view
    stock_trading_action_layout.as_bytes_view
    reg_sho_restriction_layout.as_bytes_view
    market_participant_position_layout.as_bytes_view
    mwcb_decline_level_layout.as_bytes_view
    mwcb_status_layout.as_bytes_view
    quoting_period_update_layout.as_bytes_view
    luld_auction_collar_layout.as_bytes_view
    operational_halt_layout.as_bytes_view
    add_order_no_mpid_attribution_layout.as_bytes_view
    add_order_with_mpid_attribution_layout.as_bytes_view
    order_executed_layout.as_bytes_view
    order_executed_with_price_layout.as_bytes_view
    order_cancel_layout.as_bytes_view
    order_delete_layout.as_bytes_view
    order_replace_layout.as_bytes_view
    trade_layout.as_bytes_view
    cross_trade_layout.as_bytes_view
    broken_trade_layout.as_bytes_view
    net_order_imbalance_indicator_layout.as_bytes_view
    retail_price_improvement_indicator_layout.as_bytes_view
    direct_listingwith_capital_raise_price_discovery_layout.as_bytes_view
  from known assms show ?thesis
    unfolding Cons
    by (cases rule: known_tagE)
      (simp_all only: decode_body_tag split: if_splits, auto simp: layouts simp del: length_Cons)
qed

lemma decode_body_length:
  "decode_body (t # r) \<noteq> None \<longleftrightarrow> map_of wire_lengths t = Some (length (t # r))"
proof (cases "known_tag t")
  case False
  then have "decode_body (t # r) = None" and "map_of wire_lengths t = None"
    by (simp_all add: decode_body_def known_tag_def ascii_bytes_def tag_defs wire_lengths_def)
  then show ?thesis by simp
next
  case True
  then show ?thesis
    by (cases rule: known_tagE) (simp_all add: decode_body_tag wire_lengths_def len_defs)
qed

lemma decode_body_known: "decode_body body = Some m \<Longrightarrow> \<exists>t r. body = t # r \<and> known_tag t"
  by (cases body)
    (auto simp: decode_body_def known_tag_def ascii_bytes_def tag_defs split: if_splits)

lemma wire_lengths_small: "map_of wire_lengths t = Some n \<Longrightarrow> n < 2 ^ 16"
  by (drule map_of_SomeD) (auto simp: wire_lengths_def)

lemma decode_body_small: "decode_body body = Some m \<Longrightarrow> length body < 2 ^ 16"
  using decode_body_length wire_lengths_small decode_body_known by (metis option.distinct(1))

section \<open>Framing\<close>

definition frame :: "bytes \<Rightarrow> bytes" where
  "frame body = u16_to_be (of_nat (length body)) @ body"

definition frames :: "bytes list \<Rightarrow> bytes" where
  "frames bodies = concat (map frame bodies)"

lemma frames_Nil [simp]: "frames [] = []"
  by (simp add: frames_def)

lemma frames_Cons [simp]: "frames (b # bs) = frame b @ frames bs"
  by (simp add: frames_def)

lemma frame_nonempty [simp]: "frame b \<noteq> []"
  by (simp add: frame_def flip: length_0_conv)

lemma unat_length_u16: "n < 2 ^ 16 \<Longrightarrow> unat (of_nat n :: u16) = n"
  by (simp add: unat_of_nat)

lemma split_frame:
  "length body < 2 ^ 16 \<Longrightarrow>
   split_at_checked (frame body @ rest) 2 = Some (u16_to_be (of_nat (length body)), body @ rest)"
  by (simp add: frame_def)

lemma parse_one_frame:
  "length (t # r) < 2 ^ 16 \<Longrightarrow>
   parse_one (frame (t # r) @ rest) =
     (if known_tag t then Inr (t # r, rest) else Inl (UnknownMessageType t))"
  using split_frame [of "t # r" rest] unat_length_u16 [of "length (t # r)"]
  by (simp add: parse_one_def split_at_checked_def [of "t # r @ rest"])

lemma split_frameE:
  assumes "split_at_checked buf 2 = Some (l, rest)"
    and "split_at_checked rest (unat (u16_from_be l)) = Some (body, rest')"
  shows "buf = frame body @ rest'" and "length body < 2 ^ 16"
proof -
  from assms have b: "buf = l @ body @ rest'" "length l = 2" "length body = unat (u16_from_be l)"
    by (auto dest: split_at_checked_SomeD)
  then show "length body < 2 ^ 16"
    using unsigned_less [of "u16_from_be l", where ?'a = nat] by simp
  show "buf = frame body @ rest'" using b by (simp add: frame_def)
qed

lemma parse_one_cases:
  obtains "length buf < 2" and "parse_one buf = Inl EmptyBuffer"
  | n where "2 \<le> length buf" and "n = be_nat (take 2 buf)" and "n = 0 \<or> length buf < 2 + n"
      and "parse_one buf = Inl MalformedData"
  | t r rest where "buf = frame (t # r) @ rest" and "length (t # r) < 2 ^ 16"
proof (cases "split_at_checked buf 2")
  case None
  with that(1) show ?thesis by (simp add: parse_one_def split_at_checked_def split: if_splits)
next
  case (Some p)
  then obtain l rest where l: "split_at_checked buf 2 = Some (l, rest)" by (cases p) auto
  then have two: "2 \<le> length buf" "l = take 2 buf" "rest = drop 2 buf" "length l = 2"
    by (auto simp: split_at_checked_def split: if_splits)
  have n: "unat (u16_from_be l) = be_nat (take 2 buf)" using two unat_from_be(1) [of l] by simp
  show ?thesis
  proof (cases "split_at_checked rest (unat (u16_from_be l))")
    case None
    with l two n that(2) show ?thesis
      by (auto simp: parse_one_def split_at_checked_def split: if_splits)
  next
    case (Some q)
    then obtain body rest' where q: "split_at_checked rest (unat (u16_from_be l)) = Some (body, rest')"
      by (cases q) auto
    note f = split_frameE [OF l q]
    show ?thesis
    proof (cases body)
      case Nil
      with l q have "parse_one buf = Inl MalformedData" by (simp add: parse_one_def)
      moreover have "be_nat (take 2 buf) = 0"
        using q Nil n by (auto dest: split_at_checked_SomeD)
      ultimately show ?thesis using that(2) two(1) by blast
    next
      case (Cons t r)
      with f that(3) show ?thesis by blast
    qed
  qed
qed

lemma take_frame:
  assumes "length body < 2 ^ 16"
  shows "be_nat (take 2 (frame body @ rest)) = length body"
    and "length (frame body @ rest) = 2 + length body + length rest"
proof -
  have "take 2 (frame body @ rest) = u16_to_be (of_nat (length body))" by (simp add: frame_def)
  then show "be_nat (take 2 (frame body @ rest)) = length body"
    using unat_from_be(1) [of "u16_to_be (of_nat (length body))"] unat_length_u16 [OF assms] by simp
  show "length (frame body @ rest) = 2 + length body + length rest" by (simp add: frame_def)
qed

lemma parse_one_sound:
  assumes "parse_one buf = Inr (body, rest)"
  shows "buf = frame body @ rest \<and> length body < 2 ^ 16 \<and> body \<noteq> [] \<and> known_tag (hd body)"
proof (cases buf rule: parse_one_cases)
  case (3 t r rest')
  with assms parse_one_frame [OF 3(2), of rest'] show ?thesis by (auto split: if_splits)
qed (use assms in auto)

text \<open>The errors of \<open>parse_one\<close>.\<close>

definition framing_error :: "bytes \<Rightarrow> parse_error \<Rightarrow> bool" where
  "framing_error buf e \<longleftrightarrow>
     (case e of
        EmptyBuffer \<Rightarrow> length buf < 2
      | MalformedData \<Rightarrow> 2 \<le> length buf \<and>
          (be_nat (take 2 buf) = 0 \<or> length buf < 2 + be_nat (take 2 buf))
      | UnknownMessageType t \<Rightarrow> \<not> known_tag t \<and>
          (\<exists>r rest. length (t # r) < 2 ^ 16 \<and> buf = frame (t # r) @ rest))"

lemma framing_error_unknown:
  assumes "framing_error buf (UnknownMessageType t)"
  shows "2 \<le> length buf" and "be_nat (take 2 buf) \<noteq> 0" and "2 + be_nat (take 2 buf) \<le> length buf"
    and "buf ! 2 = t"
proof -
  from assms obtain r rest where b: "length (t # r) < 2 ^ 16" "buf = frame (t # r) @ rest"
    by (auto simp: framing_error_def)
  from take_frame [OF b(1), of rest] show "2 \<le> length buf" and "be_nat (take 2 buf) \<noteq> 0"
    and "2 + be_nat (take 2 buf) \<le> length buf"
    unfolding b(2) by simp_all
  show "buf ! 2 = t" unfolding b(2) by (simp add: frame_def nth_append)
qed

lemma framing_error_unique:
  assumes "framing_error buf e" and "framing_error buf e'"
  shows "e = e'"
proof -
  have small: "framing_error buf EmptyBuffer \<longleftrightarrow> length buf < 2"
    and bad: "framing_error buf MalformedData \<longleftrightarrow> 2 \<le> length buf \<and>
      (be_nat (take 2 buf) = 0 \<or> length buf < 2 + be_nat (take 2 buf))"
    by (simp_all add: framing_error_def)
  note u = framing_error_unknown [of buf]
  show ?thesis
    using assms small bad u by (cases e; cases e') (metis leD)+
qed

lemma parse_one_framing_error: "parse_one buf = Inl e \<Longrightarrow> framing_error buf e"
proof (cases buf rule: parse_one_cases)
  case (3 t r rest)
  assume "parse_one buf = Inl e"
  with 3 parse_one_frame [OF 3(2), of rest] have "e = UnknownMessageType t" "\<not> known_tag t"
    by (simp_all split: if_splits)
  with 3 show ?thesis unfolding framing_error_def by auto
qed (auto simp: framing_error_def)

lemma framing_error_parse_one:
  assumes "framing_error buf e"
  shows "parse_one buf = Inl e"
proof (cases "parse_one buf")
  case (Inl e')
  with framing_error_unique [OF assms parse_one_framing_error [OF Inl]] show ?thesis by simp
next
  case (Inr p)
  then obtain body rest where "parse_one buf = Inr (body, rest)" by (cases p) auto
  from parse_one_sound [OF this] obtain t r where
    b: "body = t # r" "buf = frame (t # r) @ rest" "length (t # r) < 2 ^ 16" "known_tag t"
    by (cases body) auto
  with assms take_frame [OF b(3), of rest] have False
    by (cases e) (auto simp: framing_error_def frame_def)
  then show ?thesis ..
qed

section \<open>The visitor's calls\<close>

text \<open>Messages in order, until the visitor breaks; the messages it never saw are left.\<close>

fun visit ::
  "'s MessageHandler \<Rightarrow> itch_message list \<Rightarrow> 's \<Rightarrow> 's \<times> itch_message list \<times> control_flow" where
  "visit h [] s = (s, [], Continue)"
| "visit h (m # ms) s =
     (case handle h m s of (s', Break) \<Rightarrow> (s', ms, Break) | (s', Continue) \<Rightarrow> visit h ms s')"

lemma parse_stream_message:
  assumes "zerocopy_ok z" and "decode_body body = Some m"
  shows "parse_stream z h (frame body @ rest) s =
    (case handle h m s of
       (s', Break) \<Rightarrow> Some (s', rest, Inr ())
     | (s', Continue) \<Rightarrow> parse_stream z h rest s')"
proof -
  obtain t r where body: "body = t # r" "known_tag t" using decode_body_known [OF assms(2)] by blast
  have "parse_one (frame body @ rest) = Inr (body, rest)"
    using parse_one_frame [of t r rest] decode_body_small [OF assms(2)] body by simp
  with body assms(2) dispatch_decode [OF assms(1) body(1,2), of h s] show ?thesis
    by (subst parse_stream.simps) (simp add: vec_get_def split: prod.split control_flow.split)
qed

lemma length_visit_left: "length (fst (snd (visit h ms s))) \<le> length ms"
proof (induction ms arbitrary: s)
  case (Cons m ms)
  then show ?case
    by (auto simp: le_Suc_eq split: prod.split control_flow.split)
qed simp

lemma parse_stream_frames:
  assumes z: "zerocopy_ok z"
  shows "list_all2 (\<lambda>b m. decode_body b = Some m) bodies ms \<Longrightarrow>
   parse_stream z h (frames bodies @ tail) s =
     (case visit h ms s of
        (s', left, Break) \<Rightarrow> Some (s', frames (drop (length ms - length left) bodies) @ tail, Inr ())
      | (s', left, Continue) \<Rightarrow> parse_stream z h tail s')"
proof (induction bodies ms arbitrary: s rule: list_all2_induct)
  case Nil
  then show ?case by simp
next
  case (Cons body bodies m ms)
  obtain s' cf where h: "handle h m s = (s', cf)" by (cases "handle h m s")
  have len: "length bodies = length ms" using Cons(2) by (rule list_all2_lengthD)
  have le: "length (fst (snd (visit h ms s'))) \<le> length ms" by (rule length_visit_left)
  then show ?case
    using Cons(1) Cons.IH [of s'] h len
    by (cases cf)
      (auto simp: parse_stream_message [OF z] Suc_diff_le split: prod.splits control_flow.splits)
qed

lemma parse_stream_progress:
  assumes z: "zerocopy_ok z"
  shows "\<exists>s' rest r bodies. parse_stream z h buf s = Some (s', rest, r) \<and> buf = frames bodies @ rest \<and>
    (\<forall>b \<in> set bodies. b \<noteq> [] \<and> known_tag (hd b)) \<and> (r = Inr () \<longrightarrow> (\<forall>b \<in> set bodies. decode_body b \<noteq> None))"
proof (induction "length buf" arbitrary: buf s rule: less_induct)
  case less
  show ?case
  proof (cases "buf = []")
    case True
    then show ?thesis
      by (subst parse_stream.simps) (auto intro!: exI [of _ "[]"])
  next
    case False
    show ?thesis
    proof (cases "parse_one buf")
      case (Inl e)
      with False show ?thesis
        by (subst parse_stream.simps) (auto intro!: exI [of _ "[]"])
    next
      case (Inr p)
      then obtain body rest where p: "parse_one buf = Inr (body, rest)" by (cases p) auto
      from parse_one_sound [OF p] obtain t r where
        b: "body = t # r" "known_tag t" "buf = frame body @ rest" by (cases body) auto
      obtain s' cf where d: "dispatch z h t body s = (s', cf)" by (cases "dispatch z h t body s")
      have step: "parse_stream z h buf s =
          (case cf of Inl e \<Rightarrow> Some (s', rest, Inl e) | Inr Break \<Rightarrow> Some (s', rest, Inr ())
           | Inr Continue \<Rightarrow> parse_stream z h rest s')"
        using False p b(1) d by (subst parse_stream.simps) (simp add: vec_get_def)
      have ok: "cf = Inr c \<Longrightarrow> decode_body body \<noteq> None" for c
        using d dispatch_decode [OF z b(1,2), of h s] by (auto split: option.splits prod.splits)
      show ?thesis
      proof (cases "cf = Inr Continue")
        case True
        from less [OF parse_one_shorter [OF p], of s'] obtain s'' rest' r' bodies where
          i: "parse_stream z h rest s' = Some (s'', rest', r')" "rest = frames bodies @ rest'"
            "\<forall>b \<in> set bodies. b \<noteq> [] \<and> known_tag (hd b)"
            "r' = Inr () \<longrightarrow> (\<forall>b \<in> set bodies. decode_body b \<noteq> None)" by blast
        then show ?thesis
          using step True b ok
          by (intro exI [of _ s''] exI [of _ rest'] exI [of _ r'] exI [of _ "body # bodies"]) auto
      next
        case False
        with step ok b show ?thesis
          by (intro exI [of _ s'] exI [of _ rest] exI [of _ "case cf of Inl e \<Rightarrow> Inl e | Inr _ \<Rightarrow> Inr ()"]
              exI [of _ "[body]"]) (auto split: sum.splits control_flow.splits)
      qed
    qed
  qed
qed

end
