(* ===== verification/Itch_Offsets.thy ===== *)
theory Itch_Offsets
  imports Itch_Spec
begin

text \<open>
  The offsets of the protocol. For each of the 23 message types the length of the body and the
  offset and width of every field, as the ITCH 5.0 specification tabulates them, and what the accessors of
  \<open>itch5/src/messages.rs\<close> have to read there: unsigned big-endian numbers, text, and one-byte
  codes.
\<close>

section \<open>What the accessors have to read\<close>

definition number_at :: "nat \<Rightarrow> nat \<Rightarrow> bytes \<Rightarrow> nat" where
  "number_at i n b = be_nat (take n (drop i b))"

definition text_at :: "nat \<Rightarrow> nat \<Rightarrow> bytes \<Rightarrow> bytes" where
  "text_at i n b = take n (drop i b)"

definition trading_action :: "u8 \<Rightarrow> bytes \<Rightarrow> TradingActionReason" where
  "trading_action state code =
     (if state = ascii CHR ''H'' then TradingActionReason_Halted (TradingHaltReason_from_bytes code)
      else if state = ascii CHR ''P'' then TradingActionReason_Paused (TradingHaltReason_from_bytes code)
      else if state = ascii CHR ''Q'' then TradingActionReason_QuotationOnly (TradingResumptionReason_from_bytes code)
      else if state = ascii CHR ''T'' then TradingActionReason_Trading (TradingResumptionReason_from_bytes code)
      else TradingActionReason_Unknown state code)"

fun reads_as :: "zerocopy \<Rightarrow> bytes \<Rightarrow> itch_message \<Rightarrow> bool" where
  "reads_as z b (M_SystemEvent m) \<longleftrightarrow> length b = 12 \<and> hd b = ascii CHR ''S'' \<and>
      unat (SystemEvent_stock_locate z m) = number_at 1 2 b \<and>
      unat (SystemEvent_tracking_number z m) = number_at 3 2 b \<and>
      unat (Timestamp_to_u64 (SystemEvent_timestamp m)) = number_at 5 6 b \<and>
      SystemEvent_event_code m = SystemEventCode_from_byte (b ! 11)"
| "reads_as z b (M_StockDirectory m) \<longleftrightarrow> length b = 39 \<and> hd b = ascii CHR ''R'' \<and>
      unat (StockDirectory_stock_locate z m) = number_at 1 2 b \<and>
      unat (StockDirectory_tracking_number z m) = number_at 3 2 b \<and>
      unat (Timestamp_to_u64 (StockDirectory_timestamp m)) = number_at 5 6 b \<and>
      Symbol_bytes (StockDirectory_stock m) = text_at 11 8 b \<and>
      StockDirectory_market_category m = MarketCategory_from_byte (b ! 19) \<and>
      StockDirectory_financial_status_indicator m = FinancialStatusIndicator_from_byte (b ! 20) \<and>
      unat (StockDirectory_round_lot_size z m) = number_at 21 4 b \<and>
      StockDirectory_round_lots_only m = RoundLotsOnly_from_byte (b ! 25) \<and>
      StockDirectory_issue_classification m = IssueClassificationCode_from_byte (b ! 26) \<and>
      StockDirectory_issue_sub_type m = IssueSubTypeCode_from_bytes (text_at 27 2 b) \<and>
      StockDirectory_authenticity m = Authenticity_from_byte (b ! 29) \<and>
      StockDirectory_short_sale_threshold_indicator m = ShortSaleThresholdIndicator_from_byte (b ! 30) \<and>
      StockDirectory_ipo_flag m = IpoFlag_from_byte (b ! 31) \<and>
      StockDirectory_luld_reference_price_tier m = LuldReferencePriceTier_from_byte (b ! 32) \<and>
      StockDirectory_etp_flag m = EtpFlag_from_byte (b ! 33) \<and>
      unat (StockDirectory_etp_leverage_factor z m) = number_at 34 4 b \<and>
      StockDirectory_inverse_indicator m = InverseIndicator_from_byte (b ! 38)"
| "reads_as z b (M_StockTradingAction m) \<longleftrightarrow> length b = 25 \<and> hd b = ascii CHR ''H'' \<and>
      unat (StockTradingAction_stock_locate z m) = number_at 1 2 b \<and>
      unat (StockTradingAction_tracking_number z m) = number_at 3 2 b \<and>
      unat (Timestamp_to_u64 (StockTradingAction_timestamp m)) = number_at 5 6 b \<and>
      Symbol_bytes (StockTradingAction_stock m) = text_at 11 8 b \<and>
      StockTradingAction_trading_state m = TradingState_from_byte (b ! 19) \<and>
      StockTradingAction_reserved m = b ! 20 \<and>
      StockTradingAction_reason m = trading_action (b ! 19) (text_at 21 4 b)"
| "reads_as z b (M_RegSHORestriction m) \<longleftrightarrow> length b = 20 \<and> hd b = ascii CHR ''Y'' \<and>
      unat (RegSHORestriction_locate_code z m) = number_at 1 2 b \<and>
      unat (RegSHORestriction_tracking_number z m) = number_at 3 2 b \<and>
      unat (Timestamp_to_u64 (RegSHORestriction_timestamp m)) = number_at 5 6 b \<and>
      Symbol_bytes (RegSHORestriction_stock m) = text_at 11 8 b \<and>
      RegSHORestriction_reg_sho_action m = RegShoAction_from_byte (b ! 19)"
| "reads_as z b (M_MarketParticipantPosition m) \<longleftrightarrow> length b = 26 \<and> hd b = ascii CHR ''L'' \<and>
      unat (MarketParticipantPosition_stock_locate z m) = number_at 1 2 b \<and>
      unat (MarketParticipantPosition_tracking_number z m) = number_at 3 2 b \<and>
      unat (Timestamp_to_u64 (MarketParticipantPosition_timestamp m)) = number_at 5 6 b \<and>
      MarketParticipantPosition_mpid m = text_at 11 4 b \<and>
      Symbol_bytes (MarketParticipantPosition_stock m) = text_at 15 8 b \<and>
      MarketParticipantPosition_primary_market_maker m = PrimaryMarketMaker_from_byte (b ! 23) \<and>
      MarketParticipantPosition_market_maker_mode m = MarketMakerMode_from_byte (b ! 24) \<and>
      MarketParticipantPosition_market_participant_state m = MarketParticipantState_from_byte (b ! 25)"
| "reads_as z b (M_MWCBDeclineLevel m) \<longleftrightarrow> length b = 35 \<and> hd b = ascii CHR ''V'' \<and>
      unat (MWCBDeclineLevel_stock_locate z m) = number_at 1 2 b \<and>
      unat (MWCBDeclineLevel_tracking_number z m) = number_at 3 2 b \<and>
      unat (Timestamp_to_u64 (MWCBDeclineLevel_timestamp m)) = number_at 5 6 b \<and>
      unat (Price8_into_u64 (MWCBDeclineLevel_level_1 m)) = number_at 11 8 b \<and>
      unat (Price8_into_u64 (MWCBDeclineLevel_level_2 m)) = number_at 19 8 b \<and>
      unat (Price8_into_u64 (MWCBDeclineLevel_level_3 m)) = number_at 27 8 b"
| "reads_as z b (M_MWCBStatus m) \<longleftrightarrow> length b = 12 \<and> hd b = ascii CHR ''W'' \<and>
      unat (MWCBStatus_stock_locate z m) = number_at 1 2 b \<and>
      unat (MWCBStatus_tracking_number z m) = number_at 3 2 b \<and>
      unat (Timestamp_to_u64 (MWCBStatus_timestamp m)) = number_at 5 6 b \<and>
      MWCBStatus_breached_level m = BreachedLevel_from_byte (b ! 11)"
| "reads_as z b (M_QuotingPeriodUpdate m) \<longleftrightarrow> length b = 28 \<and> hd b = ascii CHR ''K'' \<and>
      unat (QuotingPeriodUpdate_stock_locate z m) = number_at 1 2 b \<and>
      unat (QuotingPeriodUpdate_tracking_number z m) = number_at 3 2 b \<and>
      unat (Timestamp_to_u64 (QuotingPeriodUpdate_timestamp m)) = number_at 5 6 b \<and>
      Symbol_bytes (QuotingPeriodUpdate_stock m) = text_at 11 8 b \<and>
      unat (QuotingPeriodUpdate_ipo_quotation_release_time z m) = number_at 19 4 b \<and>
      QuotingPeriodUpdate_ipo_quotation_release_qualifier m = IpoQuotationReleaseQualifier_from_byte (b ! 23) \<and>
      unat (Price4_into_u32 (QuotingPeriodUpdate_ipo_price m)) = number_at 24 4 b"
| "reads_as z b (M_LULDAuctionCollar m) \<longleftrightarrow> length b = 35 \<and> hd b = ascii CHR ''J'' \<and>
      unat (LULDAuctionCollar_stock_locate z m) = number_at 1 2 b \<and>
      unat (LULDAuctionCollar_tracking_number z m) = number_at 3 2 b \<and>
      unat (Timestamp_to_u64 (LULDAuctionCollar_timestamp m)) = number_at 5 6 b \<and>
      Symbol_bytes (LULDAuctionCollar_stock m) = text_at 11 8 b \<and>
      unat (Price4_into_u32 (LULDAuctionCollar_auction_collar_reference_price m)) = number_at 19 4 b \<and>
      unat (Price4_into_u32 (LULDAuctionCollar_upper_auction_collar_price m)) = number_at 23 4 b \<and>
      unat (Price4_into_u32 (LULDAuctionCollar_lower_auction_collar_price m)) = number_at 27 4 b \<and>
      unat (Price4_into_u32 (LULDAuctionCollar_auction_collar_extension m)) = number_at 31 4 b"
| "reads_as z b (M_OperationalHalt m) \<longleftrightarrow> length b = 21 \<and> hd b = ascii CHR ''h'' \<and>
      unat (OperationalHalt_stock_locate z m) = number_at 1 2 b \<and>
      unat (OperationalHalt_tracking_number z m) = number_at 3 2 b \<and>
      unat (Timestamp_to_u64 (OperationalHalt_timestamp m)) = number_at 5 6 b \<and>
      Symbol_bytes (OperationalHalt_stock m) = text_at 11 8 b \<and>
      OperationalHalt_market_code m = MarketCode_from_byte (b ! 19) \<and>
      OperationalHalt_operational_halt_action m = OperationalHaltAction_from_byte (b ! 20)"
| "reads_as z b (M_AddOrderNoMPIDAttribution m) \<longleftrightarrow> length b = 36 \<and> hd b = ascii CHR ''A'' \<and>
      unat (AddOrderNoMPIDAttribution_stock_locate z m) = number_at 1 2 b \<and>
      unat (AddOrderNoMPIDAttribution_tracking_number z m) = number_at 3 2 b \<and>
      unat (Timestamp_to_u64 (AddOrderNoMPIDAttribution_timestamp m)) = number_at 5 6 b \<and>
      unat (AddOrderNoMPIDAttribution_order_reference_number z m) = number_at 11 8 b \<and>
      AddOrderNoMPIDAttribution_buy_sell_indicator m = BuySellIndicator_from_byte (b ! 19) \<and>
      unat (AddOrderNoMPIDAttribution_shares z m) = number_at 20 4 b \<and>
      Symbol_bytes (AddOrderNoMPIDAttribution_stock m) = text_at 24 8 b \<and>
      unat (Price4_into_u32 (AddOrderNoMPIDAttribution_price m)) = number_at 32 4 b"
| "reads_as z b (M_AddOrderWithMPIDAttribution m) \<longleftrightarrow> length b = 40 \<and> hd b = ascii CHR ''F'' \<and>
      unat (AddOrderWithMPIDAttribution_stock_locate z m) = number_at 1 2 b \<and>
      unat (AddOrderWithMPIDAttribution_tracking_number z m) = number_at 3 2 b \<and>
      unat (Timestamp_to_u64 (AddOrderWithMPIDAttribution_timestamp m)) = number_at 5 6 b \<and>
      unat (AddOrderWithMPIDAttribution_order_reference_number z m) = number_at 11 8 b \<and>
      AddOrderWithMPIDAttribution_buy_sell_indicator m = BuySellIndicator_from_byte (b ! 19) \<and>
      unat (AddOrderWithMPIDAttribution_shares z m) = number_at 20 4 b \<and>
      Symbol_bytes (AddOrderWithMPIDAttribution_stock m) = text_at 24 8 b \<and>
      unat (Price4_into_u32 (AddOrderWithMPIDAttribution_price m)) = number_at 32 4 b \<and>
      AddOrderWithMPIDAttribution_attribution m = text_at 36 4 b"
| "reads_as z b (M_OrderExecuted m) \<longleftrightarrow> length b = 31 \<and> hd b = ascii CHR ''E'' \<and>
      unat (OrderExecuted_stock_locate z m) = number_at 1 2 b \<and>
      unat (OrderExecuted_tracking_number z m) = number_at 3 2 b \<and>
      unat (Timestamp_to_u64 (OrderExecuted_timestamp m)) = number_at 5 6 b \<and>
      unat (OrderExecuted_order_reference_number z m) = number_at 11 8 b \<and>
      unat (OrderExecuted_executed_shares z m) = number_at 19 4 b \<and>
      unat (OrderExecuted_match_number z m) = number_at 23 8 b"
| "reads_as z b (M_OrderExecutedWithPrice m) \<longleftrightarrow> length b = 36 \<and> hd b = ascii CHR ''C'' \<and>
      unat (OrderExecutedWithPrice_stock_locate z m) = number_at 1 2 b \<and>
      unat (OrderExecutedWithPrice_tracking_number z m) = number_at 3 2 b \<and>
      unat (Timestamp_to_u64 (OrderExecutedWithPrice_timestamp m)) = number_at 5 6 b \<and>
      unat (OrderExecutedWithPrice_order_reference_number z m) = number_at 11 8 b \<and>
      unat (OrderExecutedWithPrice_executed_shares z m) = number_at 19 4 b \<and>
      unat (OrderExecutedWithPrice_match_number z m) = number_at 23 8 b \<and>
      OrderExecutedWithPrice_printable m = Printable_from_byte (b ! 31) \<and>
      unat (Price4_into_u32 (OrderExecutedWithPrice_execution_price m)) = number_at 32 4 b"
| "reads_as z b (M_OrderCancel m) \<longleftrightarrow> length b = 23 \<and> hd b = ascii CHR ''X'' \<and>
      unat (OrderCancel_stock_locate z m) = number_at 1 2 b \<and>
      unat (OrderCancel_tracking_number z m) = number_at 3 2 b \<and>
      unat (Timestamp_to_u64 (OrderCancel_timestamp m)) = number_at 5 6 b \<and>
      unat (OrderCancel_order_reference_number z m) = number_at 11 8 b \<and>
      unat (OrderCancel_cancelled_shares z m) = number_at 19 4 b"
| "reads_as z b (M_OrderDelete m) \<longleftrightarrow> length b = 19 \<and> hd b = ascii CHR ''D'' \<and>
      unat (OrderDelete_stock_locate z m) = number_at 1 2 b \<and>
      unat (OrderDelete_tracking_number z m) = number_at 3 2 b \<and>
      unat (Timestamp_to_u64 (OrderDelete_timestamp m)) = number_at 5 6 b \<and>
      unat (OrderDelete_order_reference_number z m) = number_at 11 8 b"
| "reads_as z b (M_OrderReplace m) \<longleftrightarrow> length b = 35 \<and> hd b = ascii CHR ''U'' \<and>
      unat (OrderReplace_stock_locate z m) = number_at 1 2 b \<and>
      unat (OrderReplace_tracking_number z m) = number_at 3 2 b \<and>
      unat (Timestamp_to_u64 (OrderReplace_timestamp m)) = number_at 5 6 b \<and>
      unat (OrderReplace_original_order_reference_number z m) = number_at 11 8 b \<and>
      unat (OrderReplace_new_order_reference_number z m) = number_at 19 8 b \<and>
      unat (OrderReplace_shares z m) = number_at 27 4 b \<and>
      unat (Price4_into_u32 (OrderReplace_price m)) = number_at 31 4 b"
| "reads_as z b (M_Trade m) \<longleftrightarrow> length b = 44 \<and> hd b = ascii CHR ''P'' \<and>
      unat (Trade_stock_locate z m) = number_at 1 2 b \<and>
      unat (Trade_tracking_number z m) = number_at 3 2 b \<and>
      unat (Timestamp_to_u64 (Trade_timestamp m)) = number_at 5 6 b \<and>
      unat (Trade_order_reference_number z m) = number_at 11 8 b \<and>
      Trade_buy_sell_indicator m = BuySellIndicator_from_byte (b ! 19) \<and>
      unat (Trade_shares z m) = number_at 20 4 b \<and>
      Symbol_bytes (Trade_stock m) = text_at 24 8 b \<and>
      unat (Price4_into_u32 (Trade_price m)) = number_at 32 4 b \<and>
      unat (Trade_match_number z m) = number_at 36 8 b"
| "reads_as z b (M_CrossTrade m) \<longleftrightarrow> length b = 40 \<and> hd b = ascii CHR ''Q'' \<and>
      unat (CrossTrade_stock_locate z m) = number_at 1 2 b \<and>
      unat (CrossTrade_tracking_number z m) = number_at 3 2 b \<and>
      unat (Timestamp_to_u64 (CrossTrade_timestamp m)) = number_at 5 6 b \<and>
      unat (CrossTrade_shares z m) = number_at 11 8 b \<and>
      Symbol_bytes (CrossTrade_stock m) = text_at 19 8 b \<and>
      unat (Price4_into_u32 (CrossTrade_cross_price m)) = number_at 27 4 b \<and>
      unat (CrossTrade_match_number z m) = number_at 31 8 b \<and>
      CrossTrade_cross_type m = CrossType_from_byte (b ! 39)"
| "reads_as z b (M_BrokenTrade m) \<longleftrightarrow> length b = 19 \<and> hd b = ascii CHR ''B'' \<and>
      unat (BrokenTrade_stock_locate z m) = number_at 1 2 b \<and>
      unat (BrokenTrade_tracking_number z m) = number_at 3 2 b \<and>
      unat (Timestamp_to_u64 (BrokenTrade_timestamp m)) = number_at 5 6 b \<and>
      unat (BrokenTrade_match_number z m) = number_at 11 8 b"
| "reads_as z b (M_NetOrderImbalanceIndicator m) \<longleftrightarrow> length b = 50 \<and> hd b = ascii CHR ''I'' \<and>
      unat (NetOrderImbalanceIndicator_stock_locate z m) = number_at 1 2 b \<and>
      unat (NetOrderImbalanceIndicator_tracking_number z m) = number_at 3 2 b \<and>
      unat (Timestamp_to_u64 (NetOrderImbalanceIndicator_timestamp m)) = number_at 5 6 b \<and>
      unat (NetOrderImbalanceIndicator_paired_shares z m) = number_at 11 8 b \<and>
      unat (NetOrderImbalanceIndicator_imbalance_shares z m) = number_at 19 8 b \<and>
      NetOrderImbalanceIndicator_imbalance_direction m = ImbalanceDirection_from_byte (b ! 27) \<and>
      Symbol_bytes (NetOrderImbalanceIndicator_stock m) = text_at 28 8 b \<and>
      unat (Price4_into_u32 (NetOrderImbalanceIndicator_far_price m)) = number_at 36 4 b \<and>
      unat (Price4_into_u32 (NetOrderImbalanceIndicator_near_price m)) = number_at 40 4 b \<and>
      unat (Price4_into_u32 (NetOrderImbalanceIndicator_current_reference_price m)) = number_at 44 4 b \<and>
      NetOrderImbalanceIndicator_cross_type m = CrossType_from_byte (b ! 48) \<and>
      NetOrderImbalanceIndicator_price_variation_indicator m = PriceVariationIndicator_from_byte (b ! 49)"
| "reads_as z b (M_RetailPriceImprovementIndicator m) \<longleftrightarrow> length b = 20 \<and> hd b = ascii CHR ''N'' \<and>
      unat (RetailPriceImprovementIndicator_stock_locate z m) = number_at 1 2 b \<and>
      unat (RetailPriceImprovementIndicator_tracking_number z m) = number_at 3 2 b \<and>
      unat (Timestamp_to_u64 (RetailPriceImprovementIndicator_timestamp m)) = number_at 5 6 b \<and>
      Symbol_bytes (RetailPriceImprovementIndicator_stock m) = text_at 11 8 b \<and>
      RetailPriceImprovementIndicator_interest_flag m = InterestFlag_from_byte (b ! 19)"
| "reads_as z b (M_DirectListingwithCapitalRaisePriceDiscovery m) \<longleftrightarrow> length b = 48 \<and> hd b = ascii CHR ''O'' \<and>
      unat (DirectListingwithCapitalRaisePriceDiscovery_stock_locate z m) = number_at 1 2 b \<and>
      unat (DirectListingwithCapitalRaisePriceDiscovery_tracking_number z m) = number_at 3 2 b \<and>
      unat (Timestamp_to_u64 (DirectListingwithCapitalRaisePriceDiscovery_timestamp m)) = number_at 5 6 b \<and>
      Symbol_bytes (DirectListingwithCapitalRaisePriceDiscovery_stock m) = text_at 11 8 b \<and>
      DirectListingwithCapitalRaisePriceDiscovery_open_eligibility_status m = OpenEligibilityStatus_from_byte (b ! 19) \<and>
      unat (Price4_into_u32 (DirectListingwithCapitalRaisePriceDiscovery_minimum_allowable_price m)) = number_at 20 4 b \<and>
      unat (Price4_into_u32 (DirectListingwithCapitalRaisePriceDiscovery_maximum_allowable_price m)) = number_at 24 4 b \<and>
      unat (Price4_into_u32 (DirectListingwithCapitalRaisePriceDiscovery_near_execution_price m)) = number_at 28 4 b \<and>
      unat (DirectListingwithCapitalRaisePriceDiscovery_near_execution_time z m) = number_at 32 8 b \<and>
      unat (Price4_into_u32 (DirectListingwithCapitalRaisePriceDiscovery_lower_price_range_collar m)) = number_at 40 4 b \<and>
      unat (Price4_into_u32 (DirectListingwithCapitalRaisePriceDiscovery_upper_price_range_collar m)) = number_at 44 4 b"

section \<open>The accessors read it\<close>

lemma number_at_read:
  "i + 2 \<le> length b \<Longrightarrow> unat (u16_from_be (bytes_at i 2 b)) = number_at i 2 b"
  "i + 4 \<le> length b \<Longrightarrow> unat (u32_from_be (bytes_at i 4 b)) = number_at i 4 b"
  "i + 8 \<le> length b \<Longrightarrow> unat (u64_from_be (bytes_at i 8 b)) = number_at i 8 b"
  "i + 6 \<le> length b \<Longrightarrow> unat (Timestamp_to_u64 (Timestamp (bytes_at i 6 b))) = number_at i 6 b"
  by (simp_all add: number_at_def unat_from_be Timestamp_bound(1) bytes_at_def)

lemma text_at_read: "text_at i n b = bytes_at i n b"
  by (simp add: text_at_def bytes_at_def)

lemmas reads = number_at_read text_at_read byte_at_def Price4_into_u32_def Price8_into_u64_def zc_get

lemma SystemEvent_reads:
  "zerocopy_ok z \<Longrightarrow> length b = SystemEvent_LEN \<Longrightarrow> hd b = ascii CHR ''S'' \<Longrightarrow> reads_as z b (M_SystemEvent (SystemEvent_view b))"
  by (simp add: reads
      SystemEvent_view_def SystemEvent_LEN_def SystemEvent_stock_locate_def SystemEvent_tracking_number_def
      SystemEvent_timestamp_def SystemEvent_event_code_def)

lemma StockDirectory_reads:
  "zerocopy_ok z \<Longrightarrow> length b = StockDirectory_LEN \<Longrightarrow> hd b = ascii CHR ''R'' \<Longrightarrow> reads_as z b (M_StockDirectory (StockDirectory_view b))"
  by (simp add: reads
      StockDirectory_view_def StockDirectory_LEN_def StockDirectory_stock_locate_def
      StockDirectory_tracking_number_def StockDirectory_timestamp_def StockDirectory_stock_def
      StockDirectory_market_category_def StockDirectory_financial_status_indicator_def
      StockDirectory_round_lot_size_def StockDirectory_round_lots_only_def
      StockDirectory_issue_classification_def StockDirectory_issue_sub_type_def StockDirectory_authenticity_def
      StockDirectory_short_sale_threshold_indicator_def StockDirectory_ipo_flag_def
      StockDirectory_luld_reference_price_tier_def StockDirectory_etp_flag_def
      StockDirectory_etp_leverage_factor_def StockDirectory_inverse_indicator_def)

lemma StockTradingAction_reads:
  "zerocopy_ok z \<Longrightarrow> length b = StockTradingAction_LEN \<Longrightarrow> hd b = ascii CHR ''H'' \<Longrightarrow> reads_as z b (M_StockTradingAction (StockTradingAction_view b))"
  by (simp add: reads trading_action_def TradingState_from_byte_def
      StockTradingAction_view_def StockTradingAction_LEN_def StockTradingAction_stock_locate_def
      StockTradingAction_tracking_number_def StockTradingAction_timestamp_def StockTradingAction_stock_def
      StockTradingAction_trading_state_def StockTradingAction_reserved_def StockTradingAction_reason_def)

lemma RegSHORestriction_reads:
  "zerocopy_ok z \<Longrightarrow> length b = RegSHORestriction_LEN \<Longrightarrow> hd b = ascii CHR ''Y'' \<Longrightarrow> reads_as z b (M_RegSHORestriction (RegSHORestriction_view b))"
  by (simp add: reads
      RegSHORestriction_view_def RegSHORestriction_LEN_def RegSHORestriction_locate_code_def
      RegSHORestriction_tracking_number_def RegSHORestriction_timestamp_def RegSHORestriction_stock_def
      RegSHORestriction_reg_sho_action_def)

lemma MarketParticipantPosition_reads:
  "zerocopy_ok z \<Longrightarrow> length b = MarketParticipantPosition_LEN \<Longrightarrow> hd b = ascii CHR ''L'' \<Longrightarrow> reads_as z b (M_MarketParticipantPosition (MarketParticipantPosition_view b))"
  by (simp add: reads
      MarketParticipantPosition_view_def MarketParticipantPosition_LEN_def
      MarketParticipantPosition_stock_locate_def MarketParticipantPosition_tracking_number_def
      MarketParticipantPosition_timestamp_def MarketParticipantPosition_mpid_def
      MarketParticipantPosition_stock_def MarketParticipantPosition_primary_market_maker_def
      MarketParticipantPosition_market_maker_mode_def MarketParticipantPosition_market_participant_state_def)

lemma MWCBDeclineLevel_reads:
  "zerocopy_ok z \<Longrightarrow> length b = MWCBDeclineLevel_LEN \<Longrightarrow> hd b = ascii CHR ''V'' \<Longrightarrow> reads_as z b (M_MWCBDeclineLevel (MWCBDeclineLevel_view b))"
  by (simp add: reads
      MWCBDeclineLevel_view_def MWCBDeclineLevel_LEN_def MWCBDeclineLevel_stock_locate_def
      MWCBDeclineLevel_tracking_number_def MWCBDeclineLevel_timestamp_def MWCBDeclineLevel_level_1_def
      MWCBDeclineLevel_level_2_def MWCBDeclineLevel_level_3_def)

lemma MWCBStatus_reads:
  "zerocopy_ok z \<Longrightarrow> length b = MWCBStatus_LEN \<Longrightarrow> hd b = ascii CHR ''W'' \<Longrightarrow> reads_as z b (M_MWCBStatus (MWCBStatus_view b))"
  by (simp add: reads
      MWCBStatus_view_def MWCBStatus_LEN_def MWCBStatus_stock_locate_def MWCBStatus_tracking_number_def
      MWCBStatus_timestamp_def MWCBStatus_breached_level_def)

lemma QuotingPeriodUpdate_reads:
  "zerocopy_ok z \<Longrightarrow> length b = QuotingPeriodUpdate_LEN \<Longrightarrow> hd b = ascii CHR ''K'' \<Longrightarrow> reads_as z b (M_QuotingPeriodUpdate (QuotingPeriodUpdate_view b))"
  by (simp add: reads
      QuotingPeriodUpdate_view_def QuotingPeriodUpdate_LEN_def QuotingPeriodUpdate_stock_locate_def
      QuotingPeriodUpdate_tracking_number_def QuotingPeriodUpdate_timestamp_def QuotingPeriodUpdate_stock_def
      QuotingPeriodUpdate_ipo_quotation_release_time_def
      QuotingPeriodUpdate_ipo_quotation_release_qualifier_def QuotingPeriodUpdate_ipo_price_def)

lemma LULDAuctionCollar_reads:
  "zerocopy_ok z \<Longrightarrow> length b = LULDAuctionCollar_LEN \<Longrightarrow> hd b = ascii CHR ''J'' \<Longrightarrow> reads_as z b (M_LULDAuctionCollar (LULDAuctionCollar_view b))"
  by (simp add: reads
      LULDAuctionCollar_view_def LULDAuctionCollar_LEN_def LULDAuctionCollar_stock_locate_def
      LULDAuctionCollar_tracking_number_def LULDAuctionCollar_timestamp_def LULDAuctionCollar_stock_def
      LULDAuctionCollar_auction_collar_reference_price_def LULDAuctionCollar_upper_auction_collar_price_def
      LULDAuctionCollar_lower_auction_collar_price_def LULDAuctionCollar_auction_collar_extension_def)

lemma OperationalHalt_reads:
  "zerocopy_ok z \<Longrightarrow> length b = OperationalHalt_LEN \<Longrightarrow> hd b = ascii CHR ''h'' \<Longrightarrow> reads_as z b (M_OperationalHalt (OperationalHalt_view b))"
  by (simp add: reads
      OperationalHalt_view_def OperationalHalt_LEN_def OperationalHalt_stock_locate_def
      OperationalHalt_tracking_number_def OperationalHalt_timestamp_def OperationalHalt_stock_def
      OperationalHalt_market_code_def OperationalHalt_operational_halt_action_def)

lemma AddOrderNoMPIDAttribution_reads:
  "zerocopy_ok z \<Longrightarrow> length b = AddOrderNoMPIDAttribution_LEN \<Longrightarrow> hd b = ascii CHR ''A'' \<Longrightarrow> reads_as z b (M_AddOrderNoMPIDAttribution (AddOrderNoMPIDAttribution_view b))"
  by (simp add: reads
      AddOrderNoMPIDAttribution_view_def AddOrderNoMPIDAttribution_LEN_def
      AddOrderNoMPIDAttribution_stock_locate_def AddOrderNoMPIDAttribution_tracking_number_def
      AddOrderNoMPIDAttribution_timestamp_def AddOrderNoMPIDAttribution_order_reference_number_def
      AddOrderNoMPIDAttribution_buy_sell_indicator_def AddOrderNoMPIDAttribution_shares_def
      AddOrderNoMPIDAttribution_stock_def AddOrderNoMPIDAttribution_price_def)

lemma AddOrderWithMPIDAttribution_reads:
  "zerocopy_ok z \<Longrightarrow> length b = AddOrderWithMPIDAttribution_LEN \<Longrightarrow> hd b = ascii CHR ''F'' \<Longrightarrow> reads_as z b (M_AddOrderWithMPIDAttribution (AddOrderWithMPIDAttribution_view b))"
  by (simp add: reads
      AddOrderWithMPIDAttribution_view_def AddOrderWithMPIDAttribution_LEN_def
      AddOrderWithMPIDAttribution_stock_locate_def AddOrderWithMPIDAttribution_tracking_number_def
      AddOrderWithMPIDAttribution_timestamp_def AddOrderWithMPIDAttribution_order_reference_number_def
      AddOrderWithMPIDAttribution_buy_sell_indicator_def AddOrderWithMPIDAttribution_shares_def
      AddOrderWithMPIDAttribution_stock_def AddOrderWithMPIDAttribution_price_def
      AddOrderWithMPIDAttribution_attribution_def)

lemma OrderExecuted_reads:
  "zerocopy_ok z \<Longrightarrow> length b = OrderExecuted_LEN \<Longrightarrow> hd b = ascii CHR ''E'' \<Longrightarrow> reads_as z b (M_OrderExecuted (OrderExecuted_view b))"
  by (simp add: reads
      OrderExecuted_view_def OrderExecuted_LEN_def OrderExecuted_stock_locate_def
      OrderExecuted_tracking_number_def OrderExecuted_timestamp_def OrderExecuted_order_reference_number_def
      OrderExecuted_executed_shares_def OrderExecuted_match_number_def)

lemma OrderExecutedWithPrice_reads:
  "zerocopy_ok z \<Longrightarrow> length b = OrderExecutedWithPrice_LEN \<Longrightarrow> hd b = ascii CHR ''C'' \<Longrightarrow> reads_as z b (M_OrderExecutedWithPrice (OrderExecutedWithPrice_view b))"
  by (simp add: reads
      OrderExecutedWithPrice_view_def OrderExecutedWithPrice_LEN_def OrderExecutedWithPrice_stock_locate_def
      OrderExecutedWithPrice_tracking_number_def OrderExecutedWithPrice_timestamp_def
      OrderExecutedWithPrice_order_reference_number_def OrderExecutedWithPrice_executed_shares_def
      OrderExecutedWithPrice_match_number_def OrderExecutedWithPrice_printable_def
      OrderExecutedWithPrice_execution_price_def)

lemma OrderCancel_reads:
  "zerocopy_ok z \<Longrightarrow> length b = OrderCancel_LEN \<Longrightarrow> hd b = ascii CHR ''X'' \<Longrightarrow> reads_as z b (M_OrderCancel (OrderCancel_view b))"
  by (simp add: reads
      OrderCancel_view_def OrderCancel_LEN_def OrderCancel_stock_locate_def OrderCancel_tracking_number_def
      OrderCancel_timestamp_def OrderCancel_order_reference_number_def OrderCancel_cancelled_shares_def)

lemma OrderDelete_reads:
  "zerocopy_ok z \<Longrightarrow> length b = OrderDelete_LEN \<Longrightarrow> hd b = ascii CHR ''D'' \<Longrightarrow> reads_as z b (M_OrderDelete (OrderDelete_view b))"
  by (simp add: reads
      OrderDelete_view_def OrderDelete_LEN_def OrderDelete_stock_locate_def OrderDelete_tracking_number_def
      OrderDelete_timestamp_def OrderDelete_order_reference_number_def)

lemma OrderReplace_reads:
  "zerocopy_ok z \<Longrightarrow> length b = OrderReplace_LEN \<Longrightarrow> hd b = ascii CHR ''U'' \<Longrightarrow> reads_as z b (M_OrderReplace (OrderReplace_view b))"
  by (simp add: reads
      OrderReplace_view_def OrderReplace_LEN_def OrderReplace_stock_locate_def OrderReplace_tracking_number_def
      OrderReplace_timestamp_def OrderReplace_original_order_reference_number_def
      OrderReplace_new_order_reference_number_def OrderReplace_shares_def OrderReplace_price_def)

lemma Trade_reads:
  "zerocopy_ok z \<Longrightarrow> length b = Trade_LEN \<Longrightarrow> hd b = ascii CHR ''P'' \<Longrightarrow> reads_as z b (M_Trade (Trade_view b))"
  by (simp add: reads
      Trade_view_def Trade_LEN_def Trade_stock_locate_def Trade_tracking_number_def Trade_timestamp_def
      Trade_order_reference_number_def Trade_buy_sell_indicator_def Trade_shares_def Trade_stock_def
      Trade_price_def Trade_match_number_def)

lemma CrossTrade_reads:
  "zerocopy_ok z \<Longrightarrow> length b = CrossTrade_LEN \<Longrightarrow> hd b = ascii CHR ''Q'' \<Longrightarrow> reads_as z b (M_CrossTrade (CrossTrade_view b))"
  by (simp add: reads
      CrossTrade_view_def CrossTrade_LEN_def CrossTrade_stock_locate_def CrossTrade_tracking_number_def
      CrossTrade_timestamp_def CrossTrade_shares_def CrossTrade_stock_def CrossTrade_cross_price_def
      CrossTrade_match_number_def CrossTrade_cross_type_def)

lemma BrokenTrade_reads:
  "zerocopy_ok z \<Longrightarrow> length b = BrokenTrade_LEN \<Longrightarrow> hd b = ascii CHR ''B'' \<Longrightarrow> reads_as z b (M_BrokenTrade (BrokenTrade_view b))"
  by (simp add: reads
      BrokenTrade_view_def BrokenTrade_LEN_def BrokenTrade_stock_locate_def BrokenTrade_tracking_number_def
      BrokenTrade_timestamp_def BrokenTrade_match_number_def)

lemma NetOrderImbalanceIndicator_reads:
  "zerocopy_ok z \<Longrightarrow> length b = NetOrderImbalanceIndicator_LEN \<Longrightarrow> hd b = ascii CHR ''I'' \<Longrightarrow> reads_as z b (M_NetOrderImbalanceIndicator (NetOrderImbalanceIndicator_view b))"
  by (simp add: reads
      NetOrderImbalanceIndicator_view_def NetOrderImbalanceIndicator_LEN_def
      NetOrderImbalanceIndicator_stock_locate_def NetOrderImbalanceIndicator_tracking_number_def
      NetOrderImbalanceIndicator_timestamp_def NetOrderImbalanceIndicator_paired_shares_def
      NetOrderImbalanceIndicator_imbalance_shares_def NetOrderImbalanceIndicator_imbalance_direction_def
      NetOrderImbalanceIndicator_stock_def NetOrderImbalanceIndicator_far_price_def
      NetOrderImbalanceIndicator_near_price_def NetOrderImbalanceIndicator_current_reference_price_def
      NetOrderImbalanceIndicator_cross_type_def NetOrderImbalanceIndicator_price_variation_indicator_def)

lemma RetailPriceImprovementIndicator_reads:
  "zerocopy_ok z \<Longrightarrow> length b = RetailPriceImprovementIndicator_LEN \<Longrightarrow> hd b = ascii CHR ''N'' \<Longrightarrow> reads_as z b (M_RetailPriceImprovementIndicator (RetailPriceImprovementIndicator_view b))"
  by (simp add: reads
      RetailPriceImprovementIndicator_view_def RetailPriceImprovementIndicator_LEN_def
      RetailPriceImprovementIndicator_stock_locate_def RetailPriceImprovementIndicator_tracking_number_def
      RetailPriceImprovementIndicator_timestamp_def RetailPriceImprovementIndicator_stock_def
      RetailPriceImprovementIndicator_interest_flag_def)

lemma DirectListingwithCapitalRaisePriceDiscovery_reads:
  "zerocopy_ok z \<Longrightarrow> length b = DirectListingwithCapitalRaisePriceDiscovery_LEN \<Longrightarrow> hd b = ascii CHR ''O'' \<Longrightarrow> reads_as z b (M_DirectListingwithCapitalRaisePriceDiscovery (DirectListingwithCapitalRaisePriceDiscovery_view b))"
  by (simp add: reads
      DirectListingwithCapitalRaisePriceDiscovery_view_def DirectListingwithCapitalRaisePriceDiscovery_LEN_def
      DirectListingwithCapitalRaisePriceDiscovery_stock_locate_def
      DirectListingwithCapitalRaisePriceDiscovery_tracking_number_def
      DirectListingwithCapitalRaisePriceDiscovery_timestamp_def
      DirectListingwithCapitalRaisePriceDiscovery_stock_def
      DirectListingwithCapitalRaisePriceDiscovery_open_eligibility_status_def
      DirectListingwithCapitalRaisePriceDiscovery_minimum_allowable_price_def
      DirectListingwithCapitalRaisePriceDiscovery_maximum_allowable_price_def
      DirectListingwithCapitalRaisePriceDiscovery_near_execution_price_def
      DirectListingwithCapitalRaisePriceDiscovery_near_execution_time_def
      DirectListingwithCapitalRaisePriceDiscovery_lower_price_range_collar_def
      DirectListingwithCapitalRaisePriceDiscovery_upper_price_range_collar_def)

lemmas all_reads =
  SystemEvent_reads
  StockDirectory_reads
  StockTradingAction_reads
  RegSHORestriction_reads
  MarketParticipantPosition_reads
  MWCBDeclineLevel_reads
  MWCBStatus_reads
  QuotingPeriodUpdate_reads
  LULDAuctionCollar_reads
  OperationalHalt_reads
  AddOrderNoMPIDAttribution_reads
  AddOrderWithMPIDAttribution_reads
  OrderExecuted_reads
  OrderExecutedWithPrice_reads
  OrderCancel_reads
  OrderDelete_reads
  OrderReplace_reads
  Trade_reads
  CrossTrade_reads
  BrokenTrade_reads
  NetOrderImbalanceIndicator_reads
  RetailPriceImprovementIndicator_reads
  DirectListingwithCapitalRaisePriceDiscovery_reads

lemma decoded_reads:
  assumes z: "zerocopy_ok z" and d: "decode_body body = Some m"
  shows "reads_as z body m"
proof -
  obtain t r where b: "body = t # r" "known_tag t" using decode_body_known [OF d] by blast
  from b(2) d show ?thesis
    unfolding b(1)
    by (cases rule: known_tagE)
      (simp_all only: decode_body_tag split: if_splits, auto intro!: all_reads [OF z] simp del: reads_as.simps length_Cons)
qed

end
