(* ===== verification/Itch_Claims.thy ===== *)
theory Itch_Claims
  imports Itch_Offsets
begin

text \<open>The properties of the ITCH crate.\<close>

section \<open>Framing\<close>

text \<open>
  C35: \<open>parse_one\<close> returns a body and a rest exactly when the buffer is the framed body
  followed by the rest: a big-endian 16-bit length, then a body of that length that starts
  with the tag of one of the 23 message types. Nothing else is accepted and no byte is lost.
\<close>

theorem parse_one_exact:
  "parse_one buf = Inr (body, rest) \<longleftrightarrow>
     buf = frame body @ rest \<and> length body < 2 ^ 16 \<and> body \<noteq> [] \<and> known_tag (hd body)"
proof (cases body)
  case Nil
  with parse_one_sound show ?thesis by auto
next
  case (Cons t r)
  with parse_one_sound [of buf body rest] parse_one_frame [of t r rest] show ?thesis by auto
qed

text \<open>
  The errors of \<open>parse_one\<close> say what is wrong. \<open>EmptyBuffer\<close> exactly when the length
  prefix is not there, \<open>MalformedData\<close> exactly when the announced length is zero or more
  than the buffer holds, \<open>UnknownMessageType t\<close> exactly when a whole frame starts with \<open>t\<close>
  and \<open>t\<close> is no tag.
\<close>

theorem parse_one_errors: "parse_one buf = Inl e \<longleftrightarrow> framing_error buf e"
  using parse_one_framing_error framing_error_parse_one by blast

section \<open>The stream\<close>

definition sample_delete :: bytes where
  "sample_delete = ascii_bytes ''D'' @ u16_to_be 7 @ u16_to_be 0 @ [0, 0, 0, 0, 0, 9] @ u64_to_be 42"

lemma sample_delete_decodes:
  "decode_body sample_delete = Some (M_OrderDelete (OrderDelete_view sample_delete))"
proof -
  have "sample_delete = ascii CHR ''D'' # tl sample_delete"
    by (simp add: sample_delete_def ascii_bytes_def)
  moreover have "length sample_delete = OrderDelete_LEN"
    by (simp add: sample_delete_def OrderDelete_LEN_def)
  ultimately show ?thesis by (metis decode_body_tag(16))
qed

text \<open>
  C7: on frames of well-formed messages the parser calls the visitor once per message, in
  order, on the decoded message, until the visitor breaks; after a break the rest of the
  stream is left untouched in the parser, and without one the parser goes on with what
  follows the frames.
\<close>

theorem parse_stream_delivers:
  assumes "zerocopy_ok z" and "list_all2 (\<lambda>b m. decode_body b = Some m) bodies ms"
  shows "parse_stream z h (frames bodies @ tail) s =
    (case visit h ms s of
       (s', left, Break) \<Rightarrow> Some (s', frames (drop (length ms - length left) bodies) @ tail, Inr ())
     | (s', left, Continue) \<Rightarrow> parse_stream z h tail s')"
  by (rule parse_stream_frames [OF assms])

theorem parse_stream_delivers_witness:
  "parse_stream zerocopy_std
     (default_handler\<lparr>on_order_delete := (\<lambda>m n. (n + 1, Break))\<rparr>)
     (frames [sample_delete, sample_delete]) (0 :: nat) =
   Some (1, frame sample_delete, Inr ())"
proof -
  let ?h = "(default_handler :: nat MessageHandler)\<lparr>on_order_delete := (\<lambda>m n. (n + 1, Break))\<rparr>"
  let ?m = "M_OrderDelete (OrderDelete_view sample_delete)"
  have "list_all2 (\<lambda>b m. decode_body b = Some m) [sample_delete, sample_delete] [?m, ?m]"
    by (simp add: sample_delete_decodes)
  from parse_stream_delivers [OF zerocopy_std_ok this, of ?h "[]" 0] show ?thesis by simp
qed

text \<open>
  C24: the parser never panics and always stops. What it has consumed is a sequence of whole
  frames with known tags, and when it reports no error every one of them was a well-formed
  message.
\<close>

theorem parse_stream_total:
  assumes "zerocopy_ok z"
  shows "\<exists>s' rest r bodies. parse_stream z h buf s = Some (s', rest, r) \<and> buf = frames bodies @ rest \<and>
    (\<forall>b \<in> set bodies. b \<noteq> [] \<and> known_tag (hd b)) \<and> (r = Inr () \<longrightarrow> (\<forall>b \<in> set bodies. decode_body b \<noteq> None))"
  by (rule parse_stream_progress [OF assms])

theorem parse_stream_total_witness:
  "\<exists>s' rest r. parse_stream zerocopy_std default_handler [0, 5, 68] (0 :: nat) = Some (s', rest, r)"
  using parse_stream_total [OF zerocopy_std_ok, of default_handler "[0, 5, 68]" "0 :: nat"] by blast

text \<open>The example program: a visitor that counts the trades of a stream.\<close>

definition count_trades :: "u64 MessageHandler" where
  "count_trades = default_handler\<lparr>on_trade := (\<lambda>_ n. (n + 1, Continue))\<rparr>"

fun is_trade :: "itch_message \<Rightarrow> bool" where
  "is_trade (M_Trade m) = True"
| "is_trade _ = False"

lemma handle_count_trades:
  "handle count_trades m n = (if is_trade m then n + 1 else n, Continue)"
  by (cases m) (simp_all add: count_trades_def default_handler_def)

lemma visit_count_trades:
  "visit count_trades ms n = (n + of_nat (length (filter is_trade ms)), [], Continue)"
  by (induction ms arbitrary: n) (simp_all add: handle_count_trades)

text \<open>
  The example \<open>parse_file\<close> counts the trade messages of a file: on frames of
  well-formed messages it ends without error with their number.
\<close>

theorem parse_file_counts_trades:
  assumes "zerocopy_ok z" and "list_all2 (\<lambda>b m. decode_body b = Some m) bodies ms"
  shows "parse_stream z count_trades (frames bodies) 0 =
    Some (of_nat (length (filter is_trade ms)), [], Inr ())"
  using parse_stream_frames [OF assms, of count_trades "[]" 0]
  by (simp add: visit_count_trades parse_stream.simps)

theorem parse_file_counts_trades_witness:
  "parse_stream zerocopy_std count_trades (frames [sample_delete]) 0 = Some (0, [], Inr ())"
proof -
  have "list_all2 (\<lambda>b m. decode_body b = Some m) [sample_delete]
      [M_OrderDelete (OrderDelete_view sample_delete)]"
    by (simp add: sample_delete_decodes)
  from parse_file_counts_trades [OF zerocopy_std_ok this] show ?thesis by simp
qed

section \<open>Messages\<close>

text \<open>
  Every body of a known type has exactly the length the protocol fixes for its tag; any
  other length, and any other tag, is refused.
\<close>

theorem decode_body_lengths:
  "decode_body (t # r) \<noteq> None \<longleftrightarrow> map_of wire_lengths t = Some (length (t # r))"
  by (rule decode_body_length)

text \<open>
  C25: a body is decoded as the protocol lays it out, and nothing of it is lost. For each of the 23
  message types the body has the length and the tag of the type, every accessor of the decoded message
  reads the number, text or code at the offset and width the ITCH specification gives for its field, and
  the fields in the order of the struct are the bytes of the body.
\<close>

theorem decode_lossless:
  assumes "zerocopy_ok z" and "decode_body body = Some m"
  shows "reads_as z body m \<and> encode_message m = body"
  using decoded_reads [OF assms] decode_encode_message [OF assms(2)] by blast

definition sample_replace :: bytes where
  "sample_replace = ascii_bytes ''U'' @ u16_to_be 7 @ u16_to_be 0 @ [0, 0, 0, 0, 0, 9] @ u64_to_be 42 @ u64_to_be 43 @
     u32_to_be 300 @ u32_to_be 1500000"

theorem decode_lossless_witness:
  "\<exists>m. decode_body sample_replace = Some (M_OrderReplace m) \<and>
     unat (OrderReplace_original_order_reference_number zerocopy_std m) = 42 \<and>
     unat (OrderReplace_new_order_reference_number zerocopy_std m) = 43 \<and>
     unat (OrderReplace_shares zerocopy_std m) = 300 \<and> unat (Price4_into_u32 (OrderReplace_price m)) = 1500000 \<and>
     encode_message (M_OrderReplace m) = sample_replace"
proof -
  let ?m = "OrderReplace_view sample_replace"
  have "sample_replace = ascii CHR ''U'' # tl sample_replace" by (simp add: sample_replace_def ascii_bytes_def)
  moreover have "length sample_replace = OrderReplace_LEN" by (simp add: sample_replace_def OrderReplace_LEN_def ascii_bytes_def)
  ultimately have d: "decode_body sample_replace = Some (M_OrderReplace ?m)" by (metis decode_body_tag(17))
  have "number_at 11 8 sample_replace = 42 \<and> number_at 19 8 sample_replace = 43 \<and> number_at 27 4 sample_replace = 300 \<and>
      number_at 31 4 sample_replace = 1500000"
    by (simp add: number_at_def sample_replace_def ascii_bytes_def flip: unat_from_be)
  with decode_lossless [OF zerocopy_std_ok d] d show ?thesis by simp
qed

text \<open>The order messages, written out with their fields in network byte order.\<close>

definition add_order_wire ::
  "u8 \<Rightarrow> u16 \<Rightarrow> u16 \<Rightarrow> bytes \<Rightarrow> u64 \<Rightarrow> u8 \<Rightarrow> u32 \<Rightarrow> bytes \<Rightarrow> u32 \<Rightarrow> bytes" where
  "add_order_wire tag loc trk ts ref side shares stk px =
     [tag] @ u16_to_be loc @ u16_to_be trk @ ts @ u64_to_be ref @ [side] @ u32_to_be shares @ stk @
     u32_to_be px"

definition replace_wire :: "u16 \<Rightarrow> u16 \<Rightarrow> bytes \<Rightarrow> u64 \<Rightarrow> u64 \<Rightarrow> u32 \<Rightarrow> u32 \<Rightarrow> bytes" where
  "replace_wire loc trk ts old new shares px =
     [ascii CHR ''U''] @ u16_to_be loc @ u16_to_be trk @ ts @ u64_to_be old @ u64_to_be new @
     u32_to_be shares @ u32_to_be px"

definition execution_wire :: "u8 \<Rightarrow> u16 \<Rightarrow> u16 \<Rightarrow> bytes \<Rightarrow> u64 \<Rightarrow> u32 \<Rightarrow> u64 \<Rightarrow> bytes \<Rightarrow> bytes" where
  "execution_wire tag loc trk ts ref shares mtch tail =
     [tag] @ u16_to_be loc @ u16_to_be trk @ ts @ u64_to_be ref @ u32_to_be shares @ u64_to_be mtch @ tail"

lemmas field_simps' = byte_at_def bytes_at_def nth_append

text \<open>
  The accessors of the messages that drive the book read the numbers the wire carries,
  in network byte order, at their offsets: order reference, side, shares, price, locate and
  time of an add, of an execution with and without price, and of a replace.
\<close>

theorem order_fields_decode:
  assumes "zerocopy_ok z" and "length ts = 6" and "length stk = 8"
  shows "let a = AddOrderNoMPIDAttribution_view (add_order_wire tag loc trk ts ref side shares stk px);
        u = OrderReplace_view (replace_wire loc trk ts ref new shares px);
        c = OrderExecutedWithPrice_view (execution_wire tag loc trk ts ref shares mtch (side # u32_to_be px))
    in AddOrderNoMPIDAttribution_stock_locate z a = loc \<and>
       AddOrderNoMPIDAttribution_order_reference_number z a = ref \<and>
       AddOrderNoMPIDAttribution_buy_sell_indicator a = BuySellIndicator_from_byte side \<and>
       AddOrderNoMPIDAttribution_shares z a = shares \<and>
       AddOrderNoMPIDAttribution_stock a = Symbol stk \<and>
       AddOrderNoMPIDAttribution_timestamp a = Timestamp ts \<and>
       Price4_into_u32 (AddOrderNoMPIDAttribution_price a) = px \<and>
       OrderReplace_stock_locate z u = loc \<and>
       OrderReplace_original_order_reference_number z u = ref \<and>
       OrderReplace_new_order_reference_number z u = new \<and>
       OrderReplace_shares z u = shares \<and> Price4_into_u32 (OrderReplace_price u) = px \<and>
       OrderExecutedWithPrice_order_reference_number z c = ref \<and>
       OrderExecutedWithPrice_executed_shares z c = shares \<and>
       OrderExecutedWithPrice_match_number z c = mtch \<and>
       Price4_into_u32 (OrderExecutedWithPrice_execution_price c) = px"
  using assms
  by (simp add: Let_def zc_get [OF assms(1)] add_order_wire_def replace_wire_def execution_wire_def
      field_simps' Price4_into_u32_def
      AddOrderNoMPIDAttribution_view_def AddOrderNoMPIDAttribution_stock_locate_def
      AddOrderNoMPIDAttribution_order_reference_number_def AddOrderNoMPIDAttribution_buy_sell_indicator_def
      AddOrderNoMPIDAttribution_shares_def AddOrderNoMPIDAttribution_stock_def
      AddOrderNoMPIDAttribution_timestamp_def AddOrderNoMPIDAttribution_price_def
      OrderReplace_view_def OrderReplace_stock_locate_def OrderReplace_original_order_reference_number_def
      OrderReplace_new_order_reference_number_def OrderReplace_shares_def OrderReplace_price_def
      OrderExecutedWithPrice_view_def OrderExecutedWithPrice_order_reference_number_def
      OrderExecutedWithPrice_executed_shares_def OrderExecutedWithPrice_match_number_def
      OrderExecutedWithPrice_execution_price_def)

theorem order_fields_decode_witness:
  "AddOrderNoMPIDAttribution_shares zerocopy_std (AddOrderNoMPIDAttribution_view
     (add_order_wire 65 7 0 [0, 0, 0, 0, 0, 1] 42 66 300 (ascii_bytes ''AAPL    '') 1000000)) = 300"
  using order_fields_decode [OF zerocopy_std_ok, of "[0, 0, 0, 0, 0, 1]" "ascii_bytes ''AAPL    ''"
      65 7 0 42 66 300 1000000 0 0]
  by (simp add: Let_def)

section \<open>Field types\<close>

text \<open>
  C26: the enumerations are decoded as declared, and without loss. In the 27 enumerations with
  explicit discriminants \<open>from_byte\<close> gives a variant for exactly the discriminant declared
  for it, and \<open>Unknown\<close> with the byte kept for every other byte. The same holds of the two reason
  enumerations and the codes their comments give. \<open>IssueSubTypeCode\<close> declares no codes:
  its decoder maps different codes to different variants, yields every variant, and
  \<open>Unknown\<close> only with the code it was given.
\<close>

theorem enums_lossless:
  "decodes_as SystemEventCode_from_byte SystemEventCode_discriminant SystemEventCode_Unknown \<and>
   decodes_as MarketCategory_from_byte MarketCategory_discriminant MarketCategory_Unknown \<and>
   decodes_as FinancialStatusIndicator_from_byte FinancialStatusIndicator_discriminant FinancialStatusIndicator_Unknown \<and>
   decodes_as RoundLotsOnly_from_byte RoundLotsOnly_discriminant RoundLotsOnly_Unknown \<and>
   decodes_as Authenticity_from_byte Authenticity_discriminant Authenticity_Unknown \<and>
   decodes_as ShortSaleThresholdIndicator_from_byte ShortSaleThresholdIndicator_discriminant ShortSaleThresholdIndicator_Unknown \<and>
   decodes_as IpoFlag_from_byte IpoFlag_discriminant IpoFlag_Unknown \<and>
   decodes_as LuldReferencePriceTier_from_byte LuldReferencePriceTier_discriminant LuldReferencePriceTier_Unknown \<and>
   decodes_as EtpFlag_from_byte EtpFlag_discriminant EtpFlag_Unknown \<and>
   decodes_as InverseIndicator_from_byte InverseIndicator_discriminant InverseIndicator_Unknown \<and>
   decodes_as TradingState_from_byte TradingState_discriminant TradingState_Unknown \<and>
   decodes_as RegShoAction_from_byte RegShoAction_discriminant RegShoAction_Unknown \<and>
   decodes_as PrimaryMarketMaker_from_byte PrimaryMarketMaker_discriminant PrimaryMarketMaker_Unknown \<and>
   decodes_as MarketMakerMode_from_byte MarketMakerMode_discriminant MarketMakerMode_Unknown \<and>
   decodes_as MarketParticipantState_from_byte MarketParticipantState_discriminant MarketParticipantState_Unknown \<and>
   decodes_as BreachedLevel_from_byte BreachedLevel_discriminant BreachedLevel_Unknown \<and>
   decodes_as IpoQuotationReleaseQualifier_from_byte IpoQuotationReleaseQualifier_discriminant IpoQuotationReleaseQualifier_Unknown \<and>
   decodes_as MarketCode_from_byte MarketCode_discriminant MarketCode_Unknown \<and>
   decodes_as OperationalHaltAction_from_byte OperationalHaltAction_discriminant OperationalHaltAction_Unknown \<and>
   decodes_as BuySellIndicator_from_byte BuySellIndicator_discriminant BuySellIndicator_Unknown \<and>
   decodes_as Printable_from_byte Printable_discriminant Printable_Unknown \<and>
   decodes_as ImbalanceDirection_from_byte ImbalanceDirection_discriminant ImbalanceDirection_Unknown \<and>
   decodes_as CrossType_from_byte CrossType_discriminant CrossType_Unknown \<and>
   decodes_as PriceVariationIndicator_from_byte PriceVariationIndicator_discriminant PriceVariationIndicator_Unknown \<and>
   decodes_as InterestFlag_from_byte InterestFlag_discriminant InterestFlag_Unknown \<and>
   decodes_as OpenEligibilityStatus_from_byte OpenEligibilityStatus_discriminant OpenEligibilityStatus_Unknown \<and>
   decodes_as TradingHaltReason_from_bytes TradingHaltReason_code TradingHaltReason_Unknown \<and>
   decodes_as TradingResumptionReason_from_bytes TradingResumptionReason_code TradingResumptionReason_Unknown \<and>
   decodes_as IssueClassificationCode_from_byte IssueClassificationCode_discriminant IssueClassificationCode_Unknown \<and>
   inj IssueSubTypeCode_from_bytes \<and> range IssueSubTypeCode_from_bytes \<union> range IssueSubTypeCode_Unknown = UNIV \<and>
   {w. \<exists>u. IssueSubTypeCode_from_bytes w = IssueSubTypeCode_Unknown u \<and> w \<noteq> u} = {}"
proof -
  have "inj IssueSubTypeCode_from_bytes" using issue_sub_type_inject by (rule injI)
  moreover have "range IssueSubTypeCode_from_bytes \<union> range IssueSubTypeCode_Unknown = UNIV"
    using issue_sub_type_decoded by (auto intro: rangeI)
  moreover have "{w. \<exists>u. IssueSubTypeCode_from_bytes w = IssueSubTypeCode_Unknown u \<and> w \<noteq> u} = {}"
    using issue_sub_type_unknown by blast
  ultimately show ?thesis
    by (intro conjI) (assumption | rule system_event_code.decodes market_category.decodes financial_status_indicator.decodes
      round_lots_only.decodes authenticity.decodes short_sale_threshold_indicator.decodes ipo_flag.decodes
      luld_reference_price_tier.decodes etp_flag.decodes inverse_indicator.decodes trading_state.decodes
      reg_sho_action.decodes primary_market_maker.decodes market_maker_mode.decodes
      market_participant_state.decodes breached_level.decodes ipo_quotation_release_qualifier.decodes
      market_code.decodes operational_halt_action.decodes buy_sell_indicator.decodes printable.decodes
      imbalance_direction.decodes cross_type.decodes price_variation_indicator.decodes interest_flag.decodes
      open_eligibility_status.decodes trading_halt_reason.decodes trading_resumption_reason.decodes
      issue_classification_code.decodes)+
qed

text \<open>
  A trading action prints the code it was decoded from: the text of a known halt or
  resumption reason begins with the four bytes of the wire.
\<close>

theorem reasons_print_code:
  "(TradingHaltReason_from_bytes bs = TradingHaltReason_Unknown bs \<or>
    ascii_bytes (take 4 (TradingHaltReason_fmt debug (TradingHaltReason_from_bytes bs))) = bs) \<and>
   (TradingResumptionReason_from_bytes bs = TradingResumptionReason_Unknown bs \<or>
    ascii_bytes (take 4 (TradingResumptionReason_fmt debug (TradingResumptionReason_from_bytes bs))) = bs)"
  using halt_fmt_code [of "TradingHaltReason_from_bytes bs" bs debug]
    resumption_fmt_code [of "TradingResumptionReason_from_bytes bs" bs debug]
    trading_halt_reason.decode_total [of bs] trading_resumption_reason.decode_total [of bs]
  by blast

text \<open>
  A symbol typed by the user meets the symbol of the feed. For ASCII input \<open>from_str\<close>
  gives the eight wire bytes of its upper-case form, cut at eight characters and padded with
  spaces, so its hash is that of the wire symbol, and the hash determines the symbol.
\<close>

theorem symbol_from_str_matches_wire:
  assumes "uppercase_ok up" and "ascii_text s" and "s \<noteq> []"
  shows "\<exists>y. Symbol_from_str up s = Inr y \<and> y = wire_symbol (take 8 (map ascii_upper s)) \<and>
    length (Symbol_bytes y) = 8 \<and> Symbol_from_u64 (Symbol_to_u64 y) = y"
proof -
  have "length (Symbol_bytes (wire_symbol (take 8 (map ascii_upper s)))) = 8"
    by (simp add: wire_symbol_def)
  then show ?thesis
    by (simp add: Symbol_from_str_ascii [OF assms] Symbol_from_u64_def Symbol_to_u64_def)
qed

theorem symbol_from_str_matches_wire_witness:
  "\<exists>y. Symbol_from_str (map ascii_upper) ''aapl'' = Inr y \<and> y = wire_symbol ''AAPL''"
proof -
  have "uppercase_ok (map ascii_upper)" by (simp add: uppercase_ok_def)
  moreover have "ascii_text ''aapl''" by (simp add: ascii_text_def)
  moreover have "take 8 (map ascii_upper ''aapl'') = ''AAPL''" by code_simp
  ultimately show ?thesis
    using symbol_from_str_matches_wire [of "map ascii_upper" "''aapl''"] by simp
qed

text \<open>
  A timestamp is its 48-bit big-endian value; its seconds and nanoseconds recombine to
  it, the nanoseconds stay below a second, and the conversion to a duration never panics.
\<close>

theorem timestamp_split:
  assumes "length (Timestamp_bytes t) = 6"
  shows "unat (Timestamp_to_u64 t) = be_nat (Timestamp_bytes t) \<and> unat (Timestamp_to_u64 t) < 2 ^ 48 \<and>
    Timestamp_to_dur t = Some (Timestamp_to_secs_and_nanos t) \<and>
    unat (fst (Timestamp_to_secs_and_nanos t)) * 1000000000 + unat (snd (Timestamp_to_secs_and_nanos t)) =
      unat (Timestamp_to_u64 t) \<and>
    unat (snd (Timestamp_to_secs_and_nanos t)) < 1000000000"
proof -
  let ?n = "Timestamp_to_u64 t"
  have div: "unat (?n div 1000000000) = unat ?n div 1000000000" by (simp add: unat_div_distrib)
  have mod: "unat (ucast (?n mod 1000000000) :: u32) = unat ?n mod 1000000000"
    by (rule unat_ucast_mod)
  have nanos: "(ucast (?n mod 1000000000) :: u32) div 1000000000 = 0"
    "(ucast (?n mod 1000000000) :: u32) mod 1000000000 = ucast (?n mod 1000000000)"
    by (simp_all add: word_unat_eq_iff unat_div_distrib unat_mod_distrib mod)
  have lt: "unat (?n div 1000000000) < 2 ^ 64" using unsigned_less [of "?n div 1000000000", where ?'a = nat] by simp
  then have "Timestamp_to_dur t = Some (Timestamp_to_secs_and_nanos t)"
    by (simp add: Timestamp_to_dur_def Timestamp_to_secs_and_nanos_def duration_new_def Let_def nanos)
  then show ?thesis
    using Timestamp_bound [OF assms]
    by (simp add: Timestamp_to_secs_and_nanos_def Let_def div mod)
qed

theorem timestamp_split_witness:
  "unat (snd (Timestamp_to_secs_and_nanos (Timestamp [0, 0, 119, 53, 148, 5]))) < 1000000000"
  using timestamp_split [of "Timestamp [0, 0, 119, 53, 148, 5]"] by simp

end
