(* ===== verification/Registry.thy ===== *)
theory Registry
  imports Order_Book Itch_Types
begin

text \<open>
  The symbol registries of \<open>orderbook/src/registry\<close>: a book and a symbol per stock locate,
  kept in hash maps (\<open>hashmap.rs\<close>) or in vectors indexed by the locate (\<open>vec.rs\<close>).  The
  locale \<open>registry\<close> is what the trait \<open>Registry\<close> promises its users, with the partial
  function from locates to symbols and books as its abstract value; both implementations
  interpret it.  \<open>get_mut\<close> is split into the lookup and the write through the reference.
\<close>

section \<open>The interface\<close>

locale registry =
  fixes valid :: "'r \<Rightarrow> bool"
    and view :: "'r \<Rightarrow> u16 \<rightharpoonup> Symbol \<times> book"
    and new :: "'r"
    and fits :: "'r \<Rightarrow> u16 \<Rightarrow> bool"
    and get_symbol :: "'r \<Rightarrow> u16 \<Rightarrow> Symbol option"
    and get :: "'r \<Rightarrow> u16 \<Rightarrow> book option"
    and set_book :: "'r \<Rightarrow> u16 \<Rightarrow> book \<Rightarrow> 'r"
    and register :: "'r \<Rightarrow> u16 \<Rightarrow> Symbol \<Rightarrow> 'r run"
    and iter :: "'r \<Rightarrow> (u16 \<times> Symbol \<times> book) list run"
  assumes valid_new: "valid new"
    and view_new: "view new = Map.empty"
    and get_view: "valid r \<Longrightarrow> get r l = map_option snd (view r l)"
    and get_symbol_view: "valid r \<Longrightarrow> get_symbol r l = map_option fst (view r l)"
    and set_book_ok: "valid r \<Longrightarrow> view r l = Some (s, b) \<Longrightarrow>
      valid (set_book r l b') \<and> view (set_book r l b') = (view r)(l \<mapsto> (s, b'))"
    and fits_set_book: "valid r \<Longrightarrow> view r l = Some e \<Longrightarrow> fits (set_book r l b) = fits r"
    and register_ok: "valid r \<Longrightarrow> fits r l \<Longrightarrow>
      \<exists>r'. register r l s = Some r' \<and> valid r' \<and> view r' = (view r)(l \<mapsto> (s, book_new)) \<and> fits r' = fits r"
    and iter_ok: "valid r \<Longrightarrow>
      \<exists>es. iter r = Some es \<and> distinct (map fst es) \<and> (\<forall>l s b. (l, s, b) \<in> set es \<longleftrightarrow> view r l = Some (s, b))"
begin

lemma get_after_register:
  assumes "valid r" and "fits r l" and "register r l s = Some r'"
  shows "get r' l = Some book_new" and "get_symbol r' l = Some s"
    and "k \<noteq> l \<Longrightarrow> get r' k = get r k" and "k \<noteq> l \<Longrightarrow> get_symbol r' k = get_symbol r k"
  using register_ok [OF assms(1,2), of s] assms(1,3) by (auto simp: get_view get_symbol_view)

lemma get_after_set:
  assumes "valid r" and "get r l = Some b"
  shows "get (set_book r l b') l = Some b'" and "get_symbol (set_book r l b') k = get_symbol r k"
    and "k \<noteq> l \<Longrightarrow> get (set_book r l b') k = get r k"
proof -
  from assms obtain s where v: "view r l = Some (s, b)" by (auto simp: get_view)
  note ok = set_book_ok [OF assms(1) v, of b']
  show "get (set_book r l b') l = Some b'" using ok by (simp add: get_view)
  show "k \<noteq> l \<Longrightarrow> get (set_book r l b') k = get r k" using ok assms(1) by (simp add: get_view)
  show "get_symbol (set_book r l b') k = get_symbol r k"
    using ok assms(1) v by (cases "k = l") (simp_all add: get_symbol_view)
qed

end

section \<open>HashMapRegistry\<close>

record HashMapRegistry =
  hr_books :: "(u16, book) hash_map"
  hr_symbols :: "(u16, Symbol) hash_map"

definition hr_new :: HashMapRegistry where
  "hr_new = \<lparr>hr_books = [], hr_symbols = []\<rparr>"

definition hr_get_symbol :: "HashMapRegistry \<Rightarrow> u16 \<Rightarrow> Symbol option" where
  "hr_get_symbol r l = hm_get (hr_symbols r) l"

definition hr_symbol_str :: "HashMapRegistry \<Rightarrow> u16 \<Rightarrow> string option" where
  "hr_symbol_str r l = map_option Symbol_as_str (hm_get (hr_symbols r) l)"

definition hr_register :: "HashMapRegistry \<Rightarrow> u16 \<Rightarrow> Symbol \<Rightarrow> HashMapRegistry" where
  "hr_register r l s =
     r\<lparr>hr_symbols := hm_insert l s (hr_symbols r), hr_books := hm_insert l book_new (hr_books r)\<rparr>"

definition hr_get :: "HashMapRegistry \<Rightarrow> u16 \<Rightarrow> book option" where
  "hr_get r l = hm_get (hr_books r) l"

definition hr_set_book :: "HashMapRegistry \<Rightarrow> u16 \<Rightarrow> book \<Rightarrow> HashMapRegistry" where
  "hr_set_book r l b =
     (case hm_get (hr_books r) l of
        None \<Rightarrow> r | Some _ \<Rightarrow> r\<lparr>hr_books := hm_insert l b (hr_books r)\<rparr>)"

definition hr_len :: "HashMapRegistry \<Rightarrow> nat" where
  "hr_len r = hm_len (hr_books r)"

definition hr_is_empty :: "HashMapRegistry \<Rightarrow> bool" where
  "hr_is_empty r \<longleftrightarrow> hr_len r = 0"

text \<open>\<open>Iter\<close> walks the symbols and unwraps the book of each locate.\<close>

fun hr_iter_from :: "HashMapRegistry \<Rightarrow> (u16 \<times> Symbol) list \<Rightarrow> (u16 \<times> Symbol \<times> book) list run" where
  "hr_iter_from r [] = Some []"
| "hr_iter_from r ((l, s) # es) = do {
     b \<leftarrow> hr_get r l;
     rest \<leftarrow> hr_iter_from r es;
     Some ((l, s, b) # rest)
   }"

definition hr_iter :: "HashMapRegistry \<Rightarrow> (u16 \<times> Symbol \<times> book) list run" where
  "hr_iter r = hr_iter_from r (hr_symbols r)"

section \<open>VecRegistry\<close>

definition MAX_CAPACITY :: nat where
  "MAX_CAPACITY = 65535"

record VecRegistry =
  vr_books :: "book option list"
  vr_symbols :: "Symbol option list"

definition vr_with_capacity :: "nat \<Rightarrow> VecRegistry" where
  "vr_with_capacity cap = \<lparr>vr_books = replicate cap None, vr_symbols = replicate cap None\<rparr>"

definition vr_new :: VecRegistry where
  "vr_new = vr_with_capacity MAX_CAPACITY"

text \<open>\<open>Vec::resize_with(n, Default::default)\<close> truncates or pads with \<open>None\<close>.\<close>

definition resize_with_default :: "nat \<Rightarrow> 'a option list \<Rightarrow> 'a option list" where
  "resize_with_default n xs = take n xs @ replicate (n - length xs) None"

definition vr_resize :: "VecRegistry \<Rightarrow> nat \<Rightarrow> VecRegistry run" where
  "vr_resize r n =
     (if n \<le> MAX_CAPACITY
      then Some \<lparr>vr_books = resize_with_default n (vr_books r),
                 vr_symbols = resize_with_default n (vr_symbols r)\<rparr>
      else panic)"

definition vr_len :: "VecRegistry \<Rightarrow> nat" where
  "vr_len r = length (vr_books r)"

definition vr_is_empty :: "VecRegistry \<Rightarrow> bool" where
  "vr_is_empty r \<longleftrightarrow> vr_len r = 0"

definition vr_get_symbol :: "VecRegistry \<Rightarrow> u16 \<Rightarrow> Symbol option" where
  "vr_get_symbol r l = (case slice_get (vr_symbols r) (unat l) of None \<Rightarrow> None | Some s \<Rightarrow> s)"

definition vr_register :: "VecRegistry \<Rightarrow> u16 \<Rightarrow> Symbol \<Rightarrow> VecRegistry run" where
  "vr_register r l s = do {
     r \<leftarrow> (if vr_len r \<le> unat l then vr_resize r (unat l) else Some r);
     ss \<leftarrow> vec_set (vr_symbols r) (unat l) (Some s);
     bs \<leftarrow> vec_set (vr_books r) (unat l) (Some book_new);
     Some (r\<lparr>vr_symbols := ss, vr_books := bs\<rparr>)
   }"

definition vr_get :: "VecRegistry \<Rightarrow> u16 \<Rightarrow> book option" where
  "vr_get r l = (case slice_get (vr_books r) (unat l) of None \<Rightarrow> None | Some b \<Rightarrow> b)"

definition vr_set_book :: "VecRegistry \<Rightarrow> u16 \<Rightarrow> book \<Rightarrow> VecRegistry" where
  "vr_set_book r l b =
     (case vr_get r l of None \<Rightarrow> r | Some _ \<Rightarrow> r\<lparr>vr_books := (vr_books r)[unat l := Some b]\<rparr>)"

text \<open>
  \<open>Iter::next\<close> advances both slices and the locate, a \<open>u16\<close> that wraps, and yields where
  both entries are present.
\<close>

fun vr_iter_from ::
  "u16 \<Rightarrow> book option list \<Rightarrow> Symbol option list \<Rightarrow> (u16 \<times> Symbol \<times> book) list" where
  "vr_iter_from l (bo # bs) (so # ss) =
     (case (so, bo) of
        (Some s, Some b) \<Rightarrow> (l, s, b) # vr_iter_from (l + 1) bs ss
      | _ \<Rightarrow> vr_iter_from (l + 1) bs ss)"
| "vr_iter_from l _ _ = []"

definition vr_iter :: "VecRegistry \<Rightarrow> (u16 \<times> Symbol \<times> book) list" where
  "vr_iter r = vr_iter_from 0 (vr_books r) (vr_symbols r)"

text \<open>\<open>size_hint\<close> of a fresh iterator, which \<open>ExactSizeIterator::len\<close> returns.\<close>

definition vr_iter_len :: "VecRegistry \<Rightarrow> nat" where
  "vr_iter_len r = length (vr_books r)"

section \<open>The hash-map registry provides the interface\<close>

definition hr_valid :: "HashMapRegistry \<Rightarrow> bool" where
  "hr_valid r \<longleftrightarrow> hm_valid (hr_books r) \<and> hm_valid (hr_symbols r) \<and>
     dom (hm_get (hr_books r)) = dom (hm_get (hr_symbols r))"

definition hr_view :: "HashMapRegistry \<Rightarrow> u16 \<rightharpoonup> Symbol \<times> book" where
  "hr_view r l =
     (case (hr_get_symbol r l, hr_get r l) of (Some s, Some b) \<Rightarrow> Some (s, b) | _ \<Rightarrow> None)"

lemma hr_both:
  assumes "hr_valid r"
  shows "hr_get r l = None \<longleftrightarrow> hr_get_symbol r l = None"
proof -
  from assms have "l \<in> dom (hm_get (hr_books r)) \<longleftrightarrow> l \<in> dom (hm_get (hr_symbols r))"
    unfolding hr_valid_def by blast
  then show ?thesis by (auto simp: hr_get_def hr_get_symbol_def dom_def)
qed

lemma hr_register_valid:
  "hr_valid r \<Longrightarrow> hr_valid (hr_register r l s) \<and> hr_view (hr_register r l s) = (hr_view r)(l \<mapsto> (s, book_new))"
  by (auto simp: hr_valid_def hr_register_def hr_view_def fun_eq_iff hr_get_symbol_def hr_get_def
      hm.get_insert hm.valid_insert hm.dom_insert)

lemma hr_set_valid:
  assumes "hr_valid r" and "hr_view r l = Some (s, b)"
  shows "hr_valid (hr_set_book r l b') \<and> hr_view (hr_set_book r l b') = (hr_view r)(l \<mapsto> (s, b'))"
proof -
  from assms(2) have g: "hm_get (hr_books r) l = Some b" "hm_get (hr_symbols r) l = Some s"
    by (auto simp: hr_view_def hr_get_def hr_get_symbol_def split: option.splits)
  have v: "hm_valid (hr_books r)" "hm_valid (hr_symbols r)"
    "dom (hm_get (hr_books r)) = dom (hm_get (hr_symbols r))"
    using assms(1) by (simp_all add: hr_valid_def)
  have "l \<in> dom (hm_get (hr_books r))" using g by blast
  with v g show ?thesis
    by (auto simp: hr_valid_def hr_set_book_def hr_view_def fun_eq_iff hr_get_symbol_def hr_get_def
        hm.get_insert hm.valid_insert hm.dom_insert insert_absorb)
qed

lemma hr_iter_from_ok:
  "\<forall>e \<in> set es. hr_get r (fst e) \<noteq> None \<Longrightarrow>
   hr_iter_from r es = Some (map (\<lambda>(l, s). (l, s, the (hr_get r l))) es)"
  by (induction es) auto

lemma hr_iter_ok:
  assumes v: "hr_valid r"
  shows "\<exists>es. hr_iter r = Some es \<and> distinct (map fst es) \<and>
    (\<forall>l s b. (l, s, b) \<in> set es \<longleftrightarrow> hr_view r l = Some (s, b))"
proof -
  have hv: "hm_valid (hr_symbols r)" using v by (simp add: hr_valid_def)
  have get: "(l, s) \<in> set (hr_symbols r) \<longleftrightarrow> hr_get_symbol r l = Some s" for l s
    using hm.entries_iff [OF hv] by (simp add: hr_get_symbol_def)
  then have "\<forall>e \<in> set (hr_symbols r). hr_get r (fst e) \<noteq> None"
    using hr_both [OF v] by (metis option.distinct(1) prod.collapse)
  from hr_iter_from_ok [OF this] have i:
    "hr_iter r = Some (map (\<lambda>(l, s). (l, s, the (hr_get r l))) (hr_symbols r))"
    by (simp add: hr_iter_def)
  have "(l, s, b) \<in> set (map (\<lambda>(l, s). (l, s, the (hr_get r l))) (hr_symbols r)) \<longleftrightarrow>
      hr_view r l = Some (s, b)" for l s b
    using hr_both [OF v, of l] get [of l s]
    by (auto simp: hr_view_def get image_iff split: option.splits intro!: bexI [of _ "(l, s)"])
  moreover have "distinct (map fst (map (\<lambda>(l, s). (l, s, the (hr_get r l))) (hr_symbols r)))"
    using hm.distinct_entries [OF hv] by (simp add: o_def case_prod_beta')
  ultimately show ?thesis using i by blast
qed

interpretation hr: registry hr_valid hr_view hr_new "\<lambda>_ _. True" hr_get_symbol hr_get hr_set_book
  "\<lambda>r l s. Some (hr_register r l s)" hr_iter
proof unfold_locales
  show "hr_valid hr_new" by (simp add: hr_valid_def hr_new_def hm_valid_def hm_get_def dom_def)
  show "hr_view hr_new = Map.empty"
    by (simp add: fun_eq_iff hr_view_def hr_get_symbol_def hr_new_def hm.get_empty)
  show "hr_get r l = map_option snd (hr_view r l)" if "hr_valid r" for r l
    using hr_both [OF that, of l] by (auto simp: hr_view_def split: option.splits)
  show "hr_get_symbol r l = map_option fst (hr_view r l)" if "hr_valid r" for r l
    using hr_both [OF that, of l] by (auto simp: hr_view_def split: option.splits)
qed (simp_all add: hr_set_valid hr_register_valid hr_iter_ok)

section \<open>The vector registry provides the interface\<close>

definition vr_valid :: "VecRegistry \<Rightarrow> bool" where
  "vr_valid r \<longleftrightarrow> length (vr_books r) = length (vr_symbols r) \<and> length (vr_books r) \<le> 2 ^ 16 \<and>
     (\<forall>i < length (vr_books r). vr_books r ! i = None \<longleftrightarrow> vr_symbols r ! i = None)"

definition vr_view :: "VecRegistry \<Rightarrow> u16 \<rightharpoonup> Symbol \<times> book" where
  "vr_view r l =
     (case (vr_get_symbol r l, vr_get r l) of (Some s, Some b) \<Rightarrow> Some (s, b) | _ \<Rightarrow> None)"

definition vr_fits :: "VecRegistry \<Rightarrow> u16 \<Rightarrow> bool" where
  "vr_fits r l \<longleftrightarrow> unat l < vr_len r"

lemma vr_valid_with_capacity: "cap \<le> 2 ^ 16 \<Longrightarrow> vr_valid (vr_with_capacity cap)"
  by (simp add: vr_valid_def vr_with_capacity_def)

lemma vr_both:
  assumes "vr_valid r"
  shows "vr_get r l = None \<longleftrightarrow> vr_get_symbol r l = None"
  using assms by (auto simp: vr_valid_def vr_get_def vr_get_symbol_def slice_get_def)

lemma slice_get_update:
  "unat (l :: u16) < length xs \<Longrightarrow> slice_get (xs[unat l := x]) (unat k) = (if k = l then Some x else slice_get xs (unat k))"
  by (auto simp: slice_get_def nth_list_update word_unat_eq_iff)

lemma vr_update_valid:
  assumes "vr_valid r" and "unat l < vr_len r"
    and "r' = r\<lparr>vr_symbols := (vr_symbols r)[unat l := Some s], vr_books := (vr_books r)[unat l := Some b]\<rparr>"
  shows "vr_valid r'" and "vr_view r' = (vr_view r)(l \<mapsto> (s, b))"
proof -
  show "vr_valid r'"
    using assms by (auto simp: vr_valid_def vr_len_def nth_list_update)
  show "vr_view r' = (vr_view r)(l \<mapsto> (s, b))"
    using assms by (simp add: fun_eq_iff vr_valid_def vr_len_def vr_view_def vr_get_def
        vr_get_symbol_def slice_get_update)
qed

lemma vr_register_ok:
  assumes "vr_valid r" and "vr_fits r l"
  shows "\<exists>r'. vr_register r l s = Some r' \<and> vr_valid r' \<and>
    vr_view r' = (vr_view r)(l \<mapsto> (s, book_new)) \<and> vr_fits r' = vr_fits r"
proof -
  have l: "unat l < vr_len r" "unat l < length (vr_books r)" "unat l < length (vr_symbols r)"
    using assms by (simp_all add: vr_fits_def vr_valid_def vr_len_def)
  let ?r = "r\<lparr>vr_symbols := (vr_symbols r)[unat l := Some s], vr_books := (vr_books r)[unat l := Some book_new]\<rparr>"
  have "vr_register r l s = Some ?r" using l by (simp add: vr_register_def)
  moreover have "vr_fits ?r = vr_fits r" by (simp add: fun_eq_iff vr_fits_def vr_len_def)
  ultimately show ?thesis using vr_update_valid [OF assms(1) l(1) refl] by blast
qed

lemma vr_set_ok:
  assumes "vr_valid r" and "vr_view r l = Some (s, b)"
  shows "vr_valid (vr_set_book r l b') \<and> vr_view (vr_set_book r l b') = (vr_view r)(l \<mapsto> (s, b'))"
proof -
  from assms(2) have g: "vr_get r l = Some b" "vr_get_symbol r l = Some s"
    by (auto simp: vr_view_def split: option.splits)
  then have l: "unat l < vr_len r" and s: "vr_symbols r ! unat l = Some s"
    by (auto simp: vr_get_def vr_get_symbol_def slice_get_def vr_len_def split: if_splits)
  then have "(vr_symbols r)[unat l := Some s] = vr_symbols r" by (metis list_update_id)
  then have "vr_set_book r l b' =
      r\<lparr>vr_symbols := (vr_symbols r)[unat l := Some s], vr_books := (vr_books r)[unat l := Some b']\<rparr>"
    using g by (simp add: vr_set_book_def)
  with vr_update_valid [OF assms(1) l refl] show ?thesis by simp
qed

lemma vr_fits_set: "vr_fits (vr_set_book r l b) = vr_fits r"
  by (simp add: fun_eq_iff vr_fits_def vr_len_def vr_set_book_def split: option.split)

lemma vr_iter_from_mem:
  "length bs = length ss \<Longrightarrow> unat l + length bs \<le> 2 ^ 16 \<Longrightarrow>
   (k, s, b) \<in> set (vr_iter_from l bs ss) \<longleftrightarrow>
     (\<exists>i < length bs. k = l + of_nat i \<and> ss ! i = Some s \<and> bs ! i = Some b)"
proof (induction bs ss arbitrary: l rule: list_induct2)
  case Nil
  then show ?case by simp
next
  case (Cons bo bs so ss)
  have "(k, s, b) \<in> set (vr_iter_from (l + 1) bs ss) \<longleftrightarrow>
      (\<exists>i < length bs. k = l + 1 + of_nat i \<and> ss ! i = Some s \<and> bs ! i = Some b)"
  proof (cases bs)
    case (Cons b0 bs')
    with Cons.prems have "unat l + 1 < 2 ^ 16" by simp
    then have "unat (l + 1) = unat l + 1" by (subst unat_add_no_overflow) simp_all
    with Cons.prems show ?thesis by (intro Cons.IH) simp
  qed simp
  moreover have "(\<exists>i < Suc (length bs). k = l + of_nat i \<and> (so # ss) ! i = Some s \<and> (bo # bs) ! i = Some b) \<longleftrightarrow>
      (k = l \<and> so = Some s \<and> bo = Some b) \<or>
      (\<exists>i < length bs. k = l + 1 + of_nat i \<and> ss ! i = Some s \<and> bs ! i = Some b)"
    by (auto simp: less_Suc_eq_0_disj add.assoc)
  ultimately show ?case by (auto split: option.split)
qed

lemma vr_iter_from_distinct:
  "length bs = length ss \<Longrightarrow> unat l + length bs \<le> 2 ^ 16 \<Longrightarrow>
   distinct (map fst (vr_iter_from l bs ss))"
proof (induction bs ss arbitrary: l rule: list_induct2)
  case Nil
  then show ?case by simp
next
  case (Cons bo bs so ss)
  show ?case
  proof (cases bs)
    case Nil
    with Cons.hyps show ?thesis by (simp split: option.split)
  next
    case (Cons b0 bs')
    with Cons.prems have "unat l + 1 < 2 ^ 16" by simp
    then have u: "unat (l + 1) = unat l + 1" by (subst unat_add_no_overflow) simp_all
    have le: "unat (l + 1) + length bs \<le> 2 ^ 16" using Cons.prems u by simp
    have "l \<notin> fst ` set (vr_iter_from (l + 1) bs ss)"
    proof
      assume "l \<in> fst ` set (vr_iter_from (l + 1) bs ss)"
      then obtain s b where "(l, s, b) \<in> set (vr_iter_from (l + 1) bs ss)" by force
      then obtain i where i: "i < length bs" "l = l + 1 + of_nat i"
        using vr_iter_from_mem [OF Cons.hyps le] by blast
      have "unat (l + 1 + of_nat i) = unat l + 1 + i"
        using i(1) le u by (subst unat_add_no_overflow) (simp_all add: unat_of_nat)
      moreover have "unat (l + 1 + of_nat i) = unat l"
        by (rule arg_cong [OF i(2), of unat, symmetric])
      ultimately show False by linarith
    qed
    with Cons.IH [OF le] show ?thesis by (auto split: option.split)
  qed
qed

lemma vr_iter_ok:
  assumes v: "vr_valid r"
  shows "distinct (map fst (vr_iter r)) \<and>
    (\<forall>l s b. (l, s, b) \<in> set (vr_iter r) \<longleftrightarrow> vr_view r l = Some (s, b))"
proof -
  have len: "length (vr_books r) = length (vr_symbols r)" "unat (0 :: u16) + length (vr_books r) \<le> 2 ^ 16"
    using v by (simp_all add: vr_valid_def)
  have "(l, s, b) \<in> set (vr_iter r) \<longleftrightarrow> vr_view r l = Some (s, b)" for l s b
  proof -
    have "(l, s, b) \<in> set (vr_iter r) \<longleftrightarrow>
        (\<exists>i < length (vr_books r). l = of_nat i \<and> vr_symbols r ! i = Some s \<and> vr_books r ! i = Some b)"
      using vr_iter_from_mem [OF len, of l s b] by (simp add: vr_iter_def)
    also have "\<dots> \<longleftrightarrow> unat l < length (vr_books r) \<and> vr_symbols r ! unat l = Some s \<and> vr_books r ! unat l = Some b"
    proof -
      have "unat (of_nat i :: u16) = i" if "i < length (vr_books r)" for i
        using that v by (simp add: vr_valid_def unat_of_nat)
      then show ?thesis by (metis of_nat_unat_eq)
    qed
    also have "\<dots> \<longleftrightarrow> vr_view r l = Some (s, b)"
      using len(1) by (auto simp: vr_view_def vr_get_def vr_get_symbol_def slice_get_def split: option.splits)
    finally show ?thesis .
  qed
  with vr_iter_from_distinct [OF len] show ?thesis by (simp add: vr_iter_def)
qed

interpretation vr: registry vr_valid vr_view vr_new vr_fits vr_get_symbol vr_get vr_set_book
  vr_register "\<lambda>r. Some (vr_iter r)"
proof unfold_locales
  show "vr_valid vr_new" unfolding vr_new_def by (rule vr_valid_with_capacity) (simp add: MAX_CAPACITY_def)
  show "vr_view vr_new = Map.empty"
    by (simp add: fun_eq_iff vr_view_def vr_get_symbol_def vr_new_def vr_with_capacity_def slice_get_def)
  show "vr_get r l = map_option snd (vr_view r l)" if "vr_valid r" for r l
    using vr_both [OF that, of l] by (auto simp: vr_view_def split: option.splits)
  show "vr_get_symbol r l = map_option fst (vr_view r l)" if "vr_valid r" for r l
    using vr_both [OF that, of l] by (auto simp: vr_view_def split: option.splits)
qed (simp_all add: vr_set_ok vr_register_ok vr_iter_ok vr_fits_set)

end
