(* ===== verification/Registry_Claims.thy ===== *)
theory Registry_Claims
  imports Registry Book_Correct
begin

text \<open>The properties of the registries.\<close>

section \<open>The two implementations agree\<close>

text \<open>What a feed does to a registry: register a locate, or apply an event to its book.\<close>

datatype reg_cmd = Register u16 Symbol | Update u16 book_cmd

fun cmd_locate :: "reg_cmd \<Rightarrow> u16" where
  "cmd_locate (Register l s) = l"
| "cmd_locate (Update l c) = l"

text \<open>
  An update goes through \<open>get_mut\<close>: no book, no change; a panic of the handler is a panic
  of the run.
\<close>

fun hr_step :: "HashMapRegistry \<Rightarrow> reg_cmd \<Rightarrow> HashMapRegistry run" where
  "hr_step r (Register l s) = Some (hr_register r l s)"
| "hr_step r (Update l c) =
     (case hr_get r l of
        None \<Rightarrow> Some r
      | Some b \<Rightarrow> do { (b', _) \<leftarrow> book_apply b c; Some (hr_set_book r l b') })"

fun vr_step :: "VecRegistry \<Rightarrow> reg_cmd \<Rightarrow> VecRegistry run" where
  "vr_step r (Register l s) = vr_register r l s"
| "vr_step r (Update l c) =
     (case vr_get r l of
        None \<Rightarrow> Some r
      | Some b \<Rightarrow> do { (b', _) \<leftarrow> book_apply b c; Some (vr_set_book r l b') })"

fun hr_run :: "HashMapRegistry \<Rightarrow> reg_cmd list \<Rightarrow> HashMapRegistry run" where
  "hr_run r [] = Some r"
| "hr_run r (c # cs) = do { r' \<leftarrow> hr_step r c; hr_run r' cs }"

fun vr_run :: "VecRegistry \<Rightarrow> reg_cmd list \<Rightarrow> VecRegistry run" where
  "vr_run r [] = Some r"
| "vr_run r (c # cs) = do { r' \<leftarrow> vr_step r c; vr_run r' cs }"

definition reg_agree :: "HashMapRegistry \<Rightarrow> VecRegistry \<Rightarrow> bool" where
  "reg_agree r v \<longleftrightarrow> hr_valid r \<and> vr_valid v \<and> vr_len v = MAX_CAPACITY \<and> hr_view r = vr_view v"

lemma agree_lookups:
  "reg_agree r v \<Longrightarrow> hr_get r l = vr_get v l"
  "reg_agree r v \<Longrightarrow> hr_get_symbol r l = vr_get_symbol v l"
  by (simp_all add: reg_agree_def hr.get_view vr.get_view hr.get_symbol_view vr.get_symbol_view)

lemma agree_fits: "reg_agree r v \<Longrightarrow> unat l < MAX_CAPACITY \<Longrightarrow> vr_fits v l"
  by (simp add: reg_agree_def vr_fits_def)

lemma fits_len: "vr_fits v' = vr_fits v \<Longrightarrow> vr_len v = MAX_CAPACITY \<Longrightarrow> vr_valid v' \<Longrightarrow> vr_len v' = MAX_CAPACITY"
proof -
  assume f: "vr_fits v' = vr_fits v" and l: "vr_len v = MAX_CAPACITY" and v: "vr_valid v'"
  have u: "unat (65534 :: u16) = 65534" "unat (65535 :: u16) = 65535" by simp_all
  have "unat (65534 :: u16) < vr_len v' \<longleftrightarrow> unat (65534 :: u16) < vr_len v"
    and "unat (65535 :: u16) < vr_len v' \<longleftrightarrow> unat (65535 :: u16) < vr_len v"
    using fun_cong [OF f] by (simp_all only: vr_fits_def)
  with l u show ?thesis by (simp add: MAX_CAPACITY_def)
qed

lemma agree_step:
  assumes a: "reg_agree r v" and l: "unat (cmd_locate c) < MAX_CAPACITY"
  shows "rel_option reg_agree (hr_step r c) (vr_step v c)"
proof (cases c)
  case (Register l s)
  from agree_fits [OF a] assms(2) Register have f: "vr_fits v l" by simp
  from a have vv: "vr_valid v" "hr_valid r" by (simp_all add: reg_agree_def)
  obtain v' where v': "vr_register v l s = Some v'" "vr_valid v'"
      "vr_view v' = (vr_view v)(l \<mapsto> (s, book_new))" "vr_fits v' = vr_fits v"
    using vr.register_ok [OF vv(1) f, of s] by blast
  have "vr_len v' = MAX_CAPACITY" using fits_len [OF v'(4) _ v'(2)] a by (simp add: reg_agree_def)
  with v' hr.register_ok [OF vv(2), of l s] a Register show ?thesis by (simp add: reg_agree_def)
next
  case (Update l c')
  show ?thesis
  proof (cases "hr_get r l")
    case None
    with Update a agree_lookups(1) [OF a, of l] show ?thesis by simp
  next
    case (Some b)
    then have vb: "vr_get v l = Some b" using agree_lookups(1) [OF a, of l] by simp
    from a have vv: "vr_valid v" "hr_valid r" by (simp_all add: reg_agree_def)
    obtain s where s: "hr_view r l = Some (s, b)" using Some hr.get_view [OF vv(2), of l] by auto
    then have s': "vr_view v l = Some (s, b)" using a by (simp add: reg_agree_def)
    have "reg_agree (hr_set_book r l b') (vr_set_book v l b')" for b'
      using a hr.set_book_ok [OF vv(2) s, of b'] vr.set_book_ok [OF vv(1) s', of b']
        fits_len [OF vr.fits_set_book [OF vv(1) s', of b']] by (simp add: reg_agree_def)
    with Update Some vb show ?thesis
      by (cases "book_apply b c'") (auto split: prod.split)
  qed
qed

lemma agree_run:
  "reg_agree r v \<Longrightarrow> \<forall>c \<in> set cs. unat (cmd_locate c) < MAX_CAPACITY \<Longrightarrow>
   rel_option reg_agree (hr_run r cs) (vr_run v cs)"
proof (induction cs arbitrary: r v)
  case (Cons c cs)
  then have "rel_option reg_agree (hr_step r c) (vr_step v c)" by (intro agree_step) simp_all
  with Cons show ?case by (cases "hr_step r c"; cases "vr_step v c") simp_all
qed simp

lemma agree_new: "reg_agree hr_new vr_new"
  using hr.valid_new vr.valid_new hr.view_new vr.view_new
  by (simp add: reg_agree_def vr_new_def vr_with_capacity_def vr_len_def)

text \<open>
  C8: the two registries are interchangeable on locates below 65535. Fed the same
  registrations and book events, either both panic or neither does, and then every lookup of
  a book or a symbol gives the same answer.
\<close>

theorem registries_agree:
  assumes "\<forall>c \<in> set cs. unat (cmd_locate c) < MAX_CAPACITY"
  shows "rel_option (\<lambda>r v. \<forall>l. hr_get r l = vr_get v l \<and> hr_get_symbol r l = vr_get_symbol v l)
    (hr_run hr_new cs) (vr_run vr_new cs)"
  using agree_run [OF agree_new assms]
  by (rule option.rel_mono_strong) (simp add: agree_lookups)

theorem registries_agree_witness:
  "rel_option (\<lambda>r v. \<forall>l. hr_get r l = vr_get v l \<and> hr_get_symbol r l = vr_get_symbol v l)
     (hr_run hr_new [Register 7 (wire_symbol ''AAPL''), Update 7 (Delete 1)])
     (vr_run vr_new [Register 7 (wire_symbol ''AAPL''), Update 7 (Delete 1)])"
  by (rule registries_agree) (simp add: MAX_CAPACITY_def)

section \<open>Where the vector registry departs from its documentation\<close>

text \<open>
  \<open>VecRegistry::register\<close> does not grow the vectors. For a locate at or beyond their
  length it resizes them to the locate itself, one short of the index it then writes, and
  panics; with the default capacity this hits locate 65535.
\<close>

theorem vec_register_panics:
  assumes "vr_len r \<le> unat l" and "length (vr_symbols r) = vr_len r"
  shows "vr_register r l s = panic"
  using assms unsigned_less [of l, where ?'a = nat]
  by (simp add: vr_register_def vr_resize_def MAX_CAPACITY_def resize_with_default_def vec_set_def vr_len_def)

theorem vec_register_panics_witness: "vr_register vr_new 65535 (wire_symbol ''AAPL'') = panic"
  by (rule vec_register_panics) (simp_all add: vr_new_def vr_with_capacity_def vr_len_def MAX_CAPACITY_def)

text \<open>
  Iterating either registry yields every registered locate once, with its symbol and its
  book, and never panics; but the exact size that the vector iterator announces, like its
  \<open>len\<close>, is the number of slots, so it is 65535 even for an empty registry, where the hash-map
  registry reports none.
\<close>

theorem registry_iteration:
  assumes "\<forall>c \<in> set cs. unat (cmd_locate c) < MAX_CAPACITY"
    and "hr_run hr_new cs = Some r" and "vr_run vr_new cs = Some v"
  shows "(\<exists>es. hr_iter r = Some es \<and> distinct (map fst es) \<and> set es = set (vr_iter v)) \<and>
    distinct (map fst (vr_iter v)) \<and>
    (\<forall>l s b. (l, s, b) \<in> set (vr_iter v) \<longleftrightarrow> vr_get_symbol v l = Some s \<and> vr_get v l = Some b) \<and>
    vr_iter_len v = MAX_CAPACITY \<and> vr_len v = MAX_CAPACITY"
proof -
  have a: "reg_agree r v" using agree_run [OF agree_new assms(1)] assms(2,3) by simp
  then have rv: "hr_valid r" "vr_valid v" "hr_view r = vr_view v" "vr_len v = MAX_CAPACITY"
    by (simp_all add: reg_agree_def)
  obtain es where es: "hr_iter r = Some es" "distinct (map fst es)"
      "\<forall>l s b. (l, s, b) \<in> set es \<longleftrightarrow> hr_view r l = Some (s, b)"
    using hr.iter_ok [OF rv(1)] by blast
  have vi: "distinct (map fst (vr_iter v))" "\<forall>l s b. (l, s, b) \<in> set (vr_iter v) \<longleftrightarrow> vr_view v l = Some (s, b)"
    using vr.iter_ok [OF rv(2)] by auto
  have "set es = set (vr_iter v)" using es(3) vi(2) rv(3) by (auto simp: set_eq_iff)
  moreover have "vr_view v l = Some (s, b) \<longleftrightarrow> vr_get_symbol v l = Some s \<and> vr_get v l = Some b" for l s b
    using vr.get_view [OF rv(2), of l] vr.get_symbol_view [OF rv(2), of l] by (cases "vr_view v l") auto
  ultimately show ?thesis using es vi rv(4) by (simp add: vr_iter_len_def vr_len_def)
qed

theorem registry_iteration_witness:
  "hr_len hr_new = 0 \<and> vr_len vr_new = MAX_CAPACITY \<and> vr_iter_len vr_new = MAX_CAPACITY"
proof -
  have "hr_run hr_new [] = Some hr_new" "vr_run vr_new [] = Some vr_new" by simp_all
  from registry_iteration [OF _ this] show ?thesis by (simp add: hr_len_def hm_len_def hr_new_def)
qed

end
