(* ===== verification/Mold_Packet.thy ===== *)
theory Mold_Packet
  imports Zerocopy Itch_Types
begin

text \<open>
  The downstream packets of \<open>moldudp/src/packet.rs\<close> and \<open>pad_session\<close> of
  \<open>moldudp/src/util.rs\<close>: the 20-byte header, the view of a datagram as a packet, and the
  iterator over its length-prefixed message blocks.
\<close>

section \<open>Header and packet\<close>

definition HEARTBEAT_IDENT :: u16 where
  "HEARTBEAT_IDENT = 0"

definition END_OF_SESSION_IDENT :: u16 where
  "END_OF_SESSION_IDENT = - 1"

datatype PacketKind = Standard | Heartbeat | EndOfSession

datatype SessionStatus = Active | Inactive

record PacketHeader =
  session :: bytes
  seq_num_f :: bytes
  msg_count_f :: bytes

definition HEADER_LEN :: nat where
  "HEADER_LEN = 20"

definition PacketHeader_view :: "bytes \<Rightarrow> PacketHeader" where
  "PacketHeader_view bs =
     \<lparr>session = take 10 bs, seq_num_f = take 8 (drop 10 bs), msg_count_f = take 2 (drop 18 bs)\<rparr>"

definition PacketHeader_as_bytes :: "PacketHeader \<Rightarrow> bytes" where
  "PacketHeader_as_bytes h = session h @ seq_num_f h @ msg_count_f h"

record Packet =
  header :: PacketHeader
  messages :: bytes

definition MIN_PACKET_LEN :: nat where
  "MIN_PACKET_LEN = 20"

definition Packet_parse :: "zerocopy \<Rightarrow> bytes \<Rightarrow> Packet option" where
  "Packet_parse z bs =
     (case zc_ref_from_bytes_dst z HEADER_LEN bs of
        None \<Rightarrow> None
      | Some (h, t) \<Rightarrow> Some \<lparr>header = PacketHeader_view h, messages = t\<rparr>)"

definition Packet_session_ident :: "Packet \<Rightarrow> string option" where
  "Packet_session_ident p = from_utf8 (session (header p))"

definition Packet_session_ident_raw :: "Packet \<Rightarrow> bytes" where
  "Packet_session_ident_raw p = session (header p)"

definition Packet_seq_num :: "zerocopy \<Rightarrow> Packet \<Rightarrow> u64" where
  "Packet_seq_num z p = zc_u64_get z (seq_num_f (header p))"

definition Packet_msg_count :: "zerocopy \<Rightarrow> Packet \<Rightarrow> u16" where
  "Packet_msg_count z p = zc_u16_get z (msg_count_f (header p))"

definition Packet_session_status :: "zerocopy \<Rightarrow> Packet \<Rightarrow> SessionStatus" where
  "Packet_session_status z p =
     (if Packet_msg_count z p = END_OF_SESSION_IDENT then Inactive else Active)"

definition Packet_packet_kind :: "zerocopy \<Rightarrow> Packet \<Rightarrow> PacketKind" where
  "Packet_packet_kind z p =
     (let n = Packet_msg_count z p
      in if n = HEARTBEAT_IDENT then Heartbeat
         else if n = END_OF_SESSION_IDENT then EndOfSession else Standard)"

section \<open>Message blocks\<close>

record Message =
  length_f :: bytes
  data_f :: bytes

definition Message_length :: "zerocopy \<Rightarrow> Message \<Rightarrow> u16" where
  "Message_length z m = zc_u16_get z (length_f m)"

definition Message_data :: "Message \<Rightarrow> bytes" where
  "Message_data m = data_f m"

record Messages =
  ms_bytes :: bytes
  ms_remaining :: u16

definition Packet_iter :: "zerocopy \<Rightarrow> Packet \<Rightarrow> Messages" where
  "Packet_iter z p =
     \<lparr>ms_bytes = messages p,
      ms_remaining =
        (let n = Packet_msg_count z p
         in if n = END_OF_SESSION_IDENT \<or> n = HEARTBEAT_IDENT then 0 else n)\<rparr>"

definition Messages_next :: "zerocopy \<Rightarrow> Messages \<Rightarrow> Messages \<times> Message option" where
  "Messages_next z it =
     (if ms_remaining it = 0 then (it, None)
      else case zc_ref_from_prefix z 2 (ms_bytes it) of
        None \<Rightarrow> (it, None)
      | Some (len_field, _) \<Rightarrow>
          (case zc_ref_from_prefix_with_elems z 2 (ms_bytes it) (unat (zc_u16_get z len_field)) of
             None \<Rightarrow> (it, None)
           | Some ((l, d), rest) \<Rightarrow>
               (it\<lparr>ms_bytes := rest, ms_remaining := ms_remaining it - 1\<rparr>,
                Some \<lparr>length_f = l, data_f = d\<rparr>)))"

text \<open>\<open>size_hint\<close>, exact: what \<open>ExactSizeIterator::len\<close> returns.\<close>

definition Messages_len :: "Messages \<Rightarrow> nat" where
  "Messages_len it = unat (ms_remaining it)"

text \<open>What a \<open>for\<close> loop over the iterator visits, and the iterator it leaves.\<close>

lemma unat_pred: "(n :: u16) \<noteq> 0 \<Longrightarrow> unat (n - 1) = unat n - 1"
proof -
  assume "n \<noteq> 0"
  then have "unat (1 :: u16) \<le> unat n" by (simp add: Suc_le_eq unat_gt_0)
  then have "unat (n - 1) = unat n - unat (1 :: u16)" by (rule unat_sub_le)
  then show ?thesis by simp
qed

lemma Messages_next_remaining:
  "Messages_next z it = (it', Some m) \<Longrightarrow> unat (ms_remaining it') < unat (ms_remaining it)"
  by (auto simp: Messages_next_def unat_pred unat_gt_0 split: if_splits option.splits)

function Messages_collect :: "zerocopy \<Rightarrow> Messages \<Rightarrow> Message list \<times> Messages" where
  "Messages_collect z it =
     (case Messages_next z it of
        (it', None) \<Rightarrow> ([], it')
      | (it', Some m) \<Rightarrow> (case Messages_collect z it' of (ms, e) \<Rightarrow> (m # ms, e)))"
  by pat_completeness auto
termination
  by (relation "measure (\<lambda>(z, it). unat (ms_remaining it))") (auto intro: Messages_next_remaining dest: sym)

declare Messages_collect.simps [simp del]

definition Packet_data :: "zerocopy \<Rightarrow> Packet \<Rightarrow> bytes list" where
  "Packet_data z p = map Message_data (fst (Messages_collect z (Packet_iter z p)))"

section \<open>Session identifiers\<close>

definition pad_session :: "string \<Rightarrow> bytes" where
  "pad_session s =
     (let bs = ascii_bytes s; n = min (length bs) 10
      in take n bs @ drop n (replicate 10 (ascii CHR '' '')))"

lemma length_pad_session [simp]: "length (pad_session s) = 10"
  by (simp add: pad_session_def Let_def)

section \<open>The bytes of a packet\<close>

definition message_block :: "bytes \<Rightarrow> bytes" where
  "message_block d = u16_to_be (of_nat (length d)) @ d"

definition packet_bytes :: "bytes \<Rightarrow> u64 \<Rightarrow> u16 \<Rightarrow> bytes \<Rightarrow> bytes" where
  "packet_bytes s q c body = s @ u64_to_be q @ u16_to_be c @ body"

lemma Packet_parse_bytes:
  assumes "zerocopy_ok z" and "length s = 10"
  shows "Packet_parse z (packet_bytes s q c body) =
    Some \<lparr>header = \<lparr>session = s, seq_num_f = u64_to_be q, msg_count_f = u16_to_be c\<rparr>, messages = body\<rparr>"
proof -
  have "split_at_checked (packet_bytes s q c body) HEADER_LEN =
      Some (s @ u64_to_be q @ u16_to_be c, body)"
    using assms(2) split_at_checked_append [of "s @ u64_to_be q @ u16_to_be c" HEADER_LEN body]
    by (simp add: packet_bytes_def HEADER_LEN_def)
  then show ?thesis
    using assms by (simp add: Packet_parse_def zc_dst PacketHeader_view_def)
qed

lemma packet_fields:
  assumes "zerocopy_ok z"
    and "p = \<lparr>header = \<lparr>session = s, seq_num_f = u64_to_be q, msg_count_f = u16_to_be c\<rparr>, messages = body\<rparr>"
  shows "Packet_session_ident_raw p = s" and "Packet_seq_num z p = q" and "Packet_msg_count z p = c"
  using assms
  by (simp_all add: Packet_session_ident_raw_def Packet_seq_num_def Packet_msg_count_def zc_get)

lemma Messages_next_block:
  assumes "zerocopy_ok z" and "length d < 2 ^ 16" and "n \<noteq> 0"
  shows "Messages_next z \<lparr>ms_bytes = message_block d @ rest, ms_remaining = n\<rparr> =
    (\<lparr>ms_bytes = rest, ms_remaining = n - 1\<rparr>,
     Some \<lparr>length_f = u16_to_be (of_nat (length d)), data_f = d\<rparr>)"
proof -
  have u: "unat (of_nat (length d) :: u16) = length d" using assms(2) by (simp add: unat_of_nat)
  have "split_at_checked (message_block d @ rest) 2 = Some (u16_to_be (of_nat (length d)), d @ rest)"
    by (simp add: message_block_def)
  then show ?thesis
    using assms(3)
    by (simp add: Messages_next_def zc_prefix [OF assms(1)] zc_prefix_elems [OF assms(1)]
        zc_get [OF assms(1)] u) (simp add: message_block_def)
qed

lemma Messages_collect_blocks:
  assumes z: "zerocopy_ok z"
  shows "\<forall>d \<in> set ds. length d < 2 ^ 16 \<Longrightarrow> length ds \<le> unat n \<Longrightarrow>
    Messages_collect z \<lparr>ms_bytes = concat (map message_block ds) @ rest, ms_remaining = n\<rparr> =
      (case Messages_collect z \<lparr>ms_bytes = rest, ms_remaining = n - of_nat (length ds)\<rparr> of
         (ms, e) \<Rightarrow> (map (\<lambda>d. \<lparr>length_f = u16_to_be (of_nat (length d)), data_f = d\<rparr>) ds @ ms, e))"
proof (induction ds arbitrary: n)
  case Nil
  then show ?case by simp
next
  case (Cons d ds)
  have n: "n \<noteq> 0" using Cons.prems(2) by auto
  have "unat (n - 1) = unat n - 1" using n by (rule unat_pred)
  then have le: "length ds \<le> unat (n - 1)" using Cons.prems(2) by simp
  have "Messages_next z \<lparr>ms_bytes = message_block d @ concat (map message_block ds) @ rest, ms_remaining = n\<rparr> =
    (\<lparr>ms_bytes = concat (map message_block ds) @ rest, ms_remaining = n - 1\<rparr>,
     Some \<lparr>length_f = u16_to_be (of_nat (length d)), data_f = d\<rparr>)"
    by (rule Messages_next_block [OF z _ n]) (use Cons.prems in simp)
  moreover have "n - 1 - of_nat (length ds) = n - of_nat (length (d # ds))" by simp
  ultimately show ?case
    using Cons.IH [OF _ le] Cons.prems(1)
    by (subst Messages_collect.simps) (simp add: case_prod_beta diff_diff_eq)
qed

lemma Messages_collect_zero: "Messages_collect z \<lparr>ms_bytes = bs, ms_remaining = 0\<rparr> = ([], \<lparr>ms_bytes = bs, ms_remaining = 0\<rparr>)"
  by (subst Messages_collect.simps) (simp add: Messages_next_def)

text \<open>A well-formed data packet read back.\<close>

lemma packet_roundtrip:
  assumes z: "zerocopy_ok z" and s: "length s = 10" and n: "0 < length ds" "length ds < 65535"
    and ds: "\<forall>d \<in> set ds. length d < 2 ^ 16"
  shows "\<exists>p. Packet_parse z (packet_bytes s q (of_nat (length ds)) (concat (map message_block ds))) = Some p \<and>
    Packet_session_ident_raw p = s \<and> Packet_seq_num z p = q \<and> Packet_msg_count z p = of_nat (length ds) \<and>
    Packet_packet_kind z p = Standard \<and> Packet_data z p = ds"
proof -
  let ?p = "\<lparr>header = \<lparr>session = s, seq_num_f = u64_to_be q, msg_count_f = u16_to_be (of_nat (length ds))\<rparr>,
    messages = concat (map message_block ds)\<rparr>"
  have u: "unat (of_nat (length ds) :: u16) = length ds" using n by (simp add: unat_of_nat)
  have "unat (- 1 :: u16) = 65535" by (simp add: unsigned_minus_1_eq_mask mask_eq_exp_minus_1)
  then have k: "(of_nat (length ds) :: u16) \<noteq> 0" "(of_nat (length ds) :: u16) \<noteq> - 1"
    using u n by (metis less_irrefl unat_0, metis less_irrefl)
  note f = packet_fields [OF z refl, of s q "of_nat (length ds)" "concat (map message_block ds)"]
  have "Packet_iter z ?p = \<lparr>ms_bytes = concat (map message_block ds) @ [], ms_remaining = of_nat (length ds)\<rparr>"
    using k f(3) by (simp add: Packet_iter_def END_OF_SESSION_IDENT_def HEARTBEAT_IDENT_def Let_def)
  then have "Packet_data z ?p = ds"
    using Messages_collect_blocks [OF z ds, of "of_nat (length ds)" "[]"] u
    by (simp add: Packet_data_def Messages_collect_zero Message_data_def o_def)
  moreover have "Packet_packet_kind z ?p = Standard"
    using k f(3) by (simp add: Packet_packet_kind_def END_OF_SESSION_IDENT_def HEARTBEAT_IDENT_def Let_def)
  ultimately show ?thesis
    using Packet_parse_bytes [OF z s, of q "of_nat (length ds)" "concat (map message_block ds)"] f by auto
qed

text \<open>Heartbeats and end-of-session packets carry no messages, whatever follows the header.\<close>

lemma special_packet_data:
  assumes "zerocopy_ok z" and "Packet_msg_count z p = 0 \<or> Packet_msg_count z p = END_OF_SESSION_IDENT"
  shows "Packet_data z p = []"
  using assms(2)
  by (auto simp: Packet_data_def Packet_iter_def HEARTBEAT_IDENT_def Messages_collect_zero Let_def)

text \<open>Iteration never reads past the datagram, and yields at most the announced count.\<close>

lemma Messages_next_Some:
  assumes z: "zerocopy_ok z" and "Messages_next z it = (it', Some m)"
  shows "ms_bytes it = length_f m @ data_f m @ ms_bytes it'" and "ms_remaining it \<noteq> 0"
    and "ms_remaining it' = ms_remaining it - 1" and "length (length_f m) = 2"
    and "length (data_f m) = unat (Message_length z m)"
proof -
  let ?bs = "ms_bytes it"
  let ?k = "unat (u16_from_be (take 2 ?bs))"
  from assms show ne: "ms_remaining it \<noteq> 0" by (auto simp: Messages_next_def)
  with assms(2) have two: "2 \<le> length ?bs"
    by (auto simp: Messages_next_def zc_prefix [OF z] split_at_checked_def split: if_splits)
  have nx: "Messages_next z it =
      (if 2 + ?k \<le> length ?bs
       then (it\<lparr>ms_bytes := drop (2 + ?k) ?bs, ms_remaining := ms_remaining it - 1\<rparr>,
             Some \<lparr>length_f = take 2 ?bs, data_f = take ?k (drop 2 ?bs)\<rparr>)
       else (it, None))"
    using ne two
    by (simp add: Messages_next_def zc_prefix [OF z] zc_prefix_elems [OF z] zc_get [OF z] split_at_checked_def)
  with assms(2) have k: "2 + ?k \<le> length ?bs" by (metis Pair_inject option.distinct(1))
  from nx k assms(2) have
    it': "it' = it\<lparr>ms_bytes := drop (2 + ?k) ?bs, ms_remaining := ms_remaining it - 1\<rparr>" and
    m: "m = \<lparr>length_f = take 2 ?bs, data_f = take ?k (drop 2 ?bs)\<rparr>"
    by (metis Pair_inject option.inject)+
  have "?bs = take 2 ?bs @ take ?k (drop 2 ?bs) @ drop ?k (drop 2 ?bs)"
    by (metis append_take_drop_id)
  then show "ms_bytes it = length_f m @ data_f m @ ms_bytes it'" by (simp add: it' m add.commute)
  show "ms_remaining it' = ms_remaining it - 1" by (simp add: it')
  show "length (length_f m) = 2" using two by (simp add: m)
  show "length (data_f m) = unat (Message_length z m)"
    using k by (simp add: m Message_length_def zc_get [OF z])
qed

lemma Messages_collect_within:
  assumes z: "zerocopy_ok z"
  shows "Messages_collect z it = (ms, e) \<Longrightarrow>
    ms_bytes it = concat (map (\<lambda>m. length_f m @ data_f m) ms) @ ms_bytes e \<and>
    length ms + unat (ms_remaining e) = unat (ms_remaining it) \<and>
    (\<forall>m \<in> set ms. length (data_f m) = unat (Message_length z m))"
proof (induction "unat (ms_remaining it)" arbitrary: it ms e rule: less_induct)
  case less
  show ?case
  proof (cases "Messages_next z it")
    case (Pair it' mo)
    show ?thesis
    proof (cases mo)
      case None
      have "ms = [] \<and> e = it'"
        using less(2) Pair None by (subst (asm) Messages_collect.simps) simp
      moreover have "it' = it"
        using Pair None by (auto simp: Messages_next_def split: if_splits option.splits)
      ultimately show ?thesis by simp
    next
      case (Some m)
      note next_m = Pair [unfolded Some]
      obtain ms' where r: "Messages_collect z it' = (ms', e)" "ms = m # ms'"
        using less(2) Pair Some by (subst (asm) Messages_collect.simps) (auto split: prod.splits)
      note f = Messages_next_Some [OF z next_m]
      have "unat (ms_remaining it) = Suc (unat (ms_remaining it'))"
        using f(2,3) by (simp add: unat_pred unat_gt_0)
      with less(1) [OF Messages_next_remaining [OF next_m] r(1)] f(1,5) r(2) show ?thesis
        by simp
    qed
  qed
qed

end
