(* ===== verification/Mold_Client.thy ===== *)
theory Mold_Client
  imports Mold_Packet
begin

text \<open>
  The receiver of \<open>moldudp/src/client.rs\<close> and \<open>moldudp/src/iouring.rs\<close>.  Sockets,
  crossbeam channels and the buffer queue are outside the repository: a step returns the calls
  it makes on them as a list of effects and takes their answers (what was received, whether a
  send succeeded) as arguments.  Logging is not modelled.
\<close>

section \<open>Requests and datagrams\<close>

text \<open>A \<open>RetransmissionPacket\<close> is a header.\<close>

record RetransmissionRequest =
  req :: PacketHeader
  attempts :: u8

definition RetransmissionRequest_new :: "PacketHeader \<Rightarrow> RetransmissionRequest" where
  "RetransmissionRequest_new packet = \<lparr>req = packet, attempts = 0\<rparr>"

record Datagram =
  dg_buf :: "bytes option"
  dg_len :: nat

definition Datagram_bytes :: "Datagram \<Rightarrow> bytes run" where
  "Datagram_bytes d = do {
     buf \<leftarrow> dg_buf d;
     (if dg_len d \<le> length buf then Some (take (dg_len d) buf) else panic)
   }"

text \<open>The calls on the queue of buffers and on the two channels.\<close>

datatype effect =
    Pool_Push bytes
  | Try_Send_Data Datagram
  | Try_Send_Req RetransmissionRequest

text \<open>\<open>Drop\<close>: the buffer goes back to the queue.\<close>

definition Datagram_drop :: "Datagram \<Rightarrow> effect list" where
  "Datagram_drop d = (case dg_buf d of None \<Rightarrow> [] | Some buf \<Rightarrow> [Pool_Push buf])"

text \<open>\<open>forward\<close>: a datagram that the full or closed channel refuses is dropped.\<close>

definition forward :: "bool \<Rightarrow> bytes \<Rightarrow> nat \<Rightarrow> effect list" where
  "forward sent buf len =
     (let dgram = \<lparr>dg_buf = Some buf, dg_len = len\<rparr>
      in Try_Send_Data dgram # (if sent then [] else Datagram_drop dgram))"

section \<open>Gap detection\<close>

record expectation =
  expected_session_ident :: "bytes option"
  expected_seq_num :: "u64 option"

datatype LoopAction = LoopContinue | LoopStop

definition gap_request ::
  "zerocopy \<Rightarrow> expectation \<Rightarrow> bytes \<Rightarrow> u64 \<Rightarrow> RetransmissionRequest option" where
  "gap_request z ex pkt_session pkt_seq =
     (case (expected_session_ident ex, expected_seq_num ex) of
        (Some exp_session, Some exp_seq) \<Rightarrow>
          (if exp_session = pkt_session then
             (if exp_seq < pkt_seq then
                (let gap = pkt_seq - exp_seq;
                     n = ucast (min gap 65535)
                 in Some (RetransmissionRequest_new
                      \<lparr>session = pkt_session, seq_num_f = zc_u64_new z exp_seq,
                       msg_count_f = zc_u16_new z n\<rparr>))
              else None)
           else None)
      | _ \<Rightarrow> None)"

definition process_multicast_datagram ::
  "zerocopy \<Rightarrow> bool \<Rightarrow> expectation \<Rightarrow> bytes \<Rightarrow> nat \<Rightarrow> LoopAction \<times> expectation \<times> effect list" where
  "process_multicast_datagram z sent ex buf n =
     (if n < MIN_PACKET_LEN then (LoopContinue, ex, [Pool_Push buf])
      else case Packet_parse z buf of
        None \<Rightarrow> (LoopStop, ex, [Pool_Push buf])
      | Some packet \<Rightarrow>
          (let pkt_session = Packet_session_ident_raw packet;
               pkt_seq = Packet_seq_num z packet;
               pkt_msg_count = Packet_msg_count z packet;
               reqs = (case gap_request z ex pkt_session pkt_seq of
                         None \<Rightarrow> [] | Some r \<Rightarrow> [Try_Send_Req r]);
               ex' = ex\<lparr>expected_seq_num := Some (pkt_seq + ucast pkt_msg_count),
                        expected_session_ident := Some pkt_session\<rparr>
           in (LoopContinue, ex', reqs @ forward sent buf n)))"

definition process_rereq_datagram :: "bool \<Rightarrow> bytes \<Rightarrow> nat \<Rightarrow> LoopAction \<times> effect list" where
  "process_rereq_datagram sent buf n =
     (if n < MIN_PACKET_LEN then (LoopContinue, [Pool_Push buf])
      else (LoopContinue, forward sent buf n))"

section \<open>The receive loops\<close>

text \<open>
  One turn of a loop: the buffer taken from the queue (or freshly allocated), the datagram the
  socket delivers or the error it reports, and whether the consumer's channel takes it.
  \<open>recv\<close> writes the datagram over the front of the buffer and cuts it at the buffer's end.
\<close>

record turn =
  tn_buf :: bytes
  tn_recv :: "string + bytes"
  tn_sent :: bool

definition recv_into :: "bytes \<Rightarrow> bytes \<Rightarrow> bytes \<times> nat" where
  "recv_into buf d =
     (let n = min (length d) (length buf) in (take n d @ drop n buf, n))"

fun multicast_recv_loop ::
  "zerocopy \<Rightarrow> expectation \<Rightarrow> turn list \<Rightarrow> expectation \<times> effect list" where
  "multicast_recv_loop z ex [] = (ex, [])"
| "multicast_recv_loop z ex (t # ts) =
     (case tn_recv t of
        Inl e \<Rightarrow> (ex, [Pool_Push (tn_buf t)])
      | Inr d \<Rightarrow>
          (case recv_into (tn_buf t) d of (buf, n) \<Rightarrow>
             (case process_multicast_datagram z (tn_sent t) ex buf n of
                (LoopStop, ex', effs) \<Rightarrow> (ex', effs)
              | (LoopContinue, ex', effs) \<Rightarrow>
                  (case multicast_recv_loop z ex' ts of (ex'', effs') \<Rightarrow> (ex'', effs @ effs')))))"

fun rerequest_recv_loop :: "turn list \<Rightarrow> effect list" where
  "rerequest_recv_loop [] = []"
| "rerequest_recv_loop (t # ts) =
     (case tn_recv t of
        Inl e \<Rightarrow> [Pool_Push (tn_buf t)]
      | Inr d \<Rightarrow>
          (case recv_into (tn_buf t) d of (buf, n) \<Rightarrow>
             (case process_rereq_datagram (tn_sent t) buf n of
                (LoopStop, effs) \<Rightarrow> effs
              | (LoopContinue, effs) \<Rightarrow> effs @ rerequest_recv_loop ts)))"

section \<open>The re-request senders\<close>

datatype send_effect = Send_To bytes | Requeue RetransmissionRequest

text \<open>One request taken off the channel; \<open>sent\<close> is whether \<open>send_to\<close> succeeded.\<close>

definition rereq_send :: "u8 \<Rightarrow> bool \<Rightarrow> RetransmissionRequest \<Rightarrow> send_effect list" where
  "rereq_send max_rerequest_retries sent r =
     (if max_rerequest_retries \<le> attempts r then []
      else Send_To (PacketHeader_as_bytes (req r)) #
           (if sent then [] else [Requeue \<lparr>req = req r, attempts = attempts r + 1\<rparr>]))"

text \<open>
  A request's way through the channel while every requeue is taken: the bytes handed to the
  socket, given the outcomes of the sends.  Each round uses one outcome.
\<close>

fun rereq_rounds :: "u8 \<Rightarrow> bool list \<Rightarrow> RetransmissionRequest \<Rightarrow> bytes list" where
  "rereq_rounds max_retries [] r = []"
| "rereq_rounds max_retries (sent # outcomes) r =
     (case rereq_send max_retries sent r of
        [Send_To bs, Requeue r'] \<Rightarrow> bs # rereq_rounds max_retries outcomes r'
      | [Send_To bs] \<Rightarrow> [bs]
      | _ \<Rightarrow> [])"

section \<open>The io_uring receiver\<close>

text \<open>
  \<open>recv_one\<close>: the completion carries the number of bytes, or the negated error number; the
  error is rendered by \<open>os_error\<close>.
\<close>

definition recv_one :: "(int \<Rightarrow> string) \<Rightarrow> string + int \<Rightarrow> string + nat" where
  "recv_one os_error completion =
     (case completion of
        Inl e \<Rightarrow> Inl e
      | Inr result \<Rightarrow> if result < 0 then Inl (os_error (- result)) else Inr (nat result))"

record uring_turn =
  ut_buf :: bytes
  ut_completion :: "string + int"
  ut_filled :: bytes
  ut_sent :: bool

text \<open>
  The kernel has written \<open>ut_filled\<close> over the front of the buffer when the completion
  reports its length.
\<close>

fun uring_multicast_recv_loop ::
  "(int \<Rightarrow> string) \<Rightarrow> zerocopy \<Rightarrow> expectation \<Rightarrow> uring_turn list \<Rightarrow> expectation \<times> effect list" where
  "uring_multicast_recv_loop os z ex [] = (ex, [])"
| "uring_multicast_recv_loop os z ex (t # ts) =
     (case recv_one os (ut_completion t) of
        Inl e \<Rightarrow> (ex, [Pool_Push (ut_buf t)])
      | Inr n \<Rightarrow>
          (let buf = ut_filled t @ drop (length (ut_filled t)) (ut_buf t) in
             (case process_multicast_datagram z (ut_sent t) ex buf n of
                (LoopStop, ex', effs) \<Rightarrow> (ex', effs)
              | (LoopContinue, ex', effs) \<Rightarrow>
                  (case uring_multicast_recv_loop os z ex' ts of (ex'', effs') \<Rightarrow> (ex'', effs @ effs')))))"

fun uring_rerequest_recv_loop :: "(int \<Rightarrow> string) \<Rightarrow> uring_turn list \<Rightarrow> effect list" where
  "uring_rerequest_recv_loop os [] = []"
| "uring_rerequest_recv_loop os (t # ts) =
     (case recv_one os (ut_completion t) of
        Inl e \<Rightarrow> [Pool_Push (ut_buf t)]
      | Inr n \<Rightarrow>
          (let buf = ut_filled t @ drop (length (ut_filled t)) (ut_buf t) in
             (case process_rereq_datagram (ut_sent t) buf n of
                (LoopStop, effs) \<Rightarrow> effs
              | (LoopContinue, effs) \<Rightarrow> effs @ uring_rerequest_recv_loop os ts)))"

section \<open>Socket buffers\<close>

definition RECV_BUF_SIZE :: nat where
  "RECV_BUF_SIZE = 8 * 1024 * 1024"

datatype SocketInitError =
    SetRcvBufSizeError string string nat
  | KernelClamp string nat
  | GetRcvBufSizeError string string

datatype MoldUdpError = MalformedPacket string | TruncatedMessage

fun MoldUdpError_fmt :: "MoldUdpError \<Rightarrow> string" where
  "MoldUdpError_fmt (MalformedPacket msg) = ''Malformed MoldUdp64 packet: '' @ msg @ [CHR 0x0A]"
| "MoldUdpError_fmt TruncatedMessage = ''Truncated message'' @ [CHR 0x0A]"

text \<open>\<open>dec\<close> prints a number in decimal.\<close>

fun SocketInitError_fmt :: "(nat \<Rightarrow> string) \<Rightarrow> SocketInitError \<Rightarrow> string" where
  "SocketInitError_fmt dec (SetRcvBufSizeError e l n) =
     ''failed to set `SO_RCVBUF` to '' @ dec n @ '' for '' @ l @ '' due to '' @ e @ [CHR 0x0A]"
| "SocketInitError_fmt dec (KernelClamp l n) =
     ''failed to set `SO_RCVBUF` for '' @ l @
     '' due to kernel clamp; on Linux raise net.core.rmem_max with `sudo sysctl -w net.core.rmem_max='' @
     dec n @ ''`'' @ [CHR 0x0A]"
| "SocketInitError_fmt dec (GetRcvBufSizeError e l) =
     ''failed to verify `SO_RCVBUF` for '' @ l @ '' due to '' @ e @
     ''. packets may be silently dropped'' @ [CHR 0x0A]"

text \<open>The arguments are what the two system calls answered.\<close>

definition tune_recv_buffer :: "string + unit \<Rightarrow> string + nat \<Rightarrow> string \<Rightarrow> SocketInitError + unit" where
  "tune_recv_buffer set_result get_result label =
     (case set_result of
        Inl e \<Rightarrow> Inl (SetRcvBufSizeError e label RECV_BUF_SIZE)
      | Inr _ \<Rightarrow>
          (case get_result of
             Inr actual \<Rightarrow> if actual < RECV_BUF_SIZE then Inl (KernelClamp label RECV_BUF_SIZE) else Inr ()
           | Inl e \<Rightarrow> Inl (GetRcvBufSizeError e label)))"

section \<open>Starting\<close>

text \<open>The expectation the multicast thread starts with.\<close>

definition client_start :: "string option \<Rightarrow> u64 option \<Rightarrow> expectation" where
  "client_start sess seq =
     \<lparr>expected_session_ident = map_option pad_session sess, expected_seq_num = seq\<rparr>"

end
