(* ===== verification/Mold_Server.thy ===== *)
theory Mold_Server
  imports Mold_Packet Std_Map
begin

text \<open>
  The test server of \<open>moldudp/src/server.rs\<close>.  The sender thread is a step function over
  its commands and ticks, the re-request thread one over the datagrams it receives; both
  return the packets they hand to their sockets (a failed send is only logged).  The log they
  share is the map from sequence numbers to messages.  Logging is not modelled.
\<close>

section \<open>Packets\<close>

text \<open>\<open>u16::try_from(n).expect(..)\<close>.\<close>

definition u16_try_from :: "nat \<Rightarrow> u16 run" where
  "u16_try_from n = (if n < 2 ^ 16 then Some (of_nat n) else panic)"

fun put_messages :: "bytes \<Rightarrow> bytes list \<Rightarrow> bytes run" where
  "put_messages buf [] = Some buf"
| "put_messages buf (m # ms) = do {
     len \<leftarrow> u16_try_from (length m);
     put_messages (buf @ u16_to_be len @ m) ms
   }"

definition build_packet :: "bytes \<Rightarrow> u64 \<Rightarrow> bytes list \<Rightarrow> bytes run" where
  "build_packet s q msgs = do {
     let buf = s @ u64_to_be q;
     count \<leftarrow> u16_try_from (length msgs);
     put_messages (buf @ u16_to_be count) msgs
   }"

definition build_special :: "bytes \<Rightarrow> u64 \<Rightarrow> u16 \<Rightarrow> bytes" where
  "build_special s q c = s @ u64_to_be q @ u16_to_be c"

section \<open>The log\<close>

type_synonym DB = "(u64, bytes) btree_map"

fun store_messages_from :: "DB \<Rightarrow> u64 \<Rightarrow> u64 \<Rightarrow> bytes list \<Rightarrow> DB" where
  "store_messages_from log start i [] = log"
| "store_messages_from log start i (m # ms) =
     store_messages_from (bt_insert (start + i) m log) start (i + 1) ms"

definition store_messages :: "DB \<Rightarrow> u64 \<Rightarrow> bytes list \<Rightarrow> DB" where
  "store_messages log start msgs = store_messages_from log start 0 msgs"

section \<open>Chunks\<close>

fun chunk_loop ::
  "nat \<Rightarrow> bytes list list \<Rightarrow> bytes list \<Rightarrow> nat \<Rightarrow> bytes list \<Rightarrow> bytes list list" where
  "chunk_loop limit chunks cur cur_size [] =
     (if cur \<noteq> [] then chunks @ [cur] else chunks)"
| "chunk_loop limit chunks cur cur_size (m # ms) =
     (if cur \<noteq> [] \<and> limit < cur_size + length m
      then chunk_loop limit (chunks @ [cur]) [m] (length m) ms
      else chunk_loop limit chunks (cur @ [m]) (cur_size + length m) ms)"

definition chunk_messages :: "bytes list \<Rightarrow> nat \<Rightarrow> bytes list list" where
  "chunk_messages msgs chunk_size = chunk_loop chunk_size [] [] 0 msgs"

section \<open>The sender thread\<close>

datatype ServerCommand =
    Send "bytes list"
  | SendDropped "bytes list"
  | HeartbeatCmd
  | EndOfSessionCmd
  | StopSession
  | ChangeSession string

text \<open>What \<open>recv_timeout\<close> returns.\<close>

datatype sender_event = Cmd ServerCommand | Timeout | Disconnected

record sender =
  sv_session :: bytes
  sv_log :: DB
  sv_next_seq :: u64
  sv_stopped :: bool

definition send_periodic :: "bytes \<Rightarrow> u64 \<Rightarrow> bool \<Rightarrow> bytes" where
  "send_periodic s next_seq stopped =
     (let c = (if stopped then END_OF_SESSION_IDENT else HEARTBEAT_IDENT) in build_special s next_seq c)"

text \<open>Every chunk of a \<open>Send\<close> or of a response, built with one sequence number.\<close>

fun build_chunks :: "bytes \<Rightarrow> u64 \<Rightarrow> bytes list list \<Rightarrow> bytes list run" where
  "build_chunks s q [] = Some []"
| "build_chunks s q (c # cs) = do {
     p \<leftarrow> build_packet s q c;
     ps \<leftarrow> build_chunks s q cs;
     Some (p # ps)
   }"

fun sender_command :: "nat \<Rightarrow> sender \<Rightarrow> ServerCommand \<Rightarrow> (sender \<times> bytes list) run" where
  "sender_command max_payload st (Send msgs) =
     (if sv_stopped st then Some (st, [])
      else if msgs = [] then Some (st, [])
      else do {
        let pkt_seq = sv_next_seq st;
        let st = st\<lparr>sv_log := store_messages (sv_log st) pkt_seq msgs,
                    sv_next_seq := sv_next_seq st + of_nat (length msgs)\<rparr>;
        pkts \<leftarrow> build_chunks (sv_session st) pkt_seq (chunk_messages msgs max_payload);
        Some (st, pkts)
      })"
| "sender_command max_payload st (SendDropped msgs) =
     (if sv_stopped st then Some (st, [])
      else if msgs = [] then Some (st, [])
      else Some (st\<lparr>sv_log := store_messages (sv_log st) (sv_next_seq st) msgs,
                    sv_next_seq := sv_next_seq st + of_nat (length msgs)\<rparr>, []))"
| "sender_command max_payload st HeartbeatCmd =
     Some (st, [send_periodic (sv_session st) (sv_next_seq st) (sv_stopped st)])"
| "sender_command max_payload st EndOfSessionCmd =
     Some (st, [build_special (sv_session st) (sv_next_seq st) END_OF_SESSION_IDENT])"
| "sender_command max_payload st (ChangeSession s) =
     (if sv_stopped st then Some (st, []) else Some (st\<lparr>sv_session := pad_session s\<rparr>, []))"
| "sender_command max_payload st StopSession =
     Some (if sv_stopped st then st else st\<lparr>sv_stopped := True\<rparr>, [])"

fun sender_loop :: "nat \<Rightarrow> sender \<Rightarrow> sender_event list \<Rightarrow> (sender \<times> bytes list) run" where
  "sender_loop max_payload st [] = Some (st, [])"
| "sender_loop max_payload st (Cmd c # es) = do {
     (st', pkts) \<leftarrow> sender_command max_payload st c;
     (st'', pkts') \<leftarrow> sender_loop max_payload st' es;
     Some (st'', pkts @ pkts')
   }"
| "sender_loop max_payload st (Timeout # es) = do {
     let pkt = send_periodic (sv_session st) (sv_next_seq st) (sv_stopped st);
     (st', pkts) \<leftarrow> sender_loop max_payload st es;
     Some (st', pkt # pkts)
   }"
| "sender_loop max_payload st (Disconnected # es) = Some (st, [])"

text \<open>\<open>start_with_sockets\<close>: the state the threads start from.\<close>

definition server_start :: "string \<Rightarrow> u64 \<Rightarrow> sender" where
  "server_start sess seq =
     \<lparr>sv_session = pad_session sess, sv_log = [], sv_next_seq = seq, sv_stopped = False\<rparr>"

section \<open>The re-request thread\<close>

text \<open>\<open>(0..want).map_while(|i| log.get(start_seq + i))\<close>.\<close>

fun log_run :: "DB \<Rightarrow> u64 \<Rightarrow> u64 \<Rightarrow> nat \<Rightarrow> bytes list" where
  "log_run log start i 0 = []"
| "log_run log start i (Suc n) =
     (case bt_get log (start + i) of None \<Rightarrow> [] | Some m \<Rightarrow> m # log_run log start (i + 1) n)"

text \<open>
  One datagram: \<open>recv_from\<close> into a buffer of 20 bytes keeps at most 20.  The thread has
  the session identifier it was started with.
\<close>

definition rerequest_step :: "bytes \<Rightarrow> nat \<Rightarrow> DB \<Rightarrow> bytes \<Rightarrow> bytes list run" where
  "rerequest_step s max_payload log dgram =
     (let n = min (length dgram) HEADER_LEN; buf = take HEADER_LEN dgram in
      if n < HEADER_LEN then Some []
      else if take 10 buf \<noteq> s then Some []
      else
        (let start_seq = u64_from_be (take 8 (drop 10 buf));
             want = unat (u16_from_be (take 2 (drop 18 buf)))
         in if want = 0 then Some []
            else build_chunks s start_seq (chunk_messages (log_run log start_seq 0 want) max_payload)))"

section \<open>Lemmas on packets\<close>

lemma put_messages_ok:
  "\<forall>m \<in> set ms. length m < 2 ^ 16 \<Longrightarrow> put_messages buf ms = Some (buf @ concat (map message_block ms))"
  by (induction ms arbitrary: buf) (simp_all add: u16_try_from_def message_block_def)

lemma put_messages_panic:
  "\<exists>m \<in> set ms. 2 ^ 16 \<le> length m \<Longrightarrow> put_messages buf ms = panic"
proof (induction ms arbitrary: buf)
  case (Cons m ms)
  then show ?case by (cases "length m < 2 ^ 16") (auto simp: u16_try_from_def)
qed simp

lemma build_packet_ok:
  "length ms < 2 ^ 16 \<Longrightarrow> \<forall>m \<in> set ms. length m < 2 ^ 16 \<Longrightarrow>
   build_packet s q ms = Some (packet_bytes s q (of_nat (length ms)) (concat (map message_block ms)))"
  by (simp add: build_packet_def u16_try_from_def put_messages_ok packet_bytes_def)

lemma build_packet_panic:
  "2 ^ 16 \<le> length ms \<or> (\<exists>m \<in> set ms. 2 ^ 16 \<le> length m) \<Longrightarrow> build_packet s q ms = panic"
  using put_messages_panic [of ms]
  by (cases "length ms < 2 ^ 16") (auto simp: build_packet_def u16_try_from_def)

lemma build_special_packet: "build_special s q c = packet_bytes s q c []"
  by (simp add: build_special_def packet_bytes_def)

section \<open>Lemmas on chunks\<close>

definition total_len :: "bytes list \<Rightarrow> nat" where
  "total_len ms = sum_list (map length ms)"

lemma total_len_simps [simp]:
  "total_len [] = 0" "total_len (m # ms) = length m + total_len ms"
  "total_len (ms @ ns) = total_len ms + total_len ns"
  by (simp_all add: total_len_def)

definition chunk_fits :: "nat \<Rightarrow> bytes list \<Rightarrow> bool" where
  "chunk_fits limit c \<longleftrightarrow> c \<noteq> [] \<and> (length c = 1 \<or> total_len c \<le> limit)"

lemma chunk_loop_ok:
  "\<forall>c \<in> set chunks. chunk_fits limit c \<Longrightarrow> cur = [] \<or> chunk_fits limit cur \<Longrightarrow>
   cur_size = total_len cur \<Longrightarrow>
   concat (chunk_loop limit chunks cur cur_size ms) = concat chunks @ cur @ ms \<and>
   (\<forall>c \<in> set (chunk_loop limit chunks cur cur_size ms). chunk_fits limit c)"
proof (induction ms arbitrary: chunks cur cur_size)
  case Nil
  then show ?case by (auto simp: chunk_fits_def)
next
  case (Cons m ms)
  show ?case
  proof (cases "cur \<noteq> [] \<and> limit < cur_size + length m")
    case True
    have "concat (chunk_loop limit (chunks @ [cur]) [m] (length m) ms) = concat (chunks @ [cur]) @ [m] @ ms \<and>
        (\<forall>c \<in> set (chunk_loop limit (chunks @ [cur]) [m] (length m) ms). chunk_fits limit c)"
      using True Cons.prems by (intro Cons.IH) (auto simp: chunk_fits_def)
    with True show ?thesis by simp
  next
    case False
    have "concat (chunk_loop limit chunks (cur @ [m]) (cur_size + length m) ms) = concat chunks @ (cur @ [m]) @ ms \<and>
        (\<forall>c \<in> set (chunk_loop limit chunks (cur @ [m]) (cur_size + length m) ms). chunk_fits limit c)"
      using False Cons.prems by (intro Cons.IH) (auto simp: chunk_fits_def)
    moreover have "chunk_loop limit chunks cur cur_size (m # ms) =
        chunk_loop limit chunks (cur @ [m]) (cur_size + length m) ms"
      using False by (simp only: chunk_loop.simps if_False)
    ultimately show ?thesis by simp
  qed
qed

lemma chunk_messages_ok:
  "concat (chunk_messages ms limit) = ms \<and> (\<forall>c \<in> set (chunk_messages ms limit). chunk_fits limit c)"
  using chunk_loop_ok [of "[]" limit "[]" 0 ms] by (simp add: chunk_messages_def)

lemma chunk_messages_nonempty: "chunk_messages ms limit = [] \<longleftrightarrow> ms = []"
  using chunk_messages_ok [of ms limit] by (auto simp: chunk_messages_def)

lemma chunk_loop_small:
  "cur_size = total_len cur \<Longrightarrow> total_len cur + total_len ms \<le> limit \<Longrightarrow>
   chunk_loop limit [] cur cur_size ms = (if cur @ ms = [] then [] else [cur @ ms])"
proof (induction ms arbitrary: cur cur_size)
  case (Cons m ms)
  then have "chunk_loop limit [] (cur @ [m]) (cur_size + length m) ms =
      (if (cur @ [m]) @ ms = [] then [] else [(cur @ [m]) @ ms])"
    by (intro Cons.IH) simp_all
  with Cons.prems show ?case by simp
qed simp

lemma chunk_messages_small:
  "total_len ms \<le> limit \<Longrightarrow> chunk_messages ms limit = (if ms = [] then [] else [ms])"
  using chunk_loop_small [of 0 "[]" ms limit] by (simp add: chunk_messages_def)

lemma chunk_of_messages: "c \<in> set (chunk_messages ms limit) \<Longrightarrow> set c \<subseteq> set ms"
  using chunk_messages_ok [of ms limit] by (metis UN_upper set_concat)

lemma chunk_length: "c \<in> set (chunk_messages ms limit) \<Longrightarrow> length c \<le> length ms"
proof -
  assume c: "c \<in> set (chunk_messages ms limit)"
  then obtain xs ys where "chunk_messages ms limit = xs @ c # ys" by (meson split_list)
  then have "ms = concat xs @ c @ concat ys" using chunk_messages_ok [of ms limit] by simp
  then show ?thesis by simp
qed

lemma build_chunks_ok:
  "\<forall>c \<in> set cs. length c < 2 ^ 16 \<and> (\<forall>m \<in> set c. length m < 2 ^ 16) \<Longrightarrow>
   build_chunks s q cs =
     Some (map (\<lambda>c. packet_bytes s q (of_nat (length c)) (concat (map message_block c))) cs)"
  by (induction cs) (auto simp: build_packet_ok)

section \<open>Lemmas on the log\<close>

lemma unat_u64_of_nat: "k < 2 ^ 64 \<Longrightarrow> unat (of_nat k :: u64) = k"
  by (simp add: unat_of_nat)

lemma store_messages_from_ok:
  assumes k: "k < 2 ^ 64"
  shows "bt_valid log \<Longrightarrow> unat i + length ms < 2 ^ 64 \<Longrightarrow>
   bt_valid (store_messages_from log start i ms) \<and>
   bt_get (store_messages_from log start i ms) (start + of_nat k) =
     (if unat i \<le> k \<and> k < unat i + length ms then Some (ms ! (k - unat i))
      else bt_get log (start + of_nat k))"
proof (induction ms arbitrary: log i)
  case Nil
  then show ?case by auto
next
  case (Cons m ms)
  have i1: "unat (i + 1) = unat i + 1" using Cons.prems(2) by (subst unat_add_no_overflow) simp_all
  have v: "bt_valid (bt_insert (start + i) m log)" by (rule bt.valid_insert [OF Cons.prems(1)])
  have le: "unat (i + 1) + length ms < 2 ^ 64" using Cons.prems(2) i1 by simp
  have "start + of_nat k = start + i \<longleftrightarrow> k = unat i"
    using unat_u64_of_nat [OF k] by auto
  then have "bt_get (bt_insert (start + i) m log) (start + of_nat k) =
      (if k = unat i then Some m else bt_get log (start + of_nat k))"
    by (simp only: bt.get_insert [OF Cons.prems(1)])
  with Cons.IH [OF v le] i1 show ?case by (auto simp: nth_Cons')
qed

lemma store_messages_ok:
  assumes "bt_valid log" and "length ms < 2 ^ 64"
  shows "bt_valid (store_messages log start ms)"
    and "k < 2 ^ 64 \<Longrightarrow> bt_get (store_messages log start ms) (start + of_nat k) =
      (if k < length ms then Some (ms ! k) else bt_get log (start + of_nat k))"
  using store_messages_from_ok [of k log 0 ms start] store_messages_from_ok [of 0 log 0 ms start] assms
  by (simp_all add: store_messages_def)

lemma log_run_prefix:
  "(\<And>k. k < length ms \<Longrightarrow> bt_get log (start + i + of_nat k) = Some (ms ! k)) \<Longrightarrow>
   n = length ms \<or> length ms < n \<and> bt_get log (start + i + of_nat (length ms)) = None \<Longrightarrow>
   log_run log start i n = ms"
proof (induction ms arbitrary: i n)
  case Nil
  then show ?case by (cases n) auto
next
  case (Cons m ms)
  then obtain n' where n: "n = Suc n'" by (cases n) auto
  have "bt_get log (start + i) = Some m" using Cons.prems(1) [of 0] by simp
  moreover have "log_run log start (i + 1) n' = ms"
  proof (rule Cons.IH)
    show "bt_get log (start + (i + 1) + of_nat k) = Some (ms ! k)" if "k < length ms" for k
      using Cons.prems(1) [of "Suc k"] that by (simp add: add.assoc)
    show "n' = length ms \<or> length ms < n' \<and> bt_get log (start + (i + 1) + of_nat (length ms)) = None"
      using Cons.prems(2) n by (auto simp: add.assoc)
  qed
  ultimately show ?case by (simp add: n)
qed

lemma length_log_run: "length (log_run log start i n) \<le> n"
  by (induction n arbitrary: i) (auto split: option.split)

end
