(* ===== verification/Server_Props.thy ===== *)
theory Server_Props
  imports Mold_Server
begin

text \<open>
  What the server promises over a run of its sender thread: the log holds exactly the accepted
  messages, numbered without holes, and re-requests are answered from it.
\<close>

section \<open>Reading the packets a server sends\<close>

definition packet_info :: "zerocopy \<Rightarrow> bytes \<Rightarrow> (bytes \<times> u64 \<times> PacketKind \<times> bytes list) option" where
  "packet_info z bs =
     map_option (\<lambda>p. (Packet_session_ident_raw p, Packet_seq_num z p, Packet_packet_kind z p, Packet_data z p))
       (Packet_parse z bs)"

lemma packet_info_data:
  assumes "zerocopy_ok z" and "length s = 10" and "0 < length ds" and "length ds < 65535"
    and "\<forall>d \<in> set ds. length d < 2 ^ 16"
  shows "packet_info z (packet_bytes s q (of_nat (length ds)) (concat (map message_block ds))) =
    Some (s, q, Standard, ds)"
  using packet_roundtrip [OF assms, of q] by (auto simp: packet_info_def)

lemma packet_info_special:
  assumes "zerocopy_ok z" and "length s = 10" and "c = HEARTBEAT_IDENT \<or> c = END_OF_SESSION_IDENT"
  shows "packet_info z (build_special s q c) =
    Some (s, q, if c = HEARTBEAT_IDENT then Heartbeat else EndOfSession, [])"
proof -
  let ?p = "\<lparr>header = \<lparr>session = s, seq_num_f = u64_to_be q, msg_count_f = u16_to_be c\<rparr>, messages = []\<rparr>"
  have e: "END_OF_SESSION_IDENT \<noteq> HEARTBEAT_IDENT"
    by (simp add: END_OF_SESSION_IDENT_def HEARTBEAT_IDENT_def)
  note f = packet_fields [OF assms(1) refl, of s q c "[]"]
  have "Packet_data z ?p = []"
    using special_packet_data [OF assms(1), of ?p] assms(3) f(3) by (auto simp: HEARTBEAT_IDENT_def)
  moreover have "Packet_packet_kind z ?p = (if c = HEARTBEAT_IDENT then Heartbeat else EndOfSession)"
    using assms(3) f(3) by (auto simp: Packet_packet_kind_def Let_def)
  moreover have "Packet_parse z (build_special s q c) = Some ?p"
    unfolding build_special_packet by (rule Packet_parse_bytes [OF assms(1,2)])
  ultimately show ?thesis using f by (simp add: packet_info_def)
qed

section \<open>Well-formed runs\<close>

text \<open>Batches and messages that fit the 16-bit counts of a packet.\<close>

definition batch_ok :: "bytes list \<Rightarrow> bool" where
  "batch_ok ms \<longleftrightarrow> length ms < 65535 \<and> (\<forall>m \<in> set ms. length m < 2 ^ 16)"

fun event_ok :: "sender_event \<Rightarrow> bool" where
  "event_ok (Cmd (Send ms)) = batch_ok ms"
| "event_ok (Cmd (SendDropped ms)) = batch_ok ms"
| "event_ok _ = True"

text \<open>The messages a run accepts, in order.\<close>

fun accepted_by :: "bool \<Rightarrow> ServerCommand \<Rightarrow> bytes list" where
  "accepted_by stopped (Send ms) = (if stopped then [] else ms)"
| "accepted_by stopped (SendDropped ms) = (if stopped then [] else ms)"
| "accepted_by stopped _ = []"

fun accepted_messages :: "bool \<Rightarrow> sender_event list \<Rightarrow> bytes list" where
  "accepted_messages stopped [] = []"
| "accepted_messages stopped (Disconnected # es) = []"
| "accepted_messages stopped (Timeout # es) = accepted_messages stopped es"
| "accepted_messages stopped (Cmd c # es) =
     accepted_by stopped c @ accepted_messages (stopped \<or> c = StopSession) es"

lemma batch_chunks:
  assumes "batch_ok ms" and "c \<in> set (chunk_messages ms limit)"
  shows "0 < length c" and "length c < 65535" and "\<forall>m \<in> set c. length m < 2 ^ 16"
proof -
  show "0 < length c" using assms(2) chunk_messages_ok [of ms limit] by (auto simp: chunk_fits_def)
  show "length c < 65535" using assms chunk_length [OF assms(2)] by (simp add: batch_ok_def)
  show "\<forall>m \<in> set c. length m < 2 ^ 16"
    using assms(1) chunk_of_messages [OF assms(2)] by (auto simp: batch_ok_def)
qed

lemma build_batch:
  assumes "batch_ok ms"
  shows "build_chunks s q (chunk_messages ms limit) =
    Some (map (\<lambda>c. packet_bytes s q (of_nat (length c)) (concat (map message_block c))) (chunk_messages ms limit))"
proof (rule build_chunks_ok, rule ballI)
  fix c assume "c \<in> set (chunk_messages ms limit)"
  from batch_chunks [OF assms this]
  show "length c < 2 ^ 16 \<and> (\<forall>m \<in> set c. length m < 2 ^ 16)" by simp
qed

lemma info_batch:
  assumes "zerocopy_ok z" and "length s = 10" and "batch_ok ms"
  shows "map (packet_info z)
      (map (\<lambda>c. packet_bytes s q (of_nat (length c)) (concat (map message_block c))) (chunk_messages ms limit)) =
    map (\<lambda>c. Some (s, q, Standard, c)) (chunk_messages ms limit)"
  using batch_chunks [OF assms(3)] by (auto intro!: packet_info_data [OF assms(1,2)])

section \<open>The log\<close>

text \<open>The log holds the messages \<open>acc\<close>, numbered from \<open>seq0\<close>, and nothing else.\<close>

definition log_holds :: "sender \<Rightarrow> u64 \<Rightarrow> bytes list \<Rightarrow> bool" where
  "log_holds st seq0 acc \<longleftrightarrow>
     bt_valid (sv_log st) \<and> length acc < 2 ^ 64 \<and> sv_next_seq st = seq0 + of_nat (length acc) \<and>
     (\<forall>k < 2 ^ 64. bt_get (sv_log st) (seq0 + of_nat k) = (if k < length acc then Some (acc ! k) else None))"

lemma log_holds_start: "log_holds (server_start s seq0) seq0 []"
  by (simp add: log_holds_def server_start_def bt.valid_empty bt.get_empty)

lemma log_holds_store:
  assumes "log_holds st seq0 acc" and "length acc + length ms < 2 ^ 64"
  shows "log_holds (st\<lparr>sv_log := store_messages (sv_log st) (sv_next_seq st) ms,
      sv_next_seq := sv_next_seq st + of_nat (length ms)\<rparr>) seq0 (acc @ ms)"
proof -
  let ?n = "length acc" and ?log = "store_messages (sv_log st) (sv_next_seq st) ms"
  from assms(1) have v: "bt_valid (sv_log st)" and nx: "sv_next_seq st = seq0 + of_nat ?n"
    and get: "\<And>k. k < 2 ^ 64 \<Longrightarrow> bt_get (sv_log st) (seq0 + of_nat k) = (if k < ?n then Some (acc ! k) else None)"
    by (simp_all add: log_holds_def)
  have ms: "length ms < 2 ^ 64" using assms(2) by simp
  have "bt_get ?log (seq0 + of_nat k) = (if k < length (acc @ ms) then Some ((acc @ ms) ! k) else None)"
    if k: "k < 2 ^ 64" for k
  proof (cases "?n \<le> k")
    case True
    then have eq: "seq0 + of_nat k = sv_next_seq st + of_nat (k - ?n)" by (simp add: nx of_nat_diff)
    have kn: "k - ?n < 2 ^ 64" using k by simp
    have "bt_get ?log (seq0 + of_nat k) =
        (if k - ?n < length ms then Some (ms ! (k - ?n)) else bt_get (sv_log st) (seq0 + of_nat k))"
      unfolding eq by (rule store_messages_ok(2) [OF v ms kn])
    with get [OF k] True show ?thesis by (auto simp: nth_append)
  next
    case False
    have kn: "k + 2 ^ 64 - ?n < 2 ^ 64" using False k by linarith
    have "(of_nat (k + 2 ^ 64 - ?n) :: u64) = of_nat (k + 2 ^ 64) - of_nat ?n"
      using assms(2) by (intro of_nat_diff) linarith
    also have "\<dots> = of_nat k - of_nat ?n"
      by (simp only: of_nat_add) simp
    finally have eq: "seq0 + of_nat k = sv_next_seq st + of_nat (k + 2 ^ 64 - ?n)" by (simp add: nx)
    have "\<not> k + 2 ^ 64 - ?n < length ms" using assms(2) by linarith
    then have "bt_get ?log (seq0 + of_nat k) = bt_get (sv_log st) (seq0 + of_nat k)"
      unfolding eq by (simp only: store_messages_ok(2) [OF v ms kn] if_False)
    with get [OF k] False show ?thesis by (simp add: nth_append)
  qed
  with store_messages_ok(1) [OF v ms, of "sv_next_seq st"] assms(2) nx show ?thesis
    by (simp add: log_holds_def add.assoc)
qed

lemma sender_command_log:
  assumes "event_ok (Cmd c)" and l: "log_holds st seq0 acc"
    and "length acc + length (accepted_by (sv_stopped st) c) < 2 ^ 64"
  shows "\<exists>st' pkts. sender_command limit st c = Some (st', pkts) \<and>
    log_holds st' seq0 (acc @ accepted_by (sv_stopped st) c) \<and>
    sv_stopped st' = (sv_stopped st \<or> c = StopSession)"
proof (cases c)
  case (Send ms)
  then show ?thesis
    using assms log_holds_store [OF l, of ms] build_batch [of ms]
    by (cases "sv_stopped st"; cases "ms = []") (simp_all add: Let_def)
next
  case (SendDropped ms)
  then show ?thesis
    using assms log_holds_store [OF l, of ms]
    by (cases "sv_stopped st"; cases "ms = []") simp_all
qed (use l in \<open>simp_all add: log_holds_def\<close>)

lemma sender_run_log:
  assumes "\<forall>e \<in> set es. event_ok e" and "log_holds st seq0 acc"
    and "length acc + length (accepted_messages (sv_stopped st) es) < 2 ^ 64"
  shows "\<exists>st' pkts. sender_loop limit st es = Some (st', pkts) \<and>
    log_holds st' seq0 (acc @ accepted_messages (sv_stopped st) es)"
  using assms
proof (induction es arbitrary: st acc)
  case Nil
  then show ?case by simp
next
  case (Cons e es)
  show ?case
  proof (cases e)
    case (Cmd c)
    with Cons.prems sender_command_log [of c st seq0 acc limit] obtain st1 ps where
      c: "sender_command limit st c = Some (st1, ps)"
        "log_holds st1 seq0 (acc @ accepted_by (sv_stopped st) c)"
        "sv_stopped st1 = (sv_stopped st \<or> c = StopSession)" by auto
    have "\<exists>st' pkts. sender_loop limit st1 es = Some (st', pkts) \<and>
        log_holds st' seq0 ((acc @ accepted_by (sv_stopped st) c) @ accepted_messages (sv_stopped st1) es)"
      using Cons.prems Cmd c(3) by (intro Cons.IH c(2)) simp_all
    with Cmd c(1,3) show ?thesis by auto
  next
    case Timeout
    have "\<exists>st' pkts. sender_loop limit st es = Some (st', pkts) \<and>
        log_holds st' seq0 (acc @ accepted_messages (sv_stopped st) es)"
      using Cons.prems Timeout by (intro Cons.IH) simp_all
    with Timeout show ?thesis by auto
  next
    case Disconnected
    with Cons.prems show ?thesis by simp
  qed
qed

section \<open>Re-requests\<close>

text \<open>The request a client sends: a header with the start and the number of the wanted messages.\<close>

definition request_bytes :: "bytes \<Rightarrow> u64 \<Rightarrow> u16 \<Rightarrow> bytes" where
  "request_bytes s q n = packet_bytes s q n []"

lemma request_fields:
  assumes "length s = 10"
  shows "take 10 (request_bytes s q n) = s" and "length (request_bytes s q n) = HEADER_LEN"
    and "u64_from_be (take 8 (drop 10 (request_bytes s q n))) = q"
    and "u16_from_be (take 2 (drop 18 (request_bytes s q n))) = n"
  using assms by (simp_all add: request_bytes_def packet_bytes_def HEADER_LEN_def)

lemma log_run_holds:
  assumes l: "log_holds st seq0 acc" and k: "k \<le> length acc" and n: "n < 2 ^ 16" "length acc + 2 ^ 16 < 2 ^ 64"
  shows "log_run (sv_log st) (seq0 + of_nat k) 0 n = take n (drop k acc)"
proof (rule log_run_prefix)
  have get: "bt_get (sv_log st) (seq0 + of_nat j) = (if j < length acc then Some (acc ! j) else None)"
    if "j < 2 ^ 64" for j
    using l that by (simp add: log_holds_def)
  show "bt_get (sv_log st) (seq0 + of_nat k + 0 + of_nat j) = Some (take n (drop k acc) ! j)"
    if "j < length (take n (drop k acc))" for j
  proof -
    have "j < length acc - k" "j < n" using that by simp_all
    then have "k + j < length acc" "j < n" by linarith+
    with get [of "k + j"] n show ?thesis by (simp add: add.assoc)
  qed
  show "n = length (take n (drop k acc)) \<or> length (take n (drop k acc)) < n \<and>
      bt_get (sv_log st) (seq0 + of_nat k + 0 + of_nat (length (take n (drop k acc)))) = None"
  proof (cases "n \<le> length acc - k")
    case False
    then have "length (take n (drop k acc)) = length acc - k" by simp
    with get [of "k + (length acc - k)"] False n k show ?thesis by (auto simp: add.assoc of_nat_diff)
  qed simp
qed

lemma rerequest_packets:
  assumes s: "length s = 10" and l: "log_holds st seq0 acc"
    and ok: "\<forall>m \<in> set acc. length m < 2 ^ 16" and k: "k \<le> length acc"
    and n: "n \<noteq> 0" "unat n < 65535" and big: "length acc + 2 ^ 16 < 2 ^ 64"
  shows "batch_ok (take (unat n) (drop k acc))"
    and "rerequest_step s limit (sv_log st) (request_bytes s (seq0 + of_nat k) n) =
      Some (map (\<lambda>c. packet_bytes s (seq0 + of_nat k) (of_nat (length c)) (concat (map message_block c)))
        (chunk_messages (take (unat n) (drop k acc)) limit))"
proof -
  let ?ms = "take (unat n) (drop k acc)"
  have run: "log_run (sv_log st) (seq0 + of_nat k) 0 (unat n) = ?ms"
    using log_run_holds [OF l k, of "unat n"] n big by simp
  show b: "batch_ok ?ms" using ok n by (auto simp: batch_ok_def dest: in_set_takeD in_set_dropD)
  have un: "unat n \<noteq> 0" using n(1) by (simp add: unat_eq_zero)
  note f = request_fields [OF s, of "seq0 + of_nat k" n]
  have t: "take HEADER_LEN (request_bytes s (seq0 + of_nat k) n) = request_bytes s (seq0 + of_nat k) n"
    using f(2) by simp
  have "rerequest_step s limit (sv_log st) (request_bytes s (seq0 + of_nat k) n) =
      build_chunks s (seq0 + of_nat k) (chunk_messages ?ms limit)"
    using un run by (simp add: rerequest_step_def Let_def t f)
  with build_batch [OF b] show "rerequest_step s limit (sv_log st) (request_bytes s (seq0 + of_nat k) n) =
      Some (map (\<lambda>c. packet_bytes s (seq0 + of_nat k) (of_nat (length c)) (concat (map message_block c)))
        (chunk_messages ?ms limit))" by simp
qed

lemma rerequest_answer:
  assumes z: "zerocopy_ok z" and s: "length s = 10" and l: "log_holds st seq0 acc"
    and ok: "\<forall>m \<in> set acc. length m < 2 ^ 16" and k: "k \<le> length acc"
    and n: "n \<noteq> 0" "unat n < 65535" and big: "length acc + 2 ^ 16 < 2 ^ 64"
  shows "\<exists>pkts. rerequest_step s limit (sv_log st) (request_bytes s (seq0 + of_nat k) n) = Some pkts \<and>
    map (packet_info z) pkts =
      map (\<lambda>c. Some (s, seq0 + of_nat k, Standard, c)) (chunk_messages (take (unat n) (drop k acc)) limit)"
  using rerequest_packets(2) [OF s l ok k n big, of limit] info_batch [OF z s rerequest_packets(1) [OF s l ok k n big]] by simp

lemma concat_chunks: "concat (chunk_messages ms limit) = ms"
  using chunk_messages_ok by blast

end
