(* ===== verification/Client_Props.thy ===== *)
theory Client_Props
  imports Mold_Client Server_Props
begin

text \<open>What the receiver promises: gap detection, forwarding, and the io_uring variant.\<close>

section \<open>Receiving a packet\<close>

lemma packet_bytes_length: "length s = 10 \<Longrightarrow> length (packet_bytes s q c body) = 20 + length body"
  by (simp add: packet_bytes_def)

lemma packet_bytes_append: "packet_bytes s q c body @ rest = packet_bytes s q c (body @ rest)"
  by (simp add: packet_bytes_def)

lemma recv_into_fits:
  "length d \<le> length buf \<Longrightarrow> recv_into buf d = (d @ drop (length d) buf, length d)"
  by (simp add: recv_into_def min_def Let_def)

text \<open>A whole packet in the buffer: the header decides, whatever stale bytes follow.\<close>

lemma process_packet:
  assumes z: "zerocopy_ok z" and s: "length s = 10"
    and "recv_into buf (packet_bytes s q c body) = (buf', n)"
    and "length (packet_bytes s q c body) \<le> length buf"
  shows "process_multicast_datagram z sent ex buf' n =
    (LoopContinue,
     ex\<lparr>expected_seq_num := Some (q + ucast c), expected_session_ident := Some s\<rparr>,
     (case gap_request z ex s q of None \<Rightarrow> [] | Some r \<Rightarrow> [Try_Send_Req r]) @ forward sent buf' n)"
proof -
  from assms(3) have b: "buf' = packet_bytes s q c (body @ drop n buf)" "n = 20 + length body"
    using recv_into_fits [OF assms(4)] packet_bytes_length [OF s]
    by (auto simp: packet_bytes_append)
  note f = packet_fields [OF z refl, of s q c "body @ drop n buf"]
  show ?thesis
    using b(2) f
    by (simp add: process_multicast_datagram_def MIN_PACKET_LEN_def b(1) Packet_parse_bytes [OF z s]
        Let_def)
qed

section \<open>Gaps\<close>

text \<open>The numbers a request asks for.\<close>

definition req_range :: "RetransmissionRequest \<Rightarrow> nat set" where
  "req_range r =
     {unat (u64_from_be (seq_num_f (req r))) ..<
      unat (u64_from_be (seq_num_f (req r))) + unat (u16_from_be (msg_count_f (req r)))}"

fun requested :: "effect list \<Rightarrow> nat set" where
  "requested [] = {}"
| "requested (Try_Send_Req r # es) = req_range r \<union> requested es"
| "requested (_ # es) = requested es"

lemma requested_append [simp]: "requested (es @ fs) = requested es \<union> requested fs"
  by (induction es rule: requested.induct) auto

lemma requested_forward [simp]: "requested (forward sent buf n) = {}"
  by (simp add: forward_def Datagram_drop_def Let_def)

lemma unat_min_u16: "unat (ucast (min (w :: u64) 65535) :: u16) = min (unat w) 65535"
proof -
  have m: "unat (min w 65535) = min (unat w) 65535" by (simp add: min_def word_le_nat_alt)
  have "min (unat w) 65535 < 2 ^ 16" by simp
  then show ?thesis by (simp add: unsigned_ucast_eq take_bit_nat_eq_self m)
qed

lemma gap_request_range:
  assumes z: "zerocopy_ok z" and "expected_session_ident ex = Some s" and "expected_seq_num ex = Some e"
  shows "gap_request z ex s q =
    (if e < q then Some (RetransmissionRequest_new
       \<lparr>session = s, seq_num_f = u64_to_be e, msg_count_f = u16_to_be (ucast (min (q - e) 65535))\<rparr>)
     else None)"
  using assms by (simp add: gap_request_def zc_new Let_def)

lemma req_range_gap:
  assumes "e \<le> q"
  shows "req_range (RetransmissionRequest_new
      \<lparr>session = s, seq_num_f = u64_to_be e, msg_count_f = u16_to_be (ucast (min (q - e) 65535))\<rparr>) =
    {unat e ..< unat e + min (unat q - unat e) 65535}"
proof -
  have "unat (q - e) = unat q - unat e" using assms by (simp add: unat_sub_le word_le_nat_alt)
  then show ?thesis by (simp add: req_range_def RetransmissionRequest_new_def unat_min_u16)
qed

text \<open>
  Packets of one session as pairs of first number and count, each at or after what is
  expected, no gap beyond the 16-bit count of a request.
\<close>

fun in_order :: "nat \<Rightarrow> (nat \<times> nat) list \<Rightarrow> bool" where
  "in_order e [] = True"
| "in_order e ((q, c) # ps) \<longleftrightarrow>
     e \<le> q \<and> q - e \<le> 65535 \<and> c < 65535 \<and> q + c < 2 ^ 64 \<and> in_order (q + c) ps"

fun end_of :: "nat \<Rightarrow> (nat \<times> nat) list \<Rightarrow> nat" where
  "end_of e [] = e"
| "end_of e ((q, c) # ps) = end_of (q + c) ps"

definition live :: "(nat \<times> nat) list \<Rightarrow> nat set" where
  "live ps = (\<Union>(q, c) \<in> set ps. {q ..< q + c})"

lemma live_simps [simp]: "live [] = {}" "live ((q, c) # ps) = {q ..< q + c} \<union> live ps"
  by (simp_all add: live_def)

lemma in_order_bounds: "in_order e ps \<Longrightarrow> e \<le> end_of e ps \<and> (\<forall>i \<in> live ps. e \<le> i)"
  by (induction e ps rule: in_order.induct) fastforce+

definition packet_turn :: "bytes \<Rightarrow> turn \<Rightarrow> nat \<times> nat \<Rightarrow> bool" where
  "packet_turn s t p \<longleftrightarrow>
     (\<exists>body. tn_recv t = Inr (packet_bytes s (of_nat (fst p)) (of_nat (snd p)) body) \<and>
        20 + length body \<le> length (tn_buf t))"

definition locked :: "bytes \<Rightarrow> nat \<Rightarrow> expectation" where
  "locked s e = \<lparr>expected_session_ident = Some s, expected_seq_num = Some (of_nat e)\<rparr>"

lemma loop_packet:
  assumes z: "zerocopy_ok z" and s: "length s = 10" and t: "packet_turn s t (q, c)" and c: "c < 65535"
  shows "\<exists>buf n. multicast_recv_loop z ex (t # ts) =
    (case multicast_recv_loop z \<lparr>expected_session_ident = Some s, expected_seq_num = Some (of_nat (q + c))\<rparr> ts of
       (ex', effs) \<Rightarrow>
         (ex', ((case gap_request z ex s (of_nat q) of None \<Rightarrow> [] | Some r \<Rightarrow> [Try_Send_Req r]) @
           forward (tn_sent t) buf n) @ effs))"
proof -
  from t obtain body where r: "tn_recv t = Inr (packet_bytes s (of_nat q) (of_nat c) body)"
    and le: "length (packet_bytes s (of_nat q) (of_nat c) body) \<le> length (tn_buf t)"
    by (auto simp: packet_turn_def packet_bytes_length [OF s])
  obtain buf n where b: "recv_into (tn_buf t) (packet_bytes s (of_nat q) (of_nat c) body) = (buf, n)"
    by (cases "recv_into (tn_buf t) (packet_bytes s (of_nat q) (of_nat c) body)")
  have "(ucast (of_nat c :: u16) :: u64) = of_nat c"
    using c by (simp add: word_unat_eq_iff unsigned_ucast_eq unat_of_nat take_bit_nat_eq_self)
  then show ?thesis
    using process_packet [OF z s b le, of "tn_sent t" ex]
    by (intro exI [of _ buf] exI [of _ n]) (cases ex, simp add: r b case_prod_beta)
qed

lemma gap_detection:
  assumes z: "zerocopy_ok z" and s: "length s = 10"
  shows "in_order e ps \<Longrightarrow> e < 2 ^ 64 \<Longrightarrow> list_all2 (packet_turn s) ts ps \<Longrightarrow>
    \<exists>effs. multicast_recv_loop z (locked s e) ts = (locked s (end_of e ps), effs) \<and>
      requested effs \<union> live ps = {e ..< end_of e ps} \<and> requested effs \<inter> live ps = {}"
proof (induction e ps arbitrary: ts rule: in_order.induct)
  case (1 e)
  then show ?case by simp
next
  case (2 e q c ps)
  from 2(4) obtain t ts' where ts: "ts = t # ts'" "packet_turn s t (q, c)" "list_all2 (packet_turn s) ts' ps"
    by (cases ts) auto
  from 2(2) have o: "e \<le> q" "q - e \<le> 65535" "c < 65535" "q + c < 2 ^ 64" "in_order (q + c) ps" by simp_all
  obtain effs where ih: "multicast_recv_loop z (locked s (q + c)) ts' = (locked s (end_of (q + c) ps), effs)"
    "requested effs \<union> live ps = {q + c ..< end_of (q + c) ps}" "requested effs \<inter> live ps = {}"
    using 2(1) [OF o(5,4) ts(3)] by blast
  let ?r = "case gap_request z (locked s e) s (of_nat q) of None \<Rightarrow> [] | Some r \<Rightarrow> [Try_Send_Req r]"
  obtain buf n where step: "multicast_recv_loop z (locked s e) ts =
      (locked s (end_of (q + c) ps), (?r @ forward (tn_sent t) buf n) @ effs)"
    using loop_packet [OF z s ts(2) o(3), of "locked s e" ts'] ih(1) ts(1)
    by (auto simp: locked_def)
  have u: "unat (of_nat e :: u64) = e" "unat (of_nat q :: u64) = q"
    using 2(3) o by (simp_all add: unat_u64_of_nat)
  have gap: "requested ?r = {e ..< q}"
  proof (cases "e < q")
    case True
    then have "(of_nat e :: u64) < of_nat q" by (simp add: word_less_nat_alt u)
    then show ?thesis
      using gap_request_range [OF z, of "locked s e" s "of_nat e" "of_nat q"]
        req_range_gap [of "of_nat e" "of_nat q" s] o u
      by (simp add: locked_def)
  next
    case False
    then have "\<not> (of_nat e :: u64) < of_nat q" by (simp add: word_less_nat_alt u)
    then show ?thesis
      using False gap_request_range [OF z, of "locked s e" s "of_nat e" "of_nat q"] by (simp add: locked_def)
  qed
  have all: "requested ((?r @ forward (tn_sent t) buf n) @ effs) = {e ..< q} \<union> requested effs"
    by (simp only: requested_append requested_forward gap) simp
  have le: "q + c \<le> end_of (q + c) ps" and lo: "\<forall>i \<in> live ps. q + c \<le> i"
    using in_order_bounds [OF o(5)] by auto
  have lo': "\<forall>i \<in> requested effs. q + c \<le> i" using ih(2) by (metis Un_iff atLeastLessThan_iff)
  have "({e ..< q} \<union> requested effs) \<union> live ((q, c) # ps) =
      ({e ..< q} \<union> {q ..< q + c}) \<union> (requested effs \<union> live ps)" by auto
  also have "\<dots> = {e ..< end_of (q + c) ps}"
    using ih(2) le o(1) by (simp add: ivl_disj_un_two(3))
  finally have un: "({e ..< q} \<union> requested effs) \<union> live ((q, c) # ps) = {e ..< end_of e ((q, c) # ps)}" by simp
  have "({e ..< q} \<union> requested effs) \<inter> live ((q, c) # ps) = {}"
    using lo lo' ih(3) by fastforce
  with un step all show ?case by simp
qed

section \<open>Forwarding\<close>

fun forwarded :: "effect list \<Rightarrow> bytes list" where
  "forwarded [] = []"
| "forwarded (Try_Send_Data d # es) =
     (case Datagram_bytes d of None \<Rightarrow> [] | Some bs \<Rightarrow> [bs]) @ forwarded es"
| "forwarded (_ # es) = forwarded es"

lemma forwarded_append [simp]: "forwarded (es @ fs) = forwarded es @ forwarded fs"
  by (induction es rule: forwarded.induct) auto

lemma forwarded_forward:
  "n \<le> length buf \<Longrightarrow> forwarded (forward sent buf n) = [take n buf]"
  by (simp add: forward_def Datagram_drop_def Datagram_bytes_def Let_def)

lemma recv_into_props:
  assumes "recv_into buf d = (buf', n)"
  shows "length buf' = length buf" and "n = min (length d) (length buf)" and "take n buf' = take (length buf) d"
  using assms by (auto simp: recv_into_def Let_def min_def)

definition received :: "turn \<Rightarrow> bytes" where
  "received t = (case tn_recv t of Inl _ \<Rightarrow> [] | Inr d \<Rightarrow> take (length (tn_buf t)) d)"

lemma process_forwards:
  assumes z: "zerocopy_ok z" and b: "recv_into buf d = (buf', n)" and len: "20 \<le> length buf"
  shows "\<exists>ex' effs. process_multicast_datagram z sent ex buf' n = (LoopContinue, ex', effs) \<and>
    forwarded effs = (if 20 \<le> length d then [take (length buf) d] else [])"
proof (cases "20 \<le> length d")
  case True
  note p = recv_into_props [OF b]
  have "HEADER_LEN \<le> length buf'" using p(1) len by (simp add: HEADER_LEN_def)
  then obtain pkt where "Packet_parse z buf' = Some pkt"
    by (auto simp: Packet_parse_def zc_dst [OF z] split_at_checked_def)
  moreover have "\<not> n < MIN_PACKET_LEN" using True len p(2) by (simp add: MIN_PACKET_LEN_def)
  moreover have "forwarded (case gap_request z ex s q of None \<Rightarrow> [] | Some r \<Rightarrow> [Try_Send_Req r]) = []" for s q
    by (simp split: option.split)
  ultimately show ?thesis
    using True p by (simp add: process_multicast_datagram_def Let_def forwarded_forward)
next
  case False
  then have "n < MIN_PACKET_LEN" using recv_into_props [OF b] by (simp add: MIN_PACKET_LEN_def)
  with False show ?thesis by (simp add: process_multicast_datagram_def)
qed

lemma loop_forwards:
  assumes z: "zerocopy_ok z"
  shows "\<forall>t \<in> set ts. 20 \<le> length (tn_buf t) \<and> (\<exists>d. tn_recv t = Inr d) \<Longrightarrow>
    forwarded (snd (multicast_recv_loop z ex ts)) = filter (\<lambda>d. 20 \<le> length d) (map received ts)"
proof (induction ts arbitrary: ex)
  case (Cons t ts)
  then obtain d where d: "tn_recv t = Inr d" "20 \<le> length (tn_buf t)" by auto
  obtain buf n where b: "recv_into (tn_buf t) d = (buf, n)" by (cases "recv_into (tn_buf t) d")
  obtain ex' effs where p: "process_multicast_datagram z (tn_sent t) ex buf n = (LoopContinue, ex', effs)"
    "forwarded effs = (if 20 \<le> length d then [take (length (tn_buf t)) d] else [])"
    using process_forwards [OF z b d(2)] by blast
  from Cons have "forwarded (snd (multicast_recv_loop z ex' ts)) = filter (\<lambda>d. 20 \<le> length d) (map received ts)"
    by simp
  moreover have "received t = take (length (tn_buf t)) d" by (simp add: received_def d)
  ultimately show ?case using d b p by (simp add: case_prod_beta min_def)
qed simp

text \<open>Every buffer is either handed on in a datagram or returned to the queue.\<close>

fun buffers :: "effect list \<Rightarrow> bytes list" where
  "buffers [] = []"
| "buffers (Pool_Push b # es) = b # buffers es"
| "buffers (Try_Send_Data d # es) = buffers es"
| "buffers (Try_Send_Req r # es) = buffers es"

section \<open>io_uring\<close>

text \<open>
  The turn a socket would have reported for a completion: the error of the ring, the named
  operating-system error, or the datagram of the completion's length.
\<close>

definition turn_of_uring :: "(int \<Rightarrow> string) \<Rightarrow> uring_turn \<Rightarrow> turn" where
  "turn_of_uring os t =
     \<lparr>tn_buf = ut_buf t,
      tn_recv = (case recv_one os (ut_completion t) of Inl e \<Rightarrow> Inl e | Inr n \<Rightarrow> Inr (ut_filled t)),
      tn_sent = ut_sent t\<rparr>"

definition uring_turn_ok :: "uring_turn \<Rightarrow> bool" where
  "uring_turn_ok t \<longleftrightarrow>
     (\<forall>r. ut_completion t = Inr r \<longrightarrow> 0 \<le> r \<longrightarrow> nat r = length (ut_filled t) \<and> nat r \<le> length (ut_buf t))"

lemma uring_recv:
  assumes "uring_turn_ok t" and "recv_one os (ut_completion t) = Inr n"
  shows "recv_into (ut_buf t) (ut_filled t) = (ut_filled t @ drop (length (ut_filled t)) (ut_buf t), n)"
  using assms by (auto simp: uring_turn_ok_def recv_one_def recv_into_def Let_def split: sum.splits if_splits)

lemma uring_multicast_same:
  "\<forall>t \<in> set ts. uring_turn_ok t \<Longrightarrow>
   uring_multicast_recv_loop os z ex ts = multicast_recv_loop z ex (map (turn_of_uring os) ts)"
  by (induction ts arbitrary: ex)
    (auto simp: turn_of_uring_def uring_recv split: sum.splits prod.splits LoopAction.splits)

lemma uring_rereq_same:
  "\<forall>t \<in> set ts. uring_turn_ok t \<Longrightarrow>
   uring_rerequest_recv_loop os ts = rerequest_recv_loop (map (turn_of_uring os) ts)"
  by (induction ts)
    (auto simp: turn_of_uring_def uring_recv split: sum.splits prod.splits LoopAction.splits)

end
