(* ===== verification/Mold_System.thy ===== *)
theory Mold_System
  imports Client_Props Server_Props
begin

text \<open>
  Server and receiver together: the answer to the request a gap causes, and what the receiver
  makes of the packets of one \<open>Send\<close>, which all carry the same sequence number.
\<close>

section \<open>A gap is answered\<close>

lemma gap_requested:
  assumes "zerocopy_ok z" and "i < j" and "j \<le> n" and "j - i < 65535" and "unat seq0 + n + 2 ^ 16 < 2 ^ 64"
  shows "\<exists>rq k. gap_request z \<lparr>expected_session_ident = Some s, expected_seq_num = Some (seq0 + of_nat i)\<rparr> s (seq0 + of_nat j) =
      Some rq \<and> PacketHeader_as_bytes (req rq) = request_bytes s (seq0 + of_nat i) k \<and> k \<noteq> 0 \<and> unat k = j - i"
proof -
  let ?e = "seq0 + of_nat i" and ?q = "seq0 + of_nat j"
  have ui: "unat ?e = unat seq0 + i" and uj: "unat ?q = unat seq0 + j"
    using assms(2,3,5) by (simp_all add: unat_add_no_overflow unat_u64_of_nat)
  define nn where "nn = (ucast (min (?q - ?e) 65535) :: u16)"
  have le: "unat ?e \<le> unat ?q" unfolding ui uj using assms(2) by simp
  have "unat (?q - ?e) = j - i" unfolding unat_sub_le [OF le] unfolding ui uj by simp
  then have n: "unat nn = j - i" unfolding nn_def unat_min_u16 using assms(4) by simp
  then have "nn \<noteq> 0" using assms(2) by (metis unat_0 zero_less_diff less_numeral_extra(3))
  moreover have "gap_request z \<lparr>expected_session_ident = Some s, expected_seq_num = Some ?e\<rparr> s ?q =
      Some (RetransmissionRequest_new \<lparr>session = s, seq_num_f = u64_to_be ?e, msg_count_f = u16_to_be nn\<rparr>)"
    using ui uj assms(2)
    by (subst gap_request_range [OF assms(1), of _ s ?e]) (simp_all add: word_less_nat_alt nn_def)
  moreover have "PacketHeader_as_bytes \<lparr>session = s, seq_num_f = u64_to_be ?e, msg_count_f = u16_to_be nn\<rparr> =
      request_bytes s ?e nn"
    by (simp add: PacketHeader_as_bytes_def request_bytes_def packet_bytes_def)
  ultimately show ?thesis using n by (auto simp: RetransmissionRequest_new_def)
qed

lemma gap_answered:
  assumes "zerocopy_ok z" and "length s = 10" and "log_holds st seq0 acc"
    and "\<forall>m \<in> set acc. length m < 2 ^ 16" and "i < j" and "j \<le> length acc" and "j - i < 65535"
    and "unat seq0 + length acc + 2 ^ 16 < 2 ^ 64"
    and "gap_request z \<lparr>expected_session_ident = Some s, expected_seq_num = Some (seq0 + of_nat i)\<rparr> s
      (seq0 + of_nat j) = r"
  shows "\<exists>rq pkts. r = Some rq \<and>
    rerequest_step s limit (sv_log st) (PacketHeader_as_bytes (req rq)) = Some pkts \<and>
    (\<exists>cs. map (packet_info z) pkts = map (\<lambda>c. Some (s, seq0 + of_nat i, Standard, c)) cs \<and>
      concat cs = take (j - i) (drop i acc))"
proof -
  obtain rq k where r: "r = Some rq" "PacketHeader_as_bytes (req rq) = request_bytes s (seq0 + of_nat i) k"
    "k \<noteq> 0" "unat k = j - i"
    using gap_requested [OF assms(1,5,6,7,8), of s] assms(9) by auto
  have i: "i \<le> length acc" "unat k < 65535" "length acc + 2 ^ 16 < 2 ^ 64" using assms(5-8) r(4) by simp_all
  from rerequest_answer [OF assms(1-4) i(1) r(3) i(2,3), of limit] r show ?thesis
    using concat_chunks [of "take (j - i) (drop i acc)" limit] by auto
qed

section \<open>The packets of one Send at the receiver\<close>

text \<open>The requests among the effects.\<close>

fun requests :: "effect list \<Rightarrow> RetransmissionRequest list" where
  "requests [] = []"
| "requests (Try_Send_Req r # es) = r # requests es"
| "requests (_ # es) = requests es"

lemma requests_append [simp]: "requests (es @ fs) = requests es @ requests fs"
  by (induction es rule: requests.induct) simp_all

lemma requests_forward [simp]: "requests (forward sent buf n) = []"
  by (simp add: forward_def Datagram_drop_def Let_def)

lemma loop_same_seq:
  assumes z: "zerocopy_ok z" and s: "length s = 10" and q: "q + 65535 < 2 ^ 64"
  shows "list_all2 (\<lambda>t c. packet_turn s t (q, length c)) ts cs \<Longrightarrow> \<forall>c \<in> set cs. length c < 65535 \<Longrightarrow>
    q \<le> e \<Longrightarrow> e < 2 ^ 64 \<Longrightarrow>
    \<exists>effs. multicast_recv_loop z (locked s e) (ts @ us) =
        (case multicast_recv_loop z (locked s (if cs = [] then e else q + length (last cs))) us of
           (ex', effs') \<Rightarrow> (ex', effs @ effs')) \<and> requests effs = []"
proof (induction ts cs arbitrary: e rule: list_all2_induct)
  case Nil
  then show ?case by (intro exI [of _ "[]"]) (simp add: case_prod_beta)
next
  case (Cons t ts c cs)
  have c: "length c < 65535" using Cons.prems(1) by simp
  have e: "q + length c < 2 ^ 64" using c q by simp
  have "gap_request z (locked s e) s (of_nat q) = None"
    using gap_request_range [OF z, of "locked s e" s "of_nat e" "of_nat q"] Cons.prems(2,3)
    by (simp add: locked_def word_less_nat_alt unat_u64_of_nat)
  with loop_packet [OF z s Cons(1) c, of "locked s e" "ts @ us"] obtain buf n where
    l: "multicast_recv_loop z (locked s e) ((t # ts) @ us) =
      (case multicast_recv_loop z (locked s (q + length c)) (ts @ us) of
         (ex', effs) \<Rightarrow> (ex', forward (tn_sent t) buf n @ effs))"
    by (auto simp: locked_def)
  obtain effs where r: "multicast_recv_loop z (locked s (q + length c)) (ts @ us) =
      (case multicast_recv_loop z (locked s (if cs = [] then q + length c else q + length (last cs))) us of
         (ex', effs') \<Rightarrow> (ex', effs @ effs'))" "requests effs = []"
    using Cons.IH [of "q + length c"] Cons.prems(1) e by auto
  show ?case
    using l r by (intro exI [of _ "forward (tn_sent t) buf n @ effs"]) (auto simp: case_prod_beta)
qed

text \<open>Packets received whole.\<close>

definition receives :: "turn \<Rightarrow> bytes \<Rightarrow> bool" where
  "receives t d \<longleftrightarrow> tn_recv t = Inr d \<and> length d \<le> length (tn_buf t)"

lemma receives_packet:
  assumes "length s = 10" and "receives t (packet_bytes s (of_nat q) (of_nat c) body)"
  shows "packet_turn s t (q, c)"
  using assms by (auto simp: packet_turn_def receives_def packet_bytes_length)

lemma split_send_run:
  assumes b: "batch_ok ms" and ne: "ms \<noteq> []"
  shows "\<exists>st. sender_loop limit (server_start sess seq) [Cmd (Send ms), Timeout] =
      Some (st, map (\<lambda>c. packet_bytes (pad_session sess) seq (of_nat (length c)) (concat (map message_block c)))
                  (chunk_messages ms limit) @
                [packet_bytes (pad_session sess) (seq + of_nat (length ms)) 0 []]) \<and>
    log_holds st seq ms"
proof -
  let ?st = "server_start sess seq"
  have "log_holds (?st\<lparr>sv_log := store_messages (sv_log ?st) (sv_next_seq ?st) ms,
      sv_next_seq := sv_next_seq ?st + of_nat (length ms)\<rparr>) seq ([] @ ms)"
    by (rule log_holds_store [OF log_holds_start]) (use b in \<open>simp add: batch_ok_def\<close>)
  then show ?thesis
    using build_batch [OF b, of "pad_session sess" seq limit] ne
    by (simp add: server_start_def Let_def send_periodic_def build_special_packet HEARTBEAT_IDENT_def)
qed

lemma split_send_gap:
  assumes z: "zerocopy_ok z" and s: "length s = 10" and q: "q + 2 * 65535 < 2 ^ 64"
    and cs: "list_all2 (\<lambda>t c. packet_turn s t (q, length c)) ts cs" "\<forall>c \<in> set cs. length c < 65535" "cs \<noteq> []"
    and t: "packet_turn s t (q + n, 0)" and n: "length (last cs) < n" "n < 65535"
  shows "\<exists>r. requests (snd (multicast_recv_loop z (locked s q) (ts @ [t]))) = [r] \<and>
    gap_request z (locked s (q + length (last cs))) s (of_nat (q + n)) = Some r"
proof -
  let ?e = "q + length (last cs)"
  have u: "unat (of_nat ?e :: u64) = ?e" "unat (of_nat (q + n) :: u64) = q + n"
    using n q by (simp_all only: unat_u64_of_nat)
  have "(of_nat ?e :: u64) < of_nat (q + n)" unfolding word_less_nat_alt u using n by simp
  then obtain r where r: "gap_request z (locked s ?e) s (of_nat (q + n)) = Some r"
    using gap_request_range [OF z, of "locked s ?e" s "of_nat ?e" "of_nat (q + n)"]
    by (simp add: locked_def del: of_nat_add)
  from loop_packet [OF z s t, of "locked s ?e" "[]"] r have
    "requests (snd (multicast_recv_loop z (locked s ?e) [t])) = [r]" by auto
  moreover have qq: "q + 65535 < 2 ^ 64" "q < 2 ^ 64" using q by simp_all
  from loop_same_seq [OF z s qq(1) cs(1,2) order.refl qq(2), of "[t]"] cs(3) obtain effs where
    "multicast_recv_loop z (locked s q) (ts @ [t]) =
      (case multicast_recv_loop z (locked s ?e) [t] of (ex', effs') \<Rightarrow> (ex', effs @ effs'))" "requests effs = []"
    by auto
  ultimately show ?thesis using r by (simp add: case_prod_beta)
qed

lemma split_last_less:
  assumes "1 < length (chunk_messages ms limit)"
  shows "length (last (chunk_messages ms limit)) < length ms"
proof -
  let ?cs = "chunk_messages ms limit"
  obtain c ds where cs: "?cs = c # ds" "ds \<noteq> []" using assms by (cases ?cs) auto
  have "c \<noteq> []" using chunk_messages_ok [of ms limit] cs(1) by (auto simp: chunk_fits_def)
  moreover have "length ms = length c + length (concat (butlast ds)) + length (last ds)"
    using concat_chunks [of ms limit] cs
    by (metis append_butlast_last_id concat.simps concat_append length_append append_Nil2 add.assoc)
  ultimately show ?thesis using cs by simp
qed

section \<open>A session with losses\<close>

text \<open>Gaps that one request can name and one answer can carry in full.\<close>

fun narrow :: "nat \<Rightarrow> (nat \<times> nat) list \<Rightarrow> bool" where
  "narrow e [] = True"
| "narrow e ((q, c) # ps) \<longleftrightarrow> q - e < 65535 \<and> narrow (q + c) ps"

text \<open>The messages from the \<open>i\<close>-th to before the \<open>j\<close>-th are the server's answer to a request.\<close>

definition answers :: "zerocopy \<Rightarrow> nat \<Rightarrow> bytes \<Rightarrow> sender \<Rightarrow> u64 \<Rightarrow> bytes list \<Rightarrow> RetransmissionRequest \<Rightarrow> nat \<Rightarrow> nat \<Rightarrow> bool" where
  "answers z limit s st seq0 acc rq i j \<longleftrightarrow>
     (\<exists>pkts cs. rerequest_step s limit (sv_log st) (PacketHeader_as_bytes (req rq)) = Some pkts \<and>
       map (packet_info z) pkts = map (\<lambda>c. Some (s, seq0 + of_nat i, Standard, c)) cs \<and>
       concat cs = take (j - i) (drop i acc))"

lemma lossy_loop:
  assumes z: "zerocopy_ok z" and s: "length s = 10" and l: "log_holds st seq0 acc"
    and m: "\<forall>m \<in> set acc. length m < 2 ^ 16" and big: "unat seq0 + length acc + 2 ^ 16 < 2 ^ 64"
  shows "in_order (unat seq0 + i) ps \<Longrightarrow> narrow (unat seq0 + i) ps \<Longrightarrow> i \<le> length acc \<Longrightarrow>
    list_all2 (packet_turn s) ts ps \<Longrightarrow> end_of (unat seq0 + i) ps = unat seq0 + length acc \<Longrightarrow>
    i \<le> k \<Longrightarrow> k < length acc \<Longrightarrow> unat seq0 + k \<notin> live ps \<Longrightarrow>
    \<exists>rq \<in> set (requests (snd (multicast_recv_loop z (locked s (unat seq0 + i)) ts))).
      \<exists>i j. i \<le> k \<and> k < j \<and> answers z limit s st seq0 acc rq i j"
proof (induction ps arbitrary: i ts)
  case Nil
  then show ?case by simp
next
  case (Cons p ps)
  obtain q c where p: "p = (q, c)" by (cases p)
  from Cons.prems(4) obtain t ts' where ts: "ts = t # ts'" "packet_turn s t (q, c)" "list_all2 (packet_turn s) ts' ps"
    by (cases ts) (auto simp: p)
  have o: "unat seq0 + i \<le> q" "c < 65535" "in_order (q + c) ps" "narrow (q + c) ps" "q - (unat seq0 + i) < 65535"
    using Cons.prems(1,2) by (simp_all add: p)
  define j where "j = q - unat seq0"
  have q: "q = unat seq0 + j" and ij: "i \<le> j" using o(1) by (simp_all add: j_def)
  have "q + c \<le> unat seq0 + length acc" using in_order_bounds [OF o(3)] Cons.prems(5) by (simp add: p)
  then have jc: "j + c \<le> length acc" by (simp add: q)
  let ?r = "case gap_request z (locked s (unat seq0 + i)) s (of_nat q) of None \<Rightarrow> [] | Some r \<Rightarrow> [Try_Send_Req r]"
  obtain buf n where step: "multicast_recv_loop z (locked s (unat seq0 + i)) ts =
      (case multicast_recv_loop z (locked s (q + c)) ts' of
         (ex', effs) \<Rightarrow> (ex', (?r @ forward (tn_sent t) buf n) @ effs))"
    using loop_packet [OF z s ts(2) o(2), of "locked s (unat seq0 + i)" ts'] ts(1) by (auto simp: locked_def)
  then have reqs: "set (requests (snd (multicast_recv_loop z (locked s (unat seq0 + i)) ts))) =
      set (requests ?r) \<union> set (requests (snd (multicast_recv_loop z (locked s (q + c)) ts')))"
    by (simp add: case_prod_beta)
  consider "k < j" | "j \<le> k" "k < j + c" | "j + c \<le> k" by linarith
  then show ?case
  proof cases
    case 1
    with Cons.prems(6) have "i < j" by simp
    have w: "locked s (unat seq0 + i) = \<lparr>expected_session_ident = Some s, expected_seq_num = Some (seq0 + of_nat i)\<rparr>"
      "of_nat q = seq0 + of_nat j" by (simp_all add: locked_def q)
    have "j \<le> length acc" "j - i < 65535" using jc o(5) by (simp_all add: q)
    from gap_answered [OF z s l m \<open>i < j\<close> this big refl, of limit] obtain rq where
      "gap_request z (locked s (unat seq0 + i)) s (of_nat q) = Some rq" "answers z limit s st seq0 acc rq i j"
      unfolding w answers_def by blast
    with 1 Cons.prems(6) reqs show ?thesis by auto
  next
    case 2
    then have "unat seq0 + k \<in> live (p # ps)" by (simp add: p q)
    with Cons.prems(8) show ?thesis by simp
  next
    case 3
    have "unat seq0 + k \<notin> live ps" using Cons.prems(8) by (simp add: p)
    then have "\<exists>rq \<in> set (requests (snd (multicast_recv_loop z (locked s (unat seq0 + (j + c))) ts'))).
        \<exists>i j. i \<le> k \<and> k < j \<and> answers z limit s st seq0 acc rq i j"
      using o(3,4) jc ts(3) Cons.prems(5,7) 3 by (intro Cons.IH) (simp_all add: q add.assoc p)
    then show ?thesis unfolding reqs by (auto simp: q add.assoc)
  qed
qed

end
