(* ===== verification/Mold_Losses.thy ===== *)
theory Mold_Losses
  imports Mold_System "HOL-Library.Sublist"
begin

text \<open>A session some of whose packets are lost: what the packets carry, and what a selection of them leaves out.\<close>

section \<open>What the packets carry\<close>

text \<open>
  The calls of a session that stays open, with each \<open>Send\<close> in one packet: a larger one is
  misnumbered.
\<close>

fun open_event :: "nat \<Rightarrow> sender_event \<Rightarrow> bool" where
  "open_event limit (Cmd (Send ms)) \<longleftrightarrow> batch_ok ms \<and> total_len ms \<le> limit"
| "open_event limit (Cmd (SendDropped ms)) = batch_ok ms"
| "open_event limit (Cmd HeartbeatCmd) = True"
| "open_event limit Timeout = True"
| "open_event limit _ = False"

lemma open_event_ok: "open_event limit e \<Longrightarrow> event_ok e"
  by (induction limit e rule: open_event.induct) auto

text \<open>A packet with its first number and its messages; a heartbeat has none.\<close>

definition numbered_packet :: "bytes \<Rightarrow> nat \<times> bytes list \<Rightarrow> bytes" where
  "numbered_packet s c =
     packet_bytes s (of_nat (fst c)) (of_nat (length (snd c))) (concat (map message_block (snd c)))"

text \<open>A part of the messages \<open>acc\<close>, which are numbered from \<open>e\<close>, in its place.\<close>

definition part_of :: "nat \<Rightarrow> bytes list \<Rightarrow> nat \<times> bytes list \<Rightarrow> bool" where
  "part_of e acc c \<longleftrightarrow> e \<le> fst c \<and> fst c + length (snd c) \<le> e + length acc \<and>
     take (length (snd c)) (drop (fst c - e) acc) = snd c \<and> batch_ok (snd c)"

abbreviation follows :: "nat \<times> bytes list \<Rightarrow> nat \<times> bytes list \<Rightarrow> bool" where
  "follows c d \<equiv> fst c + length (snd c) \<le> fst d"

lemma part_of_later: "part_of (e + length ms) acc c \<Longrightarrow> part_of e (ms @ acc) c"
  by (auto simp: part_of_def)

lemma part_of_first: "batch_ok ms \<Longrightarrow> part_of e (ms @ acc) (e, ms)"
  by (simp add: part_of_def)

lemma open_session:
  "sender_loop limit st es = Some (st', pkts) \<Longrightarrow> \<forall>e \<in> set es. open_event limit e \<Longrightarrow> \<not> sv_stopped st \<Longrightarrow>
   unat (sv_next_seq st) + length (accepted_messages False es) + 2 ^ 16 < 2 ^ 64 \<Longrightarrow>
   \<exists>cs. pkts = map (numbered_packet (sv_session st)) cs \<and> sorted_wrt follows cs \<and>
     (\<forall>c \<in> set cs. part_of (unat (sv_next_seq st)) (accepted_messages False es) c)"
proof (induction es arbitrary: st pkts)
  case Nil
  then show ?case by simp
next
  case (Cons e es)
  have tick: ?case
    if r: "sender_loop limit st es = Some (st', rest)" "pkts = build_special (sv_session st) (sv_next_seq st) 0 # rest"
      "accepted_messages False (e # es) = accepted_messages False es" for rest
  proof -
    obtain cs where cs: "rest = map (numbered_packet (sv_session st)) cs" "sorted_wrt follows cs"
      "\<forall>c \<in> set cs. part_of (unat (sv_next_seq st)) (accepted_messages False es) c"
      using Cons.IH [OF r(1)] Cons.prems(2-4) r(3) by auto
    let ?c = "(unat (sv_next_seq st), []) :: nat \<times> bytes list"
    have "pkts = map (numbered_packet (sv_session st)) (?c # cs)"
      using r(2) cs(1) by (simp add: numbered_packet_def build_special_packet)
    moreover have "sorted_wrt follows (?c # cs)" using cs(2,3) by (simp add: part_of_def)
    moreover have "part_of (unat (sv_next_seq st)) (accepted_messages False es) ?c" by (simp add: part_of_def batch_ok_def)
    ultimately show ?thesis using cs(3) unfolding r(3) by (intro exI [of _ "?c # cs"]) simp
  qed
  have batch: "\<exists>cs. rest = map (numbered_packet (sv_session st)) cs \<and> sorted_wrt follows cs \<and>
        (\<forall>c \<in> set cs. part_of (unat (sv_next_seq st) + length ms) (accepted_messages False es) c)"
    if r: "sender_loop limit (st\<lparr>sv_log := l, sv_next_seq := sv_next_seq st + of_nat (length ms)\<rparr>) es = Some (st', rest)"
      "accepted_messages False (e # es) = ms @ accepted_messages False es" "batch_ok ms" for l ms rest
  proof -
    have "unat (sv_next_seq st + of_nat (length ms)) = unat (sv_next_seq st) + length ms"
      using Cons.prems(4) r(2,3) by (simp add: batch_ok_def unat_add_no_overflow unat_u64_of_nat)
    with Cons.IH [OF r(1)] Cons.prems(2-4) r(2) show ?thesis by simp
  qed
  show ?case
  proof (cases e)
    case (Cmd c)
    show ?thesis
    proof (cases c)
      case (Send ms)
      with Cons.prems(2) Cmd have b: "batch_ok ms" "total_len ms \<le> limit" by simp_all
      show ?thesis
      proof (cases "ms = []")
        case True
        with Cons Cmd Send show ?thesis by simp
      next
        case False
        let ?p = "numbered_packet (sv_session st) (unat (sv_next_seq st), ms)"
        have "build_chunks (sv_session st) (sv_next_seq st) (chunk_messages ms limit) = Some [?p]"
          using build_batch [OF b(1), of "sv_session st" "sv_next_seq st" limit] chunk_messages_small [OF b(2)] False
          by (simp add: numbered_packet_def)
        with Cons.prems(1,3) Cmd Send False obtain rest where
          rest: "sender_loop limit (st\<lparr>sv_log := store_messages (sv_log st) (sv_next_seq st) ms,
              sv_next_seq := sv_next_seq st + of_nat (length ms)\<rparr>) es = Some (st', rest)" "pkts = ?p # rest"
          by (auto simp: Let_def bind_eq_Some_conv)
        have acc: "accepted_messages False (e # es) = ms @ accepted_messages False es" using Cmd Send by simp
        from batch [OF rest(1) acc b(1)] obtain cs where cs: "rest = map (numbered_packet (sv_session st)) cs" "sorted_wrt follows cs"
          "\<forall>c \<in> set cs. part_of (unat (sv_next_seq st) + length ms) (accepted_messages False es) c" by blast
        have "sorted_wrt follows ((unat (sv_next_seq st), ms) # cs)" using cs(2,3) by (auto simp: part_of_def)
        with rest(2) cs show ?thesis
          unfolding acc using part_of_later part_of_first [OF b(1)]
          by (intro exI [of _ "(unat (sv_next_seq st), ms) # cs"]) auto
      qed
    next
      case (SendDropped ms)
      with Cons.prems(2) Cmd have b: "batch_ok ms" by simp
      show ?thesis
      proof (cases "ms = []")
        case True
        with Cons Cmd SendDropped show ?thesis by simp
      next
        case False
        with Cons.prems(1,3) Cmd SendDropped have
          rest: "sender_loop limit (st\<lparr>sv_log := store_messages (sv_log st) (sv_next_seq st) ms,
              sv_next_seq := sv_next_seq st + of_nat (length ms)\<rparr>) es = Some (st', pkts)"
          by (auto simp: bind_eq_Some_conv)
        have acc: "accepted_messages False (e # es) = ms @ accepted_messages False es" using Cmd SendDropped by simp
        from batch [OF rest acc b] show ?thesis unfolding acc using part_of_later by blast
      qed
    qed (use Cons.prems Cmd tick in \<open>auto simp: send_periodic_def Let_def HEARTBEAT_IDENT_def bind_eq_Some_conv\<close>)
  next
    case Timeout
    with Cons.prems tick show ?thesis by (auto simp: send_periodic_def Let_def HEARTBEAT_IDENT_def bind_eq_Some_conv)
  next
    case Disconnected
    with Cons.prems(2) show ?thesis by simp
  qed
qed

lemma open_session_heartbeat:
  "sender_loop limit st es = Some (st', pkts) \<Longrightarrow> \<forall>e \<in> set es. open_event limit e \<Longrightarrow> \<not> sv_stopped st \<Longrightarrow>
   sender_loop limit st (es @ [Timeout]) =
     Some (st', pkts @ [numbered_packet (sv_session st) (unat (sv_next_seq st'), [])])"
proof (induction es arbitrary: st pkts)
  case Nil
  then show ?case by (simp add: numbered_packet_def send_periodic_def Let_def build_special_packet HEARTBEAT_IDENT_def)
next
  case (Cons e es)
  show ?case
  proof (cases e)
    case (Cmd c)
    with Cons.prems obtain s1 p1 p2 where c: "sender_command limit st c = Some (s1, p1)"
      "sender_loop limit s1 es = Some (st', p2)" "pkts = p1 @ p2"
      by (auto simp: bind_eq_Some_conv)
    have "sv_session s1 = sv_session st \<and> \<not> sv_stopped s1"
      using c(1) Cons.prems(2,3) Cmd by (cases c) (auto simp: bind_eq_Some_conv Let_def split: if_splits)
    with Cons.IH [OF c(2)] Cons.prems(2) c(1,3) Cmd show ?thesis by simp
  next
    case Timeout
    with Cons show ?thesis by (auto simp: bind_eq_Some_conv Let_def)
  qed (use Cons.prems(2) in simp)
qed

lemma length_blocks: "length (concat (map message_block ms)) = total_len ms + 2 * length ms"
  by (induction ms) (simp_all add: message_block_def)

lemma length_numbered: "length s = 10 \<Longrightarrow> length (numbered_packet s c) = 20 + total_len (snd c) + 2 * length (snd c)"
  by (simp add: numbered_packet_def packet_bytes_length length_blocks)

section \<open>A selection of the packets\<close>

text \<open>The first number and the count of a packet, from its header.\<close>

definition span :: "bytes \<Rightarrow> nat \<times> nat" where
  "span p = (unat (u64_from_be (take 8 (drop 10 p))), unat (u16_from_be (take 2 (drop 18 p))))"

lemma span_numbered:
  assumes "length s = 10" and "part_of e acc c" and "e + length acc < 2 ^ 64"
  shows "span (numbered_packet s c) = (fst c, length (snd c))"
proof -
  have "fst c < 2 ^ 64" "length (snd c) < 2 ^ 16" using assms(2,3) by (auto simp: part_of_def batch_ok_def)
  then show ?thesis
    using assms(1) by (simp add: span_def numbered_packet_def packet_bytes_def unat_u64_of_nat unat_of_nat)
qed

text \<open>No more than one request can name is lost between two packets that arrive.\<close>

definition narrow_losses :: "nat \<Rightarrow> bytes list \<Rightarrow> bool" where
  "narrow_losses e ps \<longleftrightarrow> narrow e (map span ps)"

lemma selection_in_order:
  "sorted_wrt follows cs \<Longrightarrow> \<forall>c \<in> set cs. e \<le> fst c \<and> fst c + length (snd c) < 2 ^ 64 \<and> length (snd c) < 65535 \<Longrightarrow>
   narrow e (map (\<lambda>c. (fst c, length (snd c))) cs) \<Longrightarrow> in_order e (map (\<lambda>c. (fst c, length (snd c))) cs)"
proof (induction cs arbitrary: e)
  case (Cons c cs)
  then have "in_order (fst c + length (snd c)) (map (\<lambda>c. (fst c, length (snd c))) cs)" by (intro Cons.IH) auto
  with Cons.prems show ?case by auto
qed simp

lemma end_of_snoc: "end_of e (ps @ [(q, c)]) = q + c"
  by (induction e ps rule: end_of.induct) simp_all

lemma numbered_turns:
  assumes "length s = 10" and "list_all2 receives ts (map (numbered_packet s) cs)"
  shows "list_all2 (packet_turn s) ts (map (\<lambda>c. (fst c, length (snd c))) cs)"
  using assms(2) unfolding list_all2_map2
  by (rule list_all2_mono) (auto simp: numbered_packet_def intro: receives_packet [OF assms(1)])

lemma loop_forwards_all:
  assumes z: "zerocopy_ok z" and ts: "list_all2 receives ts pkts" and len: "\<forall>p \<in> set pkts. 20 \<le> length p"
  shows "forwarded (snd (multicast_recv_loop z ex ts)) = pkts"
proof -
  from ts len have t: "\<forall>t \<in> set ts. 20 \<le> length (tn_buf t) \<and> (\<exists>d. tn_recv t = Inr d)"
    by (induction rule: list_all2_induct) (auto simp: receives_def)
  from ts have "map received ts = pkts"
    by (induction rule: list_all2_induct) (auto simp: receives_def received_def)
  with loop_forwards [OF z t, of ex] len show ?thesis by simp
qed

text \<open>The \<open>k\<close>-th of the messages \<open>acc\<close>, numbered from \<open>e\<close>, is in a packet at its number.\<close>

definition delivered_in :: "zerocopy \<Rightarrow> bytes \<Rightarrow> nat \<Rightarrow> bytes list \<Rightarrow> nat \<Rightarrow> bytes \<Rightarrow> bool" where
  "delivered_in z s e acc k p \<longleftrightarrow>
     (\<exists>q ds j. packet_info z p = Some (s, q, Standard, ds) \<and> j < length ds \<and> ds ! j = acc ! k \<and> unat q + j = e + k)"

lemma part_delivered:
  assumes z: "zerocopy_ok z" and s: "length s = 10" and c: "part_of e acc c" and big: "e + length acc < 2 ^ 64"
    and k: "fst c \<le> e + k" "e + k < fst c + length (snd c)"
  shows "delivered_in z s e acc k (numbered_packet s c)"
proof -
  let ?j = "e + k - fst c" and ?ds = "snd c"
  have b: "length ?ds < 65535" "\<forall>m \<in> set ?ds. length m < 2 ^ 16" "0 < length ?ds"
    using c k unfolding part_of_def batch_ok_def by (auto simp del: length_greater_0_conv)
  have q: "fst c < 2 ^ 64" using c big by (simp add: part_of_def)
  have "?ds ! ?j = drop (fst c - e) acc ! ?j" using c k by (metis part_of_def nth_take less_diff_conv2 add.commute)
  also have "\<dots> = acc ! k" using c k by (subst nth_drop) (auto simp: part_of_def)
  finally have "?ds ! ?j = acc ! k" .
  moreover have "packet_info z (numbered_packet s c) = Some (s, of_nat (fst c), Standard, ?ds)"
    unfolding numbered_packet_def using b by (intro packet_info_data [OF z s]) simp_all
  ultimately show ?thesis
    using k q unfolding delivered_in_def
    by (intro exI [of _ "of_nat (fst c)"] exI [of _ ?ds] exI [of _ ?j]) (simp add: unat_u64_of_nat)
qed

lemma sorted_wrt_nths: "sorted_wrt P xs \<Longrightarrow> sorted_wrt P (nths xs N)"
proof (induction xs arbitrary: N)
  case (Cons x xs)
  then show ?case using set_nths_subset [of xs] by (auto simp: nths_Cons)
qed simp

text \<open>
  Whatever packets arrive before the last heartbeat, a message that none of them carries is in the
  answer to a request.
\<close>

lemma selection_recovers:
  assumes z: "zerocopy_ok z" and s: "length s = 10" and l: "log_holds st seq acc"
    and m: "\<forall>m \<in> set acc. length m < 2 ^ 16" and big: "unat seq + length acc + 2 ^ 16 < 2 ^ 64"
    and cs: "sorted_wrt follows cs" "\<forall>c \<in> set cs. part_of (unat seq) acc c"
    and r: "subseq r (map (numbered_packet s) cs)" and h: "h = numbered_packet s (unat seq + length acc, [])"
    and ts: "list_all2 receives ts (r @ [h])" and n: "narrow_losses (unat seq) (r @ [h])" and k: "k < length acc"
  shows "(\<exists>p \<in> set (forwarded (snd (multicast_recv_loop z (locked s (unat seq)) ts))). delivered_in z s (unat seq) acc k p) \<or>
    (\<exists>rq \<in> set (requests (snd (multicast_recv_loop z (locked s (unat seq)) ts))).
      \<exists>i j. i \<le> k \<and> k < j \<and> answers z limit s st seq acc rq i j)"
proof -
  let ?e = "unat seq" and ?h = "(unat seq + length acc, []) :: nat \<times> bytes list" and ?s = "\<lambda>c. (fst c, length (snd c))"
  obtain N where N: "r = nths (map (numbered_packet s) cs) N" using r subseq_conv_nths by blast
  define ds where "ds = nths cs N"
  have rd: "r @ [h] = map (numbered_packet s) (ds @ [?h])" using N h by (simp add: ds_def nths_map)
  have part: "\<forall>c \<in> set (ds @ [?h]). part_of ?e acc c"
    using cs(2) set_nths_subset [of cs N] by (auto simp: ds_def part_of_def batch_ok_def)
  have sorted: "sorted_wrt follows (ds @ [?h])"
    using sorted_wrt_nths [OF cs(1), of N] part by (auto simp: sorted_wrt_append ds_def part_of_def)
  have "span (numbered_packet s c) = ?s c" if "c \<in> set (ds @ [?h])" for c
    using span_numbered [OF s, of ?e acc c] part that big by auto
  then have spans: "map span (r @ [h]) = map ?s (ds @ [?h])" unfolding rd by (simp del: map_append cong: map_cong)
  have narrow: "narrow ?e (map ?s (ds @ [?h]))" using n unfolding narrow_losses_def spans .
  have order: "in_order ?e (map ?s (ds @ [?h]))"
    using part big by (intro selection_in_order [OF sorted _ narrow]) (auto simp: part_of_def batch_ok_def)
  have turns: "list_all2 (packet_turn s) ts (map ?s (ds @ [?h]))" using ts unfolding rd by (rule numbered_turns [OF s])
  have last: "end_of ?e (map ?s (ds @ [?h])) = ?e + length acc" by (simp add: end_of_snoc)
  show ?thesis
  proof (cases "?e + k \<in> live (map ?s (ds @ [?h]))")
    case True
    then obtain c where c: "c \<in> set (ds @ [?h])" "fst c \<le> ?e + k" "?e + k < fst c + length (snd c)"
      by (auto simp: live_def)
    have "\<forall>p \<in> set (r @ [h]). 20 \<le> length p"
      unfolding rd by (auto simp: numbered_packet_def packet_bytes_length [OF s])
    from loop_forwards_all [OF z ts this, of "locked s ?e"] c(1)
    have "numbered_packet s c \<in> set (forwarded (snd (multicast_recv_loop z (locked s ?e) ts)))" unfolding rd by auto
    moreover have "delivered_in z s ?e acc k (numbered_packet s c)"
      using part_delivered [OF z s _ _ c(2,3)] part c(1) big by auto
    ultimately show ?thesis by blast
  next
    case False
    from lossy_loop [OF z s l m big, of 0 "map ?s (ds @ [?h])" ts k limit] order narrow turns last k False show ?thesis
      by simp
  qed
qed

end
