(* ===== verification/Mold_Claims.thy ===== *)
theory Mold_Claims
  imports Mold_Losses
begin

text \<open>The properties of the MoldUDP64 crate.\<close>

section \<open>Packets\<close>

text \<open>
  C27: what the server builds, the client reads. A packet of one to 65534 messages of at most
  65535 bytes is built without panic and parses to the same session, sequence number, count
  and messages, as a standard packet.
\<close>

theorem build_packet_roundtrip:
  assumes "zerocopy_ok z" and "length s = 10" and "0 < length ms" and "length ms < 65535"
    and "\<forall>m \<in> set ms. length m < 2 ^ 16"
  shows "\<exists>bs p. build_packet s q ms = Some bs \<and> Packet_parse z bs = Some p \<and>
    Packet_session_ident_raw p = s \<and> Packet_seq_num z p = q \<and> Packet_msg_count z p = of_nat (length ms) \<and>
    Packet_packet_kind z p = Standard \<and> Packet_data z p = ms"
  using packet_roundtrip [OF assms, of q] build_packet_ok [of ms s q] assms(4,5) by auto

theorem build_packet_roundtrip_witness:
  "\<exists>bs p. build_packet (pad_session ''S1'') 7 [[1, 2], []] = Some bs \<and>
     Packet_parse zerocopy_std bs = Some p \<and> Packet_data zerocopy_std p = [[1, 2], []]"
  using build_packet_roundtrip [OF zerocopy_std_ok length_pad_session, of "[[1, 2], []]" "''S1''" 7]
  by auto

text \<open>
  Iterating any packet is safe. The blocks it yields lie one after the other at the front
  of the datagram's tail, each with a payload of its announced length, and they are at most as
  many as the header announces; heartbeats and end-of-session packets yield none.
\<close>

theorem packet_iteration_safe:
  assumes "zerocopy_ok z" and "Messages_collect z (Packet_iter z p) = (ms, e)"
  shows "messages p = concat (map (\<lambda>m. length_f m @ data_f m) ms) @ ms_bytes e \<and>
    (\<forall>m \<in> set ms. length (data_f m) = unat (Message_length z m)) \<and>
    length ms \<le> unat (Packet_msg_count z p) \<and>
    (Packet_packet_kind z p = Standard \<or> ms = [])"
proof -
  note w = Messages_collect_within [OF assms]
  have "ms_bytes (Packet_iter z p) = messages p"
    and le: "unat (ms_remaining (Packet_iter z p)) \<le> unat (Packet_msg_count z p)"
    and zero: "Packet_packet_kind z p \<noteq> Standard \<Longrightarrow> ms_remaining (Packet_iter z p) = 0"
    by (auto simp: Packet_iter_def Packet_packet_kind_def Let_def split: if_splits)
  moreover have n: "length ms \<le> unat (ms_remaining (Packet_iter z p))" using w by linarith
  moreover have "Packet_packet_kind z p = Standard \<or> ms = []"
  proof (cases "Packet_packet_kind z p = Standard")
    case False
    from n zero [OF False] show ?thesis by simp
  qed simp
  ultimately show ?thesis using w le_trans [OF n le] by simp
qed

theorem packet_iteration_safe_witness:
  "length (fst (Messages_collect zerocopy_std (Packet_iter zerocopy_std
     \<lparr>header = \<lparr>session = pad_session ''S1'', seq_num_f = u64_to_be 1, msg_count_f = u16_to_be 3\<rparr>,
      messages = [0, 1, 65, 0, 9]\<rparr>))) \<le> 3"
proof -
  let ?p = "\<lparr>header = \<lparr>session = pad_session ''S1'', seq_num_f = u64_to_be 1, msg_count_f = u16_to_be 3\<rparr>,
      messages = [0, 1, 65, 0, 9]\<rparr>"
  obtain ms e where c: "Messages_collect zerocopy_std (Packet_iter zerocopy_std ?p) = (ms, e)"
    by (cases "Messages_collect zerocopy_std (Packet_iter zerocopy_std ?p)")
  have "length ms \<le> unat (Packet_msg_count zerocopy_std ?p)"
    using packet_iteration_safe [OF zerocopy_std_ok c] by (elim conjE)
  moreover have "Packet_msg_count zerocopy_std ?p = 3"
    using packet_fields(3) [OF zerocopy_std_ok refl] by blast
  ultimately have "length ms \<le> 3" by simp
  then show ?thesis by (simp only: c fst_conv)
qed

section \<open>The server\<close>

text \<open>
  Chunking keeps every message in order, makes no empty chunk, and a chunk exceeds the
  limit only when it is a single message.
\<close>

theorem chunk_messages_correct:
  "concat (chunk_messages ms limit) = ms \<and>
   (\<forall>c \<in> set (chunk_messages ms limit). c \<noteq> [] \<and> (length c = 1 \<or> total_len c \<le> limit))"
  using chunk_messages_ok [of ms limit] by (simp add: chunk_fits_def)

definition sample_events :: "sender_event list" where
  "sample_events =
     [Cmd (Send [[1]]), Timeout, Cmd (SendDropped [[2], [3]]), Cmd (Send [[4]]), Cmd StopSession,
      Cmd (Send [[5]])]"

lemma sample_events_ok: "\<forall>e \<in> set sample_events. event_ok e"
  by (simp add: sample_events_def batch_ok_def)

text \<open>
  C10: the retransmission log is complete. Over any run the sender thread does not panic on
  batches that fit a packet, and afterwards the log holds exactly the messages accepted before
  the session stopped, dropped ones included, under consecutive sequence numbers.
\<close>

theorem server_log_complete:
  assumes "\<forall>e \<in> set es. event_ok e" and "length (accepted_messages False es) < 2 ^ 64"
  shows "\<exists>st pkts. sender_loop limit (server_start s seq0) es = Some (st, pkts) \<and>
    sv_next_seq st = seq0 + of_nat (length (accepted_messages False es)) \<and>
    (\<forall>k. bt_get (sv_log st) (seq0 + k) =
       (if unat k < length (accepted_messages False es) then Some (accepted_messages False es ! unat k) else None))"
proof -
  let ?st = "server_start s seq0"
  have f: "sv_stopped ?st = False" by (simp add: server_start_def)
  obtain st pkts where "sender_loop limit ?st es = Some (st, pkts)"
    and l: "log_holds st seq0 (accepted_messages False es)"
    using sender_run_log [OF assms(1) log_holds_start, of s seq0 limit] assms(2) by (auto simp: f)
  moreover have "bt_get (sv_log st) (seq0 + k) =
      (if unat k < length (accepted_messages False es) then Some (accepted_messages False es ! unat k) else None)" for k
  proof -
    have "unat k < 2 ^ 64" using unsigned_less [of k, where ?'a = nat] by simp
    moreover have "(of_nat (unat k) :: u64) = k" by simp
    ultimately show ?thesis using l unfolding log_holds_def by metis
  qed
  ultimately show ?thesis using l by (auto simp: log_holds_def)
qed

theorem server_log_complete_witness:
  "\<exists>st pkts. sender_loop 1452 (server_start ''S1'' 1) sample_events = Some (st, pkts) \<and>
     bt_get (sv_log st) 3 = Some [3] \<and> bt_get (sv_log st) 5 = None"
proof -
  have a: "accepted_messages False sample_events = [[1], [2], [3], [4]]" by (simp add: sample_events_def)
  then have "length (accepted_messages False sample_events) < 2 ^ 64" by simp
  from server_log_complete [OF sample_events_ok this, of 1452 "''S1''" 1] obtain st pkts where
    "sender_loop 1452 (server_start ''S1'' 1) sample_events = Some (st, pkts)"
    and g: "\<And>k. bt_get (sv_log st) (1 + k) =
       (if unat k < length [[1], [2], [3], [4 :: u8]] then Some ([[1], [2], [3], [4]] ! unat k) else None)"
    unfolding a by blast
  moreover have "bt_get (sv_log st) 3 = Some [3]" using g [of 2] by simp
  moreover have "bt_get (sv_log st) 5 = None" using g [of 4] by simp
  ultimately show ?thesis by blast
qed

text \<open>
  When a \<open>Send\<close> takes more than one packet, the packets after the first are misnumbered.
  All carry the sequence number of the first message, while the log files the messages of the
  second packet after those of the first.
\<close>

theorem send_chunks_misnumbered:
  assumes "zerocopy_ok z" and "length (sv_session st) = 10" and "bt_valid (sv_log st)"
    and "\<not> sv_stopped st" and "batch_ok ms" and "chunk_messages ms limit = c1 # c2 # cs"
  shows "\<exists>st' p1 p2 ps. sender_command limit st (Send ms) = Some (st', p1 # p2 # ps) \<and>
    packet_info z p1 = Some (sv_session st, sv_next_seq st, Standard, c1) \<and>
    packet_info z p2 = Some (sv_session st, sv_next_seq st, Standard, c2) \<and>
    bt_get (sv_log st') (sv_next_seq st + of_nat (length c1)) = Some (hd c2) \<and>
    sv_next_seq st + of_nat (length c1) \<noteq> sv_next_seq st"
proof -
  let ?log = "store_messages (sv_log st) (sv_next_seq st) ms"
  let ?st = "st\<lparr>sv_log := ?log, sv_next_seq := sv_next_seq st + of_nat (length ms)\<rparr>"
  have ne: "ms \<noteq> []" using assms(6) chunk_messages_nonempty [of ms limit] by auto
  have cat: "ms = c1 @ c2 @ concat cs" using concat_chunks [of ms limit] assms(6) by simp
  have c2: "c2 \<noteq> []" and c1: "c1 \<noteq> []"
    using chunk_messages_ok [of ms limit] assms(6) by (simp_all add: chunk_fits_def)
  have len: "length ms < 65535" using assms(5) by (simp add: batch_ok_def)
  then have lt: "length ms < 2 ^ 64" and l1: "length c1 < 65535" using cat by simp_all
  have "bt_get ?log (sv_next_seq st + of_nat (length c1)) = Some (ms ! length c1)"
    using store_messages_ok(2) [OF assms(3) lt, of "length c1" "sv_next_seq st"] c2 l1
    by (simp add: cat)
  moreover have "ms ! length c1 = hd c2" using c2 by (cases c2) (simp_all add: cat)
  moreover have "(of_nat (length c1) :: u64) \<noteq> 0"
  proof
    assume "(of_nat (length c1) :: u64) = 0"
    then have "unat (of_nat (length c1) :: u64) = 0" by simp
    with unat_u64_of_nat [of "length c1"] l1 c1 show False by simp
  qed
  moreover
  let ?p = "\<lambda>c. packet_bytes (sv_session st) (sv_next_seq st) (of_nat (length c)) (concat (map message_block c))"
  have "build_chunks (sv_session st) (sv_next_seq st) (chunk_messages ms limit) = Some (map ?p (c1 # c2 # cs))"
    using build_batch [OF assms(5), of "sv_session st" "sv_next_seq st" limit] assms(6) by simp
  then have "sender_command limit st (Send ms) = Some (?st, map ?p (c1 # c2 # cs))"
    using assms(4) ne by (simp add: Let_def del: build_chunks.simps)
  moreover have "map (packet_info z) (map ?p (c1 # c2 # cs)) =
      map (\<lambda>c. Some (sv_session st, sv_next_seq st, Standard, c)) (c1 # c2 # cs)"
    using info_batch [OF assms(1,2,5), of "sv_next_seq st" limit] assms(6) by simp
  ultimately show ?thesis by simp
qed

theorem send_chunks_misnumbered_witness:
  "\<exists>st' p1 p2. sender_command 4 (server_start ''S1'' 1) (Send [[1, 2, 3], [4, 5, 6]]) = Some (st', [p1, p2]) \<and>
     packet_info zerocopy_std p2 = Some (pad_session ''S1'', 1, Standard, [[4, 5, 6]]) \<and>
     bt_get (sv_log st') 2 = Some [4, 5, 6]"
proof -
  let ?st = "server_start ''S1'' 1" and ?ms = "[[1, 2, 3], [4, 5, 6 :: u8]]"
  have "length (sv_session ?st) = 10" "bt_valid (sv_log ?st)" "\<not> sv_stopped ?st"
    "sv_session ?st = pad_session ''S1''" "sv_next_seq ?st = 1"
    by (simp_all add: server_start_def bt.valid_empty)
  moreover have "batch_ok ?ms" by (simp add: batch_ok_def)
  moreover have ch: "chunk_messages ?ms 4 = [[1, 2, 3]] # [[4, 5, 6]] # []"
    by (simp add: chunk_messages_def)
  ultimately obtain st' p1 p2 ps where c: "sender_command 4 ?st (Send ?ms) = Some (st', p1 # p2 # ps)"
    "packet_info zerocopy_std p2 = Some (pad_session ''S1'', 1, Standard, [[4, 5, 6]])"
    "bt_get (sv_log st') 2 = Some [4, 5, 6]"
    using send_chunks_misnumbered [OF zerocopy_std_ok, of ?st ?ms 4] by auto
  from c(1) have "ps = []"
    by (auto simp: ch Let_def server_start_def split: Option.bind_splits)
  with c show ?thesis by blast
qed

lemma stopped_run:
  assumes z: "zerocopy_ok z" and s: "length (sv_session st) = 10" and "sv_stopped st"
  shows "\<exists>pkts. sender_loop limit st es = Some (st, pkts) \<and>
    (\<forall>p \<in> set pkts. packet_info z p = Some (sv_session st, sv_next_seq st, EndOfSession, []))"
proof -
  have e: "END_OF_SESSION_IDENT \<noteq> HEARTBEAT_IDENT"
    by (simp add: END_OF_SESSION_IDENT_def HEARTBEAT_IDENT_def)
  have eos: "packet_info z (build_special (sv_session st) (sv_next_seq st) END_OF_SESSION_IDENT) =
      Some (sv_session st, sv_next_seq st, EndOfSession, [])"
    using packet_info_special [OF z s, of END_OF_SESSION_IDENT "sv_next_seq st"] e by simp
  have per: "send_periodic (sv_session st) (sv_next_seq st) (sv_stopped st) =
      build_special (sv_session st) (sv_next_seq st) END_OF_SESSION_IDENT"
    using assms(3) by (simp add: send_periodic_def Let_def)
  show ?thesis
  proof (induction es)
    case (Cons ev es)
    then obtain pkts where ih: "sender_loop limit st es = Some (st, pkts)"
      "\<forall>p \<in> set pkts. packet_info z p = Some (sv_session st, sv_next_seq st, EndOfSession, [])" by blast
    show ?case
    proof (cases ev)
      case (Cmd c)
      then show ?thesis using ih eos per assms(3) by (cases c) auto
    qed (use ih eos per in auto)
  qed simp
qed

text \<open>
  A stopped session stays stopped. Whatever commands follow, the session, the log and the
  next sequence number do not change, nothing panics, and every packet sent is an
  end-of-session packet with that number.
\<close>

theorem stopped_session_frozen:
  assumes "zerocopy_ok z" and "length (sv_session st) = 10" and "sv_stopped st"
    and "sender_loop limit st es = Some (st', pkts)"
  shows "st' = st \<and> (\<forall>p \<in> set pkts. packet_info z p = Some (sv_session st, sv_next_seq st, EndOfSession, []))"
  using stopped_run [OF assms(1-3), of limit es] assms(4) by auto

theorem stopped_session_frozen_witness:
  "\<exists>pkts. sender_loop 9 ((server_start ''S1'' 1)\<lparr>sv_stopped := True\<rparr>) sample_events =
     Some ((server_start ''S1'' 1)\<lparr>sv_stopped := True\<rparr>, pkts)"
proof -
  let ?st = "(server_start ''S1'' 1)\<lparr>sv_stopped := True\<rparr>"
  have a: "length (sv_session ?st) = 10" "sv_stopped ?st" by (simp_all add: server_start_def)
  obtain st' pkts where r: "sender_loop 9 ?st sample_events = Some (st', pkts)"
    by (simp add: sample_events_def)
  with stopped_session_frozen [OF zerocopy_std_ok a r] show ?thesis by simp
qed

section \<open>The receiver\<close>

definition sample_turns :: "turn list" where
  "sample_turns =
     map (\<lambda>(q, c). \<lparr>tn_buf = replicate 24 0,
            tn_recv = Inr (packet_bytes (pad_session ''S1'') (of_nat q) (of_nat c) []), tn_sent = True\<rparr>)
       [(1, 2), (5, 1), (6, 0)]"

lemma sample_turns_ok: "list_all2 (packet_turn (pad_session ''S1'')) sample_turns [(1, 2), (5, 1), (6, 0)]"
  by (simp add: sample_turns_def packet_turn_def exI [of _ "[]"])

text \<open>
  C5: gap detection is complete and exact. Locked onto a session and fed packets of it that do
  not go backwards and skip at most 65535 messages at a time, the receiver requests precisely
  the messages it did not get: from the first expected number to the end every number is
  either received live or requested, and none is both.
\<close>

theorem gap_detection_complete:
  assumes "zerocopy_ok z" and "length s = 10" and "in_order e ps" and "e < 2 ^ 64"
    and "list_all2 (packet_turn s) ts ps"
  shows "\<exists>effs. multicast_recv_loop z (locked s e) ts = (locked s (end_of e ps), effs) \<and>
    requested effs \<union> live ps = {e ..< end_of e ps} \<and> requested effs \<inter> live ps = {}"
  by (rule gap_detection [OF assms])

lemma sample_missing:
  assumes "A \<union> live [(1, 2), (5, 1), (6, 0)] = {1 ..< 6}" and "A \<inter> live [(1, 2), (5, 1), (6, 0)] = {}"
  shows "A = {3 ..< 5}"
proof (rule set_eqI)
  fix i
  have l: "i \<in> live [(1, 2), (5, 1), (6, 0)] \<longleftrightarrow> 1 \<le> i \<and> i < 3 \<or> i = 5"
    by (simp only: live_simps Un_iff atLeastLessThan_iff empty_iff) arith
  have "i \<in> A \<longleftrightarrow> i \<in> {1 ..< 6} \<and> i \<notin> live [(1, 2), (5, 1), (6, 0)]"
    using assms by blast
  then show "i \<in> A \<longleftrightarrow> i \<in> {3 ..< 5}"
    unfolding l by (simp only: atLeastLessThan_iff) arith
qed

theorem gap_detection_complete_witness:
  "\<exists>effs. multicast_recv_loop zerocopy_std (locked (pad_session ''S1'') 1) sample_turns =
       (locked (pad_session ''S1'') 6, effs) \<and> requested effs = {3 ..< 5}"
proof -
  have "in_order 1 [(1, 2), (5, 1), (6, 0)]" by simp
  from gap_detection_complete [OF zerocopy_std_ok length_pad_session this _ sample_turns_ok] obtain effs where
    r: "multicast_recv_loop zerocopy_std (locked (pad_session ''S1'') 1) sample_turns =
       (locked (pad_session ''S1'') (end_of 1 [(1, 2), (5, 1), (6, 0)]), effs)"
    "requested effs \<union> live [(1, 2), (5, 1), (6, 0)] = {1 ..< end_of 1 [(1, 2), (5, 1), (6, 0)]}"
    "requested effs \<inter> live [(1, 2), (5, 1), (6, 0)] = {}"
    by (metis one_less_numeral_iff one_less_power semiring_norm(76) zero_less_numeral)
  have e: "end_of 1 [(1, 2), (5, 1), (6, 0)] = 6" by simp
  from r [unfolded e] sample_missing [OF r(2,3) [unfolded e]] show ?thesis by blast
qed

text \<open>
  The receiver forwards every datagram of at least a header, once, in the order of arrival
  and byte for byte, whatever its session and sequence number; only shorter ones are
  discarded. A session filter, which the builder's documentation promises, is not applied.
\<close>

theorem receiver_forwards_all:
  assumes "zerocopy_ok z" and "\<forall>t \<in> set ts. 20 \<le> length (tn_buf t) \<and> (\<exists>d. tn_recv t = Inr d)"
  shows "forwarded (snd (multicast_recv_loop z ex ts)) = filter (\<lambda>d. 20 \<le> length d) (map received ts)"
  by (rule loop_forwards [OF assms])

theorem receiver_forwards_all_witness:
  "length (forwarded (snd (multicast_recv_loop zerocopy_std (client_start (Some ''OTHER'') (Some 1)) sample_turns))) = 3"
proof -
  have "\<forall>t \<in> set sample_turns. 20 \<le> length (tn_buf t) \<and> (\<exists>d. tn_recv t = Inr d)"
    by (simp add: sample_turns_def)
  from receiver_forwards_all [OF zerocopy_std_ok this] show ?thesis
    by (simp add: sample_turns_def received_def packet_bytes_def)
qed

text \<open>
  C38: an end-of-session packet hides gaps. It advances the expected number by its count,
  65535, as if that many messages had arrived, so messages lost after it, up to that many,
  are never requested although the session may go on.
\<close>

theorem end_of_session_hides_gap:
  assumes "zerocopy_ok z" and "length s = 10" and "e < q" and "q \<le> e + 65535" and "e + 65535 < 2 ^ 64"
    and "tn_recv t1 = Inr (packet_bytes s (of_nat e) END_OF_SESSION_IDENT [])" and "20 \<le> length (tn_buf t1)"
    and "packet_turn s t2 (q, c)" and "c < 65535"
  shows "requested (snd (multicast_recv_loop z (locked s e) [t1, t2])) = {}"
proof -
  obtain buf n where b: "recv_into (tn_buf t1) (packet_bytes s (of_nat e) END_OF_SESSION_IDENT []) = (buf, n)"
    by (cases "recv_into (tn_buf t1) (packet_bytes s (of_nat e) END_OF_SESSION_IDENT [])")
  have le: "length (packet_bytes s (of_nat e) END_OF_SESSION_IDENT []) \<le> length (tn_buf t1)"
    using assms(7) by (simp add: packet_bytes_length [OF assms(2)])
  have u: "(ucast END_OF_SESSION_IDENT :: u64) = of_nat 65535"
    by (simp add: END_OF_SESSION_IDENT_def word_unat_eq_iff unsigned_ucast_eq unsigned_minus_1_eq_mask
        mask_eq_exp_minus_1 take_bit_nat_eq_self)
  note p = process_packet [OF assms(1,2) b le, of "tn_sent t1" "locked s e"]
  have "gap_request z (locked s e) s (of_nat e) = None"
    using gap_request_range [OF assms(1), of "locked s e" s "of_nat e" "of_nat e"] by (simp add: locked_def)
  then have one: "multicast_recv_loop z (locked s e) [t1, t2] =
      (case multicast_recv_loop z (locked s (e + 65535)) [t2] of (ex, effs) \<Rightarrow> (ex, forward (tn_sent t1) buf n @ effs))"
    using p u
    by (subst multicast_recv_loop.simps(2))
      (simp add: assms(6) b locked_def del: multicast_recv_loop.simps)
  have "\<not> (of_nat (e + 65535) :: u64) < of_nat q"
    using assms(4,5) by (simp add: word_less_nat_alt unat_u64_of_nat del: of_nat_add)
  then have "gap_request z (locked s (e + 65535)) s (of_nat q) = None"
    using gap_request_range [OF assms(1), of "locked s (e + 65535)" s "of_nat (e + 65535)" "of_nat q"]
    by (simp add: locked_def del: of_nat_add)
  with loop_packet [OF assms(1,2,8,9), of "locked s (e + 65535)" "[]"] one show ?thesis
    by auto
qed

theorem end_of_session_hides_gap_witness:
  "requested (snd (multicast_recv_loop zerocopy_std (locked (pad_session ''S1'') 4)
     [\<lparr>tn_buf = replicate 24 0, tn_recv = Inr (packet_bytes (pad_session ''S1'') 4 END_OF_SESSION_IDENT []), tn_sent = True\<rparr>,
      \<lparr>tn_buf = replicate 24 0, tn_recv = Inr (packet_bytes (pad_session ''S1'') 9 1 []), tn_sent = True\<rparr>])) = {}"
  by (rule end_of_session_hides_gap [OF zerocopy_std_ok length_pad_session, where q = 9 and c = 1])
    (simp_all add: packet_turn_def exI [of _ "[]"])

text \<open>
  C39: how often a re-request is sent is settled by the configured number of retries and the outcomes
  of its sends. Whatever the outcomes, the same bytes are sent once for each failure before the first
  success and once for that success, if there is one, and never again after it; and never more
  often than there are retries left.
\<close>

theorem rerequest_retries_bounded:
  "rereq_rounds m outcomes r =
     replicate
       (min (unat m - unat (attempts r)) (length (takeWhile Not outcomes) + (if True \<in> set outcomes then 1 else 0)))
       (PacketHeader_as_bytes (req r))"
proof (induction outcomes arbitrary: r)
  case (Cons sent outcomes)
  show ?case
  proof (cases "m \<le> attempts r")
    case False
    then have lt: "unat (attempts r) < unat m" by (simp add: word_le_nat_alt)
    moreover have "unat (attempts r) + 1 < 2 ^ 8" using lt unsigned_less [of m, where ?'a = nat] by simp
    then have "unat (attempts r + 1) = unat (attempts r) + 1" by (subst unat_add_no_overflow) simp_all
    ultimately obtain n where "unat m - unat (attempts r) = Suc n" "unat m - unat (attempts r + 1) = n"
      by (metis Suc_diff_Suc Suc_eq_plus1)
    then show ?thesis using False Cons.IH [of "\<lparr>req = req r, attempts = attempts r + 1\<rparr>"]
      by (cases sent) (simp_all add: rereq_send_def)
  qed (simp add: rereq_send_def word_le_nat_alt)
qed simp

text \<open>
  C40: the io_uring loops behave as the socket loops. Fed completions that report what the
  kernel wrote, they leave the same expectation and make the same calls as the loops over the
  socket that received the same datagrams and errors.
\<close>

theorem uring_equivalent:
  assumes "\<forall>t \<in> set ts. uring_turn_ok t"
  shows "uring_multicast_recv_loop os z ex ts = multicast_recv_loop z ex (map (turn_of_uring os) ts) \<and>
    uring_rerequest_recv_loop os ts = rerequest_recv_loop (map (turn_of_uring os) ts)"
  using uring_multicast_same [OF assms] uring_rereq_same [OF assms] by blast

theorem uring_equivalent_witness:
  "uring_rerequest_recv_loop (\<lambda>n. ''EIO'') [\<lparr>ut_buf = [1, 2], ut_completion = Inr (- 5), ut_filled = [], ut_sent = True\<rparr>] =
   [Pool_Push [1, 2]]"
  using uring_equivalent [of "[\<lparr>ut_buf = [1, 2], ut_completion = Inr (- 5), ut_filled = [], ut_sent = True\<rparr>]" "\<lambda>n. ''EIO''"]
  by (simp add: uring_turn_ok_def turn_of_uring_def recv_one_def)

section \<open>Client and server together\<close>

text \<open>
  A detected gap is filled. When the receiver expects message \<open>i\<close> of a session and gets
  a packet that starts at \<open>j\<close>, it sends one request, and the server's answer to exactly these
  bytes carries the messages from \<open>i\<close> up to \<open>j\<close>, as they were accepted, in order; every
  packet of the answer announces number \<open>i\<close>.
\<close>

theorem gap_filled:
  assumes "zerocopy_ok z" and "length s = 10" and "log_holds st seq0 acc"
    and "\<forall>m \<in> set acc. length m < 2 ^ 16" and "i < j" and "j \<le> length acc" and "j - i < 65535"
    and "unat seq0 + length acc + 2 ^ 16 < 2 ^ 64"
    and "gap_request z \<lparr>expected_session_ident = Some s, expected_seq_num = Some (seq0 + of_nat i)\<rparr> s
      (seq0 + of_nat j) = r"
  shows "\<exists>rq pkts. r = Some rq \<and>
    rerequest_step s limit (sv_log st) (PacketHeader_as_bytes (req rq)) = Some pkts \<and>
    (\<exists>cs. map (packet_info z) pkts = map (\<lambda>c. Some (s, seq0 + of_nat i, Standard, c)) cs \<and>
      concat cs = take (j - i) (drop i acc))"
  by (rule gap_answered [OF assms])

theorem gap_filled_witness:
  "\<exists>st pkts rq. sender_loop 1452 (server_start ''S1'' 1) sample_events = Some (st, pkts) \<and>
     gap_request zerocopy_std \<lparr>expected_session_ident = Some (pad_session ''S1''), expected_seq_num = Some 2\<rparr>
       (pad_session ''S1'') 4 = Some rq \<and>
     (\<exists>answer cs. rerequest_step (pad_session ''S1'') 1452 (sv_log st) (PacketHeader_as_bytes (req rq)) = Some answer \<and>
        map (packet_info zerocopy_std) answer = map (\<lambda>c. Some (pad_session ''S1'', 2, Standard, c)) cs \<and>
        concat cs = [[2], [3]])"
proof -
  let ?acc = "[[1], [2], [3], [4 :: u8]]"
  have a: "accepted_messages False sample_events = ?acc" by (simp add: sample_events_def)
  have f: "sv_stopped (server_start ''S1'' 1) = False" by (simp add: server_start_def)
  obtain st pkts where st: "sender_loop 1452 (server_start ''S1'' 1) sample_events = Some (st, pkts)"
    and l: "log_holds st 1 ?acc"
    using sender_run_log [OF sample_events_ok log_holds_start, of "''S1''" 1 1452] by (auto simp: a f)
  have "\<forall>m \<in> set ?acc. length m < 2 ^ 16" by simp
  from gap_filled [OF zerocopy_std_ok length_pad_session l this, of 1 3 "''S1''"] st show ?thesis
    by fastforce
qed

lemma accepted_lengths: "\<forall>e \<in> set es. event_ok e \<Longrightarrow> \<forall>m \<in> set (accepted_messages b es). length m < 2 ^ 16"
proof (induction es arbitrary: b)
  case (Cons e es)
  show ?case
  proof (cases e)
    case (Cmd c)
    then show ?thesis using Cons by (cases c) (auto simp: batch_ok_def)
  qed (use Cons in auto)
qed simp

text \<open>
  C20: nothing of a session is lost for good. Let the server send any calls of a session that stays open,
  each \<open>Send\<close> in one packet, and a heartbeat at the end. Let any of the packets before that
  heartbeat be lost, fewer than 65535 messages at a stretch, and the others reach the receiver, which was started for the
  session and its first number. Then each accepted message, those of \<open>SendDropped\<close> too, is
  forwarded in a packet that has it at its number, or lies in a range the receiver requests and is
  carried by the server's answer to that very request.
\<close>

theorem lossy_session_recovers:
  assumes "zerocopy_ok z" and "\<forall>e \<in> set es. open_event limit e" and "accepted_messages False es = acc"
    and "unat seq + length acc + 2 ^ 16 < 2 ^ 64"
  shows "\<exists>st pkts h. sender_loop limit (server_start sess seq) (es @ [Timeout]) = Some (st, pkts @ [h]) \<and>
    (\<forall>r ts. subseq r pkts \<and> narrow_losses (unat seq) (r @ [h]) \<and> list_all2 receives ts (r @ [h]) \<longrightarrow>
      (\<forall>k < length acc.
        (\<exists>p \<in> set (forwarded (snd (multicast_recv_loop z (client_start (Some sess) (Some seq)) ts))).
           delivered_in z (pad_session sess) (unat seq) acc k p) \<or>
        (\<exists>rq \<in> set (requests (snd (multicast_recv_loop z (client_start (Some sess) (Some seq)) ts))).
           \<exists>i j. i \<le> k \<and> k < j \<and> answers z limit (pad_session sess) st seq acc rq i j)))"
proof -
  let ?s = "pad_session sess" and ?st = "server_start sess seq"
  have ok: "\<forall>e \<in> set es. event_ok e" using assms(2) open_event_ok by blast
  have m: "\<forall>m \<in> set acc. length m < 2 ^ 16" using accepted_lengths [OF ok, of False] assms(3) by simp
  have "length acc < 2 ^ 64" using assms(4) by simp
  then obtain st pkts where st: "sender_loop limit ?st es = Some (st, pkts)" "log_holds st seq acc"
    using sender_run_log [OF ok log_holds_start, of sess seq limit] assms(3) by (auto simp: server_start_def)
  obtain cs where cs: "pkts = map (numbered_packet ?s) cs" "sorted_wrt follows cs" "\<forall>c \<in> set cs. part_of (unat seq) acc c"
    using open_session [OF st(1) assms(2)] assms(3,4) by (auto simp: server_start_def)
  define h where "h = numbered_packet ?s (unat seq + length acc, [])"
  have e: "client_start (Some sess) (Some seq) = locked ?s (unat seq)" by (simp add: client_start_def locked_def)
  have "sender_loop limit ?st (es @ [Timeout]) = Some (st, pkts @ [h])"
    using open_session_heartbeat [OF st(1) assms(2)] st(2) unfolding h_def log_holds_def
    by (simp add: server_start_def numbered_packet_def)
  with selection_recovers [OF assms(1) length_pad_session st(2) m assms(4) cs(2,3) _ h_def, where limit = limit] show ?thesis
    unfolding e cs(1) by blast
qed

text \<open>The packet of the second call is lost, and the third call sends none.\<close>

definition lossy_events :: "sender_event list" where
  "lossy_events = [Cmd (Send [[1]]), Cmd (Send [[2], [3]]), Cmd (SendDropped [[4]]), Cmd (Send [[5]])]"

definition lossy_turns :: "turn list" where
  "lossy_turns = map (\<lambda>c. \<lparr>tn_buf = replicate 64 0, tn_recv = Inr (numbered_packet (pad_session ''S1'') c), tn_sent = True\<rparr>)
     [(1, [[1]]), (5, [[5]]), (6, [])]"

theorem lossy_session_recovers_witness:
  "\<exists>st pkts. sender_loop 1452 (server_start ''S1'' 1) (lossy_events @ [Timeout]) = Some (st, pkts) \<and>
     forwarded (snd (multicast_recv_loop zerocopy_std (client_start (Some ''S1'') (Some 1)) lossy_turns)) =
       map (numbered_packet (pad_session ''S1'')) [(1, [[1]]), (5, [[5]]), (6, [])] \<and>
     (\<exists>rq \<in> set (requests (snd (multicast_recv_loop zerocopy_std (client_start (Some ''S1'') (Some 1)) lossy_turns))).
        \<exists>i j. i \<le> 2 \<and> 2 < j \<and> answers zerocopy_std 1452 (pad_session ''S1'') st 1 [[1], [2], [3], [4], [5]] rq i j)"
proof -
  let ?s = "pad_session ''S1''" and ?acc = "[[1], [2], [3], [4], [5 :: u8]]" and ?cs = "[(1, [[1 :: u8]]), (5, [[5]]), (6, [])]"
  let ?effs = "snd (multicast_recv_loop zerocopy_std (client_start (Some ''S1'') (Some 1)) lossy_turns)"
  have o: "\<forall>e \<in> set lossy_events. open_event 1452 e" by (simp add: lossy_events_def batch_ok_def)
  have a: "accepted_messages False lossy_events = ?acc" by (simp add: lossy_events_def)
  note len = length_numbered [OF length_pad_session, of "''S1''"]
  have ts: "list_all2 receives lossy_turns (map (numbered_packet ?s) ?cs)"
    by (simp add: lossy_turns_def receives_def len)
  have f: "forwarded ?effs = map (numbered_packet ?s) ?cs" by (rule loop_forwards_all [OF zerocopy_std_ok ts]) (simp add: len)
  obtain st where st: "sender_loop 1452 (server_start ''S1'' 1) (lossy_events @ [Timeout]) =
      Some (st, map (numbered_packet ?s) [(1, [[1]]), (2, [[2], [3]]), (5, [[5]])] @ [numbered_packet ?s (6, [])])"
    by (simp add: lossy_events_def server_start_def chunk_messages_small send_periodic_def Let_def build_special_packet
        HEARTBEAT_IDENT_def build_packet_ok numbered_packet_def)
  have sub: "subseq (map (numbered_packet ?s) [(1, [[1]]), (5, [[5]])]) (map (numbered_packet ?s) [(1, [[1]]), (2, [[2], [3]]), (5, [[5]])])"
    by simp
  have n: "narrow_losses 1 (map (numbered_packet ?s) [(1, [[1]]), (5, [[5]])] @ [numbered_packet ?s (6, [])])"
    by (simp add: narrow_losses_def span_def numbered_packet_def packet_bytes_def)
  have no: "\<not> delivered_in zerocopy_std ?s 1 ?acc 2 p" if "p \<in> set (forwarded ?effs)" for p
  proof -
    have "packet_info zerocopy_std (numbered_packet ?s (q, ms)) = Some (?s, of_nat q, Standard, ms)"
      if "0 < length ms" "batch_ok ms" for q ms
      unfolding numbered_packet_def using that
      by (subst packet_info_data [OF zerocopy_std_ok length_pad_session]) (simp_all add: batch_ok_def)
    moreover have "packet_info zerocopy_std (numbered_packet ?s (6, [])) = Some (?s, 6, Heartbeat, [])"
      using packet_info_special [OF zerocopy_std_ok length_pad_session, of 0 "''S1''" 6]
      by (simp add: numbered_packet_def build_special_packet HEARTBEAT_IDENT_def)
    ultimately show ?thesis using that unfolding f by (auto simp: delivered_in_def batch_ok_def)
  qed
  from lossy_session_recovers [OF zerocopy_std_ok o a, where seq = 1 and sess = "''S1''"] st obtain st' pkts h where
    r: "sender_loop 1452 (server_start ''S1'' 1) (lossy_events @ [Timeout]) = Some (st', pkts @ [h])"
    and out: "\<And>r ts k. subseq r pkts \<and> narrow_losses (unat (1 :: u64)) (r @ [h]) \<and> list_all2 receives ts (r @ [h]) \<Longrightarrow> k < length ?acc \<Longrightarrow>
      (\<exists>p \<in> set (forwarded (snd (multicast_recv_loop zerocopy_std (client_start (Some ''S1'') (Some 1)) ts))).
         delivered_in zerocopy_std ?s (unat (1 :: u64)) ?acc k p) \<or>
      (\<exists>rq \<in> set (requests (snd (multicast_recv_loop zerocopy_std (client_start (Some ''S1'') (Some 1)) ts))).
         \<exists>i j. i \<le> k \<and> k < j \<and> answers zerocopy_std 1452 ?s st' 1 ?acc rq i j)"
    by auto
  from r st have e: "st' = st" "pkts = map (numbered_packet ?s) [(1, [[1]]), (2, [[2], [3]]), (5, [[5]])]" "h = numbered_packet ?s (6, [])"
    by auto
  have "\<exists>rq \<in> set (requests ?effs). \<exists>i j. i \<le> 2 \<and> 2 < j \<and> answers zerocopy_std 1452 ?s st 1 ?acc rq i j"
    using out [of "map (numbered_packet ?s) [(1, [[1]]), (5, [[5]])]" lossy_turns 2] sub n ts no unfolding e by auto
  with r f show ?thesis unfolding e by blast
qed

text \<open>
  A receiver that takes in the packets of a split \<open>Send\<close> and the heartbeat after them asks for
  all messages behind the first \<open>length (last chunks)\<close>, and is sent them.
\<close>

lemma split_send_rerequest:
  assumes "zerocopy_ok z" and "batch_ok ms" and "1 < length (chunk_messages ms limit)"
    and "unat seq + 2 * 65535 < 2 ^ 64" and st: "log_holds st seq ms"
    and that: "list_all2 receives ts
      (map (\<lambda>c. packet_bytes (pad_session sess) seq (of_nat (length c)) (concat (map message_block c))) (chunk_messages ms limit) @
       [packet_bytes (pad_session sess) (seq + of_nat (length ms)) 0 []])"
  shows "\<exists>rq answer cs. requests (snd (multicast_recv_loop z (client_start (Some sess) (Some seq)) ts)) = [rq] \<and>
    rerequest_step (pad_session sess) limit (sv_log st) (PacketHeader_as_bytes (req rq)) = Some answer \<and>
    map (packet_info z) answer =
      map (\<lambda>c. Some (pad_session sess, seq + of_nat (length (last (chunk_messages ms limit))), Standard, c)) cs \<and>
    concat cs = drop (length (last (chunk_messages ms limit))) ms"
proof -
  let ?s = "pad_session sess" and ?cs = "chunk_messages ms limit" and ?q = "unat seq"
  let ?p = "\<lambda>c. packet_bytes ?s seq (of_nat (length c)) (concat (map message_block c))"
  let ?hb = "packet_bytes ?s (seq + of_nat (length ms)) 0 []"
  have ne: "ms \<noteq> []" "?cs \<noteq> []" using assms(3) chunk_messages_nonempty [of ms limit] by auto
  note n = split_last_less [OF assms(3)]
  have len: "length ms < 65535" "\<forall>m \<in> set ms. length m < 2 ^ 16" using assms(2) by (simp_all add: batch_ok_def)
  have small: "\<forall>c \<in> set ?cs. length c < 65535" using batch_chunks(2) [OF assms(2)] by blast
  from that obtain us t where ts: "ts = us @ [t]" "list_all2 receives us (map ?p ?cs)" "receives t ?hb"
    by (auto simp: list_all2_append2 list_all2_Cons2)
  have us: "list_all2 (\<lambda>t c. packet_turn ?s t (?q, length c)) us ?cs"
    using ts(2) unfolding list_all2_map2
    by (rule list_all2_mono) (rule receives_packet, simp_all)
  have t: "packet_turn ?s t (?q + length ms, 0)"
    using ts(3) by (intro receives_packet [where body = "[]"]) simp_all
  obtain rq where r: "requests (snd (multicast_recv_loop z (locked ?s ?q) ts)) = [rq]"
      "gap_request z (locked ?s (?q + length (last ?cs))) ?s (of_nat (?q + length ms)) = Some rq"
    using split_send_gap [OF assms(1) length_pad_session assms(4) us small ne(2) t n len(1)] ts(1) by blast
  have e: "locked ?s (?q + k) = \<lparr>expected_session_ident = Some ?s, expected_seq_num = Some (seq + of_nat k)\<rparr>"
    "of_nat (?q + k) = seq + of_nat k" for k
    by (simp_all add: locked_def)
  have k: "length ms - length (last ?cs) < 65535" "unat seq + length ms + 2 ^ 16 < 2 ^ 64"
    using len(1) assms(4) by simp_all
  from gap_answered [OF assms(1) length_pad_session st len(2) n order.refl k r(2) [unfolded e], of limit]
  obtain answer cs where
    "rerequest_step ?s limit (sv_log st) (PacketHeader_as_bytes (req rq)) = Some answer"
    "map (packet_info z) answer = map (\<lambda>c. Some (?s, seq + of_nat (length (last ?cs)), Standard, c)) cs"
    "concat cs = take (length ms - length (last ?cs)) (drop (length (last ?cs)) ms)"
    by blast
  moreover from this(3) have "concat cs = drop (length (last ?cs)) ms" by simp
  moreover have "client_start (Some sess) (Some seq) = locked ?s ?q" by (simp add: client_start_def locked_def)
  ultimately show ?thesis using r(1) by metis
qed

text \<open>
  C13: a \<open>Send\<close> cut into several packets is delivered twice in part. All its packets carry the
  number of its first message, so after them the receiver expects a number it has long passed;
  at the next heartbeat it requests, although nothing was lost, and the server answers with
  all the messages but as many as the last packet held, which the receiver forwards again.
\<close>

theorem split_send_redelivered:
  assumes "zerocopy_ok z" and "batch_ok ms" and "1 < length (chunk_messages ms limit)"
    and "unat seq + 2 * 65535 < 2 ^ 64"
  shows "\<exists>st pkts hb. sender_loop limit (server_start sess seq) [Cmd (Send ms), Timeout] = Some (st, pkts @ [hb]) \<and>
    map (packet_info z) pkts = map (\<lambda>c. Some (pad_session sess, seq, Standard, c)) (chunk_messages ms limit) \<and>
    (\<forall>ts. list_all2 receives ts (pkts @ [hb]) \<longrightarrow>
      (\<exists>rq answer cs.
        requests (snd (multicast_recv_loop z (client_start (Some sess) (Some seq)) ts)) = [rq] \<and>
        rerequest_step (pad_session sess) limit (sv_log st) (PacketHeader_as_bytes (req rq)) = Some answer \<and>
        map (packet_info z) answer =
          map (\<lambda>c. Some (pad_session sess, seq + of_nat (length (last (chunk_messages ms limit))), Standard, c)) cs \<and>
        concat cs = drop (length (last (chunk_messages ms limit))) ms))"
proof -
  have "ms \<noteq> []" using assms(3) chunk_messages_nonempty [of ms limit] by auto
  from split_send_run [OF assms(2) this, of limit sess seq] obtain st where
    st: "sender_loop limit (server_start sess seq) [Cmd (Send ms), Timeout] =
      Some (st, map (\<lambda>c. packet_bytes (pad_session sess) seq (of_nat (length c)) (concat (map message_block c)))
        (chunk_messages ms limit) @ [packet_bytes (pad_session sess) (seq + of_nat (length ms)) 0 []])"
    and log: "log_holds st seq ms"
    by blast
  note info = info_batch [OF assms(1) length_pad_session assms(2), of sess seq limit]
  show ?thesis
    by (rule exI, rule exI, rule exI, rule conjI, rule st, rule conjI, rule info, intro allI impI)
      (erule split_send_rerequest [OF assms log])
qed

theorem split_send_redelivered_witness:
  "\<exists>st pkts hb. sender_loop 4 (server_start ''S1'' 1) [Cmd (Send [[1, 2, 3], [4, 5, 6]]), Timeout] = Some (st, pkts @ [hb]) \<and>
    length pkts = 2 \<and>
    (\<forall>ts. list_all2 receives ts (pkts @ [hb]) \<longrightarrow>
      (\<exists>rq answer. requests (snd (multicast_recv_loop zerocopy_std (client_start (Some ''S1'') (Some 1)) ts)) = [rq] \<and>
        rerequest_step (pad_session ''S1'') 4 (sv_log st) (PacketHeader_as_bytes (req rq)) = Some answer \<and>
        (\<exists>cs. map (packet_info zerocopy_std) answer = map (\<lambda>c. Some (pad_session ''S1'', 2, Standard, c)) cs \<and>
          concat cs = [[4, 5, 6]])))"
proof -
  let ?ms = "[[1, 2, 3], [4, 5, 6 :: u8]]"
  have ch: "chunk_messages ?ms 4 = [[[1, 2, 3]], [[4, 5, 6]]]" by (simp add: chunk_messages_def)
  have "batch_ok ?ms" by (simp add: batch_ok_def)
  from split_send_redelivered [OF zerocopy_std_ok this, of 4 1 "''S1''"] obtain st pkts hb where
    "sender_loop 4 (server_start ''S1'' 1) [Cmd (Send ?ms), Timeout] = Some (st, pkts @ [hb])"
    "map (packet_info zerocopy_std) pkts = map (\<lambda>c. Some (pad_session ''S1'', 1, Standard, c)) [[[1, 2, 3]], [[4, 5, 6]]]"
    "\<forall>ts. list_all2 receives ts (pkts @ [hb]) \<longrightarrow>
      (\<exists>rq answer cs. requests (snd (multicast_recv_loop zerocopy_std (client_start (Some ''S1'') (Some 1)) ts)) = [rq] \<and>
        rerequest_step (pad_session ''S1'') 4 (sv_log st) (PacketHeader_as_bytes (req rq)) = Some answer \<and>
        map (packet_info zerocopy_std) answer = map (\<lambda>c. Some (pad_session ''S1'', 2, Standard, c)) cs \<and>
        concat cs = [[4, 5, 6]])"
    unfolding ch by auto
  moreover from this(2) have "length pkts = 2" by (metis length_map length_Cons list.size(3) numeral_2_eq_2)
  ultimately show ?thesis by blast
qed

end
