(* ===== verification/Mold_Runtime.thy ===== *)
theory Mold_Runtime
  imports Mold_System
begin

text \<open>
  Both ends of the transport at work: \<open>MoldUDP64::start_with_sockets\<close> of
  \<^verbatim>\<open>moldudp/src/client.rs\<close> with its pool, channels and threads, and
  \<open>MoldUDP64Server::start_with_sockets\<close> of \<^verbatim>\<open>server.rs\<close> with its command queue
  and handle.  The threads interleave in any order, so both are step relations; one turn of a
  loop between two blocking calls is one step.  What every reachable state satisfies is shown by
  rule induction.
\<close>

section \<open>The client's configuration\<close>

text \<open>Addresses are their texts; the builder's defaults are those of the attributes.\<close>

record MoldUDP64 =
  mc_multicast_addr :: string
  mc_interface_addr :: string
  mc_rerequest_server_addrs :: "string list"
  mc_expected_session_ident :: "string option"
  mc_expected_seq_num :: "u64 option"
  mc_max_rerequest_retries :: u8

definition MoldUDP64_build :: "string \<Rightarrow> string \<Rightarrow> string list \<Rightarrow> string option \<Rightarrow> u64 option \<Rightarrow> MoldUDP64" where
  "MoldUDP64_build multicast iface servers sess seq =
     \<lparr>mc_multicast_addr = multicast, mc_interface_addr = iface, mc_rerequest_server_addrs = servers,
      mc_expected_session_ident = sess, mc_expected_seq_num = seq, mc_max_rerequest_retries = 100\<rparr>"

definition BUF_SIZE :: nat where
  "BUF_SIZE = 524288"

definition POOL_SIZE :: nat where
  "POOL_SIZE = 1024"

section \<open>Queues\<close>

text \<open>
  \<open>ArrayQueue\<close> and the bounded channels are queues that refuse an element when full.  A loop
  that finds no buffer in the queue allocates one.
\<close>

definition queue_push :: "nat \<Rightarrow> 'a list \<Rightarrow> 'a \<Rightarrow> 'a list" where
  "queue_push cap xs x = (if length xs < cap then xs @ [x] else xs)"

fun pool_take :: "bytes list \<Rightarrow> bytes \<times> bytes list" where
  "pool_take [] = (replicate BUF_SIZE 0, [])"
| "pool_take (b # bs) = (b, bs)"

lemma length_queue_push: "length (queue_push cap xs x) = min (max cap (length xs)) (Suc (length xs))"
  by (simp add: queue_push_def)

lemma set_queue_push: "set (queue_push cap xs x) \<subseteq> insert x (set xs)"
  by (auto simp: queue_push_def)

section \<open>The client's state\<close>

text \<open>Where a receive loop stands: before \<open>pop\<close>, in \<open>recv\<close> with its buffer, or past the end.\<close>

datatype loop_state = Looping | Receiving bytes | Exited

text \<open>
  \<open>cl_held\<close> are the datagrams the consumer has taken and not dropped, \<open>cl_listening\<close> says
  whether it still has its receiver, and \<open>cl_wire\<close> what the senders have passed to
  \<open>send_to\<close>, whether or not it succeeded.
\<close>

record client =
  cl_pool :: "bytes list"
  cl_data :: "Datagram list"
  cl_listening :: bool
  cl_requests :: "RetransmissionRequest list"
  cl_servers :: "string list"
  cl_max_retries :: u8
  cl_multicast :: loop_state
  cl_rereq :: loop_state
  cl_expect :: expectation
  cl_held :: "Datagram list"
  cl_wire :: "(string \<times> bytes) list"

text \<open>\<open>tune1\<close> and \<open>tune2\<close> are the answers of the two calls on either socket.\<close>

definition MoldUDP64_start_with_sockets ::
  "MoldUDP64 \<Rightarrow> (string + unit) \<times> (string + nat) \<Rightarrow> (string + unit) \<times> (string + nat) \<Rightarrow> string list \<Rightarrow> client run" where
  "MoldUDP64_start_with_sockets m tune1 tune2 servers =
     (case tune_recv_buffer (fst tune1) (snd tune1) ''downstream'' of
        Inl e \<Rightarrow> panic
      | Inr _ \<Rightarrow>
          (case tune_recv_buffer (fst tune2) (snd tune2) ''rereq'' of
             Inl e \<Rightarrow> panic
           | Inr _ \<Rightarrow> Some
               \<lparr>cl_pool = ((\<lambda>pool. queue_push POOL_SIZE pool (replicate BUF_SIZE 0)) ^^ POOL_SIZE) [],
                cl_data = [], cl_listening = True, cl_requests = [], cl_servers = servers,
                cl_max_retries = mc_max_rerequest_retries m,
                cl_multicast = Looping, cl_rereq = Looping,
                cl_expect = client_start (mc_expected_session_ident m) (mc_expected_seq_num m),
                cl_held = [], cl_wire = []\<rparr>))"

text \<open>
  \<open>start\<close> binds the multicast socket, joins the group and binds the re-request socket; the
  answers are arguments.
\<close>

definition MoldUDP64_start ::
  "MoldUDP64 \<Rightarrow> string + unit \<Rightarrow> string + unit \<Rightarrow> string + unit \<Rightarrow>
   (string + unit) \<times> (string + nat) \<Rightarrow> (string + unit) \<times> (string + nat) \<Rightarrow> (string + client) run" where
  "MoldUDP64_start m bind1 join bind2 tune1 tune2 =
     (case bind1 of Inl e \<Rightarrow> Some (Inl e)
      | Inr _ \<Rightarrow>
          (case join of Inl e \<Rightarrow> Some (Inl e)
           | Inr _ \<Rightarrow>
               (case bind2 of Inl e \<Rightarrow> Some (Inl e)
                | Inr _ \<Rightarrow> map_option Inr
                    (MoldUDP64_start_with_sockets m tune1 tune2 (mc_rerequest_server_addrs m)))))"

section \<open>The calls of a turn\<close>

text \<open>
  \<open>try_send\<close> succeeds when the channel has room and a receiver.  The request channel has one
  receiver per server.
\<close>

definition data_room :: "client \<Rightarrow> bool" where
  "data_room c \<longleftrightarrow> cl_listening c \<and> length (cl_data c) < POOL_SIZE"

definition request_room :: "client \<Rightarrow> bool" where
  "request_room c \<longleftrightarrow> cl_servers c \<noteq> [] \<and> length (cl_requests c) < POOL_SIZE"

fun apply_effect :: "effect \<Rightarrow> client \<Rightarrow> client" where
  "apply_effect (Pool_Push b) c = c\<lparr>cl_pool := queue_push POOL_SIZE (cl_pool c) b\<rparr>"
| "apply_effect (Try_Send_Data d) c = (if data_room c then c\<lparr>cl_data := cl_data c @ [d]\<rparr> else c)"
| "apply_effect (Try_Send_Req r) c = (if request_room c then c\<lparr>cl_requests := cl_requests c @ [r]\<rparr> else c)"

definition loop_after :: "LoopAction \<Rightarrow> loop_state" where
  "loop_after a = (case a of LoopContinue \<Rightarrow> Looping | LoopStop \<Rightarrow> Exited)"

text \<open>A turn of either receive loop once \<open>recv\<close> has returned the datagram \<open>d\<close>.\<close>

definition multicast_turn :: "zerocopy \<Rightarrow> bytes \<Rightarrow> bytes \<Rightarrow> client \<Rightarrow> client" where
  "multicast_turn z b d c =
     (case recv_into b d of (buf, n) \<Rightarrow>
        (case process_multicast_datagram z (data_room c) (cl_expect c) buf n of
           (act, ex, effs) \<Rightarrow> fold apply_effect effs (c\<lparr>cl_expect := ex, cl_multicast := loop_after act\<rparr>)))"

definition rereq_turn :: "bytes \<Rightarrow> bytes \<Rightarrow> client \<Rightarrow> client" where
  "rereq_turn b d c =
     (case recv_into b d of (buf, n) \<Rightarrow>
        (case process_rereq_datagram (data_room c) buf n of
           (act, effs) \<Rightarrow> fold apply_effect effs (c\<lparr>cl_rereq := loop_after act\<rparr>)))"

text \<open>A turn of the sender of one server with the request it has taken.\<close>

fun apply_send :: "string \<Rightarrow> send_effect \<Rightarrow> client \<Rightarrow> client" where
  "apply_send server (Send_To bs) c = c\<lparr>cl_wire := cl_wire c @ [(server, bs)]\<rparr>"
| "apply_send server (Requeue r) c = apply_effect (Try_Send_Req r) c"

definition sender_turn :: "string \<Rightarrow> bool \<Rightarrow> RetransmissionRequest \<Rightarrow> client \<Rightarrow> client" where
  "sender_turn server sent r c = fold (apply_send server) (rereq_send (cl_max_retries c) sent r) c"

section \<open>Steps of the client\<close>

text \<open>
  The consumer takes datagrams, drops them, sends requests of its own (\<open>send\<close> waits for
  room), and may drop the receiver, which discards what the channel holds.  A step is labelled
  with the turn of the multicast thread it completes and the calls that turn makes.
\<close>

inductive client_step :: "zerocopy \<Rightarrow> client \<Rightarrow> turn list \<Rightarrow> effect list \<Rightarrow> client \<Rightarrow> bool" for z where
  multicast_pop: "cl_multicast c = Looping \<Longrightarrow> pool_take (cl_pool c) = (b, p) \<Longrightarrow>
    client_step z c [] [] (c\<lparr>cl_pool := p, cl_multicast := Receiving b\<rparr>)"
| multicast_recv: "cl_multicast c = Receiving b \<Longrightarrow> recv_into b d = (buf, n) \<Longrightarrow>
    process_multicast_datagram z (data_room c) (cl_expect c) buf n = (act, ex, effs) \<Longrightarrow>
    client_step z c [\<lparr>tn_buf = b, tn_recv = Inr d, tn_sent = data_room c\<rparr>] effs (multicast_turn z b d c)"
| multicast_failed: "cl_multicast c = Receiving b \<Longrightarrow>
    client_step z c [\<lparr>tn_buf = b, tn_recv = Inl e, tn_sent = data_room c\<rparr>] [Pool_Push b]
      (apply_effect (Pool_Push b) (c\<lparr>cl_multicast := Exited\<rparr>))"
| rereq_pop: "cl_rereq c = Looping \<Longrightarrow> pool_take (cl_pool c) = (b, p) \<Longrightarrow>
    client_step z c [] [] (c\<lparr>cl_pool := p, cl_rereq := Receiving b\<rparr>)"
| rereq_recv: "cl_rereq c = Receiving b \<Longrightarrow> client_step z c [] [] (rereq_turn b d c)"
| rereq_failed: "cl_rereq c = Receiving b \<Longrightarrow>
    client_step z c [] [] (apply_effect (Pool_Push b) (c\<lparr>cl_rereq := Exited\<rparr>))"
| request_sent: "cl_requests c = r # rs \<Longrightarrow> server \<in> set (cl_servers c) \<Longrightarrow>
    client_step z c [] [] (sender_turn server sent r (c\<lparr>cl_requests := rs\<rparr>))"
| consumer_request: "request_room c \<Longrightarrow>
    client_step z c [] [] (apply_effect (Try_Send_Req (RetransmissionRequest_new h)) c)"
| consumer_takes: "cl_listening c \<Longrightarrow> cl_data c = d # ds \<Longrightarrow>
    client_step z c [] [] (c\<lparr>cl_data := ds, cl_held := cl_held c @ [d]\<rparr>)"
| consumer_drops: "cl_held c = ds @ d # ds' \<Longrightarrow>
    client_step z c [] [] (fold apply_effect (Datagram_drop d) (c\<lparr>cl_held := ds @ ds'\<rparr>))"
| consumer_leaves: "cl_listening c \<Longrightarrow>
    client_step z c [] []
      (fold apply_effect (concat (map Datagram_drop (cl_data c))) (c\<lparr>cl_data := [], cl_listening := False\<rparr>))"

inductive client_run :: "zerocopy \<Rightarrow> client \<Rightarrow> turn list \<Rightarrow> effect list \<Rightarrow> client \<Rightarrow> bool" for z c0 where
  start: "client_run z c0 [] [] c0"
| step: "client_run z c0 ts effs c \<Longrightarrow> client_step z c ts' effs' c' \<Longrightarrow> client_run z c0 (ts @ ts') (effs @ effs') c'"

section \<open>What the client keeps\<close>

text \<open>
  Every buffer has the full size, every datagram in flight a buffer and a header's length at
  least, the queues are within their bounds, and no buffer of the pool is ever lost: those in
  the pool, in the loops, in the channel and with the consumer, with \<open>k\<close> more in transit, are
  at least as many as at the start.
\<close>

definition in_hand :: "loop_state \<Rightarrow> bytes list" where
  "in_hand l = (case l of Receiving b \<Rightarrow> [b] | _ \<Rightarrow> [])"

lemma in_hand_simps [simp]: "in_hand Looping = []" "in_hand (Receiving b) = [b]" "in_hand Exited = []"
  "in_hand (loop_after a) = []"
  by (simp_all add: in_hand_def loop_after_def split: LoopAction.split)

definition datagram_ok :: "Datagram \<Rightarrow> bool" where
  "datagram_ok d \<longleftrightarrow>
     (\<exists>b. dg_buf d = Some b \<and> length b = BUF_SIZE \<and> MIN_PACKET_LEN \<le> dg_len d \<and> dg_len d \<le> BUF_SIZE)"

definition live_buffers :: "client \<Rightarrow> nat" where
  "live_buffers c =
     length (cl_pool c) + length (in_hand (cl_multicast c)) + length (in_hand (cl_rereq c)) +
     length (cl_data c) + length (cl_held c)"

definition client_bal :: "nat \<Rightarrow> client \<Rightarrow> bool" where
  "client_bal k c \<longleftrightarrow>
     (\<forall>b \<in> set (cl_pool c) \<union> set (in_hand (cl_multicast c)) \<union> set (in_hand (cl_rereq c)). length b = BUF_SIZE) \<and>
     (\<forall>d \<in> set (cl_data c) \<union> set (cl_held c). datagram_ok d) \<and>
     (\<forall>r \<in> set (cl_requests c). attempts r \<le> cl_max_retries c) \<and>
     length (cl_pool c) \<le> POOL_SIZE \<and> length (cl_data c) \<le> POOL_SIZE \<and> length (cl_requests c) \<le> POOL_SIZE \<and>
     (\<not> cl_listening c \<longrightarrow> cl_data c = []) \<and> POOL_SIZE \<le> live_buffers c + k"

abbreviation client_ok :: "client \<Rightarrow> bool" where
  "client_ok \<equiv> client_bal 0"

named_theorems client_intros

lemma bal_pool_push [client_intros]:
  "client_bal (Suc k) c \<Longrightarrow> length b = BUF_SIZE \<Longrightarrow> client_bal k (apply_effect (Pool_Push b) c)"
  using set_queue_push [of POOL_SIZE "cl_pool c" b]
  by (auto simp: client_bal_def live_buffers_def queue_push_def)

lemma bal_send_data [client_intros]:
  "client_bal (Suc k) c \<Longrightarrow> data_room c \<Longrightarrow> datagram_ok d \<Longrightarrow> client_bal k (apply_effect (Try_Send_Data d) c)"
  by (auto simp: client_bal_def live_buffers_def data_room_def)

lemma bal_send_req [client_intros]:
  "client_bal k c \<Longrightarrow> attempts r \<le> cl_max_retries c \<Longrightarrow> client_bal k (apply_effect (Try_Send_Req r) c)"
  by (auto simp: client_bal_def live_buffers_def request_room_def)

lemma apply_effect_frame [simp]:
  "cl_listening (apply_effect e c) = cl_listening c" "cl_servers (apply_effect e c) = cl_servers c"
  "cl_max_retries (apply_effect e c) = cl_max_retries c" "cl_multicast (apply_effect e c) = cl_multicast c"
  "cl_rereq (apply_effect e c) = cl_rereq c" "cl_expect (apply_effect e c) = cl_expect c"
  "cl_held (apply_effect e c) = cl_held c" "cl_wire (apply_effect e c) = cl_wire c"
  by (cases e; simp)+

lemma fold_effects_frame [simp]:
  "cl_max_retries (fold apply_effect es c) = cl_max_retries c" "cl_multicast (fold apply_effect es c) = cl_multicast c"
  "cl_rereq (fold apply_effect es c) = cl_rereq c" "cl_held (fold apply_effect es c) = cl_held c"
  "cl_servers (fold apply_effect es c) = cl_servers c" "cl_listening (fold apply_effect es c) = cl_listening c"
  by (induction es arbitrary: c) simp_all

lemma data_room_frame [simp]:
  "data_room (apply_effect (Try_Send_Req r) c) = data_room c" "data_room (c\<lparr>cl_expect := ex\<rparr>) = data_room c"
  "data_room (c\<lparr>cl_multicast := l\<rparr>) = data_room c" "data_room (c\<lparr>cl_rereq := l\<rparr>) = data_room c"
  by (simp_all add: data_room_def)

lemma bal_drop [client_intros]:
  assumes "client_bal (Suc k) c" and "datagram_ok d"
  shows "client_bal k (fold apply_effect (Datagram_drop d) c)"
  using assms(2) bal_pool_push [OF assms(1)] by (auto simp: datagram_ok_def Datagram_drop_def)

lemma bal_drops:
  "client_bal (length ds + k) c \<Longrightarrow> \<forall>d \<in> set ds. datagram_ok d \<Longrightarrow>
   client_bal k (fold apply_effect (concat (map Datagram_drop ds)) c)"
  by (induction ds arbitrary: c) (simp_all add: bal_drop)

text \<open>A buffer received into reaches the channel or goes back to the pool.\<close>

lemma bal_forward:
  assumes "client_bal (Suc k) c" and "length buf = BUF_SIZE" and "MIN_PACKET_LEN \<le> n" and "n \<le> BUF_SIZE"
  shows "client_bal k (fold apply_effect (forward (data_room c) buf n) c)"
proof -
  let ?d = "\<lparr>dg_buf = Some buf, dg_len = n\<rparr>"
  have "datagram_ok ?d" using assms(2-4) by (simp add: datagram_ok_def)
  then show ?thesis
    using bal_send_data [OF assms(1), of ?d] bal_pool_push [OF assms(1,2)]
    by (simp add: forward_def Let_def Datagram_drop_def)
qed

section \<open>Turns keep it\<close>

lemma packet_of_full_buffer:
  "zerocopy_ok z \<Longrightarrow> MIN_PACKET_LEN \<le> length buf \<Longrightarrow> \<exists>p. Packet_parse z buf = Some p"
  by (simp add: Packet_parse_def zc_dst split_at_checked_def HEADER_LEN_def MIN_PACKET_LEN_def)

lemma gap_request_fresh: "gap_request z ex s q = Some r \<Longrightarrow> attempts r = 0"
  by (auto simp: gap_request_def RetransmissionRequest_new_def Let_def split: option.splits if_splits)

lemma min_packet_buf: "MIN_PACKET_LEN \<le> BUF_SIZE"
  by (simp add: MIN_PACKET_LEN_def BUF_SIZE_def)

text \<open>The multicast loop parses the whole buffer, so it never stops on its own.\<close>

lemma bal_multicast:
  assumes z: "zerocopy_ok z" and c: "client_bal (Suc k) c"
    and b: "length buf = BUF_SIZE" and n: "n \<le> BUF_SIZE"
    and p: "process_multicast_datagram z (data_room c) ex buf n = (act, ex', effs)"
  shows "act = LoopContinue" and "client_bal k (fold apply_effect effs c)"
proof -
  obtain pkt where pkt: "Packet_parse z buf = Some pkt"
    using packet_of_full_buffer [OF z, of buf] b min_packet_buf by auto
  show "act = LoopContinue"
    using p by (simp add: process_multicast_datagram_def pkt Let_def split: if_splits)
  show "client_bal k (fold apply_effect effs c)"
  proof (cases "n < MIN_PACKET_LEN")
    case True
    with p bal_pool_push [OF c b] show ?thesis by (auto simp: process_multicast_datagram_def)
  next
    case False
    let ?g = "gap_request z ex (Packet_session_ident_raw pkt) (Packet_seq_num z pkt)"
    have effs: "effs = (case ?g of None \<Rightarrow> [] | Some r \<Rightarrow> [Try_Send_Req r]) @ forward (data_room c) buf n"
      using p False by (simp add: process_multicast_datagram_def pkt Let_def)
    show ?thesis
    proof (cases ?g)
      case None
      with bal_forward [OF c b] False n show ?thesis by (simp add: effs)
    next
      case (Some r)
      then have "client_bal (Suc k) (apply_effect (Try_Send_Req r) c)"
        by (intro bal_send_req c) (simp add: gap_request_fresh)
      from bal_forward [OF this b] Some False n show ?thesis
        by (simp add: effs del: apply_effect.simps)
    qed
  qed
qed

lemma bal_rereq:
  assumes c: "client_bal (Suc k) c" and b: "length buf = BUF_SIZE" and n: "n \<le> BUF_SIZE"
    and p: "process_rereq_datagram (data_room c) buf n = (act, effs)"
  shows "act = LoopContinue" and "client_bal k (fold apply_effect effs c)"
  using p bal_pool_push [OF c b] bal_forward [OF c b] n
  by (auto simp: process_rereq_datagram_def not_less split: if_splits)

text \<open>A loop gives its buffer up and is at its head again.\<close>

lemma bal_release:
  "client_ok c \<Longrightarrow> cl_multicast c = Receiving b \<Longrightarrow> client_bal (Suc 0) (c\<lparr>cl_expect := ex, cl_multicast := l\<rparr>)"
  if "in_hand l = []"
  using that by (auto simp: client_bal_def live_buffers_def)

lemma bal_release_rereq:
  "client_ok c \<Longrightarrow> cl_rereq c = Receiving b \<Longrightarrow> in_hand l = [] \<Longrightarrow> client_bal (Suc 0) (c\<lparr>cl_rereq := l\<rparr>)"
  by (auto simp: client_bal_def live_buffers_def)

lemma multicast_turn_ok:
  assumes z: "zerocopy_ok z" and c: "client_ok c" and m: "cl_multicast c = Receiving b"
  shows "client_ok (multicast_turn z b d c)" and "cl_multicast (multicast_turn z b d c) = Looping"
proof -
  obtain buf n where r: "recv_into b d = (buf, n)" by (cases "recv_into b d")
  obtain act ex effs where p: "process_multicast_datagram z (data_room c) (cl_expect c) buf n = (act, ex, effs)"
    by (cases "process_multicast_datagram z (data_room c) (cl_expect c) buf n")
  have b: "length buf = BUF_SIZE" "n \<le> BUF_SIZE"
    using c m recv_into_props [OF r] by (simp_all add: client_bal_def)
  let ?c = "c\<lparr>cl_expect := ex, cl_multicast := loop_after act\<rparr>"
  have "data_room ?c = data_room c" by (simp add: data_room_def)
  with p have p': "process_multicast_datagram z (data_room ?c) (cl_expect c) buf n = (act, ex, effs)" by simp
  note ok = bal_multicast [OF z bal_release [OF _ c m] b p']
  show "client_ok (multicast_turn z b d c)" using ok(2) by (simp add: multicast_turn_def r p)
  show "cl_multicast (multicast_turn z b d c) = Looping"
    using ok(1) by (simp add: multicast_turn_def r p) (simp add: loop_after_def)
qed

lemma rereq_turn_ok:
  assumes c: "client_ok c" and m: "cl_rereq c = Receiving b"
  shows "client_ok (rereq_turn b d c)" and "cl_rereq (rereq_turn b d c) = Looping"
proof -
  obtain buf n where r: "recv_into b d = (buf, n)" by (cases "recv_into b d")
  obtain act effs where p: "process_rereq_datagram (data_room c) buf n = (act, effs)"
    by (cases "process_rereq_datagram (data_room c) buf n")
  have b: "length buf = BUF_SIZE" "n \<le> BUF_SIZE"
    using c m recv_into_props [OF r] by (simp_all add: client_bal_def)
  from p have p': "process_rereq_datagram (data_room (c\<lparr>cl_rereq := loop_after act\<rparr>)) buf n = (act, effs)" by simp
  note ok = bal_rereq [OF bal_release_rereq [OF c m] b p']
  show "client_ok (rereq_turn b d c)" using ok(2) by (simp add: rereq_turn_def r p)
  show "cl_rereq (rereq_turn b d c) = Looping"
    using ok(1) by (simp add: rereq_turn_def r p) (simp add: loop_after_def)
qed

lemma sender_turn_ok:
  assumes "client_ok c" and "attempts r \<le> cl_max_retries c"
  shows "client_ok (sender_turn server sent r c)"
proof (cases "cl_max_retries c \<le> attempts r")
  case False
  then have "attempts r + 1 \<le> cl_max_retries c" by (simp add: inc_le)
  moreover have "client_ok (c\<lparr>cl_wire := w\<rparr>)" for w using assms(1) by (simp add: client_bal_def live_buffers_def)
  ultimately show ?thesis
    using bal_send_req [of 0 "c\<lparr>cl_wire := w\<rparr>" "\<lparr>req = req r, attempts = attempts r + 1\<rparr>" for w] False
    by (simp add: sender_turn_def rereq_send_def del: apply_effect.simps)
qed (simp add: sender_turn_def rereq_send_def assms(1))

lemma pool_take_ok:
  assumes "pool_take bs = (b, p)"
  shows "length p = length bs - 1" and "set p \<subseteq> set bs" and "\<forall>x \<in> set bs. length x = BUF_SIZE \<Longrightarrow> length b = BUF_SIZE"
  using assms by (cases bs; auto)+

lemma client_step_ok:
  assumes z: "zerocopy_ok z" and "client_step z c ts effs c'" and "client_ok c"
  shows "client_ok c'"
  using assms(2,3)
proof (induction rule: client_step.induct)
  case (multicast_pop c b p)
  with pool_take_ok [OF multicast_pop(2)] show ?case by (fastforce simp: client_bal_def live_buffers_def)
next
  case (rereq_pop c b p)
  with pool_take_ok [OF rereq_pop(2)] show ?case by (fastforce simp: client_bal_def live_buffers_def)
next
  case (multicast_recv c b d buf n act ex effs)
  then show ?case by (intro multicast_turn_ok [OF z])
next
  case (rereq_recv c b d)
  then show ?case by (intro rereq_turn_ok)
next
  case (multicast_failed c b e)
  then show ?case
    using bal_release [of Exited c b "cl_expect c"] by (intro bal_pool_push) (auto simp: client_bal_def)
next
  case (rereq_failed c b)
  then show ?case by (intro bal_pool_push bal_release_rereq) (auto simp: client_bal_def)
next
  case (request_sent c r rs server sent)
  then show ?case by (intro sender_turn_ok) (auto simp: client_bal_def live_buffers_def)
next
  case (consumer_request c h)
  then show ?case by (intro bal_send_req) (simp_all add: RetransmissionRequest_new_def)
next
  case (consumer_takes c d ds)
  then show ?case by (auto simp: client_bal_def live_buffers_def)
next
  case (consumer_drops c ds d ds')
  then show ?case by (intro bal_drop) (auto simp: client_bal_def live_buffers_def)
next
  case (consumer_leaves c)
  then show ?case by (intro bal_drops) (auto simp: client_bal_def live_buffers_def)
qed

section \<open>Reachable clients\<close>

lemma fill_pool: "((\<lambda>pool. queue_push cap pool x) ^^ k) [] = replicate (min k cap) x"
  by (induction k) (auto simp: queue_push_def min_def replicate_append_same)

lemma start_client_ok:
  assumes "MoldUDP64_start_with_sockets m tune1 tune2 servers = Some c"
  shows "client_ok c" and "cl_multicast c = Looping" and "cl_rereq c = Looping" and "cl_servers c = servers"
    and "cl_expect c = client_start (mc_expected_session_ident m) (mc_expected_seq_num m)"
  using assms
  by (auto simp: MoldUDP64_start_with_sockets_def fill_pool client_bal_def live_buffers_def split: sum.splits)

lemma client_run_ok:
  assumes "zerocopy_ok z" and "client_run z c0 ts effs c" and "client_ok c0"
  shows "client_ok c"
  using assms(2,3) by (induction rule: client_run.induct) (auto intro: client_step_ok [OF assms(1)])

text \<open>
  The multicast thread of a run has made a run of the receive loop over its turns: while it has
  not exited every turn had a full buffer and a datagram, so the loop goes on where it stopped.
\<close>

definition full_turn :: "turn \<Rightarrow> bool" where
  "full_turn t \<longleftrightarrow> length (tn_buf t) = BUF_SIZE \<and> (\<exists>d. tn_recv t = Inr d)"

lemma full_buffer_continues:
  assumes "zerocopy_ok z" and "length b = BUF_SIZE" and "recv_into b d = (buf, n)"
    and "process_multicast_datagram z sent ex buf n = (act, ex', effs)"
  shows "act = LoopContinue"
proof -
  obtain p where "Packet_parse z buf = Some p"
    using packet_of_full_buffer [OF assms(1), of buf] recv_into_props(1) [OF assms(3)] assms(2) min_packet_buf by auto
  with assms(4) show ?thesis by (auto simp: process_multicast_datagram_def Let_def split: if_splits)
qed

lemma recv_loop_append:
  assumes z: "zerocopy_ok z"
  shows "\<forall>t \<in> set ts. full_turn t \<Longrightarrow> multicast_recv_loop z ex (ts @ us) =
    (case multicast_recv_loop z ex ts of (ex', effs) \<Rightarrow>
       (case multicast_recv_loop z ex' us of (ex'', effs') \<Rightarrow> (ex'', effs @ effs')))"
proof (induction ts arbitrary: ex)
  case (Cons t ts)
  then obtain d where d: "tn_recv t = Inr d" "length (tn_buf t) = BUF_SIZE" by (auto simp: full_turn_def)
  obtain buf n where r: "recv_into (tn_buf t) d = (buf, n)" by (cases "recv_into (tn_buf t) d")
  obtain act ex' effs where p: "process_multicast_datagram z (tn_sent t) ex buf n = (act, ex', effs)"
    by (cases "process_multicast_datagram z (tn_sent t) ex buf n")
  have "act = LoopContinue" using full_buffer_continues [OF z d(2) r p] .
  with Cons d r p show ?case by (simp add: case_prod_beta)
qed (simp add: case_prod_beta)

lemma apply_send_frame [simp]:
  "cl_expect (apply_send server e c) = cl_expect c" "cl_multicast (apply_send server e c) = cl_multicast c"
  by (cases e; simp)+

lemma fold_send_frame [simp]:
  "cl_expect (fold (apply_send server) es c) = cl_expect c" "cl_multicast (fold (apply_send server) es c) = cl_multicast c"
  by (induction es arbitrary: c) simp_all

lemma fold_effects_expect [simp]: "cl_expect (fold apply_effect es c) = cl_expect c"
  by (induction es arbitrary: c) simp_all

lemma other_steps_frame:
  assumes "client_step z c [] effs c'"
  shows "cl_expect c' = cl_expect c" and "effs = []" and "cl_multicast c = Exited \<Longrightarrow> cl_multicast c' = Exited"
  using assms
  by (cases rule: client_step.cases; auto simp: rereq_turn_def sender_turn_def case_prod_beta)+

lemma multicast_turn_expect:
  "recv_into b d = (buf, n) \<Longrightarrow> process_multicast_datagram z (data_room c) (cl_expect c) buf n = (act, ex, effs) \<Longrightarrow>
   cl_expect (multicast_turn z b d c) = ex"
  by (simp add: multicast_turn_def)

lemma multicast_can_receive:
  "cl_multicast c = Receiving b \<Longrightarrow> \<exists>ts effs. client_step z c ts effs (multicast_turn z b d c)"
  by (cases "recv_into b d"; cases "process_multicast_datagram z (data_room c) (cl_expect c) (fst (recv_into b d)) (snd (recv_into b d))")
    (auto intro!: exI client_step.multicast_recv)

lemma client_run_loop:
  assumes z: "zerocopy_ok z" and run: "client_run z c0 ts effs c" and c0: "client_ok c0"
  shows "multicast_recv_loop z (cl_expect c0) ts = (cl_expect c, effs) \<and>
    (cl_multicast c \<noteq> Exited \<longrightarrow> (\<forall>t \<in> set ts. full_turn t))"
  using run
proof (induction rule: client_run.induct)
  case start
  show ?case by simp
next
  case (step ts effs c ts' effs' c')
  then have IH: "multicast_recv_loop z (cl_expect c0) ts = (cl_expect c, effs)"
    "cl_multicast c \<noteq> Exited \<Longrightarrow> \<forall>t \<in> set ts. full_turn t" by auto
  note ok = client_run_ok [OF z step(1) c0]
  show ?case
  proof (cases "ts' = []")
    case True
    with other_steps_frame [of z c effs' c'] step(2) IH show ?thesis by auto
  next
    case False
    with step(2) obtain b where m: "cl_multicast c = Receiving b" by (cases rule: client_step.cases) auto
    then have b: "length b = BUF_SIZE" and full: "\<forall>t \<in> set ts. full_turn t"
      using ok IH(2) by (simp_all add: client_bal_def)
    note app = recv_loop_append [OF z full, of "cl_expect c0" ts', unfolded IH(1)]
    from step(2) False show ?thesis
    proof (cases rule: client_step.cases)
      case (multicast_recv b' d buf n act ex)
      then have "multicast_recv_loop z (cl_expect c) ts' = (ex, effs')"
        using m full_buffer_continues [OF z b, of d buf n "data_room c" "cl_expect c" act ex effs'] by simp
      with app m multicast_recv multicast_turn_expect [of b d buf n z c act ex effs'] full b show ?thesis
        by (auto simp: full_turn_def)
    next
      case (multicast_failed b' e)
      with app m show ?thesis by simp
    qed simp_all
  qed
qed

lemma datagram_ok_reads:
  assumes z: "zerocopy_ok z" and "datagram_ok d"
  shows "\<exists>bs p. Datagram_bytes d = Some bs \<and> Packet_parse z bs = Some p"
proof -
  from assms(2) obtain b where b: "dg_buf d = Some b" "length b = BUF_SIZE" "MIN_PACKET_LEN \<le> dg_len d" "dg_len d \<le> BUF_SIZE"
    by (auto simp: datagram_ok_def)
  then show ?thesis
    using packet_of_full_buffer [OF z, of "take (dg_len d) b"] by (simp add: Datagram_bytes_def)
qed

section \<open>The server's configuration and handle\<close>

text \<open>The heartbeat interval is in milliseconds.\<close>

record MoldUDP64Server =
  ms_multicast_addr :: string
  ms_interface_addr :: string
  ms_rerequest_bind_addr :: string
  ms_session :: string
  ms_max_payload :: nat
  ms_heartbeat_interval :: nat
  ms_command_queue_size :: nat
  ms_seq_num :: u64

definition MoldUDP64Server_build :: "string \<Rightarrow> string \<Rightarrow> string \<Rightarrow> MoldUDP64Server" where
  "MoldUDP64Server_build multicast rerequest sess =
     \<lparr>ms_multicast_addr = multicast, ms_interface_addr = ''0.0.0.0'', ms_rerequest_bind_addr = rerequest,
      ms_session = sess, ms_max_payload = 1452, ms_heartbeat_interval = 1000,
      ms_command_queue_size = 1000000, ms_seq_num = 1\<rparr>"

text \<open>
  The command channel with its capacity (\<open>None\<close> when unbounded) and the number of handles,
  the sender thread, and what the re-request thread was started with.
\<close>

record server =
  sr_commands :: "ServerCommand list"
  sr_capacity :: "nat option"
  sr_handles :: nat
  sr_running :: bool
  sr_sender :: sender
  sr_max_payload :: nat
  sr_rereq_session :: bytes

definition MoldUDP64Server_start_with_sockets :: "MoldUDP64Server \<Rightarrow> server" where
  "MoldUDP64Server_start_with_sockets m =
     \<lparr>sr_commands = [],
      sr_capacity = (if ms_command_queue_size m = 0 then None else Some 1000000),
      sr_handles = 1, sr_running = True,
      sr_sender = server_start (ms_session m) (ms_seq_num m),
      sr_max_payload = ms_max_payload m,
      sr_rereq_session = pad_session (ms_session m)\<rparr>"

definition MoldUDP64Server_start :: "MoldUDP64Server \<Rightarrow> string + unit \<Rightarrow> string + unit \<Rightarrow> string + server" where
  "MoldUDP64Server_start m bind1 bind2 =
     (case bind1 of Inl e \<Rightarrow> Inl e
      | Inr _ \<Rightarrow>
          (case bind2 of Inl e \<Rightarrow> Inl e
           | Inr _ \<Rightarrow> Inr (MoldUDP64Server_start_with_sockets m)))"

text \<open>
  \<open>tx.send\<close> waits while the queue is full, which is \<open>None\<close> here, and fails silently once the
  sender thread is gone.
\<close>

definition server_call :: "ServerCommand \<Rightarrow> server \<Rightarrow> server option" where
  "server_call cmd s =
     (if \<not> sr_running s then Some s
      else if (case sr_capacity s of None \<Rightarrow> True | Some n \<Rightarrow> length (sr_commands s) < n)
      then Some (s\<lparr>sr_commands := sr_commands s @ [cmd]\<rparr>)
      else None)"

definition ServerHandle_send :: "bytes list \<Rightarrow> server \<Rightarrow> server option" where
  "ServerHandle_send msgs = server_call (Send msgs)"

definition ServerHandle_send_dropped :: "bytes list \<Rightarrow> server \<Rightarrow> server option" where
  "ServerHandle_send_dropped msgs = server_call (SendDropped msgs)"

definition ServerHandle_heartbeat :: "server \<Rightarrow> server option" where
  "ServerHandle_heartbeat = server_call HeartbeatCmd"

definition ServerHandle_end_of_session :: "server \<Rightarrow> server option" where
  "ServerHandle_end_of_session = server_call EndOfSessionCmd"

definition ServerHandle_change_session :: "string \<Rightarrow> server \<Rightarrow> server option" where
  "ServerHandle_change_session sess = server_call (ChangeSession sess)"

definition ServerHandle_shutdown :: "server \<Rightarrow> server option" where
  "ServerHandle_shutdown = server_call StopSession"

lemmas handle_defs =
  ServerHandle_send_def ServerHandle_send_dropped_def ServerHandle_heartbeat_def
  ServerHandle_end_of_session_def ServerHandle_change_session_def ServerHandle_shutdown_def

text \<open>The re-request thread's answer to a datagram; it reads the log the sender writes.\<close>

definition server_answer :: "server \<Rightarrow> bytes \<Rightarrow> bytes list run" where
  "server_answer s d = rerequest_step (sr_rereq_session s) (sr_max_payload s) (sv_log (sr_sender s)) d"

section \<open>Steps of the server\<close>

text \<open>
  The calls accepted and the packets multicast label a step.  Handles are cloned and dropped;
  the tick comes when the queue has stayed empty, and without handles the thread ends.  A panic
  of the sender is no step.
\<close>

inductive server_step :: "server \<Rightarrow> ServerCommand list \<Rightarrow> bytes list \<Rightarrow> server \<Rightarrow> bool" where
  called: "0 < sr_handles s \<Longrightarrow> sr_running s \<Longrightarrow> server_call cmd s = Some s' \<Longrightarrow> server_step s [cmd] [] s'"
| cloned: "0 < sr_handles s \<Longrightarrow> server_step s [] [] (s\<lparr>sr_handles := sr_handles s + 1\<rparr>)"
| dropped: "0 < sr_handles s \<Longrightarrow> server_step s [] [] (s\<lparr>sr_handles := sr_handles s - 1\<rparr>)"
| command: "sr_running s \<Longrightarrow> sr_commands s = cmd # cmds \<Longrightarrow>
    sender_command (sr_max_payload s) (sr_sender s) cmd = Some (st, pkts) \<Longrightarrow>
    server_step s [] pkts (s\<lparr>sr_commands := cmds, sr_sender := st\<rparr>)"
| tick: "sr_running s \<Longrightarrow> sr_commands s = [] \<Longrightarrow> 0 < sr_handles s \<Longrightarrow>
    server_step s [] [send_periodic (sv_session (sr_sender s)) (sv_next_seq (sr_sender s)) (sv_stopped (sr_sender s))] s"
| ended: "sr_running s \<Longrightarrow> sr_commands s = [] \<Longrightarrow> sr_handles s = 0 \<Longrightarrow>
    server_step s [] [] (s\<lparr>sr_running := False\<rparr>)"

inductive server_run :: "server \<Rightarrow> ServerCommand list \<Rightarrow> bytes list \<Rightarrow> server \<Rightarrow> bool" where
  start: "server_run s [] [] s"
| step: "server_run s cmds pkts s' \<Longrightarrow> server_step s' cmds' pkts' s'' \<Longrightarrow>
    server_run s (cmds @ cmds') (pkts @ pkts') s''"

section \<open>What the server keeps\<close>

fun event_commands :: "sender_event list \<Rightarrow> ServerCommand list" where
  "event_commands [] = []"
| "event_commands (Cmd c # es) = c # event_commands es"
| "event_commands (_ # es) = event_commands es"

lemma event_commands_append [simp]: "event_commands (es @ fs) = event_commands es @ event_commands fs"
  by (induction es rule: event_commands.induct) simp_all

lemma sender_loop_snoc:
  assumes "sender_loop limit st es = Some (st', pkts)" and "Disconnected \<notin> set es"
  shows "sender_loop limit st (es @ fs) =
    map_option (\<lambda>(st'', pkts'). (st'', pkts @ pkts')) (sender_loop limit st' fs)"
  using assms
proof (induction es arbitrary: st pkts)
  case Nil
  then show ?case by (cases "sender_loop limit st' fs") auto
next
  case (Cons e es)
  show ?case
  proof (cases e)
    case (Cmd c)
    with Cons.prems obtain s1 p1 p2 where
      "sender_command limit st c = Some (s1, p1)" "sender_loop limit s1 es = Some (st', p2)" "pkts = p1 @ p2"
      by (auto simp: bind_eq_Some_conv)
    with Cons.IH [of s1 p2] Cons.prems Cmd show ?thesis by (cases "sender_loop limit st' fs") auto
  next
    case Timeout
    let ?pkt = "send_periodic (sv_session st) (sv_next_seq st) (sv_stopped st)"
    from Timeout Cons.prems obtain p2 where "sender_loop limit st es = Some (st', p2)" "pkts = ?pkt # p2"
      by (auto simp: bind_eq_Some_conv)
    with Cons.IH [of st p2] Cons.prems Timeout show ?thesis by (cases "sender_loop limit st' fs") auto
  qed (use Cons.prems in simp)
qed

text \<open>What the threads have done so far is a run of the sender loop over the accepted calls.\<close>

lemma server_run_sender:
  assumes "server_run s0 cmds pkts s"
  shows "sr_max_payload s = sr_max_payload s0 \<and> sr_rereq_session s = sr_rereq_session s0 \<and>
    (\<exists>es. Disconnected \<notin> set es \<and> event_commands es @ sr_commands s = sr_commands s0 @ cmds \<and>
       sender_loop (sr_max_payload s0) (sr_sender s0) es = Some (sr_sender s, pkts))"
  using assms
proof (induction rule: server_run.induct)
  case (start s)
  show ?case by (auto intro!: exI [of _ "[]"])
next
  case (step s cmds pkts s' cmds' pkts' s'')
  then obtain es where
    es: "Disconnected \<notin> set es" "event_commands es @ sr_commands s' = sr_commands s @ cmds"
      "sender_loop (sr_max_payload s) (sr_sender s) es = Some (sr_sender s', pkts)"
    and f: "sr_max_payload s' = sr_max_payload s" "sr_rereq_session s' = sr_rereq_session s"
    by auto
  from step(2) show ?case
  proof cases
    case (called cmd)
    with es f show ?thesis by (auto simp: server_call_def split: if_splits intro!: exI [of _ es])
  next
    case (command cmd cs st)
    with es f show ?thesis
      by (auto simp: sender_loop_snoc [OF es(3,1)] intro!: exI [of _ "es @ [Cmd cmd]"])
  next
    case tick
    with es f show ?thesis
      by (auto simp: sender_loop_snoc [OF es(3,1)] intro!: exI [of _ "es @ [Timeout]"])
  qed (use es f in \<open>auto intro!: exI [of _ es]\<close>)
qed

lemma rerequest_other_session:
  "take 10 d \<noteq> s \<Longrightarrow> rerequest_step s limit log d = Some []"
  by (simp add: rerequest_step_def Let_def HEADER_LEN_def)

lemma sender_session_length:
  "sender_loop limit st es = Some (st', pkts) \<Longrightarrow> length (sv_session st) = 10 \<Longrightarrow> length (sv_session st') = 10"
proof (induction limit st es arbitrary: pkts rule: sender_loop.induct)
  case (2 limit st c es)
  from 2(2) obtain s1 p1 p2 where c: "sender_command limit st c = Some (s1, p1)" and
    l: "sender_loop limit s1 es = Some (st', p2)"
    by (auto simp: bind_eq_Some_conv)
  from c have "length (sv_session s1) = 10"
    using 2(3) by (cases c) (auto simp: bind_eq_Some_conv Let_def split: if_splits)
  with 2(1) c l show ?case by blast
qed (auto simp: bind_eq_Some_conv)

lemma server_session_length:
  assumes "server_run (MoldUDP64Server_start_with_sockets m) cmds pkts s"
  shows "length (sv_session (sr_sender s)) = 10"
  using server_run_sender [OF assms] sender_session_length
  by (fastforce simp: MoldUDP64Server_start_with_sockets_def server_start_def)

end
