(* ===== verification/Mold_Channel.thy ===== *)
theory Mold_Channel
  imports Mold_Runtime Mold_Losses
begin

text \<open>
  The channel from the client to its consumer: what the two receive loops put on it, and what the
  consumer takes from it, in any interleaving of the threads; and the runs of a client connected to
  a server, whose re-requests go to the server and whose answers come back.
\<close>

section \<open>What the receiver sends\<close>

text \<open>The datagrams the receiver puts on the consumer's channel.\<close>

fun sent_data :: "effect list \<Rightarrow> Datagram list" where
  "sent_data [] = []"
| "sent_data (Try_Send_Data d # es) = d # sent_data es"
| "sent_data (_ # es) = sent_data es"

text \<open>What the receiver puts on the channel reads as what it forwards.\<close>

lemma sent_data_append [simp]: "sent_data (es @ fs) = sent_data es @ sent_data fs"
  by (induction es rule: sent_data.induct) simp_all

lemma process_sent_data:
  assumes "recv_into b d = (buf, n)" and "process_multicast_datagram z sent ex buf n = (act, ex', effs)"
  shows "map Datagram_bytes (sent_data effs) = map Some (forwarded effs)"
proof -
  have n: "n \<le> length buf" using recv_into_props [OF assms(1)] by simp
  have "map Datagram_bytes (sent_data (forward sent buf n)) = map Some (forwarded (forward sent buf n))"
    using n by (simp add: forward_def Datagram_drop_def Datagram_bytes_def Let_def)
  moreover have "sent_data (case gap_request z ex s q of None \<Rightarrow> [] | Some r \<Rightarrow> [Try_Send_Req r]) = []"
    "forwarded (case gap_request z ex s q of None \<Rightarrow> [] | Some r \<Rightarrow> [Try_Send_Req r]) = []" for s q
    by (simp_all split: option.split)
  ultimately show ?thesis
    using assms(2) by (auto simp: process_multicast_datagram_def Let_def split: if_splits option.splits)
qed

lemma loop_sent_data:
  "map Datagram_bytes (sent_data (snd (multicast_recv_loop z ex ts))) =
   map Some (forwarded (snd (multicast_recv_loop z ex ts)))"
proof (induction ts arbitrary: ex)
  case (Cons t ts)
  show ?case
  proof (cases "tn_recv t")
    case (Inr d)
    obtain buf n where r: "recv_into (tn_buf t) d = (buf, n)" by (cases "recv_into (tn_buf t) d")
    obtain act ex' effs where p: "process_multicast_datagram z (tn_sent t) ex buf n = (act, ex', effs)"
      by (cases "process_multicast_datagram z (tn_sent t) ex buf n")
    from process_sent_data [OF r p] Cons [of ex'] Inr r p show ?thesis
      by (cases act) (simp_all add: case_prod_beta)
  qed simp
qed simp

lemma delivered_datagrams:
  assumes z: "zerocopy_ok z" and ts: "list_all2 receives ts pkts" and len: "\<forall>p \<in> set pkts. 20 \<le> length p"
  shows "map Datagram_bytes (sent_data (snd (multicast_recv_loop z ex ts))) = map Some pkts"
proof -
  from ts len have "\<forall>t \<in> set ts. 20 \<le> length (tn_buf t) \<and> (\<exists>d. tn_recv t = Inr d)"
    by (induction rule: list_all2_induct) (auto simp: receives_def)
  from loop_forwards [OF z this, of ex]
  have "forwarded (snd (multicast_recv_loop z ex ts)) = filter (\<lambda>d. 20 \<le> length d) (map received ts)" .
  moreover from ts have "map received ts = pkts"
    by (induction rule: list_all2_induct) (auto simp: receives_def received_def)
  ultimately show ?thesis using len by (simp add: loop_sent_data)
qed

section \<open>Runs that follow the channel\<close>

text \<open>
  A run of the client in which the consumer listens, with what the channel has accepted from the
  multicast loop and from the re-request loop, and what the consumer has taken.
\<close>

inductive channel_run ::
  "zerocopy \<Rightarrow> client \<Rightarrow> turn list \<Rightarrow> effect list \<Rightarrow> Datagram list \<Rightarrow> Datagram list \<Rightarrow> Datagram list \<Rightarrow> client \<Rightarrow> bool"
  for z c0 where
  start: "channel_run z c0 [] [] [] [] [] c0"
| multicast: "channel_run z c0 ts effs new again took c \<Longrightarrow> client_step z c [t] effs' c' \<Longrightarrow>
    channel_run z c0 (ts @ [t]) (effs @ effs') (new @ (if tn_sent t then sent_data effs' else [])) again took c'"
| rereq: "channel_run z c0 ts effs new again took c \<Longrightarrow> cl_rereq c = Receiving b \<Longrightarrow>
    channel_run z c0 ts effs new (again @ drop (length (cl_data c)) (cl_data (rereq_turn b d c))) took (rereq_turn b d c)"
| takes: "channel_run z c0 ts effs new again took c \<Longrightarrow> cl_listening c \<Longrightarrow> cl_data c = d # ds \<Longrightarrow>
    channel_run z c0 ts effs new again (took @ [d]) (c\<lparr>cl_data := ds, cl_held := cl_held c @ [d]\<rparr>)"
| other: "channel_run z c0 ts effs new again took c \<Longrightarrow> client_step z c [] [] c' \<Longrightarrow> cl_data c' = cl_data c \<Longrightarrow>
    channel_run z c0 ts effs new again took c'"

lemma channel_run_client: "channel_run z c0 ts effs new again took c \<Longrightarrow> client_run z c0 ts effs c"
proof (induction rule: channel_run.induct)
  case (rereq ts effs new again took c b d)
  from client_run.step [OF rereq.IH client_step.rereq_recv [OF rereq.hyps(2), of z d]] show ?case by simp
next
  case (takes ts effs new again took c d ds)
  from client_run.step [OF takes.IH client_step.consumer_takes [OF takes.hyps(2,3), of z]] show ?case by simp
next
  case (other ts effs new again took c c')
  from client_run.step [OF other.IH other.hyps(2)] show ?case by simp
qed (auto intro: client_run.intros)

lemma shuffles_append:
  "xs \<in> shuffles as bs \<Longrightarrow> xs @ ys \<in> shuffles (as @ ys) bs"
proof (induction as bs arbitrary: xs rule: shuffles.induct)
  case (1 bs)
  then show ?case by (induction bs arbitrary: xs) (auto simp: Cons_in_shuffles_iff)
qed (auto simp: Cons_in_shuffles_iff)

lemma sent_data_forward [simp]: "sent_data (forward sent buf n) = [\<lparr>dg_buf = Some buf, dg_len = n\<rparr>]"
  by (simp add: forward_def Let_def Datagram_drop_def)

lemma effects_data:
  "\<forall>e \<in> set es. \<forall>d. e \<noteq> Try_Send_Data d \<Longrightarrow> cl_data (fold apply_effect es c) = cl_data c"
proof (induction es arbitrary: c)
  case (Cons e es)
  then show ?case by (cases e) auto
qed simp

lemma forward_data:
  "cl_data (fold apply_effect (forward sent buf n) c) =
   cl_data c @ (if data_room c then sent_data (forward sent buf n) else [])"
  by (simp add: forward_def Let_def Datagram_drop_def)

lemma multicast_turn_data:
  assumes "recv_into b d = (buf, n)" and "process_multicast_datagram z (data_room c) (cl_expect c) buf n = (act, ex, effs)"
  shows "cl_data (multicast_turn z b d c) = cl_data c @ (if data_room c then sent_data effs else [])"
proof (cases "n < MIN_PACKET_LEN \<or> Packet_parse z buf = None")
  case True
  with assms show ?thesis
    by (auto simp: multicast_turn_def process_multicast_datagram_def split: if_splits option.splits)
next
  case False
  then obtain p where p: "Packet_parse z buf = Some p" "\<not> n < MIN_PACKET_LEN" by auto
  let ?g = "gap_request z (cl_expect c) (Packet_session_ident_raw p) (Packet_seq_num z p)"
  from assms p have "effs = (case ?g of None \<Rightarrow> [] | Some r \<Rightarrow> [Try_Send_Req r]) @ forward (data_room c) buf n"
    by (simp add: process_multicast_datagram_def Let_def)
  with assms show ?thesis
    by (cases ?g) (simp_all add: multicast_turn_def forward_data del: apply_effect.simps(3), simp add: request_room_def data_room_def)
qed

lemma rereq_turn_data: "\<exists>ds. cl_data (rereq_turn b d c) = cl_data c @ ds"
proof -
  obtain buf n where "recv_into b d = (buf, n)" by (cases "recv_into b d")
  then show ?thesis
    by (auto simp: rereq_turn_def process_rereq_datagram_def forward_data)
qed

text \<open>
  The channel keeps the order of each loop: what the consumer has taken and what waits is an
  interleaving of what the two loops have put there, and of the multicast loop's datagrams only those
  are missing that found the channel full.
\<close>

lemma channel_run_data:
  "channel_run z c0 ts effs new again took c \<Longrightarrow> cl_data c0 = [] \<Longrightarrow>
   took @ cl_data c \<in> shuffles new again \<and> subseq new (sent_data effs) \<and>
   ((\<forall>t \<in> set ts. tn_sent t) \<longrightarrow> new = sent_data effs)"
proof (induction rule: channel_run.induct)
  case (multicast ts effs new again took c t effs' c')
  then have ih: "took @ cl_data c \<in> shuffles new again" "subseq new (sent_data effs)"
    "(\<forall>t \<in> set ts. tn_sent t) \<longrightarrow> new = sent_data effs" by blast+
  from multicast.hyps(2) have "cl_data c' = cl_data c @ (if tn_sent t then sent_data effs' else [])"
  proof (cases rule: client_step.cases)
    case (multicast_recv b d buf n act ex)
    then show ?thesis using multicast_turn_data [of b d buf n z c act ex effs'] by simp
  qed simp_all
  with shuffles_append [OF ih(1), of "if tn_sent t then sent_data effs' else []"] ih(2,3) show ?case
    by (auto intro: list_emb_append_mono [where ys = "[]", simplified] list_emb_append_mono)
next
  case (rereq ts effs new again took c b d)
  then have ih: "took @ cl_data c \<in> shuffles again new" by (simp add: shuffles_commutes)
  obtain ds where ds: "cl_data (rereq_turn b d c) = cl_data c @ ds" using rereq_turn_data by blast
  with shuffles_append [OF ih, of ds] rereq show ?case by (simp add: shuffles_commutes)
qed auto

text \<open>With nothing refused and nothing repeated, the consumer reads the packets received.\<close>

lemma channel_run_delivers:
  assumes z: "zerocopy_ok z" and c0: "client_ok c0" "cl_data c0 = []"
    and run: "channel_run z c0 ts effs new [] took c"
    and "\<forall>t \<in> set ts. tn_sent t" and "cl_data c = []"
    and "list_all2 receives ts pkts" and "\<forall>p \<in> set pkts. 20 \<le> length p"
  shows "map Datagram_bytes took = map Some pkts"
proof -
  from channel_run_data [OF run c0(2)] assms(5,6) have "took = sent_data effs" by auto
  moreover have "multicast_recv_loop z (cl_expect c0) ts = (cl_expect c, effs)"
    using client_run_loop [OF z channel_run_client [OF run] c0(1)] by simp
  ultimately show ?thesis using delivered_datagrams [OF z assms(7,8), of "cl_expect c0"] by simp
qed

section \<open>Runs against a server\<close>

text \<open>
  A run in which the re-request socket receives nothing but what a re-request thread answers to the
  bytes the client has sent, whatever its log holds, and in which the consumer makes no requests of its
  own.
\<close>

inductive connected_run ::
  "zerocopy \<Rightarrow> bytes \<Rightarrow> nat \<Rightarrow> client \<Rightarrow> turn list \<Rightarrow> effect list \<Rightarrow> Datagram list \<Rightarrow> Datagram list \<Rightarrow> Datagram list \<Rightarrow>
   client \<Rightarrow> bool"
  for z s limit c0 where
  start: "connected_run z s limit c0 [] [] [] [] [] c0"
| multicast: "connected_run z s limit c0 ts effs new again took c \<Longrightarrow> client_step z c [t] effs' c' \<Longrightarrow>
    connected_run z s limit c0 (ts @ [t]) (effs @ effs') (new @ (if tn_sent t then sent_data effs' else [])) again took c'"
| answered: "connected_run z s limit c0 ts effs new again took c \<Longrightarrow> cl_rereq c = Receiving b \<Longrightarrow>
    (server, bs) \<in> set (cl_wire c) \<Longrightarrow> rerequest_step s limit log bs = Some pkts \<Longrightarrow> d \<in> set pkts \<Longrightarrow>
    connected_run z s limit c0 ts effs new (again @ drop (length (cl_data c)) (cl_data (rereq_turn b d c))) took (rereq_turn b d c)"
| takes: "connected_run z s limit c0 ts effs new again took c \<Longrightarrow> cl_listening c \<Longrightarrow> cl_data c = d # ds \<Longrightarrow>
    connected_run z s limit c0 ts effs new again (took @ [d]) (c\<lparr>cl_data := ds, cl_held := cl_held c @ [d]\<rparr>)"
| other: "connected_run z s limit c0 ts effs new again took c \<Longrightarrow> client_step z c [] [] c' \<Longrightarrow> cl_data c' = cl_data c \<Longrightarrow>
    length (cl_requests c') \<le> length (cl_requests c) \<Longrightarrow> connected_run z s limit c0 ts effs new again took c'"

lemma connected_channel:
  "connected_run z s limit c0 ts effs new again took c \<Longrightarrow> channel_run z c0 ts effs new again took c"
  by (induction rule: connected_run.induct) (blast intro: channel_run.intros)+

lemma effects_requests:
  "requests es = [] \<Longrightarrow> cl_requests (fold apply_effect es c) = cl_requests c"
  by (induction es arbitrary: c rule: requests.induct) simp_all

lemma effects_wire [simp]: "cl_wire (fold apply_effect es c) = cl_wire c"
  by (induction es arbitrary: c) simp_all

lemma requests_drop [simp]: "requests (Datagram_drop d) = []" "requests (concat (map Datagram_drop ds)) = []"
  by (induction ds) (simp_all add: Datagram_drop_def split: option.split)

lemma multicast_requests:
  assumes "client_step z c [t] effs c'" and "requests effs = []"
  shows "cl_requests c' = cl_requests c \<and> cl_wire c' = cl_wire c"
  using assms(1)
proof (cases rule: client_step.cases)
  case (multicast_recv b d buf n act ex)
  with assms(2) show ?thesis by (simp add: multicast_turn_def effects_requests)
qed simp_all

lemma rereq_requests: "cl_requests (rereq_turn b d c) = cl_requests c \<and> cl_wire (rereq_turn b d c) = cl_wire c"
proof -
  obtain buf n where "recv_into b d = (buf, n)" by (cases "recv_into b d")
  then show ?thesis by (auto simp: rereq_turn_def process_rereq_datagram_def effects_requests)
qed

lemma other_requests:
  assumes "client_step z c [] [] c'" and "length (cl_requests c') \<le> length (cl_requests c)" and "cl_requests c = []"
  shows "cl_requests c' = [] \<and> cl_wire c' = cl_wire c"
  using assms(1)
proof (cases rule: client_step.cases)
  case (rereq_recv b d)
  with assms(3) rereq_requests [of b d c] show ?thesis by simp
qed (use assms(2,3) in \<open>simp_all add: effects_requests del: apply_effect.simps(3)\<close>)

text \<open>A client that finds no gap makes no request, and none is answered.\<close>

lemma connected_quiet:
  "connected_run z s limit c0 ts effs new again took c \<Longrightarrow> cl_requests c0 = [] \<Longrightarrow> cl_wire c0 = [] \<Longrightarrow> requests effs = [] \<Longrightarrow>
   cl_requests c = [] \<and> cl_wire c = [] \<and> again = []"
proof (induction rule: connected_run.induct)
  case (multicast ts effs new again took c t effs' c')
  then show ?case using multicast_requests [OF multicast.hyps(2)] by simp
next
  case (answered ts effs new again took c b server bs log pkts d)
  then show ?case by simp
next
  case (other ts effs new again took c c')
  then show ?case using other_requests [OF other.hyps(2,4)] by simp
qed simp_all

section \<open>A stream without losses makes no gap\<close>

text \<open>What a session sends when no call needs more than one packet.\<close>

fun plain_event :: "nat \<Rightarrow> sender_event \<Rightarrow> bool" where
  "plain_event limit (Cmd (Send ms)) \<longleftrightarrow> batch_ok ms \<and> total_len ms \<le> limit"
| "plain_event limit (Cmd HeartbeatCmd) = True"
| "plain_event limit (Cmd EndOfSessionCmd) = True"
| "plain_event limit Timeout = True"
| "plain_event limit _ = False"

lemma requests_of_packet:
  assumes z: "zerocopy_ok z" and s: "length s = 10" and t: "receives t (packet_bytes s q c body)"
  shows "requests (snd (multicast_recv_loop z ex (t # ts))) =
    (case gap_request z ex s q of None \<Rightarrow> [] | Some r \<Rightarrow> [r]) @
    requests (snd (multicast_recv_loop z \<lparr>expected_session_ident = Some s, expected_seq_num = Some (q + ucast c)\<rparr> ts))"
proof -
  obtain buf n where b: "recv_into (tn_buf t) (packet_bytes s q c body) = (buf, n)"
    by (cases "recv_into (tn_buf t) (packet_bytes s q c body)")
  from t have r: "tn_recv t = Inr (packet_bytes s q c body)" "length (packet_bytes s q c body) \<le> length (tn_buf t)"
    by (simp_all add: receives_def)
  show ?thesis
    using process_packet [OF z s b r(2), of "tn_sent t" ex]
    by (cases ex) (simp add: r(1) b case_prod_beta split: option.split)
qed

text \<open>Its packets are short.\<close>

lemma plain_packet_length:
  "sender_loop limit st es = Some (st', pkts) \<Longrightarrow> \<forall>e \<in> set es. plain_event limit e \<Longrightarrow> length (sv_session st) = 10 \<Longrightarrow>
   p \<in> set pkts \<Longrightarrow> length p \<le> limit + 2 * 65535 + 20"
proof (induction limit st es arbitrary: pkts rule: sender_loop.induct)
  case (2 limit st c es)
  from 2(2) obtain s1 p1 p2 where c: "sender_command limit st c = Some (s1, p1)"
    "sender_loop limit s1 es = Some (st', p2)" "pkts = p1 @ p2"
    by (auto simp: bind_eq_Some_conv)
  have "length (sv_session s1) = 10 \<and> (\<forall>q \<in> set p1. length q \<le> limit + 2 * 65535 + 20)"
  proof (cases c)
    case (Send ms)
    with 2(3) have b: "batch_ok ms" "total_len ms \<le> limit" by simp_all
    show ?thesis
    proof (cases "ms = []")
      case True
      with c(1) Send 2(4) show ?thesis by (simp split: if_splits)
    next
      case False
      let ?p = "packet_bytes (sv_session st) (sv_next_seq st) (of_nat (length ms)) (concat (map message_block ms))"
      have "build_chunks (sv_session st) (sv_next_seq st) [ms] = Some [?p]"
        using build_batch [OF b(1), of "sv_session st" "sv_next_seq st" limit] chunk_messages_small [OF b(2)] False by simp
      then have "(p1 = [] \<or> p1 = [?p]) \<and> sv_session s1 = sv_session st"
        using c(1) Send False chunk_messages_small [OF b(2)] by (auto simp: Let_def bind_eq_Some_conv split: if_splits)
      moreover have "length ?p \<le> limit + 2 * 65535 + 20"
        using b 2(4) by (simp add: packet_bytes_length length_blocks batch_ok_def)
      ultimately show ?thesis using 2(4) by auto
    qed
  qed (use c(1) 2(3,4) in \<open>auto simp: send_periodic_def Let_def build_special_packet packet_bytes_length\<close>)
  with 2(1) [OF c(1) refl c(2)] c(3) 2(3,5) show ?case by auto
next
  case (3 limit st es)
  then show ?case by (auto simp: bind_eq_Some_conv Let_def send_periodic_def build_special_packet packet_bytes_length)
qed auto

definition not_ahead :: "u64 \<Rightarrow> expectation \<Rightarrow> bool" where
  "not_ahead q ex \<longleftrightarrow> (case expected_seq_num ex of None \<Rightarrow> True | Some e \<Rightarrow> q \<le> e)"

lemma no_gap: "not_ahead q ex \<Longrightarrow> gap_request z ex s q = None"
  by (auto simp: not_ahead_def gap_request_def split: option.splits)

lemma stream_makes_no_request:
  assumes z: "zerocopy_ok z"
  shows "\<forall>e \<in> set es. plain_event limit e \<Longrightarrow> sender_loop limit st es = Some (st', pkts) \<Longrightarrow>
    length (sv_session st) = 10 \<Longrightarrow> \<not> sv_stopped st \<Longrightarrow>
    unat (sv_next_seq st) + length (accepted_messages False es) + 65535 < 2 ^ 64 \<Longrightarrow>
    list_all2 receives ts pkts \<Longrightarrow> not_ahead (sv_next_seq st) ex \<Longrightarrow>
    requests (snd (multicast_recv_loop z ex ts)) = []"
proof (induction es arbitrary: st pkts ts ex)
  case Nil
  then show ?case by simp
next
  case (Cons e es)
  have special: "requests (snd (multicast_recv_loop z ex ts)) = []"
    if "sender_loop limit st es = Some (st', rest)" "pkts = build_special (sv_session st) (sv_next_seq st) k # rest"
      "accepted_messages False (e # es) = accepted_messages False es" for k rest
  proof -
    from Cons.prems(6) that(2) obtain t us where ts: "ts = t # us" "list_all2 receives us rest"
      "receives t (packet_bytes (sv_session st) (sv_next_seq st) k [])"
      by (auto simp: list_all2_Cons2 build_special_packet)
    have k: "unat (ucast k :: u64) \<le> 65535"
      using unsigned_less [of k, where ?'a = nat] by (simp add: unsigned_ucast_eq take_bit_nat_eq_self)
    then have "unat (sv_next_seq st + ucast k) = unat (sv_next_seq st) + unat (ucast k :: u64)"
      using Cons.prems(5) by (subst unat_add_no_overflow) simp_all
    then have "not_ahead (sv_next_seq st)
        \<lparr>expected_session_ident = Some (sv_session st), expected_seq_num = Some (sv_next_seq st + ucast k)\<rparr>"
      by (simp add: not_ahead_def word_le_nat_alt)
    with Cons.IH [OF _ that(1) Cons.prems(3,4) _ ts(2)] Cons.prems(1,5) that(3)
      requests_of_packet [OF z Cons.prems(3) ts(3), of ex us] no_gap [OF Cons.prems(7)]
    show ?thesis by (simp add: ts(1))
  qed
  show ?case
  proof (cases e)
    case (Cmd c)
    show ?thesis
    proof (cases c)
      case (Send ms)
      with Cons.prems(1) Cmd have b: "batch_ok ms" "total_len ms \<le> limit" by simp_all
      show ?thesis
      proof (cases "ms = []")
        case True
        with Cons Cmd Send show ?thesis by simp
      next
        case False
        let ?st = "st\<lparr>sv_log := store_messages (sv_log st) (sv_next_seq st) ms, sv_next_seq := sv_next_seq st + of_nat (length ms)\<rparr>"
        have ch: "chunk_messages ms limit = [ms]" using chunk_messages_small [OF b(2)] False by simp
        have len: "length ms < 65535" using b(1) by (simp add: batch_ok_def)
        from Cons.prems(2,4) Cmd Send False obtain rest where
          rest: "sender_loop limit ?st es = Some (st', rest)"
          "pkts = packet_bytes (sv_session st) (sv_next_seq st) (of_nat (length ms)) (concat (map message_block ms)) # rest"
          using build_batch [OF b(1), of "sv_session st" "sv_next_seq st" limit] ch by (auto simp: Let_def bind_eq_Some_conv)
        from Cons.prems(6) rest(2) obtain t us where ts: "ts = t # us" "list_all2 receives us rest"
          "receives t (packet_bytes (sv_session st) (sv_next_seq st) (of_nat (length ms)) (concat (map message_block ms)))"
          by (auto simp: list_all2_Cons2)
        have u: "(ucast (of_nat (length ms) :: u16) :: u64) = of_nat (length ms)"
          using len by (simp add: word_unat_eq_iff unsigned_ucast_eq unat_of_nat take_bit_nat_eq_self)
        have "unat (sv_next_seq ?st) = unat (sv_next_seq st) + length ms"
          using Cons.prems(5) len Cmd Send by (simp add: unat_add_no_overflow unat_u64_of_nat)
        then have big: "unat (sv_next_seq ?st) + length (accepted_messages False es) + 65535 < 2 ^ 64"
          using Cons.prems(5) Cmd Send by simp
        have "not_ahead (sv_next_seq ?st)
            \<lparr>expected_session_ident = Some (sv_session st), expected_seq_num = Some (sv_next_seq st + of_nat (length ms))\<rparr>"
          by (simp add: not_ahead_def)
        with Cons.IH [OF _ rest(1) _ _ big ts(2)] Cons.prems(1,3,4)
          requests_of_packet [OF z Cons.prems(3) ts(3), of ex us] no_gap [OF Cons.prems(7)]
        show ?thesis by (simp add: ts(1) u)
      qed
    qed (use Cons.prems Cmd special in \<open>auto simp: send_periodic_def Let_def bind_eq_Some_conv\<close>)
  next
    case Timeout
    with Cons.prems special show ?thesis by (auto simp: send_periodic_def Let_def bind_eq_Some_conv)
  qed (use Cons.prems(1) in simp)
qed

section \<open>Anything can be delivered\<close>

text \<open>A turn with a fresh buffer that receives \<open>p\<close> and finds room in the channel.\<close>

definition fresh_turn :: "bytes \<Rightarrow> turn" where
  "fresh_turn p = \<lparr>tn_buf = replicate BUF_SIZE 0, tn_recv = Inr p, tn_sent = True\<rparr>"

lemma fresh_receives: "length p \<le> BUF_SIZE \<Longrightarrow> receives (fresh_turn p) p"
  by (simp add: receives_def fresh_turn_def)

text \<open>A client that has just started, or has kept every buffer it filled.\<close>

definition ready :: "client \<Rightarrow> bool" where
  "ready c \<longleftrightarrow> client_ok c \<and> cl_multicast c = Looping \<and> cl_data c = [] \<and> cl_listening c \<and>
     set (cl_pool c) \<subseteq> {replicate BUF_SIZE 0}"

lemma full_packet_effects:
  assumes z: "zerocopy_ok z" and "length b = BUF_SIZE" and "recv_into b p = (buf, n)"
    and "20 \<le> length p"
  shows "\<exists>ex' reqs. process_multicast_datagram z sent ex buf n = (LoopContinue, ex', reqs @ forward sent buf n) \<and>
    (\<forall>e \<in> set reqs. \<exists>r. e = Try_Send_Req r)"
proof -
  note p = recv_into_props [OF assms(3)]
  have "MIN_PACKET_LEN \<le> length buf" using p(1) assms(2) by (simp add: MIN_PACKET_LEN_def BUF_SIZE_def)
  then obtain pkt where "Packet_parse z buf = Some pkt" using packet_of_full_buffer [OF z] by blast
  moreover have "\<not> n < MIN_PACKET_LEN" using p(2) assms(2,4) by (simp add: MIN_PACKET_LEN_def BUF_SIZE_def)
  ultimately show ?thesis by (auto simp: process_multicast_datagram_def Let_def split: option.split)
qed

lemma requests_keep_pool:
  "\<forall>e \<in> set reqs. \<exists>r. e = Try_Send_Req r \<Longrightarrow> cl_pool (fold apply_effect reqs c) = cl_pool c"
  by (induction reqs arbitrary: c) auto

text \<open>
  Any packets can be delivered: the client takes a buffer, receives, sends, and the consumer takes
  the datagram, over and over.
\<close>

lemma connected_can_deliver:
  assumes z: "zerocopy_ok z" and c0: "ready c0"
  shows "\<forall>p \<in> set pkts. 20 \<le> length p \<and> length p \<le> BUF_SIZE \<Longrightarrow>
    \<exists>effs new took c. connected_run z s limit c0 (map fresh_turn pkts) effs new [] took c \<and> ready c"
proof (induction pkts rule: rev_induct)
  case Nil
  have "connected_run z s limit c0 [] [] [] [] [] c0" by (rule connected_run.start)
  with c0 show ?case by auto
next
  case (snoc q pkts)
  then obtain effs new took c where run: "connected_run z s limit c0 (map fresh_turn pkts) effs new [] took c"
    and c: "ready c" by auto
  obtain b p where b: "pool_take (cl_pool c) = (b, p)" by (cases "pool_take (cl_pool c)")
  have fresh: "b = replicate BUF_SIZE 0" "set p \<subseteq> {replicate BUF_SIZE 0}"
    using b c by (cases "cl_pool c"; auto simp: ready_def)+
  let ?c = "c\<lparr>cl_pool := p, cl_multicast := Receiving b\<rparr>"
  have s1: "connected_run z s limit c0 (map fresh_turn pkts) effs new [] took ?c"
    using connected_run.other [OF run client_step.multicast_pop [OF _ b]] c by (simp add: ready_def)
  have ok: "client_ok ?c"
    using client_run_ok [OF z channel_run_client [OF connected_channel [OF s1]]] c0 by (simp add: ready_def)
  obtain buf n where r: "recv_into b q = (buf, n)" by (cases "recv_into b q")
  have room: "data_room ?c" using c by (simp add: ready_def data_room_def POOL_SIZE_def)
  have bl: "length b = BUF_SIZE" by (simp add: fresh(1))
  obtain ex reqs where pr: "process_multicast_datagram z True (cl_expect ?c) buf n = (LoopContinue, ex, reqs @ forward True buf n)"
    "\<forall>e \<in> set reqs. \<exists>r. e = Try_Send_Req r"
    using full_packet_effects [OF z bl r] snoc.prems by (metis in_set_conv_decomp)
  let ?d = "multicast_turn z b q ?c" and ?x = "\<lparr>dg_buf = Some buf, dg_len = n\<rparr>"
  have m: "cl_multicast ?c = Receiving b" by simp
  have none: "sent_data reqs = []" using pr(2) by (induction reqs) auto
  have ft: "\<lparr>tn_buf = b, tn_recv = Inr q, tn_sent = data_room ?c\<rparr> = fresh_turn q"
    unfolding fresh_turn_def using room fresh(1) by simp
  have s2: "connected_run z s limit c0 (map fresh_turn pkts @ [fresh_turn q]) (effs @ reqs @ forward True buf n)
      (new @ [?x]) [] took ?d"
    using connected_run.multicast [OF s1 client_step.multicast_recv [OF m r], unfolded ft] pr(1) none room
    by (simp add: fresh_turn_def)
  have data: "cl_data ?d = [?x]"
    using multicast_turn_data [OF r, of z ?c LoopContinue ex "reqs @ forward True buf n"] pr(1) none room c
    by (simp add: ready_def)
  have listen: "cl_listening ?d" using c by (simp add: multicast_turn_def r case_prod_beta ready_def)
  have "cl_pool ?d = p"
    using pr room by (simp add: multicast_turn_def r requests_keep_pool forward_def Let_def)
  moreover have "cl_multicast ?d = Looping" using multicast_turn_ok(2) [OF z ok m] .
  moreover have s3: "connected_run z s limit c0 (map fresh_turn (pkts @ [q])) (effs @ reqs @ forward True buf n) (new @ [?x]) []
      (took @ [?x]) (?d\<lparr>cl_data := [], cl_held := cl_held ?d @ [?x]\<rparr>)"
    using connected_run.takes [OF s2 listen data] by simp
  moreover have "client_ok (?d\<lparr>cl_data := [], cl_held := cl_held ?d @ [?x]\<rparr>)"
    using client_run_ok [OF z channel_run_client [OF connected_channel [OF s3]]] c0 by (simp add: ready_def)
  ultimately have "ready (?d\<lparr>cl_data := [], cl_held := cl_held ?d @ [?x]\<rparr>)"
    using listen fresh(2) by (simp add: ready_def)
  with s3 show ?case by blast
qed

lemma start_client_ready:
  assumes "MoldUDP64_start_with_sockets m tune1 tune2 servers = Some c"
  shows "ready c" and "cl_requests c = []" and "cl_wire c = []"
proof -
  note ok = start_client_ok [OF assms]
  show "ready c"
    using assms ok(1,2) by (auto simp: MoldUDP64_start_with_sockets_def ready_def fill_pool split: sum.splits)
  show "cl_requests c = []" "cl_wire c = []"
    using assms by (auto simp: MoldUDP64_start_with_sockets_def split: sum.splits)
qed

end
