(* ===== verification/Runtime_Claims.thy ===== *)
theory Runtime_Claims
  imports Mold_Channel
begin

text \<open>The properties of the two ends of the transport at work.\<close>

section \<open>The client\<close>

definition sample_client :: client where
  "sample_client = the (MoldUDP64_start_with_sockets
     (MoldUDP64_build ''239.1.2.3:5000'' ''0.0.0.0'' [''127.0.0.1:6000''] (Some ''S1'') None)
     (Inr (), Inr RECV_BUF_SIZE) (Inr (), Inr RECV_BUF_SIZE) [''127.0.0.1:6000''])"

lemma sample_client_started:
  "MoldUDP64_start_with_sockets
     (MoldUDP64_build ''239.1.2.3:5000'' ''0.0.0.0'' [''127.0.0.1:6000''] (Some ''S1'') None)
     (Inr (), Inr RECV_BUF_SIZE) (Inr (), Inr RECV_BUF_SIZE) [''127.0.0.1:6000''] = Some sample_client"
  by (simp add: sample_client_def MoldUDP64_start_with_sockets_def tune_recv_buffer_def)

lemma sample_client_channel: "cl_data sample_client = []" "cl_listening sample_client"
  by (simp_all add: sample_client_def MoldUDP64_start_with_sockets_def tune_recv_buffer_def)

lemma sample_client_pool: "\<exists>b p. pool_take (cl_pool sample_client) = (b, p)"
  by (cases "pool_take (cl_pool sample_client)") simp

text \<open>
  C6: the client never loses a receive buffer. However its threads, the network and the
  consumer interleave, the buffers in the pool, in the loops, in the channel and with the
  consumer are at least as many as the pool was filled with, and no queue exceeds its bound; so
  when the consumer has dropped what it was sent, all but the two the loops hold are back.
\<close>

theorem client_buffers_conserved:
  assumes "zerocopy_ok z" and "MoldUDP64_start_with_sockets m tune1 tune2 servers = Some c0"
    and "client_run z c0 ts effs c"
  shows "POOL_SIZE \<le> length (cl_pool c) + length (in_hand (cl_multicast c)) + length (in_hand (cl_rereq c)) +
      length (cl_data c) + length (cl_held c) \<and>
    length (cl_pool c) \<le> POOL_SIZE \<and> length (cl_data c) \<le> POOL_SIZE \<and> length (cl_requests c) \<le> POOL_SIZE \<and>
    (cl_data c = [] \<and> cl_held c = [] \<longrightarrow> POOL_SIZE - 2 \<le> length (cl_pool c))"
proof -
  have "client_ok c" using client_run_ok [OF assms(1,3)] start_client_ok [OF assms(2)] by blast
  moreover have "length (in_hand l) \<le> 1" for l by (cases l) simp_all
  then have "length (in_hand (cl_multicast c)) + length (in_hand (cl_rereq c)) \<le> 2"
    by (metis add_mono one_add_one)
  ultimately show ?thesis by (auto simp: client_bal_def live_buffers_def)
qed

theorem client_buffers_conserved_witness:
  "\<exists>c b. client_run zerocopy_std sample_client [] [] c \<and> cl_multicast c = Receiving b \<and>
     POOL_SIZE \<le> length (cl_pool c) + 1 + length (in_hand (cl_rereq c)) + length (cl_data c) + length (cl_held c)"
proof -
  obtain b p where b: "pool_take (cl_pool sample_client) = (b, p)" using sample_client_pool by blast
  let ?c = "sample_client\<lparr>cl_pool := p, cl_multicast := Receiving b\<rparr>"
  have s: "client_run zerocopy_std sample_client [] [] ?c"
    using client_run.step [OF client_run.start client_step.multicast_pop [OF start_client_ok(2) [OF sample_client_started] b]] by simp
  then show ?thesis
    using client_buffers_conserved [OF zerocopy_std_ok sample_client_started s] by (intro exI [of _ ?c] exI [of _ b]) simp
qed

text \<open>
  C16: the client's state is well formed and its loops do not fail of themselves. In every
  reachable state each buffer has the full size, each datagram the consumer holds or will
  receive can be read and parses as a packet, no request has been tried more often than
  allowed, and whatever the socket delivers, a loop that receives goes on.
\<close>

theorem client_loops_sound:
  assumes "zerocopy_ok z" and "MoldUDP64_start_with_sockets m tune1 tune2 servers = Some c0"
    and "client_run z c0 ts effs c"
  shows "(\<forall>d \<in> set (cl_data c @ cl_held c). \<exists>bs p. Datagram_bytes d = Some bs \<and> Packet_parse z bs = Some p) \<and>
    (\<forall>r \<in> set (cl_requests c). attempts r \<le> cl_max_retries c) \<and>
    (\<forall>b. cl_multicast c = Receiving b \<longrightarrow>
      length b = BUF_SIZE \<and> (\<forall>d. (\<exists>ts effs. client_step z c ts effs (multicast_turn z b d c)) \<and> cl_multicast (multicast_turn z b d c) = Looping)) \<and>
    (\<forall>b. cl_rereq c = Receiving b \<longrightarrow>
      length b = BUF_SIZE \<and> (\<forall>d. client_step z c [] [] (rereq_turn b d c) \<and> cl_rereq (rereq_turn b d c) = Looping))"
proof -
  have ok: "client_ok c" using client_run_ok [OF assms(1,3)] start_client_ok [OF assms(2)] by blast
  then have "\<forall>d \<in> set (cl_data c @ cl_held c). datagram_ok d" by (auto simp: client_bal_def)
  then have "\<forall>d \<in> set (cl_data c @ cl_held c). \<exists>bs p. Datagram_bytes d = Some bs \<and> Packet_parse z bs = Some p"
    using datagram_ok_reads [OF assms(1)] by blast
  moreover have "length b = BUF_SIZE" if "cl_multicast c = Receiving b \<or> cl_rereq c = Receiving b" for b
    using ok that by (auto simp: client_bal_def)
  moreover have "\<forall>r \<in> set (cl_requests c). attempts r \<le> cl_max_retries c" using ok by (simp add: client_bal_def)
  ultimately show ?thesis
    using multicast_turn_ok(2) [OF assms(1) ok] rereq_turn_ok(2) [OF ok]
    multicast_can_receive [of c] client_step.rereq_recv [of c] by blast
qed

theorem client_loops_sound_witness:
  "\<exists>c b. client_run zerocopy_std sample_client [] [] c \<and> cl_multicast c = Receiving b \<and>
     cl_multicast (multicast_turn zerocopy_std b [1, 2, 3] c) = Looping"
proof -
  obtain b p where b: "pool_take (cl_pool sample_client) = (b, p)" using sample_client_pool by blast
  let ?c = "sample_client\<lparr>cl_pool := p, cl_multicast := Receiving b\<rparr>"
  have s: "client_run zerocopy_std sample_client [] [] ?c"
    using client_run.step [OF client_run.start client_step.multicast_pop [OF start_client_ok(2) [OF sample_client_started] b]] by simp
  from client_loops_sound [OF zerocopy_std_ok sample_client_started s]
  have "cl_multicast (multicast_turn zerocopy_std b [1, 2, 3] ?c) = Looping" by simp
  with s show ?thesis by (intro exI [of _ ?c] exI [of _ b]) simp
qed

text \<open>
  The concurrent client refines the receive loop. Whatever the other threads and the
  consumer do in between, the calls the multicast thread has made and the session and number it
  expects are those of the sequential loop on the datagrams received so far; so what is shown of
  the loop, gap detection among it, holds of the running client.
\<close>

theorem client_refines_receiver:
  assumes "zerocopy_ok z" and "MoldUDP64_start_with_sockets m tune1 tune2 servers = Some c0"
    and "client_run z c0 ts effs c"
  shows "multicast_recv_loop z (client_start (mc_expected_session_ident m) (mc_expected_seq_num m)) ts =
    (cl_expect c, effs)"
  using client_run_loop [OF assms(1,3) start_client_ok(1) [OF assms(2)]] start_client_ok(5) [OF assms(2)] by simp

theorem client_refines_receiver_witness:
  "\<exists>c t effs. client_run zerocopy_std sample_client [t] effs c \<and> tn_recv t = Inr [1, 2, 3] \<and>
     multicast_recv_loop zerocopy_std (client_start (Some ''S1'') None) [t] = (cl_expect c, effs)"
proof -
  obtain b p where b: "pool_take (cl_pool sample_client) = (b, p)" using sample_client_pool by blast
  let ?c = "sample_client\<lparr>cl_pool := p, cl_multicast := Receiving b\<rparr>" and ?t = "\<lambda>b s. \<lparr>tn_buf = b, tn_recv = Inr [1, 2, 3], tn_sent = s\<rparr>"
  have s: "client_run zerocopy_std sample_client [] [] ?c"
    using client_run.step [OF client_run.start client_step.multicast_pop [OF start_client_ok(2) [OF sample_client_started] b]] by simp
  obtain buf n where r: "recv_into b [1, 2, 3] = (buf, n)" by (cases "recv_into b [1, 2, 3]")
  obtain act ex effs where "process_multicast_datagram zerocopy_std (data_room ?c) (cl_expect ?c) buf n = (act, ex, effs)"
    by (cases "process_multicast_datagram zerocopy_std (data_room ?c) (cl_expect ?c) buf n")
  from client_run.step [OF s client_step.multicast_recv [OF _ r this]]
  have run: "client_run zerocopy_std sample_client [?t b (data_room ?c)] effs (multicast_turn zerocopy_std b [1, 2, 3] ?c)" by simp
  from client_refines_receiver [OF zerocopy_std_ok sample_client_started run] run show ?thesis
    by (intro exI [of _ "multicast_turn zerocopy_std b [1, 2, 3] ?c"] exI [of _ "?t b (data_room ?c)"] exI [of _ effs])
      (simp add: MoldUDP64_build_def del: multicast_recv_loop.simps)
qed

text \<open>
  C15: the concurrent client refines the receive loop. Whatever the other threads and the
  consumer do in between, the calls the multicast thread has made and the session and number it
  expects are those of the sequential loop on the datagrams received so far. What the consumer
  has taken and what waits for it is an interleaving, in order, of what the multicast and the
  re-request thread have put on the channel, and of the former's datagrams none is missing
  unless the channel was full. So a consumer that has taken everything, with nothing refused and
  nothing re-requested, has the packets received, once each and in order.
\<close>

theorem channel_delivers_in_order:
  assumes "zerocopy_ok z" and "MoldUDP64_start_with_sockets m tune1 tune2 servers = Some c0"
    and "channel_run z c0 ts effs new again took c"
  shows "multicast_recv_loop z (client_start (mc_expected_session_ident m) (mc_expected_seq_num m)) ts =
      (cl_expect c, effs) \<and>
    took @ cl_data c \<in> shuffles new again \<and> subseq new (sent_data effs) \<and>
    ((\<forall>t \<in> set ts. tn_sent t) \<longrightarrow> new = sent_data effs) \<and>
    (\<forall>pkts. (\<forall>t \<in> set ts. tn_sent t) \<and> again = [] \<and> cl_data c = [] \<and> list_all2 receives ts pkts \<and>
      (\<forall>p \<in> set pkts. 20 \<le> length p) \<longrightarrow> map Datagram_bytes took = map Some pkts)"
proof -
  note start = start_client_ok [OF assms(2)]
  have d: "cl_data c0 = []" using assms(2) by (auto simp: MoldUDP64_start_with_sockets_def split: sum.splits)
  have "multicast_recv_loop z (client_start (mc_expected_session_ident m) (mc_expected_seq_num m)) ts = (cl_expect c, effs)"
    using client_run_loop [OF assms(1) channel_run_client [OF assms(3)] start(1)] start(5) by simp
  with channel_run_data [OF assms(3) d] channel_run_delivers [OF assms(1) start(1) d] assms(3) show ?thesis by blast
qed

theorem channel_delivers_in_order_witness:
  "\<exists>ts effs new took c. channel_run zerocopy_std sample_client ts effs new [] took c \<and>
     map Datagram_bytes took = [Some (packet_bytes (pad_session ''S1'') 1 0 [])]"
proof -
  let ?p = "packet_bytes (pad_session ''S1'') 1 0 []" and ?s = sample_client
  obtain b p where b: "pool_take (cl_pool ?s) = (b, p)" using sample_client_pool by blast
  let ?c = "?s\<lparr>cl_pool := p, cl_multicast := Receiving b\<rparr>"
  have s1: "channel_run zerocopy_std ?s [] [] [] [] [] ?c"
    using channel_run.other [OF channel_run.start client_step.multicast_pop [OF start_client_ok(2) [OF sample_client_started] b]] by simp
  have ok: "client_ok ?c"
    using client_run_ok [OF zerocopy_std_ok channel_run_client [OF s1]] start_client_ok(1) [OF sample_client_started] by blast
  then have bl: "length b = BUF_SIZE" by (simp add: client_bal_def)
  have pl: "length ?p = 20" by (simp add: packet_bytes_length)
  obtain buf n where r: "recv_into b ?p = (buf, n)" by (cases "recv_into b ?p")
  obtain act ex effs where pr: "process_multicast_datagram zerocopy_std (data_room ?c) (cl_expect ?c) buf n = (act, ex, effs)"
    by (cases "process_multicast_datagram zerocopy_std (data_room ?c) (cl_expect ?c) buf n")
  have room: "data_room ?c" by (simp add: data_room_def sample_client_channel POOL_SIZE_def)
  let ?t = "\<lparr>tn_buf = b, tn_recv = Inr ?p, tn_sent = data_room ?c\<rparr>" and ?c' = "multicast_turn zerocopy_std b ?p ?c"
  have s2: "channel_run zerocopy_std ?s [?t] effs (sent_data effs) [] [] ?c'"
    using channel_run.multicast [OF s1 client_step.multicast_recv [OF _ r pr]] room by simp
  have rc: "list_all2 receives [?t] [?p]" using bl pl by (simp add: receives_def BUF_SIZE_def)
  from client_run_loop [OF zerocopy_std_ok channel_run_client [OF s2] start_client_ok(1) [OF sample_client_started]]
    delivered_datagrams [OF zerocopy_std_ok rc, of "cl_expect sample_client"] pl
  have "map Datagram_bytes (sent_data effs) = [Some ?p]" by simp
  then obtain d where d: "sent_data effs = [d]" by auto
  have c': "cl_listening ?c'" by (simp add: multicast_turn_def r case_prod_beta sample_client_channel)
  have "cl_data ?c' = [d]" using multicast_turn_data [OF r pr] room d by (simp add: sample_client_channel)
  from channel_run.takes [OF s2 c' this] d obtain c where
    s3: "channel_run zerocopy_std ?s [?t] effs [d] [] [d] c" "cl_data c = []" by simp
  note out = channel_delivers_in_order [OF zerocopy_std_ok sample_client_started s3(1)]
  from out [THEN conjunct2, THEN conjunct2, THEN conjunct2, THEN conjunct2, THEN spec [of _ "[?p]"]] s3(2) rc pl room
  have "map Datagram_bytes [d] = map Some [?p]" by simp
  then have "map Datagram_bytes [d] = [Some ?p]" by simp
  with s3(1) show ?thesis by (intro exI [of _ "[?t]"] exI [of _ effs] exI [of _ "[d]"] exI [of _ c] conjI)
qed

section \<open>The server\<close>

definition sample_config :: MoldUDP64Server where
  "sample_config = MoldUDP64Server_build ''239.1.2.3:5000'' ''127.0.0.1:6000'' ''S1''"

text \<open>
  What the calls promise.  \<open>promised\<close> lists the packets of a run as a receiver reads them: the
  session, number and messages of each, with a tick between calls sending a heartbeat, or the end
  of the session once it is stopped.
\<close>

fun promised ::
  "nat \<Rightarrow> bytes \<Rightarrow> u64 \<Rightarrow> bool \<Rightarrow> sender_event list \<Rightarrow> (bytes \<times> u64 \<times> PacketKind \<times> bytes list) list" where
  "promised limit s q stopped [] = []"
| "promised limit s q stopped (Cmd (Send ms) # es) =
     (if stopped then promised limit s q stopped es
      else map (\<lambda>c. (s, q, Standard, c)) (chunk_messages ms limit) @ promised limit s (q + of_nat (length ms)) stopped es)"
| "promised limit s q stopped (Cmd (SendDropped ms) # es) =
     promised limit s (if stopped then q else q + of_nat (length ms)) stopped es"
| "promised limit s q stopped (Cmd (ChangeSession t) # es) =
     promised limit (if stopped then s else pad_session t) q stopped es"
| "promised limit s q stopped (Cmd StopSession # es) = promised limit s q True es"
| "promised limit s q stopped (Cmd EndOfSessionCmd # es) =
     (s, q, EndOfSession, []) # promised limit s q stopped es"
| "promised limit s q stopped (Cmd HeartbeatCmd # es) =
     (s, q, if stopped then EndOfSession else Heartbeat, []) # promised limit s q stopped es"
| "promised limit s q stopped (Timeout # es) =
     (s, q, if stopped then EndOfSession else Heartbeat, []) # promised limit s q stopped es"
| "promised limit s q stopped (Disconnected # es) = []"

fun final_session :: "bytes \<Rightarrow> ServerCommand list \<Rightarrow> bytes" where
  "final_session s [] = s"
| "final_session s (StopSession # cs) = s"
| "final_session s (ChangeSession t # cs) = final_session (pad_session t) cs"
| "final_session s (_ # cs) = final_session s cs"

lemma sender_keeps_promises:
  assumes z: "zerocopy_ok z"
  shows "sender_loop limit st es = Some (st', pkts) \<Longrightarrow> \<forall>e \<in> set es. event_ok e \<Longrightarrow> Disconnected \<notin> set es \<Longrightarrow>
    length (sv_session st) = 10 \<Longrightarrow>
    map (packet_info z) pkts = map Some (promised limit (sv_session st) (sv_next_seq st) (sv_stopped st) es) \<and>
    sv_session st' = (if sv_stopped st then sv_session st else final_session (sv_session st) (event_commands es)) \<and>
    sv_stopped st' = (sv_stopped st \<or> StopSession \<in> set (event_commands es))"
proof (induction es arbitrary: st pkts)
  case Nil
  then show ?case by simp
next
  case (Cons e es)
  note special = packet_info_special [OF z Cons.prems(4)]
  have tick: "packet_info z (send_periodic (sv_session st) (sv_next_seq st) (sv_stopped st)) =
      Some (sv_session st, sv_next_seq st, if sv_stopped st then EndOfSession else Heartbeat, [])"
    using special by (simp add: send_periodic_def Let_def HEARTBEAT_IDENT_def END_OF_SESSION_IDENT_def)
  have ending: "packet_info z (build_special (sv_session st) (sv_next_seq st) END_OF_SESSION_IDENT) =
      Some (sv_session st, sv_next_seq st, EndOfSession, [])"
    using special by (simp add: HEARTBEAT_IDENT_def END_OF_SESSION_IDENT_def)
  show ?case
  proof (cases e)
    case (Cmd c)
    with Cons.prems(1) obtain s1 p1 p2 where
      c: "sender_command limit st c = Some (s1, p1)" "sender_loop limit s1 es = Some (st', p2)" "pkts = p1 @ p2"
      by (auto simp: bind_eq_Some_conv)
    have ih: "length (sv_session s1) = 10 \<Longrightarrow>
        map (packet_info z) p2 = map Some (promised limit (sv_session s1) (sv_next_seq s1) (sv_stopped s1) es) \<and>
        sv_session st' = (if sv_stopped s1 then sv_session s1 else final_session (sv_session s1) (event_commands es)) \<and>
        sv_stopped st' = (sv_stopped s1 \<or> StopSession \<in> set (event_commands es))"
      using Cons.IH [OF c(2)] Cons.prems(2,3) by simp
    show ?thesis
    proof (cases c)
      case (Send ms)
      with Cons.prems(2) Cmd have b: "batch_ok ms" by simp
      show ?thesis
      proof (cases "sv_stopped st \<or> ms = []")
        case True
        then show ?thesis using ih c(1,3) Send Cmd Cons.prems(4) by (auto simp: chunk_messages_def)
      next
        case False
        with c(1) Send build_batch [OF b, of "sv_session st" "sv_next_seq st" limit] have
          p1: "map (packet_info z) p1 = map (\<lambda>c. Some (sv_session st, sv_next_seq st, Standard, c)) (chunk_messages ms limit)"
          and s1: "s1 = st\<lparr>sv_log := store_messages (sv_log st) (sv_next_seq st) ms, sv_next_seq := sv_next_seq st + of_nat (length ms)\<rparr>"
          using info_batch [OF z Cons.prems(4) b, of "sv_next_seq st" limit] by (auto simp: Let_def)
        then show ?thesis using ih c(3) False Send Cmd Cons.prems(4) by (simp add: comp_def p1 del: map_map) (simp add: comp_def)
      qed
    next
      case (SendDropped ms)
      with ih c(1,3) Cmd Cons.prems(4) show ?thesis by (auto split: if_splits)
    qed (use ih c(1,3) Cmd Cons.prems(4) tick ending in \<open>auto split: if_splits\<close>)
  next
    case Timeout
    with Cons.prems Cons.IH [of st] tick show ?thesis by (auto simp: bind_eq_Some_conv Let_def)
  next
    case Disconnected
    with Cons.prems(3) show ?thesis by simp
  qed
qed

lemma idle_when_ended:
  assumes "server_run s0 cmds pkts s" and "sr_running s0"
  shows "sr_commands s \<noteq> [] \<Longrightarrow> sr_running s"
  using assms
proof (induction rule: server_run.induct)
  case (step s cmds pkts s' cmds' pkts' s'')
  from step.hyps(2) step show ?case
    by cases (auto simp: server_call_def split: if_splits)
qed simp

lemma accepted_commands: "Disconnected \<notin> set es \<Longrightarrow> accepted_messages b es = accepted_messages b (map Cmd (event_commands es))"
  by (induction b es rule: accepted_messages.induct) auto

lemma accepted_append:
  "accepted_messages b (map Cmd (cs @ ds)) =
     accepted_messages b (map Cmd cs) @ accepted_messages (b \<or> StopSession \<in> set cs) (map Cmd ds)"
  by (induction cs arbitrary: b) (auto simp: eq_commute [of _ StopSession])

lemma commands_ok: "\<forall>c \<in> set (event_commands es). event_ok (Cmd c) \<Longrightarrow> \<forall>e \<in> set es. event_ok e"
  by (induction es rule: event_commands.induct) auto

text \<open>
  C9: the server does what the calls on its handles ask, in the order in which they were accepted,
  none twice and none lost. At any point of any interleaving of the callers with the sender thread, the
  calls not yet executed wait in the queue, and the next of them can be executed: no call makes the
  thread panic. The packets sent are those the executed calls promise: a \<open>Send\<close> is sent in its
  chunks under its number and the session of that moment, \<open>SendDropped\<close> is not sent, and the rest are
  the heartbeats of the ticks in between. The log has exactly the messages accepted before the
  session was stopped, the dropped ones too, under consecutive numbers; and the session is the last one
  asked for before the stop.
\<close>

theorem server_executes_in_order:
  assumes "zerocopy_ok z" and "server_run (MoldUDP64Server_start_with_sockets m) cmds pkts s"
    and "\<forall>c \<in> set cmds. event_ok (Cmd c)" and "length (accepted_messages False (map Cmd cmds)) < 2 ^ 64"
  shows "\<exists>es. event_commands es @ sr_commands s = cmds \<and> Disconnected \<notin> set es \<and>
    map (packet_info z) pkts = map Some (promised (ms_max_payload m) (pad_session (ms_session m)) (ms_seq_num m) False es) \<and>
    sv_next_seq (sr_sender s) = ms_seq_num m + of_nat (length (accepted_messages False es)) \<and>
    (\<forall>k. bt_get (sv_log (sr_sender s)) (ms_seq_num m + k) =
       (if unat k < length (accepted_messages False es) then Some (accepted_messages False es ! unat k) else None)) \<and>
    sv_session (sr_sender s) = final_session (pad_session (ms_session m)) (event_commands es) \<and>
    (\<forall>c cs. sr_commands s = c # cs \<longrightarrow> (\<exists>ps s'. server_step s [] ps s' \<and> sr_commands s' = cs))"
proof -
  let ?s0 = "MoldUDP64Server_start_with_sockets m" and ?st = "server_start (ms_session m) (ms_seq_num m)"
  from server_run_sender [OF assms(2)] obtain es where
    es: "event_commands es @ sr_commands s = cmds" "Disconnected \<notin> set es"
      "sender_loop (ms_max_payload m) ?st es = Some (sr_sender s, pkts)"
    and limit: "sr_max_payload s = ms_max_payload m"
    by (auto simp: MoldUDP64Server_start_with_sockets_def)
  have ok: "\<forall>e \<in> set es. event_ok e" using assms(3) es(1) by (intro commands_ok) auto
  note kept = sender_keeps_promises [OF assms(1) es(3) ok es(2)]
  have "accepted_messages False (map Cmd cmds) = accepted_messages False es @
      accepted_messages (StopSession \<in> set (event_commands es)) (map Cmd (sr_commands s))"
    using accepted_append [of False "event_commands es" "sr_commands s"] es(1) accepted_commands [OF es(2), of False] by simp
  then have split: "accepted_messages False (map Cmd cmds) = accepted_messages False es @
      accepted_messages (sv_stopped (sr_sender s)) (map Cmd (sr_commands s))"
    using kept by (simp add: server_start_def)
  have log: "log_holds (sr_sender s) (ms_seq_num m) (accepted_messages False es)"
    using sender_run_log [OF ok log_holds_start, of "ms_session m" "ms_seq_num m" "ms_max_payload m"] es(3) assms(4) split
    by (simp add: server_start_def)
  have "bt_get (sv_log (sr_sender s)) (ms_seq_num m + k) =
      (if unat k < length (accepted_messages False es) then Some (accepted_messages False es ! unat k) else None)" for k
  proof -
    have "unat k < 2 ^ 64" "(of_nat (unat k) :: u64) = k" using unsigned_less [of k, where ?'a = nat] by simp_all
    with log show ?thesis unfolding log_holds_def by metis
  qed
  moreover have "\<exists>ps s'. server_step s [] ps s' \<and> sr_commands s' = cs" if c: "sr_commands s = c # cs" for c cs
  proof -
    have "event_ok (Cmd c)" using assms(3) es(1) c by auto
    moreover have "length (accepted_messages False es) + length (accepted_by (sv_stopped (sr_sender s)) c) < 2 ^ 64"
      using split c assms(4) by simp
    ultimately obtain st' ps where "sender_command (sr_max_payload s) (sr_sender s) c = Some (st', ps)"
      using sender_command_log [OF _ log] by blast
    moreover have "sr_running s" using idle_when_ended [OF assms(2)] c by (simp add: MoldUDP64Server_start_with_sockets_def)
    ultimately have "server_step s [] ps (s\<lparr>sr_commands := cs, sr_sender := st'\<rparr>)" using server_step.command c by blast
    then show ?thesis by (intro exI conjI, assumption) simp
  qed
  ultimately show ?thesis
    using es(1,2) kept log by (auto simp: server_start_def log_holds_def)
qed

lemma sample_server_run:
  "\<exists>s. server_run (MoldUDP64Server_start_with_sockets sample_config) [ChangeSession ''S2''] [] s \<and>
     sv_session (sr_sender s) = pad_session ''S2'' \<and> sr_commands s = []"
proof -
  let ?s = "MoldUDP64Server_start_with_sockets sample_config"
  let ?t = "?s\<lparr>sr_commands := [ChangeSession ''S2'']\<rparr>"
  let ?u = "?t\<lparr>sr_commands := [], sr_sender := (sr_sender ?s)\<lparr>sv_session := pad_session ''S2''\<rparr>\<rparr>"
  have "ServerHandle_change_session ''S2'' ?s = Some ?t"
    by (simp add: handle_defs server_call_def MoldUDP64Server_start_with_sockets_def sample_config_def MoldUDP64Server_build_def)
  then have a: "server_step ?s [ChangeSession ''S2''] [] ?t"
    by (intro server_step.called)
      (simp_all add: MoldUDP64Server_start_with_sockets_def handle_defs)
  have b: "server_step ?t [] [] ?u"
    by (rule server_step.command [where cmd = "ChangeSession ''S2''"])
      (simp_all add: MoldUDP64Server_start_with_sockets_def server_start_def)
  from server_run.step [OF server_run.step [OF server_run.start a] b]
  have "server_run ?s [ChangeSession ''S2''] [] ?u" by simp
  then show ?thesis by (intro exI [of _ ?u]) simp
qed

lemma no_calls_promise:
  "event_commands es = [] \<Longrightarrow> Disconnected \<notin> set es \<Longrightarrow>
   accepted_messages b es = [] \<and> filter (\<lambda>i. fst (snd (snd i)) = Standard) (promised limit s q b es) = []"
  by (induction es rule: event_commands.induct) (auto elim: sender_event.exhaust split: if_splits)

lemma one_send_promises:
  "event_commands es = [Send ms] \<Longrightarrow> Disconnected \<notin> set es \<Longrightarrow>
   accepted_messages False es = ms \<and> filter (\<lambda>i. fst (snd (snd i)) = Standard) (promised limit s q False es) =
     map (\<lambda>c. (s, q, Standard, c)) (chunk_messages ms limit)"
proof (induction es)
  case (Cons e es)
  then show ?case using no_calls_promise [of es] by (cases e) (auto simp: comp_def filter_map)
qed simp

lemma sample_send_run:
  "\<exists>s pkts. server_run (MoldUDP64Server_start_with_sockets sample_config) [Send [[1], [2]], SendDropped [[3]]] pkts s \<and>
     sr_commands s = [SendDropped [[3]]]"
proof -
  let ?s = "MoldUDP64Server_start_with_sockets sample_config"
  let ?t = "?s\<lparr>sr_commands := [Send [[1], [2]]]\<rparr>" and ?u = "?s\<lparr>sr_commands := [Send [[1], [2]], SendDropped [[3]]]\<rparr>"
  note defs = server_call_def MoldUDP64Server_start_with_sockets_def sample_config_def MoldUDP64Server_build_def
  have "event_ok (Cmd (Send [[1], [2]]))" by (simp add: batch_ok_def)
  from sender_command_log [OF this log_holds_start, of "ms_session sample_config" "ms_seq_num sample_config" "sr_max_payload ?u"]
  obtain st pkts where c: "sender_command (sr_max_payload ?u) (sr_sender ?u) (Send [[1], [2]]) = Some (st, pkts)"
    by (auto simp: MoldUDP64Server_start_with_sockets_def server_start_def simp del: sender_command.simps)
  let ?v = "?u\<lparr>sr_commands := [SendDropped [[3]]], sr_sender := st\<rparr>"
  have "server_step ?s [Send [[1], [2]]] [] ?t" "server_step ?t [SendDropped [[3]]] [] ?u"
    by (intro server_step.called; simp add: defs)+
  moreover have "server_step ?u [] pkts ?v"
    using server_step.command [OF _ _ c, of "[SendDropped [[3]]]"] by (simp add: defs del: sender_command.simps)
  ultimately have "server_run ?s ((([] @ [Send [[1], [2]]]) @ [SendDropped [[3]]]) @ []) ((([] @ []) @ []) @ pkts) ?v"
    by (intro server_run.step) (rule server_run.start)
  then show ?thesis by (intro exI [of _ ?v] exI [of _ pkts]) simp
qed

theorem server_executes_in_order_witness:
  "\<exists>s pkts es. server_run (MoldUDP64Server_start_with_sockets sample_config) [Send [[1], [2]], SendDropped [[3]]] pkts s \<and>
     event_commands es = [Send [[1], [2]]] \<and>
     filter (\<lambda>i. fst (snd (snd i)) = Standard) (map (the \<circ> packet_info zerocopy_std) pkts) =
       [(pad_session ''S1'', 1, Standard, [[1], [2]])] \<and>
     bt_get (sv_log (sr_sender s)) 2 = Some [2] \<and> bt_get (sv_log (sr_sender s)) 3 = None \<and>
     (\<exists>ps s'. server_step s [] ps s' \<and> sr_commands s' = [])"
proof -
  obtain s pkts where s: "server_run (MoldUDP64Server_start_with_sockets sample_config) [Send [[1], [2]], SendDropped [[3]]] pkts s"
    "sr_commands s = [SendDropped [[3]]]"
    using sample_send_run by blast
  have ok: "\<forall>c \<in> set [Send [[1], [2]], SendDropped [[3]]]. event_ok (Cmd c)" by (simp add: batch_ok_def)
  from server_executes_in_order [OF zerocopy_std_ok s(1) ok, unfolded s(2)] obtain es where
    es: "event_commands es = [Send [[1], [2]]]" "Disconnected \<notin> set es"
    "map (packet_info zerocopy_std) pkts = map Some (promised 1452 (pad_session ''S1'') 1 False es)"
    "\<And>k. bt_get (sv_log (sr_sender s)) (1 + k) =
       (if unat k < length (accepted_messages False es) then Some (accepted_messages False es ! unat k) else None)"
    "\<exists>ps s'. server_step s [] ps s' \<and> sr_commands s' = []"
    by (auto simp: sample_config_def MoldUDP64Server_build_def)
  have "filter (\<lambda>i. fst (snd (snd i)) = Standard) (promised 1452 (pad_session ''S1'') 1 False es) =
      [(pad_session ''S1'', 1, Standard, [[1], [2]])]" "accepted_messages False es = [[1], [2]]"
    using one_send_promises [OF es(1,2)] by (simp_all add: chunk_messages_small)
  moreover have "map (the \<circ> packet_info zerocopy_std) pkts = promised 1452 (pad_session ''S1'') 1 False es"
    using arg_cong [OF es(3), of "map the"] by (simp add: comp_def)
  ultimately show ?thesis using es(1,5) es(4) [of 1] es(4) [of 2] s(1)
    by (intro exI [of _ s] exI [of _ pkts] exI [of _ es]) simp
qed

text \<open>
  C23: after a change of session the gaps of the new session are never filled. The re-request
  thread compares requests with the session it was started with; so as soon as the sender has
  moved to another one, every request a receiver makes for it goes unanswered, whatever the log
  holds.
\<close>

theorem rerequest_ignores_new_session:
  assumes "server_run (MoldUDP64Server_start_with_sockets m) cmds pkts s"
    and "sv_session (sr_sender s) \<noteq> pad_session (ms_session m)"
    and "gap_request z ex (sv_session (sr_sender s)) seq = Some r"
  shows "server_answer s (PacketHeader_as_bytes (req r)) = Some []"
proof -
  have "session (req r) = sv_session (sr_sender s)"
    using assms(3)
    by (auto simp: gap_request_def RetransmissionRequest_new_def Let_def split: option.splits if_splits)
  then have "take 10 (PacketHeader_as_bytes (req r)) = sv_session (sr_sender s)"
    using server_session_length [OF assms(1)] by (simp add: PacketHeader_as_bytes_def)
  moreover have "sr_rereq_session s = pad_session (ms_session m)"
    using server_run_sender [OF assms(1)] by (simp add: MoldUDP64Server_start_with_sockets_def)
  ultimately show ?thesis using assms(2) by (simp add: server_answer_def rerequest_other_session)
qed

theorem rerequest_ignores_new_session_witness:
  "\<exists>s r. server_run (MoldUDP64Server_start_with_sockets sample_config) [ChangeSession ''S2''] [] s \<and>
     gap_request zerocopy_std \<lparr>expected_session_ident = Some (pad_session ''S2''), expected_seq_num = Some 1\<rparr>
       (pad_session ''S2'') 4 = Some r \<and>
     server_answer s (PacketHeader_as_bytes (req r)) = Some []"
proof -
  obtain s where s: "server_run (MoldUDP64Server_start_with_sockets sample_config) [ChangeSession ''S2''] [] s"
    "sv_session (sr_sender s) = pad_session ''S2''"
    using sample_server_run by blast
  moreover have "pad_session ''S2'' \<noteq> pad_session (ms_session sample_config)"
    by (simp add: sample_config_def MoldUDP64Server_build_def) code_simp
  moreover obtain r where
    r: "gap_request zerocopy_std \<lparr>expected_session_ident = Some (pad_session ''S2''), expected_seq_num = Some 1\<rparr>
       (pad_session ''S2'') 4 = Some r"
    by (simp add: gap_request_def)
  ultimately show ?thesis
    using rerequest_ignores_new_session [OF s(1), unfolded s(2), OF _ r] by blast
qed

end
