(* ===== verification/App_Handler.thy ===== *)
theory App_Handler
  imports Registry Itch_Parse Mold_Client
begin

text \<open>
  The receive side of the application, \<open>app/src/handler.rs\<close>: the visitor that turns ITCH
  messages into operations on the books of a registry, and the loop that feeds it the packets
  of a session.  The type parameter \<open>R: Registry\<close> is a record of the trait's methods.  The
  shutdown flag is shared with other threads: the state holds the values its loads will
  return, none left meaning not raised.  Logging is not modelled.
\<close>

section \<open>The trait of registries\<close>

text \<open>\<open>get_mut\<close> is the lookup \<open>ri_get\<close> and the write through its result, \<open>ri_set_book\<close>.\<close>

record 'r registry_impl =
  ri_new :: 'r
  ri_get_symbol :: "'r \<Rightarrow> u16 \<Rightarrow> Symbol option"
  ri_get :: "'r \<Rightarrow> u16 \<Rightarrow> book option"
  ri_set_book :: "'r \<Rightarrow> u16 \<Rightarrow> book \<Rightarrow> 'r"
  ri_register :: "'r \<Rightarrow> u16 \<Rightarrow> Symbol \<Rightarrow> 'r run"
  ri_len :: "'r \<Rightarrow> nat"
  ri_iter :: "'r \<Rightarrow> (u16 \<times> Symbol \<times> book) list run"

definition hash_registry :: "HashMapRegistry registry_impl" where
  "hash_registry =
     \<lparr>ri_new = hr_new, ri_get_symbol = hr_get_symbol, ri_get = hr_get, ri_set_book = hr_set_book,
      ri_register = (\<lambda>r l s. Some (hr_register r l s)), ri_len = hr_len, ri_iter = hr_iter\<rparr>"

definition vec_registry :: "VecRegistry registry_impl" where
  "vec_registry =
     \<lparr>ri_new = vr_new, ri_get_symbol = vr_get_symbol, ri_get = vr_get, ri_set_book = vr_set_book,
      ri_register = vr_register, ri_len = vr_len, ri_iter = (\<lambda>r. Some (vr_iter r))\<rparr>"

section \<open>State\<close>

record HandlerStats =
  orders_added :: u64
  orders_executed :: u64
  orders_cancelled :: u64
  orders_deleted :: u64
  orders_replaced :: u64
  stock_directory_msgs :: u64
  skipped_locate :: u64

definition stats_default :: HandlerStats where
  "stats_default =
     \<lparr>orders_added = 0, orders_executed = 0, orders_cancelled = 0, orders_deleted = 0,
      orders_replaced = 0, stock_directory_msgs = 0, skipped_locate = 0\<rparr>"

record 'r app_handler =
  mh_registry :: 'r
  mh_symbols_to_watch :: "u64 set option"
  mh_stats :: HandlerStats
  mh_shutdown :: "bool list"
  mh_tick :: u32

definition app_handler_new ::
  "'r registry_impl \<Rightarrow> Symbol list option \<Rightarrow> bool list \<Rightarrow> 'r app_handler" where
  "app_handler_new R symbols_to_watch shutdown =
     \<lparr>mh_registry = ri_new R,
      mh_symbols_to_watch = map_option (\<lambda>symbols. Symbol_to_u64 ` set symbols) symbols_to_watch,
      mh_stats = stats_default, mh_shutdown = shutdown, mh_tick = 0\<rparr>"

section \<open>Shutdown\<close>

text \<open>\<open>AtomicBool::load\<close>.\<close>

fun flag_load :: "bool list \<Rightarrow> bool \<times> bool list" where
  "flag_load [] = (False, [])"
| "flag_load (b # bs) = (b, bs)"

definition SHUTDOWN_POLL_MASK :: u32 where
  "SHUTDOWN_POLL_MASK = 0xFF"

unbundle bit_operations_syntax

definition should_stop :: "'r app_handler \<Rightarrow> 'r app_handler \<times> control_flow" where
  "should_stop h =
     (let h = h\<lparr>mh_tick := mh_tick h + 1\<rparr>
      in if mh_tick h AND SHUTDOWN_POLL_MASK = 0
         then (case flag_load (mh_shutdown h) of
                 (raised, flag) \<Rightarrow> (h\<lparr>mh_shutdown := flag\<rparr>, if raised then Break else Continue))
         else (h, Continue))"

section \<open>Adding orders\<close>

text \<open>\<open>AddOrderLike\<close>, what the two add messages share.\<close>

record AddOrderLike =
  al_stock_locate :: u16
  al_order_reference_number :: u64
  al_buy_sell_indicator :: BuySellIndicator
  al_price_i64 :: price
  al_shares :: u32
  al_timestamp_u64 :: u64

definition add_like_no_mpid :: "zerocopy \<Rightarrow> AddOrderNoMPIDAttribution \<Rightarrow> AddOrderLike" where
  "add_like_no_mpid z m =
     \<lparr>al_stock_locate = AddOrderNoMPIDAttribution_stock_locate z m,
      al_order_reference_number = AddOrderNoMPIDAttribution_order_reference_number z m,
      al_buy_sell_indicator = AddOrderNoMPIDAttribution_buy_sell_indicator m,
      al_price_i64 = I64 (Price4_into_i64 (AddOrderNoMPIDAttribution_price m)),
      al_shares = AddOrderNoMPIDAttribution_shares z m,
      al_timestamp_u64 = Timestamp_to_u64 (AddOrderNoMPIDAttribution_timestamp m)\<rparr>"

definition add_like_with_mpid :: "zerocopy \<Rightarrow> AddOrderWithMPIDAttribution \<Rightarrow> AddOrderLike" where
  "add_like_with_mpid z m =
     \<lparr>al_stock_locate = AddOrderWithMPIDAttribution_stock_locate z m,
      al_order_reference_number = AddOrderWithMPIDAttribution_order_reference_number z m,
      al_buy_sell_indicator = AddOrderWithMPIDAttribution_buy_sell_indicator m,
      al_price_i64 = I64 (Price4_into_i64 (AddOrderWithMPIDAttribution_price m)),
      al_shares = AddOrderWithMPIDAttribution_shares z m,
      al_timestamp_u64 = Timestamp_to_u64 (AddOrderWithMPIDAttribution_timestamp m)\<rparr>"

fun parse_side :: "BuySellIndicator \<Rightarrow> side option" where
  "parse_side BuySellIndicator_Buy = Some Bid"
| "parse_side BuySellIndicator_Sell = Some Ask"
| "parse_side (BuySellIndicator_Unknown b) = None"

text \<open>Counters, and the book of a locate after an operation that replied \<open>r\<close>.\<close>

definition bump :: "(HandlerStats \<Rightarrow> HandlerStats) \<Rightarrow> 'r app_handler \<Rightarrow> 'r app_handler" where
  "bump f h = h\<lparr>mh_stats := f (mh_stats h)\<rparr>"

definition inc_added :: "HandlerStats \<Rightarrow> HandlerStats" where
  "inc_added s = s\<lparr>orders_added := orders_added s + 1\<rparr>"

definition inc_executed :: "HandlerStats \<Rightarrow> HandlerStats" where
  "inc_executed s = s\<lparr>orders_executed := orders_executed s + 1\<rparr>"

definition inc_cancelled :: "HandlerStats \<Rightarrow> HandlerStats" where
  "inc_cancelled s = s\<lparr>orders_cancelled := orders_cancelled s + 1\<rparr>"

definition inc_deleted :: "HandlerStats \<Rightarrow> HandlerStats" where
  "inc_deleted s = s\<lparr>orders_deleted := orders_deleted s + 1\<rparr>"

definition inc_replaced :: "HandlerStats \<Rightarrow> HandlerStats" where
  "inc_replaced s = s\<lparr>orders_replaced := orders_replaced s + 1\<rparr>"

definition inc_directory :: "HandlerStats \<Rightarrow> HandlerStats" where
  "inc_directory s = s\<lparr>stock_directory_msgs := stock_directory_msgs s + 1\<rparr>"

definition inc_skipped :: "HandlerStats \<Rightarrow> HandlerStats" where
  "inc_skipped s = s\<lparr>skipped_locate := skipped_locate s + 1\<rparr>"

definition after_book ::
  "'r registry_impl \<Rightarrow> (HandlerStats \<Rightarrow> HandlerStats) \<Rightarrow> u16 \<Rightarrow> 'r app_handler \<Rightarrow>
   book \<times> (book_error + 'a) \<Rightarrow> 'r app_handler" where
  "after_book R inc locate h res =
     (let h = h\<lparr>mh_registry := ri_set_book R (mh_registry h) locate (fst res)\<rparr>
      in case snd res of Inr _ \<Rightarrow> bump inc h | Inl _ \<Rightarrow> h)"

definition apply_add_order ::
  "'r registry_impl \<Rightarrow> AddOrderLike \<Rightarrow> 'r app_handler \<Rightarrow> 'r app_handler run" where
  "apply_add_order R msg h =
     (let locate = al_stock_locate msg;
          order_ref = al_order_reference_number msg
      in case ri_get R (mh_registry h) locate of
           None \<Rightarrow> Some (bump inc_skipped h)
         | Some book \<Rightarrow>
             (case parse_side (al_buy_sell_indicator msg) of
                None \<Rightarrow> Some h
              | Some sd \<Rightarrow> do {
                  res \<leftarrow> book_add book
                    \<lparr>ord_id = order_ref, ord_side = sd, ord_price = al_price_i64 msg,
                     ord_qty = ucast (al_shares msg), ord_ts = al_timestamp_u64 msg\<rparr>;
                  Some (after_book R inc_added locate h res)
                }))"

section \<open>The handlers\<close>

text \<open>
  \<open>self.should_stop()?\<close> in front of the body of a handler, which always ends with
  \<open>Continue\<close>.
\<close>

definition unless_stopped ::
  "('r app_handler \<Rightarrow> 'r app_handler run) \<Rightarrow> 'r app_handler \<Rightarrow> ('r app_handler \<times> control_flow) run" where
  "unless_stopped body h =
     (case should_stop h of
        (h, Break) \<Rightarrow> Some (h, Break)
      | (h, Continue) \<Rightarrow> do { h \<leftarrow> body h; Some (h, Continue) })"

definition app_stock_directory ::
  "zerocopy \<Rightarrow> 'r registry_impl \<Rightarrow> StockDirectory \<Rightarrow> 'r app_handler \<Rightarrow> ('r app_handler \<times> control_flow) run"
  where
  "app_stock_directory z R msg = unless_stopped (\<lambda>h.
     (let h = bump inc_directory h;
          stock = StockDirectory_stock msg
      in if (case mh_symbols_to_watch h of None \<Rightarrow> True | Some r \<Rightarrow> Symbol_to_u64 stock \<in> r)
         then do {
           reg \<leftarrow> ri_register R (mh_registry h) (StockDirectory_stock_locate z msg) stock;
           Some (h\<lparr>mh_registry := reg\<rparr>)
         }
         else Some h))"

definition app_add_order_no_mpid ::
  "zerocopy \<Rightarrow> 'r registry_impl \<Rightarrow> AddOrderNoMPIDAttribution \<Rightarrow> 'r app_handler \<Rightarrow>
   ('r app_handler \<times> control_flow) run" where
  "app_add_order_no_mpid z R msg = unless_stopped (apply_add_order R (add_like_no_mpid z msg))"

definition app_add_order_with_mpid ::
  "zerocopy \<Rightarrow> 'r registry_impl \<Rightarrow> AddOrderWithMPIDAttribution \<Rightarrow> 'r app_handler \<Rightarrow>
   ('r app_handler \<times> control_flow) run" where
  "app_add_order_with_mpid z R msg = unless_stopped (apply_add_order R (add_like_with_mpid z msg))"

definition app_order_executed ::
  "zerocopy \<Rightarrow> 'r registry_impl \<Rightarrow> OrderExecuted \<Rightarrow> 'r app_handler \<Rightarrow> ('r app_handler \<times> control_flow) run"
  where
  "app_order_executed z R msg = unless_stopped (\<lambda>h.
     (let order_ref = OrderExecuted_order_reference_number z msg;
          locate = OrderExecuted_stock_locate z msg
      in case ri_get R (mh_registry h) locate of
           None \<Rightarrow> Some (bump inc_skipped h)
         | Some book \<Rightarrow> do {
             res \<leftarrow> book_execute book order_ref (ucast (OrderExecuted_executed_shares z msg))
                     (Timestamp_to_u64 (OrderExecuted_timestamp msg));
             Some (after_book R inc_executed locate h res)
           }))"

definition app_order_executed_with_price ::
  "zerocopy \<Rightarrow> 'r registry_impl \<Rightarrow> OrderExecutedWithPrice \<Rightarrow> 'r app_handler \<Rightarrow>
   ('r app_handler \<times> control_flow) run" where
  "app_order_executed_with_price z R msg = unless_stopped (\<lambda>h.
     (let order_ref = OrderExecutedWithPrice_order_reference_number z msg;
          locate = OrderExecutedWithPrice_stock_locate z msg
      in case ri_get R (mh_registry h) locate of
           None \<Rightarrow> Some (bump inc_skipped h)
         | Some book \<Rightarrow> do {
             res \<leftarrow> book_execute_at book order_ref (ucast (OrderExecutedWithPrice_executed_shares z msg))
                     (I64 (Price4_into_i64 (OrderExecutedWithPrice_execution_price msg)))
                     (Timestamp_to_u64 (OrderExecutedWithPrice_timestamp msg));
             Some (after_book R inc_executed locate h res)
           }))"

definition app_order_cancel ::
  "zerocopy \<Rightarrow> 'r registry_impl \<Rightarrow> OrderCancel \<Rightarrow> 'r app_handler \<Rightarrow> ('r app_handler \<times> control_flow) run"
  where
  "app_order_cancel z R msg = unless_stopped (\<lambda>h.
     (let order_ref = OrderCancel_order_reference_number z msg;
          locate = OrderCancel_stock_locate z msg
      in case ri_get R (mh_registry h) locate of
           None \<Rightarrow> Some (bump inc_skipped h)
         | Some book \<Rightarrow> do {
             res \<leftarrow> book_cancel book order_ref (ucast (OrderCancel_cancelled_shares z msg));
             Some (after_book R inc_cancelled locate h res)
           }))"

definition app_order_delete ::
  "zerocopy \<Rightarrow> 'r registry_impl \<Rightarrow> OrderDelete \<Rightarrow> 'r app_handler \<Rightarrow> ('r app_handler \<times> control_flow) run"
  where
  "app_order_delete z R msg = unless_stopped (\<lambda>h.
     (let order_ref = OrderDelete_order_reference_number z msg;
          locate = OrderDelete_stock_locate z msg
      in case ri_get R (mh_registry h) locate of
           None \<Rightarrow> Some (bump inc_skipped h)
         | Some book \<Rightarrow> do {
             res \<leftarrow> book_delete book order_ref;
             Some (after_book R inc_deleted locate h res)
           }))"

definition app_order_replace ::
  "zerocopy \<Rightarrow> 'r registry_impl \<Rightarrow> OrderReplace \<Rightarrow> 'r app_handler \<Rightarrow> ('r app_handler \<times> control_flow) run"
  where
  "app_order_replace z R msg = unless_stopped (\<lambda>h.
     (let og_order_ref = OrderReplace_original_order_reference_number z msg;
          new_order_ref = OrderReplace_new_order_reference_number z msg;
          locate = OrderReplace_stock_locate z msg
      in case ri_get R (mh_registry h) locate of
           None \<Rightarrow> Some (bump inc_skipped h)
         | Some book \<Rightarrow> do {
             res \<leftarrow> book_replace book og_order_ref new_order_ref
                     (I64 (Price4_into_i64 (OrderReplace_price msg)))
                     (ucast (OrderReplace_shares z msg))
                     (Timestamp_to_u64 (OrderReplace_timestamp msg));
             Some (after_book R inc_replaced locate h res)
           }))"

text \<open>
  The visitor handed to the parser.  Its state is that of the handler, or nothing once a
  method has panicked; a panic ends the parse.
\<close>

definition visitor ::
  "('m \<Rightarrow> 'r app_handler \<Rightarrow> ('r app_handler \<times> control_flow) run) \<Rightarrow>
   'm \<Rightarrow> 'r app_handler run \<Rightarrow> 'r app_handler run \<times> control_flow" where
  "visitor f m s =
     (case Option.bind s (f m) of None \<Rightarrow> (panic, Break) | Some (h, cf) \<Rightarrow> (Some h, cf))"

definition app_visitor :: "zerocopy \<Rightarrow> 'r registry_impl \<Rightarrow> 'r app_handler run MessageHandler" where
  "app_visitor z R = default_handler
     \<lparr>on_stock_directory := visitor (app_stock_directory z R),
      on_add_order_no_mpid_attribution := visitor (app_add_order_no_mpid z R),
      on_add_order_with_mpid_attribution := visitor (app_add_order_with_mpid z R),
      on_order_executed := visitor (app_order_executed z R),
      on_order_executed_with_price := visitor (app_order_executed_with_price z R),
      on_order_cancel := visitor (app_order_cancel z R),
      on_order_delete := visitor (app_order_delete z R),
      on_order_replace := visitor (app_order_replace z R)\<rparr>"

section \<open>The receive loop\<close>

record NetCounters =
  packets_received :: u64
  heartbeats :: u64
  retransmission_requests :: u64
  parse_errors :: u64
  truncated_packets :: u64

definition net_default :: NetCounters where
  "net_default =
     \<lparr>packets_received = 0, heartbeats = 0, retransmission_requests = 0, parse_errors = 0,
      truncated_packets = 0\<rparr>"

definition request_retransmission ::
  "zerocopy \<Rightarrow> bool \<Rightarrow> Packet \<Rightarrow> NetCounters \<Rightarrow> NetCounters \<times> effect list" where
  "request_retransmission z sent packet net =
     (let rereq = \<lparr>session = Packet_session_ident_raw packet,
                   seq_num_f = zc_u64_new z (Packet_seq_num z packet),
                   msg_count_f = zc_u16_new z (Packet_msg_count z packet)\<rparr>
      in (if sent then net\<lparr>retransmission_requests := retransmission_requests net + 1\<rparr> else net,
          [Try_Send_Req (RetransmissionRequest_new rereq)]))"

text \<open>
  Each datagram \<open>recv_timeout\<close> delivers comes with the answer \<open>try_send\<close> would give to a
  request; the end of the list is the timeout or the closed channel.  The datagram is dropped
  at the end of its turn.
\<close>

fun app_run ::
  "zerocopy \<Rightarrow> 'r registry_impl \<Rightarrow> 'r app_handler \<Rightarrow> NetCounters \<Rightarrow> (Datagram \<times> bool) list \<Rightarrow>
   ('r app_handler \<times> NetCounters \<times> effect list) run" where
  "app_run z R h net [] = Some (h, net, [])"
| "app_run z R h net ((datagram, sent) # ds) =
     (case flag_load (mh_shutdown h) of
        (raised, flag) \<Rightarrow>
          (let h = h\<lparr>mh_shutdown := flag\<rparr> in
             if raised then Some (h, net, Datagram_drop datagram)
             else do {
               bs \<leftarrow> Datagram_bytes datagram;
               packet \<leftarrow> Packet_parse z bs;
               let advertised = Packet_msg_count z packet;
               (case Packet_packet_kind z packet of
                  Heartbeat \<Rightarrow> do {
                    (h, net, effs) \<leftarrow> app_run z R h (net\<lparr>heartbeats := heartbeats net + 1\<rparr>) ds;
                    Some (h, net, Datagram_drop datagram @ effs)
                  }
                | EndOfSession \<Rightarrow> Some (h, net, Datagram_drop datagram)
                | Standard \<Rightarrow> do {
                    let net = net\<lparr>packets_received := packets_received net + 1\<rparr>;
                    let actual = Messages_len (Packet_iter z packet);
                    let (net, reqs) =
                      (if actual \<noteq> unat advertised
                       then request_retransmission z sent packet
                              (net\<lparr>truncated_packets := truncated_packets net + 1\<rparr>)
                       else (net, []));
                    (st, rest, res) \<leftarrow> parse_stream z (app_visitor z R) (messages packet) (Some h);
                    h \<leftarrow> st;
                    let net =
                      (case res of Inl _ \<Rightarrow> net\<lparr>parse_errors := parse_errors net + 1\<rparr> | Inr _ \<Rightarrow> net);
                    (h, net, effs) \<leftarrow> app_run z R h net ds;
                    Some (h, net, reqs @ Datagram_drop datagram @ effs)
                  })
             }))"

end
