(* ===== verification/App_Spec.thy ===== *)
theory App_Spec
  imports App_Handler Itch_Spec Book_Props Server_Props
begin

text \<open>
  What the application promises of a feed: the books it would build if every book were the
  abstract order list of \<^verbatim>\<open>Book_Spec\<close>, with the counters, and the proof that the
  handlers implement it over any registry.
\<close>

section \<open>The specification\<close>

type_synonym abooks = "u16 \<rightharpoonup> Symbol \<times> abook"

text \<open>
  What a message asks of a book: its locate, the command (none for an order of unknown side)
  and the counter it moves.
\<close>

definition add_op :: "AddOrderLike \<Rightarrow> u16 \<times> book_cmd option \<times> (HandlerStats \<Rightarrow> HandlerStats)" where
  "add_op a =
     (al_stock_locate a,
      map_option (\<lambda>sd. Add \<lparr>ord_id = al_order_reference_number a, ord_side = sd,
        ord_price = al_price_i64 a, ord_qty = ucast (al_shares a), ord_ts = al_timestamp_u64 a\<rparr>)
        (parse_side (al_buy_sell_indicator a)),
      inc_added)"

fun message_op ::
  "zerocopy \<Rightarrow> itch_message \<Rightarrow> (u16 \<times> book_cmd option \<times> (HandlerStats \<Rightarrow> HandlerStats)) option" where
  "message_op z (M_AddOrderNoMPIDAttribution m) = Some (add_op (add_like_no_mpid z m))"
| "message_op z (M_AddOrderWithMPIDAttribution m) = Some (add_op (add_like_with_mpid z m))"
| "message_op z (M_OrderExecuted m) =
     Some (OrderExecuted_stock_locate z m,
       Some (Execute (OrderExecuted_order_reference_number z m)
         (ucast (OrderExecuted_executed_shares z m)) (Timestamp_to_u64 (OrderExecuted_timestamp m))),
       inc_executed)"
| "message_op z (M_OrderExecutedWithPrice m) =
     Some (OrderExecutedWithPrice_stock_locate z m,
       Some (Execute_At (OrderExecutedWithPrice_order_reference_number z m)
         (ucast (OrderExecutedWithPrice_executed_shares z m))
         (I64 (Price4_into_i64 (OrderExecutedWithPrice_execution_price m)))
         (Timestamp_to_u64 (OrderExecutedWithPrice_timestamp m))),
       inc_executed)"
| "message_op z (M_OrderCancel m) =
     Some (OrderCancel_stock_locate z m,
       Some (Cancel (OrderCancel_order_reference_number z m) (ucast (OrderCancel_cancelled_shares z m))),
       inc_cancelled)"
| "message_op z (M_OrderDelete m) =
     Some (OrderDelete_stock_locate z m, Some (Delete (OrderDelete_order_reference_number z m)), inc_deleted)"
| "message_op z (M_OrderReplace m) =
     Some (OrderReplace_stock_locate z m,
       Some (Replace (OrderReplace_original_order_reference_number z m)
         (OrderReplace_new_order_reference_number z m) (I64 (Price4_into_i64 (OrderReplace_price m)))
         (ucast (OrderReplace_shares z m)) (Timestamp_to_u64 (OrderReplace_timestamp m))),
       inc_replaced)"
| "message_op z m = None"

text \<open>A directory message the watch list lets through: the locate and the symbol to register.\<close>

fun directory_op :: "zerocopy \<Rightarrow> u64 set option \<Rightarrow> itch_message \<Rightarrow> (u16 \<times> Symbol) option" where
  "directory_op z watch (M_StockDirectory m) =
     (if (case watch of None \<Rightarrow> True | Some r \<Rightarrow> Symbol_to_u64 (StockDirectory_stock m) \<in> r)
      then Some (StockDirectory_stock_locate z m, StockDirectory_stock m) else None)"
| "directory_op z watch m = None"

fun is_directory :: "itch_message \<Rightarrow> bool" where
  "is_directory (M_StockDirectory m) = True"
| "is_directory m = False"

definition spec_op ::
  "u16 \<times> book_cmd option \<times> (HandlerStats \<Rightarrow> HandlerStats) \<Rightarrow> abooks \<times> HandlerStats \<Rightarrow> abooks \<times> HandlerStats"
  where
  "spec_op p st =
     (case p of (l, co, inc) \<Rightarrow>
        (case fst st l of
           None \<Rightarrow> (fst st, inc_skipped (snd st))
         | Some (s, os) \<Rightarrow>
             (case co of
                None \<Rightarrow> st
              | Some c \<Rightarrow>
                  (case spec_cmd os c of
                     (os', Inl e) \<Rightarrow> ((fst st)(l \<mapsto> (s, os')), snd st)
                   | (os', Inr r) \<Rightarrow> ((fst st)(l \<mapsto> (s, os')), inc (snd st))))))"

definition spec_message ::
  "zerocopy \<Rightarrow> u64 set option \<Rightarrow> itch_message \<Rightarrow> abooks \<times> HandlerStats \<Rightarrow> abooks \<times> HandlerStats" where
  "spec_message z watch m st =
     (if is_directory m then
        (case directory_op z watch m of None \<Rightarrow> fst st | Some (l, s) \<Rightarrow> (fst st)(l \<mapsto> (s, [])),
         inc_directory (snd st))
      else case message_op z m of None \<Rightarrow> st | Some p \<Rightarrow> spec_op p st)"

fun spec_feed ::
  "zerocopy \<Rightarrow> u64 set option \<Rightarrow> itch_message list \<Rightarrow> abooks \<times> HandlerStats \<Rightarrow> abooks \<times> HandlerStats" where
  "spec_feed z watch [] st = st"
| "spec_feed z watch (m # ms) st = spec_feed z watch ms (spec_message z watch m st)"

lemma spec_feed_append:
  "spec_feed z watch (ms @ ns) st = spec_feed z watch ns (spec_feed z watch ms st)"
  by (induction ms arbitrary: st) simp_all

section \<open>The books of a registry\<close>

text \<open>
  The registry holds the abstract books, each with at most \<open>n\<close> resting orders of 32-bit
  quantities.
\<close>

definition book_rel :: "nat \<Rightarrow> Symbol \<times> book \<Rightarrow> Symbol \<times> abook \<Rightarrow> bool" where
  "book_rel n p q \<longleftrightarrow>
     fst p = fst q \<and> book_inv (snd p) (snd q) \<and> all_small (snd q) \<and> length (snd q) \<le> n"

definition books_rel :: "nat \<Rightarrow> (u16 \<rightharpoonup> Symbol \<times> book) \<Rightarrow> abooks \<Rightarrow> bool" where
  "books_rel n v A \<longleftrightarrow> (\<forall>l. rel_option (book_rel n) (v l) (A l))"

lemma book_rel_mono: "book_rel n p q \<Longrightarrow> n \<le> m \<Longrightarrow> book_rel m p q"
  by (auto simp: book_rel_def)

lemma books_rel_mono: "books_rel n v A \<Longrightarrow> n \<le> m \<Longrightarrow> books_rel m v A"
  by (auto simp: books_rel_def elim!: option.rel_mono_strong book_rel_mono)

lemma books_rel_update:
  "books_rel n v A \<Longrightarrow> book_rel n (s, b) (s', os) \<Longrightarrow> books_rel n (v(l \<mapsto> (s, b))) (A(l \<mapsto> (s', os)))"
  by (simp add: books_rel_def)

lemma book_rel_new: "book_rel n (s, book_new) (s, [])"
  by (simp add: book_rel_def book_inv_new all_small_def)

lemma books_rel_empty: "books_rel n Map.empty Map.empty"
  by (simp add: books_rel_def)

text \<open>A command on a related book replies as the specification and keeps the relation.\<close>

definition same_kind :: "'e + 'a \<Rightarrow> 'e + 'b \<Rightarrow> bool" where
  "same_kind x y \<longleftrightarrow> (isl x \<longleftrightarrow> isl y)"

lemma reply_unit_kind:
  "reply_unit x = Some (b, r) \<Longrightarrow> \<exists>r'. x = Some (b, r') \<and> same_kind r' r"
  by (cases "snd (the x)") (auto simp: reply_unit_def same_kind_def)

lemma reply_trade_kind:
  "reply_trade x = Some (b, r) \<Longrightarrow> \<exists>r'. x = Some (b, r') \<and> same_kind r' r"
  by (cases "snd (the x)") (auto simp: reply_trade_def same_kind_def)

lemma small_ucast: "small_qty (ucast (w :: u32))"
  using unsigned_less [of w, where ?'a = nat] by (simp add: small_qty_def unat_ucast_u32_u64)

lemma book_apply_rel:
  assumes "book_rel n (s, b) (s', os)" and "n < unat NIL" and "cmd_small c"
    and "spec_cmd os c = (os', r)"
  shows "\<exists>b'. book_apply b c = Some (b', r) \<and> book_rel (Suc n) (s, b') (s', os')"
proof -
  from assms(1) have a: "book_inv b os" "all_small os" "length os \<le> n" "s = s'"
    by (simp_all add: book_rel_def)
  have "refines (book_apply b c) (spec_cmd os c)"
    using a assms(2,3) by (intro book_apply_refines) simp_all
  then obtain b' where "book_apply b c = Some (b', r)" "book_inv b' os'"
    by (auto simp: refines_def assms(4))
  moreover have "all_small os'" using all_small_spec [OF a(2) assms(3)] by (simp add: assms(4))
  moreover have "length os' \<le> Suc (length os)" using length_spec_cmd [of os c] by (simp add: assms(4))
  ultimately show ?thesis using a by (auto simp: book_rel_def)
qed

section \<open>The handlers implement the specification\<close>

lemma should_stop_running [simp]:
  "mh_shutdown h = [] \<Longrightarrow> should_stop h = (h\<lparr>mh_tick := mh_tick h + 1\<rparr>, Continue)"
  by (cases h) (simp add: should_stop_def Let_def)

lemma after_book_kind:
  "same_kind r r' \<Longrightarrow> after_book R inc l h (b, r) = after_book R inc l h (b, r')"
  by (cases r; cases r') (simp_all add: after_book_def same_kind_def)

locale registry_client = registry valid view new fits get_symbol get set_book register iter
  for valid :: "'r \<Rightarrow> bool" and view :: "'r \<Rightarrow> u16 \<rightharpoonup> Symbol \<times> book" and new and fits
    and get_symbol and get and set_book and register and iter +
  fixes R :: "'r registry_impl"
  assumes impl_new: "ri_new R = new" and impl_get: "ri_get R = get" and impl_set: "ri_set_book R = set_book"
    and impl_register: "ri_register R = register" and impl_iter: "ri_iter R = iter"
begin

definition handler_rel ::
  "nat \<Rightarrow> u64 set option \<Rightarrow> 'r app_handler \<Rightarrow> abooks \<times> HandlerStats \<Rightarrow> bool" where
  "handler_rel n watch h st \<longleftrightarrow>
     valid (mh_registry h) \<and> books_rel n (view (mh_registry h)) (fst st) \<and> mh_stats h = snd st \<and>
     mh_symbols_to_watch h = watch \<and> mh_shutdown h = []"

text \<open>The common shape of the handlers of a book operation.\<close>

lemma book_handler:
  assumes rel: "handler_rel n watch h st" and n: "n < unat NIL" and small: "\<forall>c. co = Some c \<longrightarrow> cmd_small c"
    and none: "\<And>h. get (mh_registry h) l = None \<Longrightarrow> body h = Some (bump inc_skipped h)"
    and skip: "\<And>h b. get (mh_registry h) l = Some b \<Longrightarrow> co = None \<Longrightarrow> body h = Some h"
    and run: "\<And>h b c b' r. get (mh_registry h) l = Some b \<Longrightarrow> co = Some c \<Longrightarrow>
      book_apply b c = Some (b', r) \<Longrightarrow> body h = Some (after_book R inc l h (b', r))"
  shows "\<exists>h'. unless_stopped body h = Some (h', Continue) \<and>
    handler_rel (Suc n) watch h' (spec_op (l, co, inc) st) \<and> fits (mh_registry h') = fits (mh_registry h)"
proof -
  let ?h = "h\<lparr>mh_tick := mh_tick h + 1\<rparr>"
  from rel have v: "valid (mh_registry h)" and b: "books_rel n (view (mh_registry h)) (fst st)"
    and o: "mh_stats h = snd st" "mh_symbols_to_watch h = watch" "mh_shutdown h = []"
    by (simp_all add: handler_rel_def)
  note b' = books_rel_mono [OF b le_SucI [OF order.refl]]
  have st: "unless_stopped body h = map_option (\<lambda>h. (h, Continue)) (body ?h)"
    using o(3) by (cases "body ?h") (simp_all add: unless_stopped_def)
  have rl: "rel_option (book_rel n) (view (mh_registry h) l) (fst st l)"
    using b by (simp add: books_rel_def)
  show ?thesis
  proof (cases "fst st l")
    case None
    then have "get (mh_registry ?h) l = None" using rl v by (simp add: get_view)
    from none [OF this] show ?thesis
      using st v b' o None by (simp add: handler_rel_def bump_def spec_op_def)
  next
    case (Some e)
    then obtain s os where e: "fst st l = Some (s, os)" by (cases e) simp
    then obtain s0 b0 where vl: "view (mh_registry h) l = Some (s0, b0)"
      and br: "book_rel n (s0, b0) (s, os)"
      using rl by (cases "view (mh_registry h) l") auto
    then have g: "get (mh_registry ?h) l = Some b0" using v by (simp add: get_view)
    show ?thesis
    proof (cases co)
      case None
      with skip [OF g] st v b' o e show ?thesis by (simp add: handler_rel_def spec_op_def)
    next
      case (Some c)
      obtain os' r where s': "spec_cmd os c = (os', r)" by (cases "spec_cmd os c")
      obtain b1 where b1: "book_apply b0 c = Some (b1, r)" "book_rel (Suc n) (s0, b1) (s, os')"
        using book_apply_rel [OF br n _ s'] small Some by blast
      have "body ?h = Some (after_book R inc l ?h (b1, r))" by (rule run [OF g Some b1(1)])
      moreover have "view (set_book (mh_registry h) l b1) = (view (mh_registry h))(l \<mapsto> (s0, b1))"
        "valid (set_book (mh_registry h) l b1)"
        using set_book_ok [OF v vl] by simp_all
      ultimately show ?thesis
        using st o e Some s' books_rel_update [OF b' b1(2)] fits_set_book [OF v vl]
        by (cases r) (simp_all add: handler_rel_def spec_op_def after_book_def impl_set bump_def)
    qed
  qed
qed

lemma add_handler:
  assumes "handler_rel n watch h st" and "n < unat NIL"
  shows "\<exists>h'. unless_stopped (apply_add_order R a) h = Some (h', Continue) \<and>
    handler_rel (Suc n) watch h' (spec_op (add_op a) st) \<and> fits (mh_registry h') = fits (mh_registry h)"
  unfolding add_op_def
proof (rule book_handler [OF assms])
  show "apply_add_order R a h = Some (bump inc_skipped h)" if "get (mh_registry h) (al_stock_locate a) = None" for h
    using that by (simp add: apply_add_order_def impl_get Let_def)
qed (auto simp: small_ucast apply_add_order_def impl_get Let_def after_book_kind dest!: reply_unit_kind)

text \<open>The overridden methods of book operations.\<close>

definition handles ::
  "nat \<Rightarrow> u64 set option \<Rightarrow> ('r app_handler \<times> control_flow) run \<Rightarrow> 'r app_handler \<Rightarrow>
   abooks \<times> HandlerStats \<Rightarrow> bool" where
  "handles n watch res h st \<longleftrightarrow>
     (\<exists>h'. res = Some (h', Continue) \<and> handler_rel n watch h' st \<and> fits (mh_registry h') = fits (mh_registry h))"

lemma order_executed_handles:
  assumes "handler_rel n watch h st" and "n < unat NIL"
  shows "handles (Suc n) watch (app_order_executed z R m h) h (spec_op (the (message_op z (M_OrderExecuted m))) st)"
  unfolding handles_def app_order_executed_def message_op.simps option.sel
  by (rule book_handler [OF assms])
    (auto simp: small_ucast impl_get Let_def after_book_kind dest!: reply_trade_kind)

lemma order_executed_with_price_handles:
  assumes "handler_rel n watch h st" and "n < unat NIL"
  shows "handles (Suc n) watch (app_order_executed_with_price z R m h) h (spec_op (the (message_op z (M_OrderExecutedWithPrice m))) st)"
  unfolding handles_def app_order_executed_with_price_def message_op.simps option.sel
  by (rule book_handler [OF assms])
    (auto simp: small_ucast impl_get Let_def after_book_kind dest!: reply_trade_kind)

lemma order_cancel_handles:
  assumes "handler_rel n watch h st" and "n < unat NIL"
  shows "handles (Suc n) watch (app_order_cancel z R m h) h (spec_op (the (message_op z (M_OrderCancel m))) st)"
  unfolding handles_def app_order_cancel_def message_op.simps option.sel
  by (rule book_handler [OF assms])
    (auto simp: small_ucast impl_get Let_def after_book_kind dest!: reply_unit_kind)

lemma order_delete_handles:
  assumes "handler_rel n watch h st" and "n < unat NIL"
  shows "handles (Suc n) watch (app_order_delete z R m h) h (spec_op (the (message_op z (M_OrderDelete m))) st)"
  unfolding handles_def app_order_delete_def message_op.simps option.sel
  by (rule book_handler [OF assms])
    (auto simp: small_ucast impl_get Let_def after_book_kind dest!: reply_unit_kind)

lemma order_replace_handles:
  assumes "handler_rel n watch h st" and "n < unat NIL"
  shows "handles (Suc n) watch (app_order_replace z R m h) h (spec_op (the (message_op z (M_OrderReplace m))) st)"
  unfolding handles_def app_order_replace_def message_op.simps option.sel
  by (rule book_handler [OF assms])
    (auto simp: small_ucast impl_get Let_def after_book_kind dest!: reply_unit_kind)

lemma add_order_handles:
  assumes "handler_rel n watch h st" and "n < unat NIL"
  shows "handles (Suc n) watch (app_add_order_no_mpid z R m h) h (spec_op (add_op (add_like_no_mpid z m)) st)"
    and "handles (Suc n) watch (app_add_order_with_mpid z R m' h) h (spec_op (add_op (add_like_with_mpid z m')) st)"
  using add_handler [OF assms]
  by (simp_all add: handles_def app_add_order_no_mpid_def app_add_order_with_mpid_def)

lemma stock_directory_handles:
  assumes rel: "handler_rel n watch h st"
    and fit: "\<And>l s. directory_op z watch (M_StockDirectory m) = Some (l, s) \<Longrightarrow> fits (mh_registry h) l"
  shows "handles (Suc n) watch (app_stock_directory z R m h) h (spec_message z watch (M_StockDirectory m) st)"
proof -
  from rel have v: "valid (mh_registry h)" and b: "books_rel (Suc n) (view (mh_registry h)) (fst st)"
    and o: "mh_stats h = snd st" "mh_symbols_to_watch h = watch" "mh_shutdown h = []"
    by (auto simp: handler_rel_def elim: books_rel_mono)
  show ?thesis
  proof (cases "directory_op z watch (M_StockDirectory m)")
    case None
    then show ?thesis
      using v b o
      by (auto simp: handles_def handler_rel_def app_stock_directory_def unless_stopped_def Let_def
          bump_def spec_message_def split: if_splits)
  next
    case (Some e)
    then have e: "e = (StockDirectory_stock_locate z m, StockDirectory_stock m)"
      and w: "case watch of None \<Rightarrow> True | Some r \<Rightarrow> Symbol_to_u64 (StockDirectory_stock m) \<in> r"
      by (auto split: if_splits)
    obtain r where r: "register (mh_registry h) (fst e) (snd e) = Some r" "valid r"
        "view r = (view (mh_registry h))(fst e \<mapsto> (snd e, book_new))" "fits r = fits (mh_registry h)"
      using register_ok [OF v fit, of "fst e" "snd e" "snd e"] Some by auto
    have "books_rel (Suc n) (view r) ((fst st)(fst e \<mapsto> (snd e, [])))"
      unfolding r(3) by (rule books_rel_update [OF b book_rel_new])
    then show ?thesis
      using r v o w Some
      by (auto simp: handles_def handler_rel_def app_stock_directory_def unless_stopped_def Let_def
          bump_def spec_message_def impl_register e)
  qed
qed

text \<open>Every message is handled as the specification says, and so is every sequence of them.\<close>

lemma visitor_handles:
  "handles n watch (f m h) h st \<Longrightarrow>
   \<exists>h'. visitor f m (Some h) = (Some h', Continue) \<and> handler_rel n watch h' st \<and>
     fits (mh_registry h') = fits (mh_registry h)"
  by (auto simp: handles_def visitor_def)

lemma message_handled:
  assumes rel: "handler_rel n watch h st" and n: "n < unat NIL"
    and fit: "\<And>l s. directory_op z watch m = Some (l, s) \<Longrightarrow> fits (mh_registry h) l"
  shows "\<exists>h'. handle (app_visitor z R) m (Some h) = (Some h', Continue) \<and>
    handler_rel (Suc n) watch h' (spec_message z watch m st) \<and> fits (mh_registry h') = fits (mh_registry h)"
proof -
  have same: "handler_rel (Suc n) watch h st"
    using rel by (auto simp: handler_rel_def elim: books_rel_mono)
  show ?thesis
    using stock_directory_handles [OF rel, of z] fit same
      add_order_handles [OF rel n] order_executed_handles [OF rel n] order_executed_with_price_handles [OF rel n]
      order_cancel_handles [OF rel n] order_delete_handles [OF rel n] order_replace_handles [OF rel n]
    by (cases m)
      (simp_all add: app_visitor_def default_handler_def visitor_handles, simp_all add: spec_message_def visitor_handles)
qed

lemma feed_handled:
  assumes "handler_rel n watch h st" and "n + length ms \<le> unat NIL"
    and "\<And>m l s. m \<in> set ms \<Longrightarrow> directory_op z watch m = Some (l, s) \<Longrightarrow> fits (mh_registry h) l"
  shows "\<exists>h'. visit (app_visitor z R) ms (Some h) = (Some h', [], Continue) \<and>
    handler_rel (n + length ms) watch h' (spec_feed z watch ms st) \<and> fits (mh_registry h') = fits (mh_registry h)"
  using assms
proof (induction ms arbitrary: n h st)
  case Nil
  then show ?case by simp
next
  case (Cons m ms)
  then have n: "n < unat NIL" by simp
  obtain h1 where h1: "handle (app_visitor z R) m (Some h) = (Some h1, Continue)"
      "handler_rel (Suc n) watch h1 (spec_message z watch m st)" "fits (mh_registry h1) = fits (mh_registry h)"
    using message_handled [OF Cons.prems(1) n, of z m] Cons.prems(3) by auto
  from Cons.IH [OF h1(2)] Cons.prems(2,3) h1(3) obtain h' where
    "visit (app_visitor z R) ms (Some h1) = (Some h', [], Continue)"
    "handler_rel (Suc n + length ms) watch h' (spec_feed z watch ms (spec_message z watch m st))"
    "fits (mh_registry h') = fits (mh_registry h)" by auto
  with h1(1) show ?case by auto
qed

lemma new_handler_rel:
  "handler_rel 0 (map_option (\<lambda>ss. Symbol_to_u64 ` set ss) watch) (app_handler_new R watch [])
     (Map.empty, stats_default)"
  by (simp add: handler_rel_def app_handler_new_def impl_new valid_new view_new books_rel_empty)

text \<open>The books a user of the registry sees.\<close>

lemma handler_books:
  assumes "handler_rel n watch h (A, st)"
  shows "case A l of
      None \<Rightarrow> get (mh_registry h) l = None \<and> get_symbol (mh_registry h) l = None
    | Some (s, os) \<Rightarrow> get_symbol (mh_registry h) l = Some s \<and>
        (\<exists>b. get (mh_registry h) l = Some b \<and> book_inv b os)"
proof -
  from assms have "valid (mh_registry h)" and "rel_option (book_rel n) (view (mh_registry h) l) (A l)"
    by (simp_all add: handler_rel_def books_rel_def)
  then show ?thesis
    by (cases "A l"; cases "view (mh_registry h) l")
      (auto simp: get_view get_symbol_view book_rel_def split: prod.split)
qed

end

section \<open>Both registries\<close>

interpretation hrc: registry_client hr_valid hr_view hr_new "\<lambda>_ _. True" hr_get_symbol hr_get hr_set_book
  "\<lambda>r l s. Some (hr_register r l s)" hr_iter hash_registry
  by unfold_locales (simp_all add: hash_registry_def)

interpretation vrc: registry_client vr_valid vr_view vr_new vr_fits vr_get_symbol vr_get vr_set_book
  vr_register "\<lambda>r. Some (vr_iter r)" vec_registry
  by unfold_locales (simp_all add: vec_registry_def)

end
