(* ===== verification/App_Replay.thy ===== *)
theory App_Replay
  imports App_Handler Mold_Server Itch_Spec
begin

text \<open>
  The send side of the application, \<open>app/src/replay.rs\<close>: the messages of a file are taken
  off one by one and handed to the server in batches of random size.  The generator is a
  parameter: \<open>rng k m\<close> is the \<open>k\<close>-th value drawn, from \<open>1..=m\<close>.  What the server
  handle is told is returned as a list of commands.  Logging, and the percentage that only the
  log shows, are not modelled.
\<close>

section \<open>Random batch sizes\<close>

type_synonym rng = "nat \<Rightarrow> nat \<Rightarrow> nat"

definition rng_ok :: "rng \<Rightarrow> bool" where
  "rng_ok rng \<longleftrightarrow> (\<forall>k m. 1 \<le> m \<longrightarrow> 1 \<le> rng k m \<and> rng k m \<le> m)"

text \<open>\<open>random_range\<close> of an empty range panics.  The result comes with the next draw.\<close>

definition pick_flush_size :: "rng \<Rightarrow> nat \<Rightarrow> nat \<Rightarrow> (nat \<times> nat) run" where
  "pick_flush_size rng k limit = (if limit < 1 then panic else Some (rng k limit, k + 1))"

section \<open>Batches\<close>

record Batch =
  ba_buf :: "bytes list"
  ba_cap :: nat
  ba_next_flush :: nat

definition Batch_new :: "rng \<Rightarrow> nat \<Rightarrow> nat \<Rightarrow> (Batch \<times> nat) run" where
  "Batch_new rng k cap = do {
     (n, k) \<leftarrow> pick_flush_size rng k cap;
     Some (\<lparr>ba_buf = [], ba_cap = cap, ba_next_flush = n\<rparr>, k)
   }"

definition Batch_push :: "Batch \<Rightarrow> bytes \<Rightarrow> Batch" where
  "Batch_push b msg = b\<lparr>ba_buf := ba_buf b @ [msg]\<rparr>"

definition Batch_len :: "Batch \<Rightarrow> nat" where
  "Batch_len b = length (ba_buf b)"

definition Batch_is_empty :: "Batch \<Rightarrow> bool" where
  "Batch_is_empty b \<longleftrightarrow> ba_buf b = []"

definition Batch_is_ready_to_flush :: "Batch \<Rightarrow> bool" where
  "Batch_is_ready_to_flush b \<longleftrightarrow> ba_next_flush b \<le> length (ba_buf b)"

definition Batch_flush :: "rng \<Rightarrow> nat \<Rightarrow> Batch \<Rightarrow> (u64 \<times> Batch \<times> nat \<times> ServerCommand) run" where
  "Batch_flush rng k b = do {
     let n = of_nat (length (ba_buf b));
     let payload = ba_buf b;
     (nf, k) \<leftarrow> pick_flush_size rng k (ba_cap b);
     Some (n, b\<lparr>ba_buf := [], ba_next_flush := nf\<rparr>, k, Send payload)
   }"

section \<open>The replay loop\<close>

record ReplayCounters =
  rc_parsed :: u64
  rc_sent :: u64
  rc_flush_count :: u64
  rc_bytes_processed :: nat

definition ReplayCounters_default :: ReplayCounters where
  "ReplayCounters_default = \<lparr>rc_parsed = 0, rc_sent = 0, rc_flush_count = 0, rc_bytes_processed = 0\<rparr>"

definition count_flush :: "u64 \<Rightarrow> ReplayCounters \<Rightarrow> ReplayCounters" where
  "count_flush n c = c\<lparr>rc_sent := rc_sent c + n, rc_flush_count := rc_flush_count c + 1\<rparr>"

function replay_loop ::
  "rng \<Rightarrow> bool list \<Rightarrow> bytes \<Rightarrow> nat \<Rightarrow> Batch \<Rightarrow> ReplayCounters \<Rightarrow>
   (nat \<times> Batch \<times> ReplayCounters \<times> ServerCommand list) run" where
  "replay_loop rng flag buf k batch c =
     (if buf = [] then Some (k, batch, c, [])
      else case flag_load flag of (raised, flag) \<Rightarrow>
        if raised then Some (k, batch, c, [])
        else case parse_one buf of
          Inl e \<Rightarrow> Some (k, batch, c, [])
        | Inr (msg, rest) \<Rightarrow>
            if length buf \<le> length rest then Some (k, batch, c, [])
            else
              (let msg_bytes = length buf - length rest;
                   c = c\<lparr>rc_bytes_processed := rc_bytes_processed c + msg_bytes\<rparr>;
                   batch = Batch_push batch msg;
                   c = c\<lparr>rc_parsed := rc_parsed c + 1\<rparr>
               in if Batch_is_ready_to_flush batch
                  then do {
                    (n, batch, k, cmd) \<leftarrow> Batch_flush rng k batch;
                    (k, batch, c, cmds) \<leftarrow> replay_loop rng flag rest k batch (count_flush n c);
                    Some (k, batch, c, cmd # cmds)
                  }
                  else replay_loop rng flag rest k batch c))"
  by pat_completeness auto
termination
  by (relation "measure (\<lambda>(rng, flag, buf, k, batch, c). length buf)") auto

declare replay_loop.simps [simp del]

definition replay ::
  "rng \<Rightarrow> bool list \<Rightarrow> bytes \<Rightarrow> nat \<Rightarrow> (ReplayCounters \<times> ServerCommand list) run" where
  "replay rng flag mmap max_msgs = do {
     (batch, k) \<leftarrow> Batch_new rng 0 max_msgs;
     (k, batch, c, cmds) \<leftarrow> replay_loop rng flag mmap k batch ReplayCounters_default;
     (if Batch_is_empty batch then Some (c, cmds)
      else do {
        (n, batch, k, cmd) \<leftarrow> Batch_flush rng k batch;
        Some (count_flush n c, cmds @ [cmd])
      })
   }"

text \<open>The server thread of \<open>pipeline.rs\<close>: the replay, then the end-of-session marker.\<close>

definition server_thread ::
  "rng \<Rightarrow> bool list \<Rightarrow> bytes \<Rightarrow> nat \<Rightarrow> ServerCommand list run" where
  "server_thread rng flag mmap max_msgs = do {
     (c, cmds) \<leftarrow> replay rng flag mmap max_msgs;
     Some (cmds @ [EndOfSessionCmd])
   }"

section \<open>Every message once, in order, in bounded batches\<close>

text \<open>The messages a list of commands sends.\<close>

fun sent_messages :: "ServerCommand list \<Rightarrow> bytes list" where
  "sent_messages [] = []"
| "sent_messages (Send ms # cs) = ms @ sent_messages cs"
| "sent_messages (_ # cs) = sent_messages cs"

lemma sent_messages_append [simp]: "sent_messages (cs @ ds) = sent_messages cs @ sent_messages ds"
  by (induction cs rule: sent_messages.induct) simp_all

text \<open>The whole frames a shutdown lets through: one more per load that is not raised.\<close>

fun before_shutdown :: "bool list \<Rightarrow> 'a list \<Rightarrow> 'a list" where
  "before_shutdown flag [] = []"
| "before_shutdown flag (x # xs) =
     (case flag_load flag of (raised, flag) \<Rightarrow> if raised then [] else x # before_shutdown flag xs)"

lemma before_shutdown_Nil [simp]: "before_shutdown [] xs = xs"
  by (induction xs) simp_all

definition batch_in :: "nat \<Rightarrow> ServerCommand \<Rightarrow> bool" where
  "batch_in m c \<longleftrightarrow> (\<exists>ms. c = Send ms \<and> ms \<noteq> [] \<and> length ms \<le> m)"

definition good_body :: "bytes \<Rightarrow> bool" where
  "good_body b \<longleftrightarrow> b \<noteq> [] \<and> length b < 2 ^ 16 \<and> known_tag (hd b)"

lemma parse_one_body: "good_body b \<Longrightarrow> parse_one (frame b @ rest) = Inr (b, rest)"
  using parse_one_frame [of "hd b" "tl b" rest] by (simp add: good_body_def)

definition batch_inv :: "Batch \<Rightarrow> bool" where
  "batch_inv b \<longleftrightarrow> length (ba_buf b) < ba_next_flush b \<and> ba_next_flush b \<le> ba_cap b"

lemma Batch_new_ok:
  assumes "rng_ok rng" and "1 \<le> limit"
  shows "\<exists>b k'. Batch_new rng k limit = Some (b, k') \<and> batch_inv b \<and> ba_buf b = [] \<and> ba_cap b = limit"
  using assms by (auto simp: Batch_new_def pick_flush_size_def batch_inv_def rng_ok_def Suc_le_eq)

lemma Batch_flush_ok:
  assumes "rng_ok rng" and "1 \<le> ba_cap b"
  shows "\<exists>b' k'. Batch_flush rng k b = Some (of_nat (length (ba_buf b)), b', k', Send (ba_buf b)) \<and>
    batch_inv b' \<and> ba_buf b' = [] \<and> ba_cap b' = ba_cap b"
  using assms by (auto simp: Batch_flush_def pick_flush_size_def batch_inv_def rng_ok_def Suc_le_eq Let_def)

lemma frame_length: "length (frame b) = 2 + length b"
  by (simp add: frame_def)

lemma replay_step:
  assumes "good_body b"
  shows "replay_loop rng flag (frame b @ rest) k batch c =
    (case flag_load flag of (raised, flag) \<Rightarrow>
       if raised then Some (k, batch, c, [])
       else
         let c = c\<lparr>rc_bytes_processed := rc_bytes_processed c + length (frame b), rc_parsed := rc_parsed c + 1\<rparr>;
             batch = Batch_push batch b
         in if Batch_is_ready_to_flush batch
            then do {
              (n, batch, k, cmd) \<leftarrow> Batch_flush rng k batch;
              (k, batch, c, cmds) \<leftarrow> replay_loop rng flag rest k batch (count_flush n c);
              Some (k, batch, c, cmd # cmds)
            }
            else replay_loop rng flag rest k batch c)"
  by (cases "flag_load flag", subst replay_loop.simps)
    (simp add: parse_one_body [OF assms] frame_length Let_def)

lemma replay_loop_ok:
  assumes rng: "rng_ok rng" and tail: "tail = [] \<or> (\<exists>e. parse_one tail = Inl e)"
  shows "\<forall>b \<in> set bodies. good_body b \<Longrightarrow> batch_inv batch \<Longrightarrow>
    \<exists>k' batch' c' cmds. replay_loop rng flag (frames bodies @ tail) k batch c = Some (k', batch', c', cmds) \<and>
      batch_inv batch' \<and> ba_cap batch' = ba_cap batch \<and> list_all (batch_in (ba_cap batch)) cmds \<and>
      sent_messages cmds @ ba_buf batch' = ba_buf batch @ before_shutdown flag bodies \<and>
      rc_parsed c' = rc_parsed c + of_nat (length (before_shutdown flag bodies)) \<and>
      rc_sent c' = rc_sent c + of_nat (length (sent_messages cmds)) \<and>
      rc_flush_count c' = rc_flush_count c + of_nat (length cmds) \<and>
      rc_bytes_processed c' = rc_bytes_processed c + length (frames (before_shutdown flag bodies))"
proof (induction bodies arbitrary: flag k batch c)
  case Nil
  with tail show ?case
    by (subst replay_loop.simps) (auto split: prod.split)
next
  case (Cons b bodies)
  then have b: "good_body b" and bs: "\<forall>b \<in> set bodies. good_body b" and inv: "batch_inv batch" by simp_all
  obtain raised fl where f: "flag_load flag = (raised, fl)" by (cases "flag_load flag")
  let ?c = "c\<lparr>rc_bytes_processed := rc_bytes_processed c + length (frame b), rc_parsed := rc_parsed c + 1\<rparr>"
  let ?p = "Batch_push batch b"
  note step = replay_step [OF b, of rng flag "frames bodies @ tail" k batch c, unfolded f, simplified]
  have cap: "1 \<le> ba_cap ?p" and full: "length (ba_buf ?p) \<le> ba_next_flush ?p" "ba_next_flush ?p \<le> ba_cap batch"
    using inv by (auto simp: batch_inv_def Batch_push_def)
  show ?case
  proof (cases raised)
    case True
    with step f inv show ?thesis by simp
  next
    case False
    show ?thesis
    proof (cases "Batch_is_ready_to_flush ?p")
      case True
      obtain b' k1 where fl1: "Batch_flush rng k ?p = Some (of_nat (length (ba_buf ?p)), b', k1, Send (ba_buf ?p))"
          "batch_inv b'" "ba_buf b' = []" "ba_cap b' = ba_cap ?p"
        using Batch_flush_ok [OF rng cap] by blast
      from Cons.IH [OF bs fl1(2), of fl k1 "count_flush (of_nat (length (ba_buf ?p))) ?c"] obtain k' batch' c' cmds where
        r: "replay_loop rng fl (frames bodies @ tail) k1 b' (count_flush (of_nat (length (ba_buf ?p))) ?c) =
            Some (k', batch', c', cmds)" and
        q: "batch_inv batch'" "ba_cap batch' = ba_cap b'" "list_all (batch_in (ba_cap b')) cmds"
          "sent_messages cmds @ ba_buf batch' = ba_buf b' @ before_shutdown fl bodies"
          "rc_parsed c' = rc_parsed ?c + of_nat (length (before_shutdown fl bodies))"
          "rc_sent c' = rc_sent c + of_nat (length (ba_buf ?p)) + of_nat (length (sent_messages cmds))"
          "rc_flush_count c' = rc_flush_count c + 1 + of_nat (length cmds)"
          "rc_bytes_processed c' = rc_bytes_processed ?c + length (frames (before_shutdown fl bodies))"
        by (auto simp: count_flush_def)
      have "batch_in (ba_cap batch) (Send (ba_buf ?p))" using full by (simp add: batch_in_def Batch_push_def)
      with step True \<open>\<not> raised\<close> fl1 r q f show ?thesis
        by (simp add: Batch_push_def algebra_simps)
    next
      case no: False
      then have "batch_inv ?p" using full by (simp add: batch_inv_def Batch_is_ready_to_flush_def Batch_push_def)
      from Cons.IH [OF bs this, of fl k ?c] step no False f show ?thesis
        by (auto simp: Batch_push_def algebra_simps)
    qed
  qed
qed

lemma replay_ok:
  assumes "rng_ok rng" and "1 \<le> limit" and "\<forall>b \<in> set bodies. good_body b"
    and "tail = [] \<or> (\<exists>e. parse_one tail = Inl e)"
  shows "\<exists>c cmds. replay rng flag (frames bodies @ tail) limit = Some (c, cmds) \<and>
    list_all (batch_in limit) cmds \<and> sent_messages cmds = before_shutdown flag bodies \<and>
    rc_parsed c = of_nat (length (sent_messages cmds)) \<and> rc_sent c = of_nat (length (sent_messages cmds)) \<and>
    rc_flush_count c = of_nat (length cmds) \<and> rc_bytes_processed c = length (frames (sent_messages cmds))"
proof -
  obtain b k where b: "Batch_new rng 0 limit = Some (b, k)" "batch_inv b" "ba_buf b = []" "ba_cap b = limit"
    using Batch_new_ok [OF assms(1,2)] by blast
  from replay_loop_ok [OF assms(1,4,3) b(2), of flag k ReplayCounters_default] b(3,4) obtain k' b' c cmds where
    r: "replay_loop rng flag (frames bodies @ tail) k b ReplayCounters_default = Some (k', b', c, cmds)" and
    q: "batch_inv b'" "ba_cap b' = limit" "list_all (batch_in limit) cmds"
      "sent_messages cmds @ ba_buf b' = before_shutdown flag bodies"
      "rc_parsed c = of_nat (length (before_shutdown flag bodies))"
      "rc_sent c = of_nat (length (sent_messages cmds))"
      "rc_flush_count c = of_nat (length cmds)"
      "rc_bytes_processed c = length (frames (before_shutdown flag bodies))"
    by (auto simp: ReplayCounters_default_def)
  show ?thesis
  proof (cases "ba_buf b' = []")
    case True
    then show ?thesis using b(1) r q by (simp add: replay_def Batch_is_empty_def)
  next
    case False
    have "1 \<le> ba_cap b'" using q(2) assms(2) by simp
    from Batch_flush_ok [OF assms(1) this, of k'] obtain b'' k'' where
      "Batch_flush rng k' b' = Some (of_nat (length (ba_buf b')), b'', k'', Send (ba_buf b'))" by blast
    moreover have "batch_in limit (Send (ba_buf b'))"
      using q(1,2) False by (simp add: batch_inv_def batch_in_def)
    moreover have "length (before_shutdown flag bodies) = length (sent_messages cmds) + length (ba_buf b')"
      using q(4) by (metis length_append)
    ultimately show ?thesis
      using b(1) r q False by (simp add: replay_def Batch_is_empty_def count_flush_def)
  qed
qed

end
