(* ===== verification/App_System.thy ===== *)
theory App_System
  imports App_Spec App_Replay
begin

text \<open>
  The parts of the application put together: what the packets of the server carry, and what
  the receive loop makes of them.
\<close>

section \<open>Packets and the messages they carry\<close>

definition decodes :: "bytes list \<Rightarrow> itch_message list \<Rightarrow> bool" where
  "decodes bodies ms \<longleftrightarrow> list_all2 (\<lambda>b m. decode_body b = Some m) bodies ms"

definition carries :: "zerocopy \<Rightarrow> bytes \<Rightarrow> itch_message list \<Rightarrow> bool" where
  "carries z p ms \<longleftrightarrow>
     (\<exists>pkt. Packet_parse z p = Some pkt \<and>
       (Packet_packet_kind z pkt = Heartbeat \<and> ms = [] \<or>
        Packet_packet_kind z pkt = Standard \<and> (\<exists>bodies. messages pkt = frames bodies \<and> decodes bodies ms)))"

lemma decodes_good: "decodes bodies ms \<Longrightarrow> \<forall>b \<in> set bodies. good_body b"
  unfolding decodes_def good_body_def
  by (induction bodies ms rule: list_all2_induct)
    (auto dest: decode_body_known decode_body_small)

lemma decodes_append: "decodes (bs @ cs) ms \<Longrightarrow> \<exists>ms1 ms2. ms = ms1 @ ms2 \<and> decodes bs ms1 \<and> decodes cs ms2"
  by (auto simp: decodes_def list_all2_append1)

lemma frames_blocks: "frames bs = concat (map message_block bs)"
proof -
  have "frame = message_block" by (simp add: fun_eq_iff frame_def message_block_def)
  then show ?thesis by (simp add: frames_def)
qed

lemma carries_chunk:
  assumes "zerocopy_ok z" and "length s = 10" and "0 < length c" and "length c < 65535" and "decodes c ms"
  shows "carries z (packet_bytes s q (of_nat (length c)) (concat (map message_block c))) ms"
proof -
  have "\<forall>d \<in> set c. length d < 2 ^ 16" using decodes_good [OF assms(5)] by (simp add: good_body_def)
  from packet_roundtrip [OF assms(1-4) this, of q] obtain p where
    p: "Packet_parse z (packet_bytes s q (of_nat (length c)) (concat (map message_block c))) = Some p"
      "Packet_packet_kind z p = Standard" by blast
  moreover from p(1) have "messages p = frames c"
    by (auto simp: Packet_parse_bytes [OF assms(1,2)] frames_blocks)
  ultimately show ?thesis using assms(5) unfolding carries_def by blast
qed

lemma packet_info_kind:
  "packet_info z bs = Some (s, q, k, ds) \<Longrightarrow> \<exists>p. Packet_parse z bs = Some p \<and> Packet_packet_kind z p = k"
  by (auto simp: packet_info_def)

lemma carries_heartbeat:
  assumes "zerocopy_ok z" and "length s = 10"
  shows "carries z (build_special s q HEARTBEAT_IDENT) []"
proof -
  have "packet_info z (build_special s q HEARTBEAT_IDENT) = Some (s, q, Heartbeat, [])"
    using packet_info_special [OF assms, of HEARTBEAT_IDENT q] by simp
  from packet_info_kind [OF this] show ?thesis by (auto simp: carries_def)
qed

lemma chunks_carry:
  assumes "zerocopy_ok z" and "length s = 10"
  shows "\<forall>c \<in> set cs. 0 < length c \<and> length c < 65535 \<Longrightarrow> decodes (concat cs) ms \<Longrightarrow>
    \<exists>mss. concat mss = ms \<and>
      list_all2 (carries z) (map (\<lambda>c. packet_bytes s q (of_nat (length c)) (concat (map message_block c))) cs) mss"
proof (induction cs arbitrary: ms)
  case Nil
  then have "ms = []" by (simp add: decodes_def)
  then show ?case by simp
next
  case (Cons c cs)
  then obtain ms1 ms2 where ms: "ms = ms1 @ ms2" "decodes c ms1" "decodes (concat cs) ms2"
    using decodes_append [of c "concat cs" ms] by auto
  with Cons obtain mss where "concat mss = ms2"
    "list_all2 (carries z) (map (\<lambda>c. packet_bytes s q (of_nat (length c)) (concat (map message_block c))) cs) mss"
    by force
  moreover have "carries z (packet_bytes s q (of_nat (length c)) (concat (map message_block c))) ms1"
    using carries_chunk [OF assms _ _ ms(2)] Cons.prems(1) by simp
  ultimately show ?case using ms(1) by (intro exI [of _ "ms1 # mss"]) simp
qed

section \<open>The sender thread on a replay\<close>

text \<open>
  The events of the sender while the replay runs: its batches in order, ticks anywhere
  between them, and the end-of-session marker last.
\<close>

inductive replay_events :: "ServerCommand list \<Rightarrow> sender_event list \<Rightarrow> bool" where
  finished: "replay_events [] []"
| tick: "replay_events cmds es \<Longrightarrow> replay_events cmds (Timeout # es)"
| command: "replay_events cmds es \<Longrightarrow> replay_events (c # cmds) (Cmd c # es)"

code_pred replay_events .

lemma ticks_run: "replay_events [] es \<Longrightarrow> \<exists>st' rest. sender_loop limit st es = Some (st', rest)"
  by (induction "[] :: ServerCommand list" es rule: replay_events.induct) (auto simp: Let_def)

lemma send_batch:
  assumes z: "zerocopy_ok z" and s: "length (sv_session st) = 10" and stop: "\<not> sv_stopped st"
    and b: "ms \<noteq> []" "length ms < 65535" and d: "decodes ms msgs"
  shows "\<exists>st' pkts mss. sender_command limit st (Send ms) = Some (st', pkts) \<and>
    sv_session st' = sv_session st \<and> \<not> sv_stopped st' \<and> list_all2 (carries z) pkts mss \<and> concat mss = msgs"
proof -
  have ok: "batch_ok ms" using b decodes_good [OF d] by (simp add: batch_ok_def good_body_def)
  have cs: "\<forall>c \<in> set (chunk_messages ms limit). 0 < length c \<and> length c < 65535"
    using batch_chunks [OF ok] by blast
  have "decodes (concat (chunk_messages ms limit)) msgs" using d by (simp add: concat_chunks)
  from chunks_carry [OF z s cs this, of "sv_next_seq st"] show ?thesis
    using build_batch [OF ok, of "sv_session st" "sv_next_seq st" limit] stop b(1) by (auto simp: Let_def)
qed

lemma sender_carries:
  assumes z: "zerocopy_ok z"
  shows "replay_events (cmds @ [EndOfSessionCmd]) es \<Longrightarrow> length (sv_session st) = 10 \<Longrightarrow> \<not> sv_stopped st \<Longrightarrow>
    list_all (batch_in 65534) cmds \<Longrightarrow> decodes (sent_messages cmds) msgs \<Longrightarrow>
    \<exists>st' pkts eos rest mss. sender_loop limit st es = Some (st', pkts @ eos # rest) \<and>
      list_all2 (carries z) pkts mss \<and> concat mss = msgs \<and>
      (\<exists>p. Packet_parse z eos = Some p \<and> Packet_packet_kind z p = EndOfSession)"
proof (induction "cmds @ [EndOfSessionCmd]" es arbitrary: cmds st msgs rule: replay_events.induct)
  case finished
  then show ?case by simp
next
  case (tick es)
  then obtain st' pkts eos rest mss where r: "sender_loop limit st es = Some (st', pkts @ eos # rest)"
      "list_all2 (carries z) pkts mss" "concat mss = msgs"
      "\<exists>p. Packet_parse z eos = Some p \<and> Packet_packet_kind z p = EndOfSession" by fastforce
  have "carries z (send_periodic (sv_session st) (sv_next_seq st) (sv_stopped st)) []"
    using carries_heartbeat [OF z] tick by (simp add: send_periodic_def Let_def)
  with r show ?case
    by (intro exI [of _ st'] exI [of _ "send_periodic (sv_session st) (sv_next_seq st) (sv_stopped st) # pkts"]
        exI [of _ eos] exI [of _ rest] exI [of _ "[] # mss"]) simp
next
  case (command cs es c)
  show ?case
  proof (cases cmds)
    case Nil
    then have c: "c = EndOfSessionCmd" "cs = []" using command by auto
    then obtain st' rest where run: "sender_loop limit st es = Some (st', rest)"
      using command(1) ticks_run by blast
    have "END_OF_SESSION_IDENT \<noteq> HEARTBEAT_IDENT" by (simp add: END_OF_SESSION_IDENT_def HEARTBEAT_IDENT_def)
    then have "\<exists>p. Packet_parse z (build_special (sv_session st) (sv_next_seq st) END_OF_SESSION_IDENT) = Some p \<and>
        Packet_packet_kind z p = EndOfSession"
      using packet_info_kind packet_info_special [OF z command(4), of END_OF_SESSION_IDENT "sv_next_seq st"] by auto
    then show ?thesis
      using c Nil command(7) run
      by (intro exI [of _ st'] exI [of _ "[]"] exI [of _ rest]
          exI [of _ "build_special (sv_session st) (sv_next_seq st) END_OF_SESSION_IDENT"])
        (simp add: decodes_def)
  next
    case (Cons d ds)
    then have c: "c = d" "cs = ds @ [EndOfSessionCmd]" using command(3) by auto
    from Cons command(6) obtain ms where d: "d = Send ms" "ms \<noteq> []" "length ms < 65535"
      by (auto simp: batch_in_def)
    from Cons command(7) d(1) obtain m1 m2 where m: "msgs = m1 @ m2" "decodes ms m1" "decodes (sent_messages ds) m2"
      using decodes_append [of ms "sent_messages ds" msgs] by auto
    obtain st1 p1 mss1 where s1: "sender_command limit st (Send ms) = Some (st1, p1)" "sv_session st1 = sv_session st"
        "\<not> sv_stopped st1" "list_all2 (carries z) p1 mss1" "concat mss1 = m1"
      using send_batch [OF z command(4,5) d(2,3) m(2), of limit] by blast
    have "\<exists>st' pkts eos rest mss. sender_loop limit st1 es = Some (st', pkts @ eos # rest) \<and>
      list_all2 (carries z) pkts mss \<and> concat mss = m2 \<and>
      (\<exists>p. Packet_parse z eos = Some p \<and> Packet_packet_kind z p = EndOfSession)"
      using command(4,6) Cons c s1(2,3) m(3) by (intro command(2)) auto
    then obtain st' pkts eos rest mss where r: "sender_loop limit st1 es = Some (st', pkts @ eos # rest)"
      "list_all2 (carries z) pkts mss" "concat mss = m2"
      "\<exists>p. Packet_parse z eos = Some p \<and> Packet_packet_kind z p = EndOfSession" by blast
    have "sender_loop limit st (Cmd c # es) = Some (st', (p1 @ pkts) @ eos # rest)"
      using s1(1) r(1) c d(1) by (simp del: sender_command.simps)
    moreover have "list_all2 (carries z) (p1 @ pkts) (mss1 @ mss)" "concat (mss1 @ mss) = msgs"
      using s1(4,5) r(2,3) m(1) by (auto intro: list_all2_appendI)
    ultimately show ?thesis using r(4) by blast
  qed
qed

section \<open>The receive loop on what it is sent\<close>

lemma messages_len_standard:
  "Packet_packet_kind z p = Standard \<Longrightarrow> Messages_len (Packet_iter z p) = unat (Packet_msg_count z p)"
  by (auto simp: Packet_packet_kind_def Messages_len_def Packet_iter_def Let_def split: if_splits)

lemma visit_Continue_left: "visit h ms s = (s', left, Continue) \<Longrightarrow> left = []"
  by (induction ms arbitrary: s) (auto split: prod.splits control_flow.splits)

lemma visit_append:
  "visit h ms s = (s', [], Continue) \<Longrightarrow> visit h (ms @ ns) s = visit h ns s'"
  by (induction ms arbitrary: s) (auto split: prod.splits control_flow.splits)

definition no_errors :: "NetCounters \<Rightarrow> bool" where
  "no_errors net \<longleftrightarrow> parse_errors net = 0 \<and> truncated_packets net = 0 \<and> retransmission_requests net = 0"

context registry_client
begin

lemma parse_packet:
  assumes z: "zerocopy_ok z" and "decodes bodies ms" and "handler_rel n watch h st"
    and "n + length ms \<le> unat NIL"
    and "\<And>m l s. m \<in> set ms \<Longrightarrow> directory_op z watch m = Some (l, s) \<Longrightarrow> fits (mh_registry h) l"
  shows "\<exists>h'. parse_stream z (app_visitor z R) (frames bodies) (Some h) = Some (Some h', [], Inr ()) \<and>
    handler_rel (n + length ms) watch h' (spec_feed z watch ms st) \<and> fits (mh_registry h') = fits (mh_registry h) \<and>
    visit (app_visitor z R) ms (Some h) = (Some h', [], Continue)"
proof -
  obtain h' where h': "visit (app_visitor z R) ms (Some h) = (Some h', [], Continue)"
    "handler_rel (n + length ms) watch h' (spec_feed z watch ms st)" "fits (mh_registry h') = fits (mh_registry h)"
    using feed_handled [OF assms(3,4), of z] assms(5) by blast
  have "parse_stream z (app_visitor z R) [] (Some h') = Some (Some h', [], Inr ())"
    by (subst parse_stream.simps) simp
  with h' parse_stream_frames [OF z, of bodies ms "app_visitor z R" "[]" "Some h"] assms(2) show ?thesis
    by (simp add: decodes_def)
qed

lemma run_packets:
  assumes z: "zerocopy_ok z"
  shows "list_all2 (carries z) pkts mss \<Longrightarrow> map (\<lambda>d. Datagram_bytes (fst d)) ds = map Some pkts \<Longrightarrow>
    handler_rel n watch h st \<Longrightarrow> n + length (concat mss) \<le> unat NIL \<Longrightarrow> no_errors net \<Longrightarrow>
    (\<And>m l s. m \<in> set (concat mss) \<Longrightarrow> directory_op z watch m = Some (l, s) \<Longrightarrow> fits (mh_registry h) l) \<Longrightarrow>
    \<exists>h' net' effs. app_run z R h net (ds @ rest) =
        map_option (\<lambda>(h, net, effs'). (h, net, effs @ effs')) (app_run z R h' net' rest) \<and>
      handler_rel (n + length (concat mss)) watch h' (spec_feed z watch (concat mss) st) \<and> no_errors net' \<and>
      visit (app_visitor z R) (concat mss) (Some h) = (Some h', [], Continue)"
proof (induction pkts mss arbitrary: ds n h st net rule: list_all2_induct)
  case Nil
  then show ?case by (intro exI [of _ h] exI [of _ net] exI [of _ "[]"]) (simp add: option.map_ident case_prod_beta)
next
  case (Cons p pkts ms mss)
  obtain d sent ds' where ds: "ds = (d, sent) # ds'" "Datagram_bytes d = Some p"
      "map (\<lambda>d. Datagram_bytes (fst d)) ds' = map Some pkts"
    using Cons.prems(1) by (cases ds) auto
  have fl: "flag_load (mh_shutdown h) = (False, [])" and hs: "h\<lparr>mh_shutdown := []\<rparr> = h"
    using Cons.prems(2) by (auto simp: handler_rel_def)
  from Cons(1) obtain pkt where p: "Packet_parse z p = Some pkt" and
    kind: "Packet_packet_kind z pkt = Heartbeat \<and> ms = [] \<or>
      Packet_packet_kind z pkt = Standard \<and> (\<exists>bodies. messages pkt = frames bodies \<and> decodes bodies ms)"
    by (auto simp: carries_def)
  from kind show ?case
  proof (elim disjE conjE exE)
    assume k: "Packet_packet_kind z pkt = Heartbeat" "ms = []"
    have "no_errors (net\<lparr>heartbeats := heartbeats net + 1\<rparr>)" using Cons.prems(4) by (simp add: no_errors_def)
    from Cons.IH [OF ds(3) Cons.prems(2) _ this] Cons.prems(3,5) k obtain h' net' effs where
      "app_run z R h (net\<lparr>heartbeats := heartbeats net + 1\<rparr>) (ds' @ rest) =
        map_option (\<lambda>(h, net, effs'). (h, net, effs @ effs')) (app_run z R h' net' rest)"
      "handler_rel (n + length (concat mss)) watch h' (spec_feed z watch (concat mss) st)" "no_errors net'"
      "visit (app_visitor z R) (concat mss) (Some h) = (Some h', [], Continue)"
      by auto
    then show ?thesis
      using ds p k fl hs
      by (intro exI [of _ h'] exI [of _ net'] exI [of _ "Datagram_drop d @ effs"])
        (cases "app_run z R h' net' rest", simp_all add: Let_def case_prod_beta)
  next
    fix bodies
    assume k: "Packet_packet_kind z pkt = Standard" and b: "messages pkt = frames bodies" "decodes bodies ms"
    let ?net = "net\<lparr>packets_received := packets_received net + 1\<rparr>"
    obtain h1 where h1: "parse_stream z (app_visitor z R) (frames bodies) (Some h) = Some (Some h1, [], Inr ())"
        "handler_rel (n + length ms) watch h1 (spec_feed z watch ms st)" "fits (mh_registry h1) = fits (mh_registry h)"
        "visit (app_visitor z R) ms (Some h) = (Some h1, [], Continue)"
      using parse_packet [OF z b(2) Cons.prems(2)] Cons.prems(3,5) by auto
    have ne: "no_errors ?net" using Cons.prems(4) by (simp add: no_errors_def)
    have le: "n + length ms + length (concat mss) \<le> unat NIL" using Cons.prems(3) by simp
    have fit: "\<And>m l s. m \<in> set (concat mss) \<Longrightarrow> directory_op z watch m = Some (l, s) \<Longrightarrow> fits (mh_registry h1) l"
      using Cons.prems(5) h1(3) by auto
    obtain h' net' effs where
      r: "app_run z R h1 ?net (ds' @ rest) =
        map_option (\<lambda>(h, net, effs'). (h, net, effs @ effs')) (app_run z R h' net' rest)"
      "handler_rel (n + length ms + length (concat mss)) watch h' (spec_feed z watch (concat mss) (spec_feed z watch ms st))"
      "no_errors net'" "visit (app_visitor z R) (concat mss) (Some h1) = (Some h', [], Continue)"
      using Cons.IH [OF ds(3) h1(2) le ne] fit by blast
    have "visit (app_visitor z R) (concat (ms # mss)) (Some h) = (Some h', [], Continue)"
      using visit_append [OF h1(4)] r(4) by simp
    then show ?thesis
      using ds p k fl hs b(1) h1(1) r(1-3) messages_len_standard [OF k]
      by (intro exI [of _ h'] exI [of _ net'] exI [of _ "Datagram_drop d @ effs"])
        (cases "app_run z R h' net' rest", simp_all add: Let_def case_prod_beta spec_feed_append add.assoc)
  qed
qed

lemma run_end_of_session:
  assumes "mh_shutdown h = []" and "Datagram_bytes d = Some eos" and "Packet_parse z eos = Some p"
    and "Packet_packet_kind z p = EndOfSession"
  shows "app_run z R h net ((d, sent) # ds) = Some (h, net, Datagram_drop d)"
proof -
  have "h\<lparr>mh_shutdown := []\<rparr> = h" using assms(1) by simp
  with assms show ?thesis by (simp add: Let_def)
qed

end

section \<open>A whole session\<close>

text \<open>The locates a feed registers.\<close>

definition directory_locates :: "zerocopy \<Rightarrow> u64 set option \<Rightarrow> itch_message list \<Rightarrow> u16 set" where
  "directory_locates z watch ms = {l. \<exists>m \<in> set ms. \<exists>s. directory_op z watch m = Some (l, s)}"

text \<open>The packets of a session: those that carry the messages, the end of the session, and more.\<close>

definition session_packets :: "zerocopy \<Rightarrow> itch_message list \<Rightarrow> bytes list \<Rightarrow> bool" where
  "session_packets z ms pkts \<longleftrightarrow>
     (\<exists>front eos rest mss p. pkts = front @ eos # rest \<and> list_all2 (carries z) front mss \<and> concat mss = ms \<and>
        Packet_parse z eos = Some p \<and> Packet_packet_kind z p = EndOfSession)"

lemma session_sends:
  assumes z: "zerocopy_ok z" and rng: "rng_ok rng" and limit: "1 \<le> max_msgs" "max_msgs < 65535"
    and d: "decodes bodies ms" and tail: "tail = [] \<or> (\<exists>e. parse_one tail = Inl e)"
  shows "\<exists>cmds. server_thread rng [] (frames bodies @ tail) max_msgs = Some cmds \<and>
    (\<forall>es. replay_events cmds es \<longrightarrow>
      (\<exists>st' pkts. sender_loop lim (server_start sess seq) es = Some (st', pkts) \<and> session_packets z ms pkts))"
proof -
  have good: "\<forall>b \<in> set bodies. good_body b" using decodes_good [OF d] .
  from replay_ok [OF rng limit(1) good tail, of "[]"] obtain c cmds where
    cmds: "replay rng [] (frames bodies @ tail) max_msgs = Some (c, cmds)" "list_all (batch_in max_msgs) cmds"
      "sent_messages cmds = bodies" by auto
  have b: "list_all (batch_in 65534) cmds"
    using cmds(2) by (rule list.pred_mono_strong) (use limit in \<open>auto simp: batch_in_def\<close>)
  have s: "length (sv_session (server_start sess seq)) = 10" "\<not> sv_stopped (server_start sess seq)"
    by (simp_all add: server_start_def)
  have "\<exists>st' pkts. sender_loop lim (server_start sess seq) es = Some (st', pkts) \<and> session_packets z ms pkts"
    if "replay_events (cmds @ [EndOfSessionCmd]) es" for es
    using sender_carries [OF z that s b, of ms lim] d cmds(3) unfolding session_packets_def by metis
  moreover have "server_thread rng [] (frames bodies @ tail) max_msgs = Some (cmds @ [EndOfSessionCmd])"
    using cmds(1) by (simp add: server_thread_def)
  ultimately show ?thesis by blast
qed

text \<open>
  A session received: after any number of datagrams the handler is what the visitor makes of the
  messages they carry, and after all of them those are the messages of the file.
\<close>

context registry_client
begin

lemma session_received:
  assumes z: "zerocopy_ok z" and "session_packets z ms pkts"
    and ds: "map (\<lambda>d. Datagram_bytes (fst d)) ds = map Some pkts" and n: "length ms \<le> unat NIL"
    and rel: "handler_rel 0 watch h st" and fit: "\<And>l. l \<in> directory_locates z watch ms \<Longrightarrow> fits (mh_registry h) l"
  shows "\<exists>f. mono f \<and> f (length ds) = length ms \<and> (\<forall>k. f k \<le> length ms \<and>
    (\<exists>h' net effs. app_run z R h net_default (take k ds) = Some (h', net, effs) \<and> no_errors net \<and>
      visit (app_visitor z R) (take (f k) ms) (Some h) = (Some h', [], Continue) \<and>
      handler_rel (f k) watch h' (spec_feed z watch (take (f k) ms) st)))"
proof -
  obtain front eos rest mss p where p: "pkts = front @ eos # rest" "list_all2 (carries z) front mss" "concat mss = ms"
    "Packet_parse z eos = Some p" "Packet_packet_kind z p = EndOfSession"
    using assms(2) by (auto simp: session_packets_def)
  define f where "f = (\<lambda>k. length (concat (take k mss)))"
  have cat: "ms = concat (take k mss) @ concat (drop k mss)" for k
    using p(3) by (metis append_take_drop_id concat_append)
  then have le: "f k \<le> length ms" and tk: "take (f k) ms = concat (take k mss)" for k
    unfolding f_def by (metis length_append le_add1, metis append_eq_conv_conj)
  have len: "length front = length mss" using p(2) by (rule list_all2_lengthD)
  from ds p(1) obtain ds1 d0 sent ds2 where
    e: "ds = ds1 @ (d0, sent) # ds2" "map (\<lambda>d. Datagram_bytes (fst d)) ds1 = map Some front" "Datagram_bytes d0 = Some eos"
    by (auto simp: map_eq_append_conv map_eq_Cons_conv)
  have l1: "length ds1 = length mss" using e(2) len by (metis length_map)
  have "f i \<le> f j" if "i \<le> j" for i j
    using that unfolding f_def by (metis concat_append length_append le_add1 le_add_diff_inverse take_add)
  then have "mono f" by (simp add: mono_def)
  moreover have "f (length ds) = length ms" using e(1) l1 p(3) by (simp add: f_def)
  moreover have "\<exists>h' net effs. app_run z R h net_default (take k ds) = Some (h', net, effs) \<and> no_errors net \<and>
      visit (app_visitor z R) (take (f k) ms) (Some h) = (Some h', [], Continue) \<and>
      handler_rel (f k) watch h' (spec_feed z watch (take (f k) ms) st)" for k
  proof -
    have c: "list_all2 (carries z) (take k front) (take k mss)" using p(2) by (rule list_all2_takeI)
    have b: "map (\<lambda>d. Datagram_bytes (fst d)) (take k ds1) = map Some (take k front)"
      using arg_cong [OF e(2), of "take k"] by (simp add: take_map)
    have le': "0 + length (concat (take k mss)) \<le> unat NIL" using le [of k] n by (simp add: f_def)
    have "\<exists>h' net effs. app_run z R h net_default (take k ds1 @ rest') =
          map_option (\<lambda>(h, net, effs'). (h, net, effs @ effs')) (app_run z R h' net rest') \<and>
        handler_rel (0 + length (concat (take k mss))) watch h' (spec_feed z watch (concat (take k mss)) st) \<and>
        no_errors net \<and> visit (app_visitor z R) (concat (take k mss)) (Some h) = (Some h', [], Continue)" for rest'
      by (rule run_packets [OF z c b rel le'])
        (use fit cat [of k] in \<open>auto simp: directory_locates_def no_errors_def net_default_def\<close>)
    then obtain h' net effs where q: "app_run z R h net_default (take k ds1 @ drop (length ds1) (take k ds)) =
        map_option (\<lambda>(h, net, effs'). (h, net, effs @ effs')) (app_run z R h' net (drop (length ds1) (take k ds)))"
      "handler_rel (f k) watch h' (spec_feed z watch (take (f k) ms) st)" "no_errors net"
      "visit (app_visitor z R) (take (f k) ms) (Some h) = (Some h', [], Continue)"
      unfolding tk by (simp add: f_def) blast
    have "take k ds1 @ drop (length ds1) (take k ds) = take k ds"
      using e(1) by (cases "k \<le> length ds1") simp_all
    moreover have "\<exists>effs'. app_run z R h' net (drop (length ds1) (take k ds)) = Some (h', net, effs')"
    proof (cases "k - length ds1")
      case 0
      then show ?thesis using e(1) by simp
    next
      case (Suc i)
      then have "drop (length ds1) (take k ds) = (d0, sent) # take i ds2" using e(1) by simp
      then show ?thesis using q(2) run_end_of_session [OF _ e(3) p(4,5)] by (simp add: handler_rel_def)
    qed
    ultimately show ?thesis using q by auto
  qed
  ultimately show ?thesis using le by blast
qed

lemma session_run:
  assumes z: "zerocopy_ok z" and rng: "rng_ok rng" and limit: "1 \<le> max_msgs" "max_msgs < 65535"
    and d: "decodes bodies ms" and n: "length ms \<le> unat NIL"
    and tail: "tail = [] \<or> (\<exists>e. parse_one tail = Inl e)"
    and rel: "handler_rel 0 watch h st" and fit: "\<And>l. l \<in> directory_locates z watch ms \<Longrightarrow> fits (mh_registry h) l"
    and P: "\<And>h'. handler_rel (length ms) watch h' (spec_feed z watch ms st) \<Longrightarrow> P h'"
  shows "\<exists>cmds. server_thread rng [] (frames bodies @ tail) max_msgs = Some cmds \<and>
    (\<forall>es. replay_events cmds es \<longrightarrow>
      (\<exists>st' pkts. sender_loop lim (server_start sess seq) es = Some (st', pkts) \<and>
        (\<forall>ds. map (\<lambda>d. Datagram_bytes (fst d)) ds = map Some pkts \<longrightarrow>
          (\<exists>h' net effs. app_run z R h net_default ds = Some (h', net, effs) \<and> no_errors net \<and>
            P h'))))"
proof -
  have "\<exists>h' net effs. app_run z R h net_default ds = Some (h', net, effs) \<and> no_errors net \<and> P h'"
    if pkts: "session_packets z ms pkts" and ds: "map (\<lambda>d. Datagram_bytes (fst d)) ds = map Some pkts" for pkts ds
  proof -
    obtain f where "f (length ds) = length ms" and
      "\<exists>h' net effs. app_run z R h net_default (take (length ds) ds) = Some (h', net, effs) \<and> no_errors net \<and>
        handler_rel (f (length ds)) watch h' (spec_feed z watch (take (f (length ds)) ms) st)"
      using session_received [OF z pkts ds n rel fit] by blast
    with P show ?thesis by auto
  qed
  with session_sends [OF z rng limit d tail, of lim sess seq] show ?thesis by meson
qed

end

section \<open>What a reader of the registry sees\<close>

definition books_match :: "'r registry_impl \<Rightarrow> 'r \<Rightarrow> abooks \<Rightarrow> bool" where
  "books_match R r A \<longleftrightarrow>
     (\<forall>l. case A l of
        None \<Rightarrow> ri_get R r l = None \<and> ri_get_symbol R r l = None
      | Some (s, os) \<Rightarrow> ri_get_symbol R r l = Some s \<and>
          (\<exists>b. ri_get R r l = Some b \<and> (\<forall>sd p. book_queue b sd p = queue_at os sd p)))"

lemma books_match_hash:
  "hrc.handler_rel n watch h (A, st) \<Longrightarrow> books_match hash_registry (mh_registry h) A"
  unfolding books_match_def
proof
  fix l
  assume "hrc.handler_rel n watch h (A, st)"
  from hrc.handler_books [OF this, of l] show "case A l of
        None \<Rightarrow> ri_get hash_registry (mh_registry h) l = None \<and> ri_get_symbol hash_registry (mh_registry h) l = None
      | Some (s, os) \<Rightarrow> ri_get_symbol hash_registry (mh_registry h) l = Some s \<and>
          (\<exists>b. ri_get hash_registry (mh_registry h) l = Some b \<and> (\<forall>sd p. book_queue b sd p = queue_at os sd p))"
    by (cases "A l") (auto simp: hash_registry_def dest: book_queue_spec)
qed

lemma books_match_vec:
  "vrc.handler_rel n watch h (A, st) \<Longrightarrow> books_match vec_registry (mh_registry h) A"
  unfolding books_match_def
proof
  fix l
  assume "vrc.handler_rel n watch h (A, st)"
  from vrc.handler_books [OF this, of l] show "case A l of
        None \<Rightarrow> ri_get vec_registry (mh_registry h) l = None \<and> ri_get_symbol vec_registry (mh_registry h) l = None
      | Some (s, os) \<Rightarrow> ri_get_symbol vec_registry (mh_registry h) l = Some s \<and>
          (\<exists>b. ri_get vec_registry (mh_registry h) l = Some b \<and> (\<forall>sd p. book_queue b sd p = queue_at os sd p))"
    by (cases "A l") (auto simp: vec_registry_def dest: book_queue_spec)
qed

end
