(* ===== verification/App_Shutdown.thy ===== *)
theory App_Shutdown
  imports App_Spec
begin

text \<open>
  How fast the handlers notice the shutdown flag: they poll it every 256 order or directory
  messages.
\<close>

section \<open>Polling\<close>

fun polls :: "itch_message \<Rightarrow> bool" where
  "polls (M_StockDirectory m) = True"
| "polls (M_AddOrderNoMPIDAttribution m) = True"
| "polls (M_AddOrderWithMPIDAttribution m) = True"
| "polls (M_OrderExecuted m) = True"
| "polls (M_OrderExecutedWithPrice m) = True"
| "polls (M_OrderCancel m) = True"
| "polls (M_OrderDelete m) = True"
| "polls (M_OrderReplace m) = True"
| "polls m = False"

lemma poll_mask: "and w SHUTDOWN_POLL_MASK = 0 \<longleftrightarrow> unat w mod 256 = 0"
proof -
  have "and w SHUTDOWN_POLL_MASK = take_bit 8 w"
    by (simp add: SHUTDOWN_POLL_MASK_def take_bit_eq_mask mask_eq_exp_minus_1)
  moreover have "unat (take_bit 8 w) = unat w mod 256"
    by (simp only: unsigned_take_bit_eq) (simp add: take_bit_eq_mod)
  ultimately show ?thesis by (metis unat_eq_zero)
qed

lemma unat_tick: "unat (w + 1 :: u32) mod 256 = (unat w + 1) mod 256"
proof -
  have "unat (w + 1) = (unat w + 1) mod 2 ^ 32" by (simp add: unat_word_ariths)
  also have "\<dots> mod 256 = (unat w + 1) mod 256" by (rule mod_mod_cancel) simp
  finally show ?thesis .
qed

text \<open>What a body leaves alone.\<close>

definition keeps_poll :: "('r app_handler \<Rightarrow> 'r app_handler run) \<Rightarrow> bool" where
  "keeps_poll body \<longleftrightarrow>
     (\<forall>h h'. body h = Some h' \<longrightarrow> mh_tick h' = mh_tick h \<and> mh_shutdown h' = mh_shutdown h)"

definition polled :: "'r app_handler \<Rightarrow> ('r app_handler \<times> control_flow) run \<Rightarrow> bool" where
  "polled h res \<longleftrightarrow>
     (if (unat (mh_tick h) + 1) mod 256 = 0 \<and> fst (flag_load (mh_shutdown h))
      then (\<exists>h'. res = Some (h', Break) \<and> mh_registry h' = mh_registry h \<and> mh_stats h' = mh_stats h)
      else res = panic \<or>
        (\<exists>h'. res = Some (h', Continue) \<and> mh_tick h' = mh_tick h + 1 \<and>
          mh_shutdown h' =
            (if (unat (mh_tick h) + 1) mod 256 = 0 then snd (flag_load (mh_shutdown h)) else mh_shutdown h)))"

lemma unless_stopped_polled:
  assumes "keeps_poll body"
  shows "polled h (unless_stopped body h)"
proof -
  let ?h = "h\<lparr>mh_tick := mh_tick h + 1\<rparr>"
  obtain raised fl where f: "flag_load (mh_shutdown h) = (raised, fl)" by (cases "flag_load (mh_shutdown h)")
  have b: "body h1 = Some h2 \<Longrightarrow> mh_tick h2 = mh_tick h1 \<and> mh_shutdown h2 = mh_shutdown h1" for h1 h2
    using assms by (simp add: keeps_poll_def)
  show ?thesis
  proof (cases "(unat (mh_tick h) + 1) mod 256 = 0")
    case True
    then have "should_stop h = (?h\<lparr>mh_shutdown := fl\<rparr>, if raised then Break else Continue)"
      using f by (simp add: should_stop_def Let_def poll_mask unat_tick)
    then show ?thesis
      using True f b [of "?h\<lparr>mh_shutdown := fl\<rparr>"]
      by (cases "body (?h\<lparr>mh_shutdown := fl\<rparr>)") (auto simp: polled_def unless_stopped_def)
  next
    case False
    then have "should_stop h = (?h, Continue)"
      by (simp add: should_stop_def Let_def poll_mask unat_tick)
    then show ?thesis
      using False b [of ?h] by (cases "body ?h") (auto simp: polled_def unless_stopped_def)
  qed
qed

lemma after_book_keeps [simp]:
  "mh_tick (after_book R inc l h res) = mh_tick h" "mh_shutdown (after_book R inc l h res) = mh_shutdown h"
  by (simp_all add: after_book_def bump_def Let_def split: sum.split)

lemma bump_keeps [simp]: "mh_tick (bump f h) = mh_tick h" "mh_shutdown (bump f h) = mh_shutdown h"
  by (simp_all add: bump_def)

lemma apply_add_order_keeps: "keeps_poll (apply_add_order R a)"
  by (auto simp: keeps_poll_def apply_add_order_def Let_def split: option.splits Option.bind_splits)

lemmas polled_defs =
  app_stock_directory_def app_add_order_no_mpid_def app_add_order_with_mpid_def app_order_executed_def
  app_order_executed_with_price_def app_order_cancel_def app_order_delete_def app_order_replace_def

lemma handlers_polled:
  "polled h (app_stock_directory z R m1 h)" "polled h (app_add_order_no_mpid z R m2 h)"
  "polled h (app_add_order_with_mpid z R m3 h)" "polled h (app_order_executed z R m4 h)"
  "polled h (app_order_executed_with_price z R m5 h)" "polled h (app_order_cancel z R m6 h)"
  "polled h (app_order_delete z R m7 h)" "polled h (app_order_replace z R m8 h)"
  unfolding polled_defs
  by (rule unless_stopped_polled,
      auto simp: keeps_poll_def Let_def apply_add_order_keeps [unfolded keeps_poll_def]
        split: option.splits Option.bind_splits if_splits)+

lemma handle_polled:
  "polls m \<Longrightarrow> \<exists>res. polled h res \<and>
     handle (app_visitor z R) m (Some h) =
       (case res of None \<Rightarrow> (panic, Break) | Some (h, cf) \<Rightarrow> (Some h, cf))"
  by (cases m) (auto simp: app_visitor_def visitor_def intro: handlers_polled)

lemma handle_silent: "\<not> polls m \<Longrightarrow> handle (app_visitor z R) m s = (s, Continue)"
  by (cases m) (simp_all add: app_visitor_def default_handler_def)

lemma shutdown_within:
  "mh_shutdown h = True # fs \<Longrightarrow> 256 - unat (mh_tick h) mod 256 \<le> length (filter polls ms) \<Longrightarrow>
   \<exists>s' left. visit (app_visitor z R) ms (Some h) = (s', left, Break) \<and>
     length (filter polls ms) \<le> length (filter polls left) + (256 - unat (mh_tick h) mod 256)"
proof (induction ms arbitrary: h)
  case Nil
  then show ?case by (simp add: not_le)
next
  case (Cons m ms)
  show ?case
  proof (cases "polls m")
    case False
    with Cons show ?thesis by (simp add: handle_silent)
  next
    case True
    let ?t = "unat (mh_tick h) mod 256"
    obtain res where r: "polled h res"
      "handle (app_visitor z R) m (Some h) = (case res of None \<Rightarrow> (panic, Break) | Some (h, cf) \<Rightarrow> (Some h, cf))"
      using handle_polled [OF True] by blast
    show ?thesis
    proof (cases "(unat (mh_tick h) + 1) mod 256 = 0")
      case stop: True
      with r Cons.prems obtain h' where "res = Some (h', Break)" by (auto simp: polled_def)
      with r(2) True show ?thesis by simp
    next
      case False
      then have t: "(unat (mh_tick h) + 1) mod 256 = ?t + 1" by (auto simp: mod_Suc split: if_splits)
      have "?t < 256" and "?t \<noteq> 255" using False by (auto simp: mod_Suc split: if_splits)
      then have lt: "?t < 255" by linarith
      from r(1) False consider "res = panic" | h' where "res = Some (h', Continue)" "mh_tick h' = mh_tick h + 1"
          "mh_shutdown h' = mh_shutdown h" by (auto simp: polled_def)
      then show ?thesis
      proof cases
        case 1
        with r(2) True show ?thesis by simp
      next
        case 2
        have th: "unat (mh_tick h') mod 256 = ?t + 1" using unat_tick [of "mh_tick h"] t by (simp only: 2(2))
        have "mh_shutdown h' = True # fs" using 2 Cons.prems by simp
        moreover have "256 - unat (mh_tick h') mod 256 \<le> length (filter polls ms)"
          using Cons.prems(2) True th by simp
        ultimately obtain s' left where "visit (app_visitor z R) ms (Some h') = (s', left, Break)"
          "length (filter polls ms) \<le> length (filter polls left) + (256 - unat (mh_tick h') mod 256)"
          using Cons.IH by blast
        with r(2) 2(1) True th lt show ?thesis by simp
      qed
    qed
  qed
qed

end
