(* ===== verification/Std_Fmt.thy ===== *)
theory Std_Fmt
  imports Book_Types
begin

text \<open>
  What the program uses of the standard library's formatting: integers in decimal
  (\<open>Display\<close>), \<open>str::trim_end\<close>, \<open>[String]::join\<close> and
  \<open>to_ascii_lowercase\<close>.  A \<open>str\<close> is the \<^typ>\<open>string\<close> of its UTF-8 bytes.
\<close>

section \<open>Decimal numbers\<close>

definition digit :: "nat \<Rightarrow> char" where
  "digit d = char_of (48 + d)"

fun show_nat :: "nat \<Rightarrow> string" where
  "show_nat n = (if n < 10 then [digit n] else show_nat (n div 10) @ [digit (n mod 10)])"

declare show_nat.simps [simp del]

definition show_int :: "int \<Rightarrow> string" where
  "show_int i = (if i < 0 then CHR ''-'' # show_nat (nat (- i)) else show_nat (nat i))"

definition show_u64 :: "64 word \<Rightarrow> string" where
  "show_u64 w = show_nat (unat w)"

definition show_u16 :: "16 word \<Rightarrow> string" where
  "show_u16 w = show_nat (unat w)"

definition show_i64 :: "i64 \<Rightarrow> string" where
  "show_i64 x = show_int (i64_val x)"

text \<open>Reading a decimal number back.\<close>

definition is_digit :: "char \<Rightarrow> bool" where
  "is_digit c \<longleftrightarrow> 48 \<le> (of_char c :: nat) \<and> (of_char c :: nat) \<le> 57"

definition digit_val :: "char \<Rightarrow> nat" where
  "digit_val c = of_char c - 48"

definition read_nat :: "string \<Rightarrow> nat" where
  "read_nat s = foldl (\<lambda>n c. 10 * n + digit_val c) 0 s"

lemma digit_char: "d < 10 \<Longrightarrow> of_char (digit d) = 48 + d"
  by (simp add: digit_def)

lemma digit_val_digit: "d < 10 \<Longrightarrow> digit_val (digit d) = d"
  by (simp add: digit_val_def digit_char)

lemma is_digit_digit: "d < 10 \<Longrightarrow> is_digit (digit d)"
  by (simp add: is_digit_def digit_char)

lemma read_show_nat: "read_nat (show_nat n) = n"
proof (induction n rule: show_nat.induct)
  case (1 n)
  show ?case
  proof (cases "n < 10")
    case True
    then show ?thesis by (subst show_nat.simps) (simp add: read_nat_def digit_val_digit)
  next
    case False
    with 1 have "read_nat (show_nat (n div 10)) = n div 10" by simp
    with False show ?thesis by (subst show_nat.simps) (simp add: read_nat_def digit_val_digit)
  qed
qed

lemma show_nat_digits: "\<forall>c \<in> set (show_nat n). is_digit c"
proof (induction n rule: show_nat.induct)
  case (1 n)
  then show ?case by (subst show_nat.simps) (simp add: is_digit_digit)
qed

lemma show_nat_nonempty: "show_nat n \<noteq> []"
  by (subst show_nat.simps) simp

lemma show_nat_inject: "show_nat m = show_nat n \<longleftrightarrow> m = n"
  by (metis read_show_nat)

lemma show_int_chars: "c \<in> set (show_int i) \<Longrightarrow> is_digit c \<or> c = CHR ''-''"
  using show_nat_digits by (auto simp: show_int_def split: if_splits)

text \<open>Padding a number with zeros to a width, as \<open>{:04}\<close> does.\<close>

definition zero_pad :: "nat \<Rightarrow> string \<Rightarrow> string" where
  "zero_pad w s = replicate (w - length s) CHR ''0'' @ s"

section \<open>Text\<close>

fun join :: "string \<Rightarrow> string list \<Rightarrow> string" where
  "join sep [] = []"
| "join sep [s] = s"
| "join sep (s # t # ss) = s @ sep @ join sep (t # ss)"

definition ascii_lower :: "char \<Rightarrow> char" where
  "ascii_lower c =
     (if 65 \<le> (of_char c :: nat) \<and> (of_char c :: nat) \<le> 90 then char_of ((of_char c :: nat) + 32) else c)"

definition to_ascii_lowercase :: "string \<Rightarrow> string" where
  "to_ascii_lowercase s = map ascii_lower s"

text \<open>
  The length in bytes of the white-space character that ends a text, \<open>0\<close> when there is
  none; the text is given from its last byte backwards.  White space is Unicode's.
\<close>

fun ws_end :: "nat list \<Rightarrow> nat" where
  "ws_end [] = 0"
| "ws_end [c] = (if 9 \<le> c \<and> c \<le> 13 \<or> c = 32 then 1 else 0)"
| "ws_end [c, b] =
     (if 9 \<le> c \<and> c \<le> 13 \<or> c = 32 then 1 else if b = 0xC2 \<and> (c = 0x85 \<or> c = 0xA0) then 2 else 0)"
| "ws_end (c # b # a # r) =
     (if 9 \<le> c \<and> c \<le> 13 \<or> c = 32 then 1
      else if b = 0xC2 \<and> (c = 0x85 \<or> c = 0xA0) then 2
      else if (a, b, c) = (0xE1, 0x9A, 0x80) \<or>
        (a, b) = (0xE2, 0x80) \<and> (0x80 \<le> c \<and> c \<le> 0x8A \<or> c = 0xA8 \<or> c = 0xA9 \<or> c = 0xAF) \<or>
        (a, b, c) = (0xE2, 0x81, 0x9F) \<or> (a, b, c) = (0xE3, 0x80, 0x80) then 3
      else 0)"

lemma ws_end_bound: "ws_end cs \<le> length cs"
  by (cases cs rule: ws_end.cases) auto

function trim_rev :: "string \<Rightarrow> string" where
  "trim_rev s = (let n = ws_end (map of_char s) in if n = 0 then s else trim_rev (drop n s))"
  by pat_completeness auto
termination
proof (relation "measure length", simp)
  fix s :: string and n
  assume n: "n = ws_end (map of_char s)" "n \<noteq> 0"
  have "n \<le> length s" using ws_end_bound [of "map of_char s"] n(1) by simp
  with n(2) show "(drop n s, s) \<in> measure length" by simp
qed

declare trim_rev.simps [simp del]

definition trim_end :: "string \<Rightarrow> string" where
  "trim_end s = rev (trim_rev (rev s))"

lemma ws_end_space: "ws_end (32 # cs) = 1"
  by (cases cs; cases "tl cs") auto

lemma trim_rev_space: "trim_rev (CHR '' '' # s) = trim_rev s"
  by (subst trim_rev.simps) (simp add: ws_end_space Let_def)

lemma trim_rev_visible:
  assumes "33 \<le> (of_char c :: nat)" and "(of_char c :: nat) < 128"
  shows "trim_rev (c # s) = c # s"
proof -
  have "ws_end (of_char c # cs) = 0" for cs using assms by (cases cs; cases "tl cs") auto
  then show ?thesis by (subst trim_rev.simps) (simp add: Let_def)
qed

lemma trim_end_spaces: "trim_end (s @ replicate n CHR '' '') = trim_end s"
  by (induction n) (simp_all add: trim_end_def trim_rev_space replicate_app_Cons_same)

lemma trim_end_visible:
  "s \<noteq> [] \<Longrightarrow> 33 \<le> (of_char (last s) :: nat) \<Longrightarrow> (of_char (last s) :: nat) < 128 \<Longrightarrow> trim_end s = s"
  by (cases s rule: rev_cases) (simp_all add: trim_end_def trim_rev_visible)

end
