(* ===== verification/App_Report.thy ===== *)
theory App_Report
  imports App_Handler Std_Fmt
begin

text \<open>
  The reports of \<open>app/src/report\<close>: the snapshot of a handler and its two formats.  A
  writer that never fails is the text written to it.
\<close>

section \<open>Snapshots\<close>

type_synonym Levels = "(price \<times> quantity) list"
type_synonym Depth = "Levels \<times> Levels"

record BookSummary =
  bs_locate :: u16
  bs_symbol :: Symbol
  bs_best_bid :: "(price \<times> quantity) option"
  bs_best_ask :: "(price \<times> quantity) option"
  bs_spread :: "price option"
  bs_mid :: "price option"
  bs_depth :: Depth

record Snapshot =
  sn_stats :: HandlerStats
  sn_depth_levels :: nat
  sn_books :: "BookSummary list"

definition book_summary :: "nat \<Rightarrow> u16 \<times> Symbol \<times> book \<Rightarrow> BookSummary" where
  "book_summary depth_levels e =
     (case e of (locate, symbol, book) \<Rightarrow>
        \<lparr>bs_locate = locate, bs_symbol = symbol, bs_best_bid = book_best_bid book,
         bs_best_ask = book_best_ask book, bs_spread = book_spread book, bs_mid = book_mid book,
         bs_depth = book_depth book depth_levels\<rparr>)"

definition Snapshot_capture :: "'r registry_impl \<Rightarrow> 'r app_handler \<Rightarrow> nat \<Rightarrow> Snapshot run" where
  "Snapshot_capture R handler depth_levels = do {
     es \<leftarrow> ri_iter R (mh_registry handler);
     Some \<lparr>sn_stats = mh_stats handler, sn_depth_levels = depth_levels,
           sn_books = map (book_summary depth_levels) es\<rparr>
   }"

section \<open>Tab-separated values\<close>

definition TAB :: string where "TAB = [CHR 0x09]"

definition NEWLINE :: string where "NEWLINE = [CHR 0x0A]"

definition fmt_opt :: "('a \<Rightarrow> string) \<Rightarrow> 'a option \<Rightarrow> string" where
  "fmt_opt show v = (case v of None \<Rightarrow> ''-'' | Some x \<Rightarrow> show x)"

definition fmt_level :: "(price \<times> quantity) option \<Rightarrow> string" where
  "fmt_level v =
     (case v of None \<Rightarrow> ''-'' | Some (p, q) \<Rightarrow> show_i64 p @ ''@'' @ show_u64 q)"

definition fmt_depth :: "Depth \<Rightarrow> string" where
  "fmt_depth d =
     (let join_levels = (\<lambda>levels. join '','' (map (\<lambda>(p, q). show_i64 p @ ''@'' @ show_u64 q) levels))
      in ''bids=['' @ join_levels (fst d) @ ''];asks=['' @ join_levels (snd d) @ '']'')"

definition tsv_row :: "BookSummary \<Rightarrow> string" where
  "tsv_row b =
     trim_end (Symbol_as_str (bs_symbol b)) @ TAB @ fmt_level (bs_best_ask b) @ TAB @
     fmt_level (bs_best_bid b) @ TAB @ fmt_opt show_i64 (bs_spread b) @ TAB @
     fmt_opt show_i64 (bs_mid b) @ TAB @ fmt_depth (bs_depth b) @ NEWLINE"

definition TsvFormatter_write :: "Snapshot \<Rightarrow> string" where
  "TsvFormatter_write snapshot =
     ''symb'' @ TAB @ ''best_ask'' @ TAB @ ''best_bid'' @ TAB @ ''spread'' @ TAB @ ''mid'' @ TAB @
     ''depth('' @ show_nat (sn_depth_levels snapshot) @ '')'' @ NEWLINE @
     concat (map tsv_row (sn_books snapshot))"

section \<open>JSON\<close>

text \<open>A key with its quotation marks and colon.\<close>

definition Q :: string where "Q = [CHR 0x22]"

definition key :: "string \<Rightarrow> string" where
  "key s = Q @ s @ Q @ '':''"

definition json_opt :: "('a \<Rightarrow> string) \<Rightarrow> 'a option \<Rightarrow> string" where
  "json_opt show v = (case v of None \<Rightarrow> ''null'' | Some x \<Rightarrow> show x)"

definition level_obj :: "price \<times> quantity \<Rightarrow> string" where
  "level_obj l = (case l of (p, q) \<Rightarrow> ''{'' @ key ''price'' @ show_i64 p @ '','' @ key ''qty'' @ show_u64 q @ ''}'')"

definition write_level_json :: "(price \<times> quantity) option \<Rightarrow> string" where
  "write_level_json lvl = (case lvl of None \<Rightarrow> ''null'' | Some l \<Rightarrow> level_obj l)"

text \<open>\<open>for (i, x) in xs.iter().enumerate()\<close> with a comma in front of all but the first.\<close>

fun enumerate_from :: "nat \<Rightarrow> ('a \<Rightarrow> string) \<Rightarrow> 'a list \<Rightarrow> string" where
  "enumerate_from i f [] = ''''"
| "enumerate_from i f (x # xs) = (if 0 < i then '','' else '''') @ f x @ enumerate_from (i + 1) f xs"

definition write_levels_json :: "Levels \<Rightarrow> string" where
  "write_levels_json levels = ''['' @ enumerate_from 0 level_obj levels @ '']''"

definition write_stats_json :: "HandlerStats \<Rightarrow> string" where
  "write_stats_json stats =
     ''{'' @ key ''orders_added'' @ show_u64 (orders_added stats) @
     '','' @ key ''orders_executed'' @ show_u64 (orders_executed stats) @
     '','' @ key ''orders_cancelled'' @ show_u64 (orders_cancelled stats) @
     '','' @ key ''orders_deleted'' @ show_u64 (orders_deleted stats) @
     '','' @ key ''orders_replaced'' @ show_u64 (orders_replaced stats) @
     '','' @ key ''stock_directory_msgs'' @ show_u64 (stock_directory_msgs stats) @
     '','' @ key ''skipped_locate'' @ show_u64 (skipped_locate stats) @ ''}''"

definition write_book_json :: "BookSummary \<Rightarrow> string" where
  "write_book_json b =
     ''{'' @ key ''locate'' @ show_u16 (bs_locate b) @
     '','' @ key ''symbol'' @ Q @ trim_end (Symbol_as_str (bs_symbol b)) @ Q @
     '','' @ key ''best_bid'' @ write_level_json (bs_best_bid b) @
     '','' @ key ''best_ask'' @ write_level_json (bs_best_ask b) @
     '','' @ key ''spread'' @ json_opt show_i64 (bs_spread b) @
     '','' @ key ''mid'' @ json_opt show_i64 (bs_mid b) @
     '','' @ key ''depth'' @ ''{'' @ key ''bids'' @ write_levels_json (fst (bs_depth b)) @
     '','' @ key ''asks'' @ write_levels_json (snd (bs_depth b)) @ ''}}''"

definition JsonFormatter_write :: "Snapshot \<Rightarrow> string" where
  "JsonFormatter_write snapshot =
     ''{'' @ key ''stats'' @ write_stats_json (sn_stats snapshot) @
     '','' @ key ''depth_levels'' @ show_nat (sn_depth_levels snapshot) @ '','' @ key ''books'' @ ''['' @
     enumerate_from 0 write_book_json (sn_books snapshot) @ '']}'' @ NEWLINE"

section \<open>Choosing a format\<close>

datatype ReportFormat = Tsv | Json

definition ReportFormat_default :: ReportFormat where
  "ReportFormat_default = Tsv"

fun ReportFormat_write :: "ReportFormat \<Rightarrow> Snapshot \<Rightarrow> string" where
  "ReportFormat_write Tsv snapshot = TsvFormatter_write snapshot"
| "ReportFormat_write Json snapshot = JsonFormatter_write snapshot"

fun ReportFormat_fmt :: "ReportFormat \<Rightarrow> string" where
  "ReportFormat_fmt Tsv = ''tsv''"
| "ReportFormat_fmt Json = ''json''"

definition ReportFormat_from_str :: "string \<Rightarrow> string + ReportFormat" where
  "ReportFormat_from_str s =
     (let other = to_ascii_lowercase s in
      if other = ''tsv'' then Inr Tsv
      else if other = ''json'' then Inr Json
      else Inl (''unknown report format '' @ [CHR 0x27] @ other @ [CHR 0x27] @ '' (expected tsv|json)''))"

text \<open>\<open>report::write\<close>.\<close>

definition report_write ::
  "'r registry_impl \<Rightarrow> 'r app_handler \<Rightarrow> ReportFormat \<Rightarrow> nat \<Rightarrow> string run" where
  "report_write R handler format depth = do {
     snapshot \<leftarrow> Snapshot_capture R handler depth;
     Some (ReportFormat_write format snapshot)
   }"

end
