(* ===== verification/Report_Props.thy ===== *)
theory Report_Props
  imports App_Report App_Spec
begin

text \<open>
  What a report promises: its numbers are those of the abstract books, its JSON is the text
  of a JSON document, its table has the columns its header names.
\<close>

section \<open>The numbers\<close>

definition summary_ok :: "nat \<Rightarrow> Symbol \<Rightarrow> abook \<Rightarrow> BookSummary \<Rightarrow> bool" where
  "summary_ok n s os b \<longleftrightarrow>
     bs_symbol b = s \<and>
     map_option qty_nat (bs_best_bid b) = bt_last (ladder os Bid) \<and>
     map_option qty_nat (bs_best_ask b) = bt_first (ladder os Ask) \<and>
     (bs_spread b = None \<longleftrightarrow> ladder os Bid = [] \<or> ladder os Ask = []) \<and>
     (bs_mid b = None \<longleftrightarrow> ladder os Bid = [] \<or> ladder os Ask = []) \<and>
     map qty_nat (fst (bs_depth b)) = take n (rev (ladder os Bid)) \<and>
     map qty_nat (snd (bs_depth b)) = take n (ladder os Ask)"

lemma summary_book:
  assumes "book_inv b os"
  shows "summary_ok n s os (book_summary n (l, s, b))"
proof -
  have "book_best_bid b = None \<longleftrightarrow> ladder os Bid = []" "book_best_ask b = None \<longleftrightarrow> ladder os Ask = []"
    using book_best_None [OF assms] by (simp_all add: ladder_empty)
  then show ?thesis
    using book_best_spec [OF assms] book_depth_spec [OF assms, of n]
    by (auto simp: summary_ok_def book_summary_def book_spread_def book_mid_def bind_eq_None_conv split: option.splits)
qed

definition snapshot_ok :: "nat \<Rightarrow> abooks \<Rightarrow> HandlerStats \<Rightarrow> Snapshot \<Rightarrow> bool" where
  "snapshot_ok n A st sn \<longleftrightarrow>
     sn_stats sn = st \<and> sn_depth_levels sn = n \<and> distinct (map bs_locate (sn_books sn)) \<and>
     bs_locate ` set (sn_books sn) = dom A \<and>
     (\<forall>b \<in> set (sn_books sn). \<exists>s os. A (bs_locate b) = Some (s, os) \<and> summary_ok n s os b)"

context registry_client
begin

lemma snapshot_handler:
  assumes rel: "handler_rel m watch h (A, st)"
  shows "\<exists>sn. Snapshot_capture R h n = Some sn \<and> snapshot_ok n A st sn"
proof -
  from rel have v: "valid (mh_registry h)" and st: "mh_stats h = st"
    and b: "\<And>l. rel_option (book_rel m) (view (mh_registry h) l) (A l)"
    by (simp_all add: handler_rel_def books_rel_def)
  obtain es where es: "iter (mh_registry h) = Some es" "distinct (map fst es)"
      "\<And>l s b. (l, s, b) \<in> set es \<longleftrightarrow> view (mh_registry h) l = Some (s, b)"
    using iter_ok [OF v] by blast
  have loc: "map bs_locate (map (book_summary n) es) = map fst es"
    by (simp add: book_summary_def split: prod.split)
  have ok: "\<exists>s' os. A l = Some (s', os) \<and> summary_ok n s' os (book_summary n (l, s, b))"
    if e: "(l, s, b) \<in> set es" for l s b
  proof -
    have "view (mh_registry h) l = Some (s, b)" using e es(3) by simp
    then obtain os where "A l = Some (s, os)" "book_inv b os"
      using b [of l] by (auto simp: book_rel_def option_rel_Some1)
    then show ?thesis using summary_book by blast
  qed
  have "fst ` set es = dom (view (mh_registry h))" using es(3) by (force simp: dom_def)
  also have "\<dots> = dom A"
  proof (rule set_eqI)
    fix l show "l \<in> dom (view (mh_registry h)) \<longleftrightarrow> l \<in> dom A"
      using b [of l] by (cases "A l"; cases "view (mh_registry h) l") (simp_all add: domIff)
  qed
  finally have "bs_locate ` set (map (book_summary n) es) = dom A"
    using loc by (metis list.set_map)
  moreover have "\<forall>x \<in> set es. \<exists>s os. A (bs_locate (book_summary n x)) = Some (s, os) \<and> summary_ok n s os (book_summary n x)"
    using ok by (fastforce simp: book_summary_def)
  ultimately show ?thesis
    using es(1,2) loc st
    by (simp add: Snapshot_capture_def impl_iter snapshot_ok_def del: map_map)
qed

end

section \<open>JSON\<close>

datatype json =
    JNull
  | JNum int
  | JStr string
  | JArr "json list"
  | JObj "(string \<times> json) list"

text \<open>The compact text of a document, strings escaped as RFC 8259 demands.\<close>

definition hex_digit :: "nat \<Rightarrow> char" where
  "hex_digit d = (if d < 10 then digit d else char_of (87 + d))"

definition json_escape_char :: "char \<Rightarrow> string" where
  "json_escape_char c =
     (let n = (of_char c :: nat) in
      if n = 0x22 \<or> n = 0x5C then [CHR 0x5C, c]
      else if n < 0x20 then [CHR 0x5C] @ ''u00'' @ [hex_digit (n div 16), hex_digit (n mod 16)]
      else [c])"

definition json_string :: "string \<Rightarrow> string" where
  "json_string s = Q @ concat (map json_escape_char s) @ Q"

fun json_text :: "json \<Rightarrow> string" where
  "json_text JNull = ''null''"
| "json_text (JNum i) = show_int i"
| "json_text (JStr s) = json_string s"
| "json_text (JArr xs) = ''['' @ join '','' (map json_text xs) @ '']''"
| "json_text (JObj kvs) = ''{'' @ join '','' (map (\<lambda>(k, v). json_string k @ '':'' @ json_text v) kvs) @ ''}''"

definition plain :: "string \<Rightarrow> bool" where
  "plain s \<longleftrightarrow> (\<forall>c \<in> set s. 0x20 \<le> (of_char c :: nat) \<and> of_char c \<noteq> (0x22 :: nat) \<and> of_char c \<noteq> (0x5C :: nat))"

lemma json_string_plain: "plain s \<Longrightarrow> json_string s = Q @ s @ Q"
  by (induction s) (auto simp: json_string_def plain_def json_escape_char_def Let_def)

lemma join_Cons: "join sep (x # xs) = x @ concat (map (\<lambda>y. sep @ y) xs)"
  by (induction xs arbitrary: x) simp_all

lemma enumerate_tail: "0 < i \<Longrightarrow> enumerate_from i f xs = concat (map (\<lambda>x. '','' @ f x) xs)"
  by (induction xs arbitrary: i) simp_all

lemma enumerate_join: "enumerate_from 0 f xs = join '','' (map f xs)"
  by (cases xs) (simp_all add: enumerate_tail join_Cons o_def)

text \<open>The document of a snapshot.\<close>

definition u64_json :: "u64 \<Rightarrow> json" where
  "u64_json w = JNum (uint w)"

definition i64_json :: "i64 \<Rightarrow> json" where
  "i64_json x = JNum (i64_val x)"

definition opt_json :: "('a \<Rightarrow> json) \<Rightarrow> 'a option \<Rightarrow> json" where
  "opt_json f v = (case v of None \<Rightarrow> JNull | Some x \<Rightarrow> f x)"

definition level_json :: "price \<times> quantity \<Rightarrow> json" where
  "level_json l = JObj [(''price'', i64_json (fst l)), (''qty'', u64_json (snd l))]"

definition stats_json :: "HandlerStats \<Rightarrow> json" where
  "stats_json s = JObj
     [(''orders_added'', u64_json (orders_added s)), (''orders_executed'', u64_json (orders_executed s)),
      (''orders_cancelled'', u64_json (orders_cancelled s)), (''orders_deleted'', u64_json (orders_deleted s)),
      (''orders_replaced'', u64_json (orders_replaced s)),
      (''stock_directory_msgs'', u64_json (stock_directory_msgs s)), (''skipped_locate'', u64_json (skipped_locate s))]"

definition book_json :: "BookSummary \<Rightarrow> json" where
  "book_json b = JObj
     [(''locate'', JNum (uint (bs_locate b))), (''symbol'', JStr (trim_end (Symbol_as_str (bs_symbol b)))),
      (''best_bid'', opt_json level_json (bs_best_bid b)), (''best_ask'', opt_json level_json (bs_best_ask b)),
      (''spread'', opt_json i64_json (bs_spread b)), (''mid'', opt_json i64_json (bs_mid b)),
      (''depth'', JObj [(''bids'', JArr (map level_json (fst (bs_depth b)))),
                        (''asks'', JArr (map level_json (snd (bs_depth b))))])]"

definition snapshot_json :: "Snapshot \<Rightarrow> json" where
  "snapshot_json s = JObj
     [(''stats'', stats_json (sn_stats s)), (''depth_levels'', JNum (int (sn_depth_levels s))),
      (''books'', JArr (map book_json (sn_books s)))]"

lemma show_int_nat: "show_int (int n) = show_nat n"
  by (simp add: show_int_def)

lemma u64_text: "json_text (u64_json w) = show_u64 w"
  unfolding u64_json_def show_u64_def json_text.simps by (metis show_int_nat uint_nat)

lemma u16_text: "show_int (uint (w :: u16)) = show_u16 w"
  unfolding show_u16_def by (metis show_int_nat uint_nat)

lemma i64_text: "json_text (i64_json x) = show_i64 x"
  by (simp add: i64_json_def show_i64_def)

lemma key_text: "plain k \<Longrightarrow> json_string k @ '':'' @ rest = key k @ rest"
  by (simp add: json_string_plain key_def)

lemma level_text: "json_text (level_json l) = level_obj l"
  by (cases l) (simp add: level_json_def level_obj_def u64_text i64_text key_text plain_def key_def json_string_plain)

lemma levels_text: "json_text (JArr (map level_json ls)) = write_levels_json ls"
  by (simp add: write_levels_json_def enumerate_join level_text o_def)

lemma opt_text:
  "json_text (opt_json level_json l) = write_level_json l" "json_text (opt_json i64_json v) = json_opt show_i64 v"
  by (simp_all add: opt_json_def write_level_json_def json_opt_def level_text i64_text split: option.split)

lemma stats_text: "json_text (stats_json s) = write_stats_json s"
  by (simp add: stats_json_def write_stats_json_def u64_text key_def json_string_plain plain_def)

lemma book_text:
  assumes "plain (trim_end (Symbol_as_str (bs_symbol b)))"
  shows "json_text (book_json b) = write_book_json b"
  by (simp add: book_json_def write_book_json_def key_def json_string_plain [OF assms] json_string_plain
      plain_def u16_text opt_text levels_text del: json_text.simps(4))

lemma snapshot_text:
  assumes "\<forall>b \<in> set (sn_books s). plain (trim_end (Symbol_as_str (bs_symbol b)))"
  shows "JsonFormatter_write s = json_text (snapshot_json s) @ NEWLINE"
proof -
  have "map json_text (map book_json (sn_books s)) = map write_book_json (sn_books s)"
    using assms by (simp add: book_text)
  then show ?thesis
    by (simp add: JsonFormatter_write_def snapshot_json_def key_def json_string_plain plain_def
        stats_text show_int_nat enumerate_join del: map_map)
qed

section \<open>The table\<close>

fun split_on :: "char \<Rightarrow> string \<Rightarrow> string list" where
  "split_on c [] = [[]]"
| "split_on c (x # xs) =
     (if x = c then [] # split_on c xs
      else (case split_on c xs of [] \<Rightarrow> [[x]] | y # ys \<Rightarrow> (x # y) # ys))"

lemma split_on_absent: "c \<notin> set s \<Longrightarrow> split_on c s = [s]"
  by (induction s) auto

lemma split_on_sep: "c \<notin> set s \<Longrightarrow> split_on c (s @ c # t) = s # split_on c t"
  by (induction s) auto

text \<open>The columns of a row.\<close>

definition row_fields :: "BookSummary \<Rightarrow> string list" where
  "row_fields b =
     [trim_end (Symbol_as_str (bs_symbol b)), fmt_level (bs_best_ask b), fmt_level (bs_best_bid b),
      fmt_opt show_i64 (bs_spread b), fmt_opt show_i64 (bs_mid b), fmt_depth (bs_depth b)]"

definition header_fields :: "Snapshot \<Rightarrow> string list" where
  "header_fields s =
     [''symb'', ''best_ask'', ''best_bid'', ''spread'', ''mid'', ''depth('' @ show_nat (sn_depth_levels s) @ '')'']"

definition cell :: "string \<Rightarrow> bool" where
  "cell s \<longleftrightarrow> CHR 0x09 \<notin> set s \<and> CHR 0x0A \<notin> set s"

lemma cell_simps [simp]:
  "cell []" "cell (c # s) \<longleftrightarrow> c \<noteq> CHR 0x09 \<and> c \<noteq> CHR 0x0A \<and> cell s" "cell (s @ t) \<longleftrightarrow> cell s \<and> cell t"
  by (auto simp: cell_def)

lemma not_digit: "\<not> is_digit (CHR 0x09)" "\<not> is_digit (CHR 0x0A)"
  by (simp_all add: is_digit_def)

lemma cell_nat [simp]: "cell (show_nat n)"
  using show_nat_digits [of n] not_digit by (auto simp: cell_def)

lemma cell_int [simp]: "cell (show_int i)"
  using show_int_chars [of _ i] not_digit by (auto simp: cell_def)

lemma cell_words [simp]: "cell (show_u64 w)" "cell (show_i64 x)"
  by (simp_all add: show_u64_def show_i64_def)

lemma cell_join: "cell sep \<Longrightarrow> \<forall>s \<in> set ss. cell s \<Longrightarrow> cell (join sep ss)"
  by (induction sep ss rule: join.induct) simp_all

lemma cells [simp]: "cell (fmt_level l)" "cell (fmt_opt show_i64 v)" "cell (fmt_depth d)"
proof -
  show "cell (fmt_level l)" by (auto simp: fmt_level_def split: option.split)
  show "cell (fmt_opt show_i64 v)" by (auto simp: fmt_opt_def split: option.split)
  have "cell (join '','' (map (\<lambda>(p, q). show_i64 p @ ''@'' @ show_u64 q) ls))" for ls
    by (rule cell_join) auto
  then show "cell (fmt_depth d)"
    by (simp add: fmt_depth_def)
qed

lemma split_row: "\<forall>s \<in> set ss. cell s \<Longrightarrow> ss \<noteq> [] \<Longrightarrow> split_on (CHR 0x09) (join TAB ss) = ss"
  by (induction TAB ss rule: join.induct) (auto simp: cell_def TAB_def split_on_absent split_on_sep)

lemma row_join: "tsv_row = (\<lambda>b. join TAB (row_fields b) @ NEWLINE)"
  by (simp add: fun_eq_iff tsv_row_def row_fields_def)

lemma split_lines:
  "\<forall>r \<in> set rows. CHR 0x0A \<notin> set r \<Longrightarrow>
   split_on (CHR 0x0A) (concat (map (\<lambda>r. r @ NEWLINE) rows)) = rows @ [[]]"
  by (induction rows) (simp_all add: NEWLINE_def split_on_sep)

lemma tsv_cells:
  assumes "\<forall>b \<in> set (sn_books s). cell (trim_end (Symbol_as_str (bs_symbol b)))"
  shows "map (split_on (CHR 0x09)) (butlast (split_on (CHR 0x0A) (TsvFormatter_write s))) =
    header_fields s # map row_fields (sn_books s)"
proof -
  let ?rows = "header_fields s # map row_fields (sn_books s)"
  have c: "\<forall>r \<in> set ?rows. r \<noteq> [] \<and> (\<forall>f \<in> set r. cell f)"
    using assms by (auto simp: header_fields_def row_fields_def)
  have "TsvFormatter_write s = concat (map (\<lambda>r. r @ NEWLINE) (map (join TAB) ?rows))"
    by (simp add: TsvFormatter_write_def row_join header_fields_def o_def)
  moreover have "\<forall>r \<in> set (map (join TAB) ?rows). CHR 0x0A \<notin> set r"
  proof -
    have "CHR 0x0A \<notin> set (join TAB r)" if "\<forall>f \<in> set r. cell f" for r
      using that by (induction TAB r rule: join.induct) (auto simp: cell_def TAB_def)
    then show ?thesis using c by auto
  qed
  ultimately have "split_on (CHR 0x0A) (TsvFormatter_write s) = map (join TAB) ?rows @ [[]]"
    using split_lines by metis
  then show ?thesis using c by (simp add: split_row)
qed

section \<open>Names of formats\<close>

lemma format_name: "ReportFormat_from_str (ReportFormat_fmt f) = Inr f"
  by (cases f) (simp_all add: ReportFormat_from_str_def to_ascii_lowercase_def ascii_lower_def)

lemma format_ok: "(\<exists>f. ReportFormat_from_str s = Inr f) \<longleftrightarrow> to_ascii_lowercase s \<in> {''tsv'', ''json''}"
  by (auto simp: ReportFormat_from_str_def Let_def)

end
