(* ===== verification/App_Tui.thy ===== *)
theory App_Tui
  imports App_Handler Std_Fmt
begin

text \<open>
  The terminal interface: the state of \<open>app/src/tui/app.rs\<close>, the layout arithmetic of
  \<open>app/src/tui/mod.rs\<close> and the computations of \<open>app/src/tui/ui.rs\<close>.  Widgets, colours,
  the event source and floating-point shares are not modelled.  The \<open>ListState\<close> of the
  widget library is a parameter, a record of its methods.  A Rust \<open>char\<close> is the
  \<^typ>\<open>string\<close> of its UTF-8 bytes.
\<close>

section \<open>The list state\<close>

record 'l list_state =
  ls_default :: 'l
  ls_select :: "'l \<Rightarrow> nat option \<Rightarrow> 'l"
  ls_selected :: "'l \<Rightarrow> nat option"
  ls_offset :: "'l \<Rightarrow> nat"
  ls_set_offset :: "'l \<Rightarrow> nat \<Rightarrow> 'l"

text \<open>
  The documented behaviour: a new state selects nothing; \<open>select\<close> changes the selection,
  and resets the offset when it is cleared; writing the offset leaves the selection.
\<close>

definition list_state_ok :: "'l list_state \<Rightarrow> bool" where
  "list_state_ok L \<longleftrightarrow>
     ls_selected L (ls_default L) = None \<and> ls_offset L (ls_default L) = 0 \<and>
     (\<forall>s i. ls_selected L (ls_select L s i) = i) \<and>
     (\<forall>s i. ls_offset L (ls_select L s i) = (if i = None then 0 else ls_offset L s)) \<and>
     (\<forall>s k. ls_offset L (ls_set_offset L s k) = k) \<and>
     (\<forall>s k. ls_selected L (ls_set_offset L s k) = ls_selected L s)"

definition list_state_std :: "(nat option \<times> nat) list_state" where
  "list_state_std =
     \<lparr>ls_default = (None, 0), ls_select = (\<lambda>s i. (i, if i = None then 0 else snd s)),
      ls_selected = fst, ls_offset = snd, ls_set_offset = (\<lambda>s k. (fst s, k))\<rparr>"

lemma list_state_std_ok: "list_state_ok list_state_std"
  by (simp add: list_state_ok_def list_state_std_def)

section \<open>State\<close>

record DepthLadder =
  dl_bids :: "(price \<times> quantity) list"
  dl_asks :: "(price \<times> quantity) list"

definition DepthLadder_default :: DepthLadder where
  "DepthLadder_default = \<lparr>dl_bids = [], dl_asks = []\<rparr>"

record Viewport =
  list_height :: nat
  ladder_rows :: nat

record VisibleRow =
  vw_symbol :: Symbol
  vw_best_bid :: "(price \<times> quantity) option"
  vw_best_ask :: "(price \<times> quantity) option"
  vw_orders :: nat

datatype Mode = Normal | Filter

record 'l App =
  ap_symbols :: "(u16 \<times> Symbol) list"
  ap_filtered :: "nat list"
  ap_stats :: HandlerStats
  ap_depth :: DepthLadder
  ap_list_state :: 'l
  ap_filter :: "string list"
  ap_mode :: Mode
  ap_selected_locate :: "u16 option"
  ap_viewport :: Viewport
  ap_visible_rows :: "VisibleRow list"
  ap_last_directory_msgs :: u64
  ap_last_filter :: "string list option"

definition App_new :: "'l list_state \<Rightarrow> 'l App" where
  "App_new L =
     \<lparr>ap_symbols = [], ap_filtered = [], ap_stats = stats_default, ap_depth = DepthLadder_default,
      ap_list_state = ls_default L, ap_filter = [], ap_mode = Normal, ap_selected_locate = None,
      ap_viewport = \<lparr>list_height = 0, ladder_rows = 0\<rparr>, ap_visible_rows = [],
      ap_last_directory_msgs = 0, ap_last_filter = None\<rparr>"

definition App_set_viewport :: "'l App \<Rightarrow> Viewport \<Rightarrow> 'l App" where
  "App_set_viewport app v = app\<lparr>ap_viewport := v\<rparr>"

section \<open>Refreshing\<close>

text \<open>\<open>str::starts_with\<close>.\<close>

definition starts_with :: "string \<Rightarrow> string \<Rightarrow> bool" where
  "starts_with s needle \<longleftrightarrow> take (length needle) s = needle"

fun matching_from :: "string \<Rightarrow> nat \<Rightarrow> (u16 \<times> Symbol) list \<Rightarrow> nat list" where
  "matching_from needle i [] = []"
| "matching_from needle i ((l, symbol) # es) =
     (if needle = [] \<or> starts_with (trim_end (Symbol_as_str symbol)) needle
      then i # matching_from needle (i + 1) es else matching_from needle (i + 1) es)"

definition rebuild_filtered :: "'l App \<Rightarrow> 'l App" where
  "rebuild_filtered app =
     app\<lparr>ap_filtered := matching_from (concat (ap_filter app)) 0 (ap_symbols app),
         ap_last_filter := Some (ap_filter app)\<rparr>"

text \<open>\<open>filtered.iter().position(|&i| symbols[i].0 == loc)\<close>.\<close>

fun position_of :: "(u16 \<times> Symbol) list \<Rightarrow> u16 \<Rightarrow> nat list \<Rightarrow> nat option run" where
  "position_of symbols loc [] = Some None"
| "position_of symbols loc (i # idxs) = do {
     e \<leftarrow> vec_get symbols i;
     (if fst e = loc then Some (Some 0)
      else do { k \<leftarrow> position_of symbols loc idxs; Some (map_option Suc k) })
   }"

definition visible_row :: "'r registry_impl \<Rightarrow> 'r app_handler \<Rightarrow> u16 \<times> Symbol \<Rightarrow> VisibleRow" where
  "visible_row R handler e =
     (case ri_get R (mh_registry handler) (fst e) of
        Some book \<Rightarrow>
          \<lparr>vw_symbol = snd e, vw_best_bid = book_best_bid book, vw_best_ask = book_best_ask book,
           vw_orders = book_len book\<rparr>
      | None \<Rightarrow> \<lparr>vw_symbol = snd e, vw_best_bid = None, vw_best_ask = None, vw_orders = 0\<rparr>)"

fun visible_rows_of ::
  "'r registry_impl \<Rightarrow> 'r app_handler \<Rightarrow> (u16 \<times> Symbol) list \<Rightarrow> nat list \<Rightarrow> VisibleRow list run" where
  "visible_rows_of R handler symbols [] = Some []"
| "visible_rows_of R handler symbols (i # idxs) = do {
     e \<leftarrow> vec_get symbols i;
     rows \<leftarrow> visible_rows_of R handler symbols idxs;
     Some (visible_row R handler e # rows)
   }"

text \<open>\<open>&v[a..b]\<close>.\<close>

definition slice_range :: "'a list \<Rightarrow> nat \<Rightarrow> nat \<Rightarrow> 'a list run" where
  "slice_range xs a b = (if a \<le> b \<and> b \<le> length xs then Some (take (b - a) (drop a xs)) else panic)"

text \<open>The four parts of \<open>refresh\<close>, in order.\<close>

definition refresh_symbols :: "'r registry_impl \<Rightarrow> 'r app_handler \<Rightarrow> 'l App \<Rightarrow> 'l App run" where
  "refresh_symbols R handler app = do {
     let app = app\<lparr>ap_stats := mh_stats handler\<rparr>;
     (app, symbols_changed) \<leftarrow>
       (if stock_directory_msgs (ap_stats app) \<noteq> ap_last_directory_msgs app
        then do {
          es \<leftarrow> ri_iter R (mh_registry handler);
          let symbols = map (\<lambda>(locate, symbol, _). (locate, symbol)) es;
          Some (app\<lparr>ap_symbols := sort_key (\<lambda>e. Symbol_to_u64 (snd e)) symbols,
                    ap_last_directory_msgs := stock_directory_msgs (ap_stats app)\<rparr>, True)
        }
        else Some (app, False));
     Some (if symbols_changed \<or> ap_last_filter app \<noteq> Some (ap_filter app)
           then rebuild_filtered app else app)
   }"

definition refresh_selection :: "'l list_state \<Rightarrow> 'l App \<Rightarrow> 'l App run" where
  "refresh_selection L app = do {
     found \<leftarrow> (case ap_selected_locate app of
                None \<Rightarrow> Some None
              | Some loc \<Rightarrow> position_of (ap_symbols app) loc (ap_filtered app));
     let selected = (case found of
                       Some i \<Rightarrow> Some i
                     | None \<Rightarrow> if ap_filtered app = [] then None else Some 0);
     let app = app\<lparr>ap_list_state := ls_select L (ap_list_state app) selected\<rparr>;
     loc \<leftarrow> (case selected of
              None \<Rightarrow> Some None
            | Some i \<Rightarrow>
                (case slice_get (ap_filtered app) i of
                   None \<Rightarrow> Some None
                 | Some j \<Rightarrow> do { e \<leftarrow> vec_get (ap_symbols app) j; Some (Some (fst e)) }));
     Some (app\<lparr>ap_selected_locate := loc\<rparr>)
   }"

definition refresh_rows :: "'l list_state \<Rightarrow> 'r registry_impl \<Rightarrow> 'r app_handler \<Rightarrow> 'l App \<Rightarrow> 'l App run" where
  "refresh_rows L R handler app = do {
     let height = list_height (ap_viewport app);
     let total = length (ap_filtered app);
     let offset = ls_offset L (ap_list_state app);
     let offset =
       (case ls_selected L (ap_list_state app) of
          None \<Rightarrow> offset
        | Some sel \<Rightarrow>
            if sel < offset then sel
            else if 0 < height \<and> offset + height \<le> sel then sel + 1 - height
            else offset);
     let offset = min offset (total - height);
     let app = app\<lparr>ap_list_state := ls_set_offset L (ap_list_state app) offset\<rparr>;
     let visible_count = min (total - offset) height;
     idxs \<leftarrow> slice_range (ap_filtered app) offset (offset + visible_count);
     rows \<leftarrow> visible_rows_of R handler (ap_symbols app) idxs;
     Some (app\<lparr>ap_visible_rows := rows\<rparr>)
   }"

definition refresh_depth :: "'r registry_impl \<Rightarrow> 'r app_handler \<Rightarrow> 'l App \<Rightarrow> 'l App" where
  "refresh_depth R handler app =
     (let per_side = (ladder_rows (ap_viewport app) + 1) div 2
      in app\<lparr>ap_depth :=
           (case Option.bind (ap_selected_locate app) (ri_get R (mh_registry handler)) of
              Some book \<Rightarrow>
                if 0 < per_side
                then (case book_depth book per_side of (bids, asks) \<Rightarrow> \<lparr>dl_bids = bids, dl_asks = asks\<rparr>)
                else DepthLadder_default
            | None \<Rightarrow> DepthLadder_default)\<rparr>)"

definition App_refresh :: "'l list_state \<Rightarrow> 'r registry_impl \<Rightarrow> 'r app_handler \<Rightarrow> 'l App \<Rightarrow> 'l App run" where
  "App_refresh L R handler app = do {
     app \<leftarrow> refresh_symbols R handler app;
     app \<leftarrow> refresh_selection L app;
     app \<leftarrow> refresh_rows L R handler app;
     Some (refresh_depth R handler app)
   }"

definition App_symbol_at :: "'l App \<Rightarrow> nat \<Rightarrow> (u16 \<times> Symbol) option" where
  "App_symbol_at app filtered_idx =
     Option.bind (slice_get (ap_filtered app) filtered_idx) (slice_get (ap_symbols app))"

section \<open>Keys\<close>

text \<open>The key events of the terminal library, as far as the code tells them apart.\<close>

datatype KeyCode =
    Char string
  | KEsc | KDown | KUp | KPageDown | KPageUp | KHome | KEnd | KEnter | KBackspace
  | KOther

record KeyEvent =
  ke_release :: bool
  ke_control :: bool
  ke_code :: KeyCode

definition move_to :: "'l list_state \<Rightarrow> 'l App \<Rightarrow> nat \<Rightarrow> 'l App run" where
  "move_to L app idx =
     (case slice_get (ap_filtered app) idx of
        None \<Rightarrow> Some app
      | Some i \<Rightarrow> do {
          let app = app\<lparr>ap_list_state := ls_select L (ap_list_state app) (Some idx)\<rparr>;
          e \<leftarrow> vec_get (ap_symbols app) i;
          Some (app\<lparr>ap_selected_locate := Some (fst e)\<rparr>)
        })"

text \<open>\<open>as i32\<close> wraps, and so does the sum; \<open>clamp\<close> panics on an empty range.\<close>

definition move_selection :: "'l list_state \<Rightarrow> 'l App \<Rightarrow> int \<Rightarrow> 'l App run" where
  "move_selection L app delta =
     (if ap_filtered app = [] then Some app
      else
        (let cur = (of_nat (case ls_selected L (ap_list_state app) of None \<Rightarrow> 0 | Some i \<Rightarrow> i) :: u32);
             mx = (of_nat (length (ap_filtered app)) :: u32) - 1
         in if sint mx < 0 then panic
            else move_to L app (nat (max 0 (min (sint mx) (sint (cur + word_of_int delta)))))))"

definition handle_key_normal :: "'l list_state \<Rightarrow> 'l App \<Rightarrow> KeyEvent \<Rightarrow> ('l App \<times> bool) run" where
  "handle_key_normal L app k =
     (let stay = map_option (\<lambda>app. (app, False));
          last_row = (if ap_filtered app = [] then Some app else move_to L app (length (ap_filtered app) - 1))
      in if ke_control k \<and> ke_code k = Char ''c'' then Some (app, True)
         else case ke_code k of
           Char c \<Rightarrow>
             (if c = ''q'' then Some (app, True)
              else if c = ''/'' then Some (app\<lparr>ap_mode := Filter\<rparr>, False)
              else if c = ''j'' then stay (move_selection L app 1)
              else if c = ''k'' then stay (move_selection L app (- 1))
              else if c = ''g'' then stay (move_to L app 0)
              else if c = ''G'' then stay last_row
              else Some (app, False))
         | KEsc \<Rightarrow> Some (app, True)
         | KDown \<Rightarrow> stay (move_selection L app 1)
         | KUp \<Rightarrow> stay (move_selection L app (- 1))
         | KPageDown \<Rightarrow> stay (move_selection L app 10)
         | KPageUp \<Rightarrow> stay (move_selection L app (- 10))
         | KHome \<Rightarrow> stay (move_to L app 0)
         | KEnd \<Rightarrow> stay last_row
         | _ \<Rightarrow> Some (app, False))"

text \<open>\<open>to_upper\<close> is \<open>char::to_uppercase\<close>, which follows the Unicode tables.\<close>

definition handle_key_filter :: "(string \<Rightarrow> string list) \<Rightarrow> 'l App \<Rightarrow> KeyEvent \<Rightarrow> 'l App" where
  "handle_key_filter to_upper app k =
     (case ke_code k of
        KEsc \<Rightarrow> app\<lparr>ap_filter := [], ap_mode := Normal\<rparr>
      | KEnter \<Rightarrow> app\<lparr>ap_mode := Normal\<rparr>
      | KBackspace \<Rightarrow> app\<lparr>ap_filter := butlast (ap_filter app)\<rparr>
      | Char c \<Rightarrow> app\<lparr>ap_filter := ap_filter app @ to_upper c\<rparr>
      | _ \<Rightarrow> app)"

definition handle_key ::
  "'l list_state \<Rightarrow> (string \<Rightarrow> string list) \<Rightarrow> 'l App \<Rightarrow> KeyEvent \<Rightarrow> ('l App \<times> bool) run" where
  "handle_key L to_upper app k =
     (if ke_release k then Some (app, False)
      else case ap_mode app of
        Normal \<Rightarrow> handle_key_normal L app k
      | Filter \<Rightarrow> Some (handle_key_filter to_upper app k, False))"

section \<open>Layout and drawing\<close>

text \<open>\<open>viewport_for\<close>, of the terminal's height, a \<open>u16\<close>.\<close>

definition viewport_for :: "u16 \<Rightarrow> Viewport" where
  "viewport_for height =
     (let body_height = unat height - 6
      in \<lparr>list_height = body_height - 2, ladder_rows = body_height - 4\<rparr>)"

text \<open>The row of the slice that is highlighted.\<close>

definition local_selected :: "'l list_state \<Rightarrow> 'l App \<Rightarrow> nat option" where
  "local_selected L app =
     (let offset = ls_offset L (ap_list_state app)
      in Option.bind (ls_selected L (ap_list_state app)) (\<lambda>s. if offset \<le> s then Some (s - offset) else None))"

record LadderRow =
  lr_price :: price
  lr_bid :: "quantity option"
  lr_ask :: "quantity option"

definition ladder_entry_or :: "(price, quantity option \<times> quantity option) btree_map \<Rightarrow> price \<Rightarrow>
  quantity option \<times> quantity option" where
  "ladder_entry_or m p = (case bt_get m p of None \<Rightarrow> (None, None) | Some e \<Rightarrow> e)"

definition put_bid :: "price \<times> quantity \<Rightarrow> (price, quantity option \<times> quantity option) btree_map \<Rightarrow>
  (price, quantity option \<times> quantity option) btree_map" where
  "put_bid e m = (case e of (p, q) \<Rightarrow> bt_insert p (Some q, snd (ladder_entry_or m p)) m)"

definition put_ask :: "price \<times> quantity \<Rightarrow> (price, quantity option \<times> quantity option) btree_map \<Rightarrow>
  (price, quantity option \<times> quantity option) btree_map" where
  "put_ask e m = (case e of (p, q) \<Rightarrow> bt_insert p (fst (ladder_entry_or m p), Some q) m)"

definition build_ladder :: "DepthLadder \<Rightarrow> nat \<Rightarrow> LadderRow list" where
  "build_ladder depth max_rows =
     (let levels = fold put_ask (dl_asks depth) (fold put_bid (dl_bids depth) [])
      in map (\<lambda>(price, bid, ask). \<lparr>lr_price = price, lr_bid = bid, lr_ask = ask\<rparr>) (take max_rows (rev levels)))"

text \<open>Of \<open>LadderSide\<close>, the side and its label.\<close>

definition qty_of :: "bool \<Rightarrow> LadderRow \<Rightarrow> quantity option" where
  "qty_of is_bid row = (if is_bid then lr_bid row else lr_ask row)"

definition side_order :: "bool \<Rightarrow> 'a \<times> 'a \<times> 'a \<Rightarrow> 'a list" where
  "side_order is_bid t =
     (case t of (price, qty, share) \<Rightarrow> if is_bid then [share, qty, price] else [price, qty, share])"

record LadderStats =
  lt_total :: quantity
  lt_max_qty :: quantity
  lt_n_levels :: nat

definition LadderStats_collect :: "LadderRow list \<Rightarrow> bool \<Rightarrow> LadderStats" where
  "LadderStats_collect ladder is_bid =
     foldl (\<lambda>s q. \<lparr>lt_total = lt_total s + q, lt_max_qty = max (lt_max_qty s) q, lt_n_levels = lt_n_levels s + 1\<rparr>)
       \<lparr>lt_total = 0, lt_max_qty = 0, lt_n_levels = 0\<rparr> (List.map_filter (qty_of is_bid) ladder)"

text \<open>
  \<open>price\<close>: the quotient truncates towards zero; \<open>abs\<close> wraps on the least \<open>i64\<close>.
\<close>

definition i64_abs :: "i64 \<Rightarrow> i64" where
  "i64_abs x = (if i64_val x < 0 then I64 (- i64_word x) else x)"

definition ui_price :: "price \<Rightarrow> string" where
  "ui_price p =
     (let whole = i64_val p sdiv 10000;
          frac = (word_of_int (i64_val (i64_abs p) smod 10000) :: u32)
      in show_int whole @ ''.'' @ zero_pad 4 (show_nat (unat frac)))"

section \<open>The event loop\<close>

text \<open>
  One turn of the loop of \<open>tui/mod.rs\<close>: whether the shutdown flag is raised, the size of the
  terminal and the handler behind the lock when a frame is due, and the key that arrives, if
  any.  Drawing reads the state only.  The result is the state and whether the loop raised the
  flag itself.
\<close>

record 'r ui_turn =
  ut_shutdown :: bool
  ut_frame :: "(u16 \<times> 'r app_handler) option"
  ut_key :: "KeyEvent option"

fun event_loop ::
  "'l list_state \<Rightarrow> 'r registry_impl \<Rightarrow> (string \<Rightarrow> string list) \<Rightarrow> 'l App \<Rightarrow> 'r ui_turn list \<Rightarrow>
   ('l App \<times> bool) run" where
  "event_loop L R to_upper app [] = Some (app, False)"
| "event_loop L R to_upper app (t # ts) =
     (if ut_shutdown t then Some (app, False)
      else do {
        app \<leftarrow> (case ut_frame t of
                 None \<Rightarrow> Some app
               | Some (height, h) \<Rightarrow> App_refresh L R h (App_set_viewport app (viewport_for height)));
        (app, quit) \<leftarrow> (case ut_key t of None \<Rightarrow> Some (app, False) | Some k \<Rightarrow> handle_key L to_upper app k);
        (if quit then Some (app, True) else event_loop L R to_upper app ts)
      })"

end
