(* ===== verification/Tui_Props.thy ===== *)
theory Tui_Props
  imports App_Tui App_Spec
begin

text \<open>
  What the interface promises: no sequence of refreshes, keys and resizes panics, the
  selection always names a listed symbol, and what is drawn is the window around it.
\<close>

section \<open>The invariant of the state\<close>

definition cache_ok :: "'l App \<Rightarrow> bool" where
  "cache_ok app \<longleftrightarrow>
     length (ap_symbols app) \<le> 65536 \<and>
     ap_filtered app =
       (case ap_last_filter app of None \<Rightarrow> [] | Some f \<Rightarrow> matching_from (concat f) 0 (ap_symbols app))"

definition selection_ok :: "'l list_state \<Rightarrow> 'l App \<Rightarrow> bool" where
  "selection_ok L app \<longleftrightarrow>
     (\<forall>s. ls_selected L (ap_list_state app) = Some s \<longrightarrow>
        s < length (ap_filtered app) \<and>
        ap_selected_locate app = Some (fst (ap_symbols app ! (ap_filtered app ! s))))"

lemma cache_ok_frame [simp]:
  "cache_ok (app\<lparr>ap_list_state := l\<rparr>) = cache_ok app" "cache_ok (app\<lparr>ap_selected_locate := x\<rparr>) = cache_ok app"
  "cache_ok (app\<lparr>ap_filter := f\<rparr>) = cache_ok app" "cache_ok (app\<lparr>ap_mode := m\<rparr>) = cache_ok app"
  "cache_ok (app\<lparr>ap_visible_rows := r\<rparr>) = cache_ok app" "cache_ok (app\<lparr>ap_depth := d\<rparr>) = cache_ok app"
  "cache_ok (app\<lparr>ap_viewport := v\<rparr>) = cache_ok app"
  by (simp_all add: cache_ok_def split: option.split)

lemma selection_ok_frame [simp]:
  "selection_ok L (app\<lparr>ap_filter := f\<rparr>) = selection_ok L app" "selection_ok L (app\<lparr>ap_mode := m\<rparr>) = selection_ok L app"
  "selection_ok L (app\<lparr>ap_visible_rows := r\<rparr>) = selection_ok L app"
  "selection_ok L (app\<lparr>ap_depth := d\<rparr>) = selection_ok L app"
  "selection_ok L (app\<lparr>ap_viewport := v\<rparr>) = selection_ok L app"
  by (simp_all add: selection_ok_def)

lemma matching_bounds: "i \<in> set (matching_from needle k es) \<Longrightarrow> k \<le> i \<and> i < k + length es"
  by (induction needle k es rule: matching_from.induct) (fastforce split: if_splits)+

lemma matching_length: "length (matching_from needle k es) \<le> length es"
  by (induction needle k es rule: matching_from.induct) auto

lemma matching_iff:
  "i \<in> set (matching_from needle k es) \<longleftrightarrow>
     k \<le> i \<and> i < k + length es \<and>
     (needle = [] \<or> starts_with (trim_end (Symbol_as_str (snd (es ! (i - k))))) needle)"
proof (induction needle k es rule: matching_from.induct)
  case (2 needle k l symbol es)
  show ?case
  proof (cases "i = k")
    case True
    with matching_bounds [of k needle "k + 1" es] show ?thesis by auto
  next
    case False
    then have "((l, symbol) # es) ! (i - k) = es ! (i - (k + 1))" if "k \<le> i"
    proof -
      have "i - k = Suc (i - (k + 1))" using that False by simp
      then show ?thesis by simp
    qed
    with 2 False show ?thesis by auto
  qed
qed simp

lemma cache_bounds:
  assumes "cache_ok app"
  shows "i \<in> set (ap_filtered app) \<Longrightarrow> i < length (ap_symbols app)"
    and "length (ap_filtered app) \<le> 65536"
proof -
  show "i \<in> set (ap_filtered app) \<Longrightarrow> i < length (ap_symbols app)"
    using assms matching_bounds [of i _ 0 "ap_symbols app"] by (auto simp: cache_ok_def split: option.splits)
  show "length (ap_filtered app) \<le> 65536"
  proof (cases "ap_last_filter app")
    case None
    with assms show ?thesis by (simp add: cache_ok_def)
  next
    case (Some f)
    with assms matching_length [of "concat f" 0 "ap_symbols app"] show ?thesis by (simp add: cache_ok_def)
  qed
qed

lemma selected_symbol:
  assumes c: "cache_ok app" and s: "selection_ok L app" and i: "ls_selected L (ap_list_state app) = Some i"
  shows "\<exists>l sym. App_symbol_at app i = Some (l, sym) \<and> ap_selected_locate app = Some l"
proof -
  from s i have b: "i < length (ap_filtered app)"
    "ap_selected_locate app = Some (fst (ap_symbols app ! (ap_filtered app ! i)))" by (simp_all add: selection_ok_def)
  then have "ap_filtered app ! i < length (ap_symbols app)" using cache_bounds [OF c] by simp
  with b show ?thesis by (cases "ap_symbols app ! (ap_filtered app ! i)") (simp add: App_symbol_at_def slice_get_def)
qed

section \<open>Keys\<close>

lemma move_to_ok:
  assumes L: "list_state_ok L" and c: "cache_ok app" and "selection_ok L app"
  shows "\<exists>app'. move_to L app idx = Some app' \<and> cache_ok app' \<and> selection_ok L app' \<and>
    (idx < length (ap_filtered app) \<longrightarrow> ls_selected L (ap_list_state app') = Some idx)"
proof (cases "idx < length (ap_filtered app)")
  case True
  then have "ap_filtered app ! idx < length (ap_symbols app)" using cache_bounds(1) [OF c] by simp
  with True L c show ?thesis
    by (simp add: move_to_def slice_get_def selection_ok_def list_state_ok_def)
next
  case False
  with assms show ?thesis by (simp add: move_to_def slice_get_def)
qed

lemma sint_small: "n \<le> 65536 \<Longrightarrow> sint (of_nat n :: u32) = int n"
  using signed_of_nat [where ?'a = int and ?'b = 32, of n] by (simp add: signed_take_bit_int_eq_self)

lemma move_selection_ok:
  assumes L: "list_state_ok L" and c: "cache_ok app" and s: "selection_ok L app"
    and d: "- 10 \<le> delta" "delta \<le> 10"
  shows "\<exists>app'. move_selection L app delta = Some app' \<and> cache_ok app' \<and> selection_ok L app' \<and>
    (ap_filtered app \<noteq> [] \<longrightarrow> ls_selected L (ap_list_state app') =
      Some (nat (max 0 (min (int (length (ap_filtered app)) - 1)
        (int (case ls_selected L (ap_list_state app) of None \<Rightarrow> 0 | Some i \<Rightarrow> i) + delta)))))"
proof (cases "ap_filtered app = []")
  case True
  with assms show ?thesis by (simp add: move_selection_def)
next
  case False
  let ?n = "length (ap_filtered app)"
  let ?i = "case ls_selected L (ap_list_state app) of None \<Rightarrow> 0 | Some i \<Rightarrow> i"
  let ?new = "nat (max 0 (min (int ?n - 1) (int ?i + delta)))"
  have n: "?n \<le> 65536" "0 < ?n" using cache_bounds(2) [OF c] False by simp_all
  have i: "?i < ?n" using s n(2) by (auto simp: selection_ok_def split: option.split)
  have "(of_nat ?n :: u32) - 1 = of_nat (?n - 1)" using n(2) by (simp add: of_nat_diff Suc_le_eq)
  then have "sint ((of_nat ?n :: u32) - 1) = int (?n - 1)" using n(1) sint_small [of "?n - 1"] by (simp only:)
  then have mx: "sint ((of_nat ?n :: u32) - 1) = int ?n - 1" using n(2) by linarith
  have "sint (word_of_int (int ?i + delta) :: u32) = int ?i + delta"
    using i n d by (subst signed_of_int) (simp add: signed_take_bit_int_eq_self)
  then have sum: "sint ((of_nat ?i :: u32) + word_of_int delta) = int ?i + delta" by simp
  have "?new < ?n" using n(2) by linarith
  with move_to_ok [OF L c s, of ?new] False n(2) show ?thesis
    by (simp add: move_selection_def Let_def mx sum)
qed

definition key_ok :: "'l list_state \<Rightarrow> ('l App \<times> bool) run \<Rightarrow> bool" where
  "key_ok L res \<longleftrightarrow> (\<exists>app quit. res = Some (app, quit) \<and> cache_ok app \<and> selection_ok L app)"

lemma key_ok_Some [simp]: "key_ok L (Some (app, quit)) \<longleftrightarrow> cache_ok app \<and> selection_ok L app"
  by (auto simp: key_ok_def)

lemma handle_key_ok:
  assumes L: "list_state_ok L" and c: "cache_ok app" and s: "selection_ok L app"
  shows "key_ok L (handle_key L up app k)"
proof -
  note mv = move_selection_ok [OF L c s] and mt = move_to_ok [OF L c s]
  have one: "key_ok L (map_option (\<lambda>app. (app, False)) res)"
    if "\<exists>a. res = Some a \<and> cache_ok a \<and> selection_ok L a \<and> P a" for res P
    using that by auto
  have "key_ok L (handle_key_normal L app k)"
    using c s one [OF mv [of 1]] one [OF mv [of "- 1"]] one [OF mv [of 10]] one [OF mv [of "- 10"]]
      one [OF mt [of 0]] one [OF mt [of "length (ap_filtered app) - 1"]]
    by (cases "ke_code k") (simp_all add: handle_key_normal_def Let_def)
  moreover have "cache_ok (handle_key_filter up app k) \<and> selection_ok L (handle_key_filter up app k)"
    using c s by (cases "ke_code k") (simp_all add: handle_key_filter_def)
  ultimately show ?thesis using c s by (cases "ap_mode app") (auto simp: handle_key_def)
qed

section \<open>Refreshing\<close>

lemma position_of_ok:
  "\<forall>i \<in> set idxs. i < length symbols \<Longrightarrow>
   \<exists>k. position_of symbols loc idxs = Some k \<and>
     (case k of
        None \<Rightarrow> \<forall>i \<in> set idxs. fst (symbols ! i) \<noteq> loc
      | Some k \<Rightarrow> k < length idxs \<and> fst (symbols ! (idxs ! k)) = loc)"
proof (induction idxs)
  case (Cons i idxs)
  then obtain k where k: "position_of symbols loc idxs = Some k"
    "case k of None \<Rightarrow> \<forall>i \<in> set idxs. fst (symbols ! i) \<noteq> loc
      | Some k \<Rightarrow> k < length idxs \<and> fst (symbols ! (idxs ! k)) = loc" by auto
  then show ?case using Cons.prems by (cases k) auto
qed simp

lemma visible_rows_ok:
  "\<forall>i \<in> set idxs. i < length symbols \<Longrightarrow>
   visible_rows_of R h symbols idxs = Some (map (\<lambda>i. visible_row R h (symbols ! i)) idxs)"
  by (induction idxs) simp_all

text \<open>What a refresh leaves: the selection and the window.\<close>

definition selection_kept :: "'l list_state \<Rightarrow> u16 option \<Rightarrow> 'l App \<Rightarrow> bool" where
  "selection_kept L loc app \<longleftrightarrow>
     (ls_selected L (ap_list_state app) = None \<longleftrightarrow> ap_filtered app = []) \<and>
     (ls_selected L (ap_list_state app) = None \<longrightarrow> ap_selected_locate app = None) \<and>
     (\<forall>l. loc = Some l \<longrightarrow> (\<exists>i \<in> set (ap_filtered app). fst (ap_symbols app ! i) = l) \<longrightarrow> ap_selected_locate app = Some l) \<and>
     (\<forall>s. ls_selected L (ap_list_state app) = Some s \<longrightarrow>
        (\<forall>i \<in> set (ap_filtered app). loc \<noteq> Some (fst (ap_symbols app ! i))) \<longrightarrow> s = 0)"

definition window_ok :: "'l list_state \<Rightarrow> 'r registry_impl \<Rightarrow> 'r app_handler \<Rightarrow> 'l App \<Rightarrow> bool" where
  "window_ok L R h app \<longleftrightarrow>
     (let offset = ls_offset L (ap_list_state app);
          height = list_height (ap_viewport app)
      in ap_visible_rows app =
           map (\<lambda>i. visible_row R h (ap_symbols app ! i)) (take height (drop offset (ap_filtered app))) \<and>
         (\<forall>s. ls_selected L (ap_list_state app) = Some s \<longrightarrow> 0 < height \<longrightarrow> offset \<le> s \<and> s < offset + height) \<and>
         length (ap_visible_rows app) = min height (length (ap_filtered app)))"

lemma refresh_selection_ok:
  assumes L: "list_state_ok L" and c: "cache_ok app"
  shows "\<exists>app'. refresh_selection L app = Some app' \<and> cache_ok app' \<and> selection_ok L app' \<and>
    selection_kept L (ap_selected_locate app) app' \<and> ap_filtered app' = ap_filtered app \<and>
    ap_symbols app' = ap_symbols app \<and> ap_viewport app' = ap_viewport app \<and> ap_filter app' = ap_filter app \<and>
    ap_last_filter app' = ap_last_filter app"
proof -
  have b: "\<forall>i \<in> set (ap_filtered app). i < length (ap_symbols app)" using cache_bounds(1) [OF c] by simp
  obtain found where f: "(case ap_selected_locate app of None \<Rightarrow> Some None
      | Some loc \<Rightarrow> position_of (ap_symbols app) loc (ap_filtered app)) = Some found"
    and fk: "\<forall>k. found = Some k \<longrightarrow> k < length (ap_filtered app) \<and>
      ap_selected_locate app = Some (fst (ap_symbols app ! (ap_filtered app ! k)))"
    and fn: "\<forall>l. found = None \<longrightarrow> ap_selected_locate app = Some l \<longrightarrow>
      (\<forall>i \<in> set (ap_filtered app). fst (ap_symbols app ! i) \<noteq> l)"
  proof (cases "ap_selected_locate app")
    case None
    then show ?thesis using that [of None] by simp
  next
    case (Some l)
    from position_of_ok [OF b, of l] obtain k where k: "position_of (ap_symbols app) l (ap_filtered app) = Some k"
      "case k of None \<Rightarrow> \<forall>i \<in> set (ap_filtered app). fst (ap_symbols app ! i) \<noteq> l
      | Some k \<Rightarrow> k < length (ap_filtered app) \<and> fst (ap_symbols app ! (ap_filtered app ! k)) = l" by blast
    then show ?thesis using that [of k] Some by (auto split: option.splits)
  qed
  define sel where "sel = (case found of Some i \<Rightarrow> Some i | None \<Rightarrow> if ap_filtered app = [] then None else Some 0)"
  have sl: "\<forall>i. sel = Some i \<longrightarrow> i < length (ap_filtered app)" using fk by (auto simp: sel_def split: option.splits if_splits)
  have ssym: "\<forall>i. sel = Some i \<longrightarrow> ap_filtered app ! i < length (ap_symbols app)" using sl b by simp
  let ?app = "app\<lparr>ap_list_state := ls_select L (ap_list_state app) sel,
    ap_selected_locate := map_option (\<lambda>i. fst (ap_symbols app ! (ap_filtered app ! i))) sel\<rparr>"
  have r: "refresh_selection L app = Some ?app"
    using f sl ssym by (cases sel) (simp_all add: refresh_selection_def Let_def slice_get_def flip: sel_def)
  have "selection_ok L ?app" using L sl by (simp add: selection_ok_def list_state_ok_def)
  moreover have "selection_kept L (ap_selected_locate app) ?app"
    using L fk fn by (auto simp: selection_kept_def list_state_ok_def sel_def split: option.splits)
  ultimately show ?thesis using r c by simp
qed

lemma refresh_rows_ok:
  assumes L: "list_state_ok L" and c: "cache_ok app" and s: "selection_ok L app"
  shows "\<exists>app'. refresh_rows L R h app = Some app' \<and> cache_ok app' \<and> selection_ok L app' \<and> window_ok L R h app' \<and>
    ls_selected L (ap_list_state app') = ls_selected L (ap_list_state app) \<and>
    ap_filtered app' = ap_filtered app \<and> ap_symbols app' = ap_symbols app \<and>
    ap_selected_locate app' = ap_selected_locate app \<and> ap_viewport app' = ap_viewport app \<and>
    ap_filter app' = ap_filter app \<and> ap_last_filter app' = ap_last_filter app"
proof -
  let ?h = "list_height (ap_viewport app)" and ?n = "length (ap_filtered app)"
  define o1 where "o1 =
     (case ls_selected L (ap_list_state app) of
        None \<Rightarrow> ls_offset L (ap_list_state app)
      | Some sel \<Rightarrow>
          if sel < ls_offset L (ap_list_state app) then sel
          else if 0 < ?h \<and> ls_offset L (ap_list_state app) + ?h \<le> sel then sel + 1 - ?h
          else ls_offset L (ap_list_state app))"
  define off where "off = min o1 (?n - ?h)"
  let ?idxs = "take (min (?n - off) ?h) (drop off (ap_filtered app))"
  let ?app = "app\<lparr>ap_list_state := ls_set_offset L (ap_list_state app) off,
    ap_visible_rows := map (\<lambda>i. visible_row R h (ap_symbols app ! i)) ?idxs\<rparr>"
  have "\<forall>i \<in> set ?idxs. i < length (ap_symbols app)"
    using cache_bounds(1) [OF c] by (auto dest: in_set_takeD in_set_dropD)
  moreover have "off + min (?n - off) ?h \<le> ?n" by (simp add: off_def)
  ultimately have r: "refresh_rows L R h app = Some ?app"
    by (simp add: refresh_rows_def Let_def slice_range_def visible_rows_ok flip: o1_def off_def)
  have idxs: "?idxs = take ?h (drop off (ap_filtered app))" by (simp add: min_def)
  have win: "off \<le> k \<and> k < off + ?h" if k: "ls_selected L (ap_list_state app) = Some k" and h: "0 < ?h" for k
  proof -
    have kn: "k < ?n" using s k by (simp add: selection_ok_def)
    have "o1 \<le> k" "k < o1 + ?h" using k h by (auto simp: o1_def)
    with kn show ?thesis by (auto simp: off_def min_def)
  qed
  have "length ?idxs = min ?h ?n" by (auto simp: off_def min_def)
  then have "window_ok L R h ?app"
    using L win by (simp add: window_ok_def list_state_ok_def Let_def flip: idxs)
  then show ?thesis using r c s L by (simp add: selection_ok_def list_state_ok_def)
qed

text \<open>
  A refresh, in terms of the state's own lists: filtered anew, the selection kept where it can be, the
  window around it.  What this shows of the books is in \<open>App_Live\<close>.
\<close>

definition refreshed ::
  "'l list_state \<Rightarrow> 'r registry_impl \<Rightarrow> 'r app_handler \<Rightarrow> 'l App \<Rightarrow> 'l App \<Rightarrow> bool" where
  "refreshed L R h app app' \<longleftrightarrow>
     ap_filtered app' = matching_from (concat (ap_filter app)) 0 (ap_symbols app') \<and>
     (stock_directory_msgs (mh_stats h) = ap_last_directory_msgs app \<longrightarrow> ap_symbols app' = ap_symbols app) \<and>
     selection_kept L (ap_selected_locate app) app' \<and> window_ok L R h app' \<and> ap_viewport app' = ap_viewport app \<and>
     ap_depth app' = ap_depth (refresh_depth R h app')"

lemma refresh_depth_frame [simp]:
  "cache_ok (refresh_depth R h app) = cache_ok app" "selection_ok L (refresh_depth R h app) = selection_ok L app"
  "window_ok L R h (refresh_depth R h app) = window_ok L R h app"
  "selection_kept L loc (refresh_depth R h app) = selection_kept L loc app"
  "ap_filtered (refresh_depth R h app) = ap_filtered app" "ap_symbols (refresh_depth R h app) = ap_symbols app"
  "refresh_depth R h (refresh_depth R h app) = refresh_depth R h app" "ap_viewport (refresh_depth R h app) = ap_viewport app"
  by (simp_all add: refresh_depth_def Let_def window_ok_def selection_kept_def)

lemma selection_kept_frame:
  "ls_selected L (ap_list_state a) = ls_selected L (ap_list_state b) \<Longrightarrow> ap_filtered a = ap_filtered b \<Longrightarrow>
   ap_symbols a = ap_symbols b \<Longrightarrow> ap_selected_locate a = ap_selected_locate b \<Longrightarrow>
   selection_kept L loc a = selection_kept L loc b"
  by (simp add: selection_kept_def)

context registry_client
begin

lemma iter_length:
  assumes "valid r" and "iter r = Some es"
  shows "length es \<le> 65536"
proof -
  have d: "distinct (map fst es)" using iter_ok [OF assms(1)] assms(2) by auto
  have "finite (UNIV :: u16 set)" by simp
  then have "card (set (map fst es)) \<le> CARD(u16)" by (intro card_mono) auto
  moreover have "CARD(u16) = 65536" by (simp add: card_word)
  ultimately show ?thesis using distinct_card [OF d] by simp
qed

lemma refresh_symbols_ok:
  assumes v: "valid (mh_registry h)" and c: "cache_ok app"
  shows "\<exists>app'. refresh_symbols R h app = Some app' \<and> cache_ok app' \<and>
    ap_filtered app' = matching_from (concat (ap_filter app)) 0 (ap_symbols app') \<and>
    (stock_directory_msgs (mh_stats h) = ap_last_directory_msgs app \<longrightarrow> ap_symbols app' = ap_symbols app) \<and>
    ap_selected_locate app' = ap_selected_locate app \<and> ap_filter app' = ap_filter app \<and> ap_viewport app' = ap_viewport app"
proof -
  obtain es where es: "iter (mh_registry h) = Some es" using iter_ok [OF v] by blast
  have "cache_ok app \<Longrightarrow> ap_last_filter app = Some f \<Longrightarrow>
      ap_filtered app = matching_from (concat f) 0 (ap_symbols app)" for app :: "'b App" and f
    by (simp add: cache_ok_def)
  then show ?thesis
    using es iter_length [OF v es] c
    by (auto simp: refresh_symbols_def Let_def impl_iter rebuild_filtered_def cache_ok_def)
qed

lemma App_refresh_ok:
  assumes L: "list_state_ok L" and v: "valid (mh_registry h)" and c: "cache_ok app"
  shows "\<exists>app'. App_refresh L R h app = Some app' \<and> cache_ok app' \<and> selection_ok L app' \<and> refreshed L R h app app'"
proof -
  obtain a1 where a1: "refresh_symbols R h app = Some a1" "cache_ok a1"
      "ap_filtered a1 = matching_from (concat (ap_filter app)) 0 (ap_symbols a1)"
      "stock_directory_msgs (mh_stats h) = ap_last_directory_msgs app \<longrightarrow> ap_symbols a1 = ap_symbols app"
      "ap_selected_locate a1 = ap_selected_locate app" "ap_filter a1 = ap_filter app" "ap_viewport a1 = ap_viewport app"
    using refresh_symbols_ok [OF v c] by blast
  obtain a2 where a2: "refresh_selection L a1 = Some a2" "cache_ok a2" "selection_ok L a2"
      "selection_kept L (ap_selected_locate a1) a2" "ap_filtered a2 = ap_filtered a1" "ap_symbols a2 = ap_symbols a1"
      "ap_viewport a2 = ap_viewport a1"
    using refresh_selection_ok [OF L a1(2)] by blast
  obtain a3 where a3: "refresh_rows L R h a2 = Some a3" "cache_ok a3" "selection_ok L a3" "window_ok L R h a3"
      "ls_selected L (ap_list_state a3) = ls_selected L (ap_list_state a2)" "ap_filtered a3 = ap_filtered a2"
      "ap_symbols a3 = ap_symbols a2" "ap_selected_locate a3 = ap_selected_locate a2"
      "ap_viewport a3 = ap_viewport a2"
    using refresh_rows_ok [OF L a2(2,3)] by blast
  have "selection_kept L (ap_selected_locate app) a3"
    using a2(4) a1(5) selection_kept_frame [OF a3(5-8)] by metis
  then have "refreshed L R h app (refresh_depth R h a3)"
    using a1 a2 a3 by (simp add: refreshed_def)
  with a1(1) a2(1) a3(1-3) show ?thesis by (simp add: App_refresh_def)
qed

end

section \<open>Every run\<close>

text \<open>
  The states the event loop can reach: resizes, refreshes from any state of the handler whose
  registry is well formed, and keys.
\<close>

inductive reaches ::
  "'l list_state \<Rightarrow> 'r registry_impl \<Rightarrow> ('r \<Rightarrow> bool) \<Rightarrow> (string \<Rightarrow> string list) \<Rightarrow> 'l App \<Rightarrow> bool"
  for L :: "'l list_state" and R :: "'r registry_impl" and valid :: "'r \<Rightarrow> bool" and up :: "string \<Rightarrow> string list"
  where
  start: "reaches L R valid up (App_new L)"
| resize: "reaches L R valid up app \<Longrightarrow> reaches L R valid up (App_set_viewport app (viewport_for height))"
| refresh: "reaches L R valid up app \<Longrightarrow> valid (mh_registry h) \<Longrightarrow> App_refresh L R h app = Some app' \<Longrightarrow>
    reaches L R valid up app'"
| press: "reaches L R valid up app \<Longrightarrow> handle_key L up app k = Some (app', quit) \<Longrightarrow> reaches L R valid up app'"

lemma App_new_ok: "list_state_ok L \<Longrightarrow> cache_ok (App_new L) \<and> selection_ok L (App_new L)"
  by (simp add: App_new_def cache_ok_def selection_ok_def list_state_ok_def)

context registry_client
begin

lemma reaches_ok:
  assumes L: "list_state_ok L"
  shows "reaches L R valid up app \<Longrightarrow> cache_ok app \<and> selection_ok L app"
proof (induction rule: reaches.induct)
  case start
  show ?case by (rule App_new_ok [OF L])
next
  case (resize app height)
  then show ?case by (simp add: App_set_viewport_def)
next
  case (refresh app h app')
  then show ?case using App_refresh_ok [OF L, of h app] by auto
next
  case (press app k app' quit)
  then show ?case using handle_key_ok [OF L, of app up k] by simp
qed

end

section \<open>The event loop stays in these states\<close>

context registry_client
begin

lemma event_loop_reaches:
  assumes L: "list_state_ok L"
  shows "reaches L R valid up app \<Longrightarrow> \<forall>t \<in> set ts. \<forall>n h. ut_frame t = Some (n, h) \<longrightarrow> valid (mh_registry h) \<Longrightarrow>
    \<exists>app' quit. event_loop L R up app ts = Some (app', quit) \<and> reaches L R valid up app'"
proof (induction ts arbitrary: app)
  case Nil
  then show ?case by (intro exI [of _ app] exI [of _ False]) simp
next
  case (Cons t ts)
  have "\<exists>a. (case ut_frame t of None \<Rightarrow> Some app
      | Some (n, h) \<Rightarrow> App_refresh L R h (App_set_viewport app (viewport_for n))) = Some a \<and> reaches L R valid up a"
  proof (cases "ut_frame t")
    case None
    with Cons.prems(1) show ?thesis by simp
  next
    case (Some f)
    obtain n h where f: "f = (n, h)" by (cases f)
    with Some Cons.prems(2) have v: "valid (mh_registry h)" by simp
    note r = reaches.resize [OF Cons.prems(1), of n]
    with App_refresh_ok [OF L v] reaches_ok [OF L r] obtain a where
      "App_refresh L R h (App_set_viewport app (viewport_for n)) = Some a" by blast
    with Some f reaches.refresh [OF r v] show ?thesis by simp
  qed
  then obtain a where a: "(case ut_frame t of None \<Rightarrow> Some app
      | Some (n, h) \<Rightarrow> App_refresh L R h (App_set_viewport app (viewport_for n))) = Some a" "reaches L R valid up a"
    by blast
  have "\<exists>a' quit. (case ut_key t of None \<Rightarrow> Some (a, False) | Some k \<Rightarrow> handle_key L up a k) = Some (a', quit) \<and>
      reaches L R valid up a'"
  proof (cases "ut_key t")
    case None
    with a(2) show ?thesis by (intro exI [of _ a] exI [of _ False]) simp
  next
    case (Some k)
    from reaches_ok [OF L a(2)] handle_key_ok [OF L, of a up k] obtain a' quit where
      "handle_key L up a k = Some (a', quit)" by (auto simp: key_ok_def)
    with Some reaches.press [OF a(2) this] show ?thesis by simp
  qed
  then obtain a' quit where a': "(case ut_key t of None \<Rightarrow> Some (a, False) | Some k \<Rightarrow> handle_key L up a k) = Some (a', quit)"
    "reaches L R valid up a'" by blast
  show ?case 
  proof (cases "ut_shutdown t \<or> quit")
    case True
    with a a' Cons.prems(1) show ?thesis by (cases "ut_shutdown t") (auto intro: exI [of _ False])
  next
    case False
    with a a' Cons.IH [OF a'(2)] Cons.prems(2) show ?thesis by simp
  qed
qed

end

section \<open>The ladder\<close>

lemma put_all_valid:
  "bt_valid m \<Longrightarrow> bt_valid (fold put_bid es m)" "bt_valid m \<Longrightarrow> bt_valid (fold put_ask es m)"
  by (induction es arbitrary: m) (auto simp: put_bid_def put_ask_def bt.valid_insert split: prod.split)

lemma put_bids_get:
  "bt_valid m \<Longrightarrow> distinct (map fst es) \<Longrightarrow>
   ladder_entry_or (fold put_bid es m) p =
     (case map_of es p of None \<Rightarrow> ladder_entry_or m p | Some q \<Rightarrow> (Some q, snd (ladder_entry_or m p)))"
  by (induction es arbitrary: m)
    (auto simp: put_bid_def ladder_entry_or_def bt.get_insert bt.valid_insert map_of_eq_None_iff image_iff
      split: prod.splits option.splits)

lemma put_asks_get:
  "bt_valid m \<Longrightarrow> distinct (map fst es) \<Longrightarrow>
   ladder_entry_or (fold put_ask es m) p =
     (case map_of es p of None \<Rightarrow> ladder_entry_or m p | Some q \<Rightarrow> (fst (ladder_entry_or m p), Some q))"
  by (induction es arbitrary: m)
    (auto simp: put_ask_def ladder_entry_or_def bt.get_insert bt.valid_insert map_of_eq_None_iff image_iff
      split: prod.splits option.splits)

lemma put_all_keys:
  "bt_valid m \<Longrightarrow> dom (bt_get (fold put_bid es m)) = fst ` set es \<union> dom (bt_get m)"
  "bt_valid m \<Longrightarrow> dom (bt_get (fold put_ask es m)) = fst ` set es \<union> dom (bt_get m)"
  by (induction es arbitrary: m)
    (auto simp: put_bid_def put_ask_def bt.valid_insert bt.dom_insert split: prod.split)

definition ladder_prices :: "DepthLadder \<Rightarrow> price set" where
  "ladder_prices d = fst ` set (dl_bids d) \<union> fst ` set (dl_asks d)"

lemma build_ladder_rows:
  assumes b: "distinct (map fst (dl_bids d))" and a: "distinct (map fst (dl_asks d))"
  shows "\<exists>m. build_ladder d n = map (\<lambda>(price, bid, ask). \<lparr>lr_price = price, lr_bid = bid, lr_ask = ask\<rparr>) (take n (rev m)) \<and>
    sorted_wrt (<) (map fst m) \<and> fst ` set m = ladder_prices d \<and> length m = card (ladder_prices d) \<and>
    (\<forall>(p, q, r) \<in> set m. q = map_of (dl_bids d) p \<and> r = map_of (dl_asks d) p)"
proof -
  let ?m1 = "fold put_bid (dl_bids d) []"
  let ?m = "fold put_ask (dl_asks d) ?m1"
  have v1: "bt_valid ?m1" by (rule put_all_valid(1) [OF bt.valid_empty])
  have v: "bt_valid ?m" by (rule put_all_valid(2) [OF v1])
  have dom: "fst ` set ?m = ladder_prices d"
    using bt.keys_entries [OF v] put_all_keys(2) [OF v1, of "dl_asks d"] put_all_keys(1) [OF bt.valid_empty, of "dl_bids d"]
    by (auto simp: ladder_prices_def bt.get_empty dom_def)
  have len: "length ?m = card (ladder_prices d)"
    using distinct_card [OF bt.distinct_entries [OF v]] dom by simp
  have "q = map_of (dl_bids d) p \<and> r = map_of (dl_asks d) p" if "(p, q, r) \<in> set ?m" for p q r
  proof -
    have "(q, r) = ladder_entry_or ?m p" using that bt.entries_iff [OF v] by (simp add: ladder_entry_or_def)
    also have "\<dots> = (map_of (dl_bids d) p, map_of (dl_asks d) p)"
      using put_asks_get [OF v1 a, of p] put_bids_get [OF bt.valid_empty b, of p]
      by (simp add: ladder_entry_or_def bt.get_empty split: option.splits)
    finally show ?thesis by simp
  qed
  then have "\<forall>(p, q, r) \<in> set ?m. q = map_of (dl_bids d) p \<and> r = map_of (dl_asks d) p" by blast
  with bt.sorted_entries [OF v] dom len show ?thesis
    by (intro exI [of _ ?m]) (simp add: build_ladder_def)
qed

lemma build_ladder_ok:
  assumes "distinct (map fst (dl_bids d))" and "distinct (map fst (dl_asks d))"
  shows "sorted_wrt (\<lambda>x y. lr_price y < lr_price x) (build_ladder d n)"
    and "length (build_ladder d n) = min n (card (ladder_prices d))"
    and "row \<in> set (build_ladder d n) \<Longrightarrow> lr_price row \<in> ladder_prices d \<and>
      lr_bid row = map_of (dl_bids d) (lr_price row) \<and> lr_ask row = map_of (dl_asks d) (lr_price row)"
    and "p \<in> ladder_prices d \<Longrightarrow> p \<notin> lr_price ` set (build_ladder d n) \<Longrightarrow>
      row \<in> set (build_ladder d n) \<Longrightarrow> p < lr_price row"
proof -
  let ?f = "\<lambda>(price, bid, ask). \<lparr>lr_price = price, lr_bid = bid, lr_ask = ask\<rparr>"
  obtain m where m: "build_ladder d n = map ?f (take n (rev m))" "sorted_wrt (<) (map fst m)"
      "fst ` set m = ladder_prices d" "length m = card (ladder_prices d)"
      "\<forall>(p, q, r) \<in> set m. q = map_of (dl_bids d) p \<and> r = map_of (dl_asks d) p"
    using build_ladder_rows [OF assms, of n] by blast
  have fp: "lr_price (?f e) = fst e" for e by (cases e) simp
  have sw: "sorted_wrt (\<lambda>x y. fst y < fst x) (rev m)"
    using m(2) by (simp add: sorted_wrt_map sorted_wrt_rev)
  have sorted: "sorted_wrt (\<lambda>x y. fst y < fst x) (take n (rev m))"
    using sw by (rule sorted_wrt_take)
  then show "sorted_wrt (\<lambda>x y. lr_price y < lr_price x) (build_ladder d n)"
    by (simp add: m(1) sorted_wrt_map fp)
  show "length (build_ladder d n) = min n (card (ladder_prices d))"
    by (simp add: m(1,4) min.commute)
  show "lr_price row \<in> ladder_prices d \<and> lr_bid row = map_of (dl_bids d) (lr_price row) \<and>
      lr_ask row = map_of (dl_asks d) (lr_price row)" if row: "row \<in> set (build_ladder d n)" for row
  proof -
    obtain e where e: "e \<in> set (take n (rev m))" "row = ?f e" using row unfolding m(1) set_map by (rule imageE)
    then have em: "e \<in> set m" by (metis in_set_takeD set_rev)
    obtain p q r where pqr: "e = (p, q, r)" by (cases e)
    have "fst e \<in> ladder_prices d" unfolding m(3) [symmetric] using em by (rule imageI)
    moreover have "q = map_of (dl_bids d) p \<and> r = map_of (dl_asks d) p" using m(5) em pqr by blast
    ultimately show ?thesis by (simp add: e(2) pqr)
  qed
  show "p < lr_price row"
    if p: "p \<in> ladder_prices d" "p \<notin> lr_price ` set (build_ladder d n)" and row: "row \<in> set (build_ladder d n)" for p row
  proof -
    obtain e where e: "e \<in> set m" "fst e = p" using p(1) m(3) by (metis imageE)
    have "lr_price ` set (build_ladder d n) = fst ` set (take n (rev m))"
      unfolding m(1) by (simp add: image_image fp)
    with p(2) e(2) have "e \<notin> set (take n (rev m))" by blast
    moreover have "e \<in> set (take n (rev m) @ drop n (rev m))" using e(1) by simp
    ultimately have dr: "e \<in> set (drop n (rev m))" unfolding set_append by blast
    obtain x where x: "x \<in> set (take n (rev m))" "row = ?f x" using row unfolding m(1) set_map by (rule imageE)
    have "sorted_wrt (\<lambda>x y. fst y < fst x) (take n (rev m) @ drop n (rev m))" using sw by simp
    with x(1) dr have "fst e < fst x" by (simp only: sorted_wrt_append)
    then show ?thesis unfolding x(2) fp e(2) .
  qed
qed

section \<open>Prices\<close>

lemma i64_range: "- (2 ^ 63) \<le> i64_val x" "i64_val x < 2 ^ 63"
  using sint_ge [of "i64_word x"] sint_lt [of "i64_word x"] by (simp_all add: i64_val_def)

lemma i64_val_abs:
  assumes "- (2 ^ 63) < i64_val x"
  shows "i64_val (i64_abs x) = \<bar>i64_val x\<bar>"
proof (cases "i64_val x < 0")
  case True
  have "i64_abs x = I64 (word_of_int (- i64_val x))" using True by (simp add: i64_abs_def i64_word_val)
  then show ?thesis using True assms i64_range [of x] i64_val_I64 [of "- i64_val x"] by simp
qed (simp add: i64_abs_def)

lemma ui_price_parts:
  assumes "- (2 ^ 63) < i64_val p"
  shows "ui_price p = show_int (i64_val p sdiv 10000) @ ''.'' @ zero_pad 4 (show_nat (nat (\<bar>i64_val p\<bar> mod 10000)))"
proof -
  let ?r = "\<bar>i64_val p\<bar> mod 10000"
  have r: "0 \<le> ?r" "?r < 2 ^ 32" by (simp, rule less_trans [of _ 10000]) simp_all
  have "\<bar>i64_val p\<bar> smod 10000 = ?r"
    by (cases "i64_val p = 0") (simp_all add: signed_modulo_int_def)
  moreover have "unat (word_of_int ?r :: u32) = nat ?r"
    using r by (simp add: unsigned_of_int take_bit_int_eq_self)
  ultimately show ?thesis by (simp only: ui_price_def i64_val_abs [OF assms] Let_def)
qed

lemma ui_price_nonneg:
  assumes "0 \<le> i64_val p"
  shows "ui_price p = show_nat (nat (i64_val p) div 10000) @ ''.'' @ zero_pad 4 (show_nat (nat (i64_val p) mod 10000))"
proof -
  have q: "i64_val p sdiv 10000 = i64_val p div 10000"
    using assms by (auto simp: signed_divide_int_def sgn_if)
  have "show_int (i64_val p div 10000) = show_nat (nat (i64_val p) div 10000)"
    using assms by (simp add: show_int_def nat_div_distrib pos_imp_zdiv_neg_iff)
  moreover have "nat (\<bar>i64_val p\<bar> mod 10000) = nat (i64_val p) mod 10000"
    using assms by (simp add: nat_mod_distrib)
  ultimately show ?thesis using ui_price_parts [of p] assms q by simp
qed

lemma ui_price_sign_lost:
  assumes "- 10000 < i64_val p" and "i64_val p < 0" and "i64_val q = - i64_val p"
  shows "ui_price p = ui_price q"
proof -
  have "i64_val p sdiv 10000 = 0" "i64_val q sdiv 10000 = 0"
    using assms by (auto simp: signed_divide_int_def sgn_if)
  then show ?thesis using ui_price_parts [of p] ui_price_parts [of q] assms by simp
qed

text \<open>Reading a price back.\<close>

lemma read_zero_pad: "read_nat (zero_pad w s) = read_nat s"
proof -
  have "foldl (\<lambda>n c. 10 * n + digit_val c) 0 (replicate k CHR ''0'') = 0" for k
    by (induction k) (simp_all add: digit_val_def)
  then show ?thesis by (simp add: zero_pad_def read_nat_def)
qed

lemma zero_pad_length: "n < 10 ^ w \<Longrightarrow> 0 < w \<Longrightarrow> length (zero_pad w (show_nat n)) = w"
proof -
  assume n: "n < 10 ^ w" "0 < w"
  have "m < 10 ^ k \<Longrightarrow> 0 < k \<Longrightarrow> length (show_nat m) \<le> k" for m k
  proof (induction m arbitrary: k rule: show_nat.induct)
    case (1 m)
    show ?case
    proof (cases "m < 10")
      case True
      then show ?thesis using 1(3) by (subst show_nat.simps) simp
    next
      case False
      then obtain k' where k: "k = Suc k'" using 1(3) by (cases k) auto
      have "0 < k'" using False 1(2) k by (cases k') auto
      moreover have "m div 10 < 10 ^ k'" using 1(2) k by (simp add: div_less_iff_less_mult mult.commute)
      ultimately have "length (show_nat (m div 10)) \<le> k'" using 1(1) [OF False] by blast
      then show ?thesis using False k by (subst show_nat.simps) simp
    qed
  qed
  from this [OF n] show ?thesis by (simp add: zero_pad_def)
qed

lemma price_reads_back:
  assumes "0 \<le> i64_val p"
  shows "\<exists>w f. ui_price p = w @ ''.'' @ f \<and> length f = 4 \<and> read_nat w * 10000 + read_nat f = nat (i64_val p)"
proof (intro exI conjI)
  let ?n = "nat (i64_val p)"
  show "ui_price p = show_nat (?n div 10000) @ ''.'' @ zero_pad 4 (show_nat (?n mod 10000))"
    by (rule ui_price_nonneg [OF assms])
  show "length (zero_pad 4 (show_nat (?n mod 10000))) = 4" by (rule zero_pad_length) simp_all
  show "read_nat (show_nat (?n div 10000)) * 10000 + read_nat (zero_pad 4 (show_nat (?n mod 10000))) = ?n"
    by (simp add: read_zero_pad read_show_nat)
qed

end
