(* ===== verification/App_Claims.thy ===== *)
theory App_Claims
  imports App_System App_Shutdown Report_Props Tui_Props Book_Claims Itch_Claims
begin

text \<open>The properties of the application and of the whole pipeline.\<close>

section \<open>Concrete messages\<close>

definition sample_directory :: bytes where
  "sample_directory =
     ascii_bytes ''R'' @ u16_to_be 7 @ u16_to_be 0 @ [0, 0, 0, 0, 0, 1] @ ascii_bytes ''AAPL    '' @
     ascii_bytes ''Q'' @ ascii_bytes ''N'' @ u32_to_be 100 @ ascii_bytes ''NCZ PNN1N'' @ u32_to_be 0 @ ascii_bytes ''N''"

definition sample_add :: bytes where
  "sample_add =
     ascii_bytes ''A'' @ u16_to_be 7 @ u16_to_be 0 @ [0, 0, 0, 0, 0, 2] @ u64_to_be 42 @ ascii_bytes ''B'' @
     u32_to_be 100 @ ascii_bytes ''AAPL    '' @ u32_to_be 1500000"

definition sample_execute :: bytes where
  "sample_execute =
     ascii_bytes ''E'' @ u16_to_be 7 @ u16_to_be 0 @ [0, 0, 0, 0, 0, 3] @ u64_to_be 42 @ u32_to_be 30 @ u64_to_be 1"

definition sample_bodies :: "bytes list" where
  "sample_bodies = [sample_directory, sample_add, sample_execute]"

definition sample_messages :: "itch_message list" where
  "sample_messages =
     [M_StockDirectory (StockDirectory_view sample_directory),
      M_AddOrderNoMPIDAttribution (AddOrderNoMPIDAttribution_view sample_add),
      M_OrderExecuted (OrderExecuted_view sample_execute)]"

lemma decode_of_tag:
  "b = ascii CHR ''R'' # r \<Longrightarrow> length b = StockDirectory_LEN \<Longrightarrow> decode_body b = Some (M_StockDirectory (StockDirectory_view b))"
  "b = ascii CHR ''A'' # r \<Longrightarrow> length b = AddOrderNoMPIDAttribution_LEN \<Longrightarrow>
     decode_body b = Some (M_AddOrderNoMPIDAttribution (AddOrderNoMPIDAttribution_view b))"
  "b = ascii CHR ''E'' # r \<Longrightarrow> length b = OrderExecuted_LEN \<Longrightarrow> decode_body b = Some (M_OrderExecuted (OrderExecuted_view b))"
  using decode_body_tag(2,11,13) [of r] by simp_all

lemma sample_decodes: "decodes sample_bodies sample_messages"
  using decode_of_tag(1) [of sample_directory "tl sample_directory"] decode_of_tag(2) [of sample_add "tl sample_add"]
    decode_of_tag(3) [of sample_execute "tl sample_execute"]
  by (simp add: decodes_def sample_bodies_def sample_messages_def sample_directory_def sample_add_def
      sample_execute_def ascii_bytes_def StockDirectory_LEN_def AddOrderNoMPIDAttribution_LEN_def OrderExecuted_LEN_def)

definition sample_order :: order where
  "sample_order = \<lparr>ord_id = 42, ord_side = Bid, ord_price = px 1500000, ord_qty = 70, ord_ts = 2\<rparr>"

lemmas sample_simps =
  zc_get [OF zerocopy_std_ok] byte_at_def bytes_at_def nth_append ascii_bytes_def ascii_def be_nat_def
  u64_from_be_def

lemma sample_directory_op:
  "directory_op zerocopy_std None (M_StockDirectory (StockDirectory_view sample_directory)) = Some (7, wire_symbol ''AAPL'')"
  by (simp add: sample_directory_def StockDirectory_stock_locate_def StockDirectory_stock_def StockDirectory_view_def
      wire_symbol_def sample_simps eval_nat_numeral)

lemma sample_add_op:
  "add_like_no_mpid zerocopy_std (AddOrderNoMPIDAttribution_view sample_add) =
     \<lparr>al_stock_locate = 7, al_order_reference_number = 42, al_buy_sell_indicator = BuySellIndicator_Buy,
      al_price_i64 = px 1500000, al_shares = 100, al_timestamp_u64 = 2\<rparr>"
  apply (simp add: add_like_no_mpid_def sample_add_def AddOrderNoMPIDAttribution_view_def
      AddOrderNoMPIDAttribution_stock_locate_def AddOrderNoMPIDAttribution_order_reference_number_def
      AddOrderNoMPIDAttribution_buy_sell_indicator_def AddOrderNoMPIDAttribution_shares_def
      AddOrderNoMPIDAttribution_timestamp_def AddOrderNoMPIDAttribution_price_def Timestamp_to_u64_def
      Price4_into_i64_def px_def
      zc_get [OF zerocopy_std_ok] byte_at_def bytes_at_def nth_append)
  apply (simp add: sample_simps Price4_into_u32_def i64_of_u32_def BuySellIndicator_from_byte_def)
  done

lemma sample_execute_op:
  "OrderExecuted_stock_locate zerocopy_std (OrderExecuted_view sample_execute) = 7"
  "OrderExecuted_order_reference_number zerocopy_std (OrderExecuted_view sample_execute) = 42"
  "OrderExecuted_executed_shares zerocopy_std (OrderExecuted_view sample_execute) = 30"
  "Timestamp_to_u64 (OrderExecuted_timestamp (OrderExecuted_view sample_execute)) = 3"
  by (simp_all add: sample_execute_def OrderExecuted_view_def OrderExecuted_stock_locate_def
      OrderExecuted_order_reference_number_def OrderExecuted_executed_shares_def OrderExecuted_timestamp_def
      Timestamp_to_u64_def zc_get [OF zerocopy_std_ok] byte_at_def bytes_at_def nth_append ascii_bytes_def)
     (simp add: u64_from_be_def be_nat_def)

definition watch_set :: "Symbol list option \<Rightarrow> u64 set option" where
  "watch_set watch = map_option (\<lambda>ss. Symbol_to_u64 ` set ss) watch"

text \<open>The specification on the sample: one book with what is left of the order.\<close>

lemma sample_books:
  "spec_feed zerocopy_std None sample_messages (Map.empty, stats_default) =
     ([7 \<mapsto> (wire_symbol ''AAPL'', [sample_order])],
      inc_executed (inc_added (inc_directory stats_default)))"
  by (simp add: sample_messages_def spec_message_def sample_directory_op sample_add_op sample_execute_op
      add_op_def spec_op_def sample_order_def
      spec_add_def spec_execute_def spec_take_def lookup_id_def set_qty_def remove_id_def del: directory_op.simps)

lemma sample_locates: "directory_locates zerocopy_std None sample_messages = {7}"
  by (auto simp: directory_locates_def sample_messages_def sample_directory_op simp del: directory_op.simps(1))

lemma new_fits: "vr_fits (mh_registry (app_handler_new vec_registry watch [])) l \<longleftrightarrow> unat l < MAX_CAPACITY"
  by (simp add: app_handler_new_def vec_registry_def vr_fits_def vr_len_def vr_new_def vr_with_capacity_def)

section \<open>From the file to the books\<close>

text \<open>
  The pipeline refines its specification. Take any file of well-formed messages, cut
  into batches of random size by the replay, sent by the server in packets under any size
  limit with heartbeats at any time between them, and let the datagrams arrive as sent. No
  thread panics, the receiver counts no parse error, truncation or retransmission, and when
  the session ends the registry holds, for every locate of the directory messages, the book
  the feed describes: each queue in time priority, and the counters of the specification.
\<close>

theorem pipeline_end_to_end:
  assumes "zerocopy_ok z" and "rng_ok rng" and "1 \<le> max_msgs" "max_msgs < 65535"
    and "decodes bodies ms" and "length ms \<le> unat NIL" and "tail = [] \<or> (\<exists>e. parse_one tail = Inl e)"
    and "\<forall>l \<in> directory_locates z (watch_set watch) ms. unat l < MAX_CAPACITY"
  shows "\<exists>cmds. server_thread rng [] (frames bodies @ tail) max_msgs = Some cmds \<and>
    (\<forall>es. replay_events cmds es \<longrightarrow>
      (\<exists>st pkts. sender_loop lim (server_start sess seq) es = Some (st, pkts) \<and>
        (\<forall>ds. map (\<lambda>d. Datagram_bytes (fst d)) ds = map Some pkts \<longrightarrow>
          (\<exists>h net effs. app_run z vec_registry (app_handler_new vec_registry watch []) net_default ds = Some (h, net, effs) \<and>
            no_errors net \<and>
            books_match vec_registry (mh_registry h) (fst (spec_feed z (watch_set watch) ms (Map.empty, stats_default))) \<and>
            mh_stats h = snd (spec_feed z (watch_set watch) ms (Map.empty, stats_default))))))"
proof -
  let ?st = "spec_feed z (watch_set watch) ms (Map.empty, stats_default)"
  have fit: "vr_fits (mh_registry (app_handler_new vec_registry watch [])) l"
    if "l \<in> directory_locates z (watch_set watch) ms" for l
    using assms(8) that by (simp add: new_fits)
  show ?thesis
  proof (rule vrc.session_run [OF assms(1-7) vrc.new_handler_rel [of watch, folded watch_set_def] fit])
    show "books_match vec_registry (mh_registry h) (fst ?st) \<and> mh_stats h = snd ?st"
      if "vrc.handler_rel (length ms) (watch_set watch) h ?st" for h
      using that books_match_vec [of "length ms" "watch_set watch" h "fst ?st" "snd ?st"]
      by (simp add: vrc.handler_rel_def)
  qed
qed

theorem pipeline_end_to_end_witness:
  "\<exists>cmds. server_thread (\<lambda>k m. 1) [] (frames sample_bodies @ [0]) 100 = Some cmds \<and>
    (\<forall>es. replay_events cmds es \<longrightarrow>
      (\<exists>st pkts. sender_loop 508 (server_start ''SESSION'' 1) es = Some (st, pkts) \<and>
        (\<forall>ds. map (\<lambda>d. Datagram_bytes (fst d)) ds = map Some pkts \<longrightarrow>
          (\<exists>h net effs. app_run zerocopy_std vec_registry (app_handler_new vec_registry None []) net_default ds =
              Some (h, net, effs) \<and> no_errors net \<and>
            books_match vec_registry (mh_registry h) [7 \<mapsto> (wire_symbol ''AAPL'', [sample_order])] \<and>
            mh_stats h = inc_executed (inc_added (inc_directory stats_default))))))"
proof -
  have "rng_ok (\<lambda>k m. 1)" by (simp add: rng_ok_def)
  moreover have "parse_one [0] = Inl EmptyBuffer" by (simp add: parse_one_def split_at_checked_def)
  moreover have "\<forall>l \<in> directory_locates zerocopy_std (watch_set None) sample_messages. unat l < MAX_CAPACITY"
    using sample_locates by (simp add: watch_set_def MAX_CAPACITY_def)
  moreover have "length sample_messages \<le> unat NIL" by (simp add: sample_messages_def unat_NIL)
  ultimately show ?thesis
    using pipeline_end_to_end [OF zerocopy_std_ok _ _ _ sample_decodes, of "\<lambda>k m. 1" 100 "[0]" None 508 "''SESSION''" 1]
      sample_books by (simp add: watch_set_def)
qed

section \<open>The handler and the replay\<close>

text \<open>
  C4: a stream of messages builds the books of the specification. The visitor of the
  application is called for every message of the stream, panics on none, drops none, and
  what the parser leaves is the malformed tail alone; the registry then agrees with the
  specification on every locate and the counters count what was applied.
\<close>

theorem handler_builds_books:
  assumes "zerocopy_ok z" and "decodes bodies ms" and "length ms \<le> unat NIL"
    and "parse_one tail = Inl e" "tail \<noteq> []"
  shows "\<exists>h. parse_stream z (app_visitor z hash_registry) (frames bodies @ tail)
        (Some (app_handler_new hash_registry watch [])) = Some (Some h, tail, Inl e) \<and>
    books_match hash_registry (mh_registry h) (fst (spec_feed z (watch_set watch) ms (Map.empty, stats_default))) \<and>
    mh_stats h = snd (spec_feed z (watch_set watch) ms (Map.empty, stats_default))"
proof -
  let ?st = "spec_feed z (watch_set watch) ms (Map.empty, stats_default)"
  obtain h where h: "visit (app_visitor z hash_registry) ms (Some (app_handler_new hash_registry watch [])) =
      (Some h, [], Continue)" "hrc.handler_rel (0 + length ms) (watch_set watch) h ?st"
    using hrc.feed_handled [OF hrc.new_handler_rel [of watch, folded watch_set_def], of ms z] assms(3) by auto
  have "parse_stream z (app_visitor z hash_registry) tail (Some h) = Some (Some h, tail, Inl e)"
    using assms(4,5) by (subst parse_stream.simps) simp
  then have "parse_stream z (app_visitor z hash_registry) (frames bodies @ tail)
      (Some (app_handler_new hash_registry watch [])) = Some (Some h, tail, Inl e)"
    by (simp add: parse_stream_frames [OF assms(1,2) [unfolded decodes_def]] h(1))
  moreover have "books_match hash_registry (mh_registry h) (fst ?st) \<and> mh_stats h = snd ?st"
    using h(2) books_match_hash [of "0 + length ms" "watch_set watch" h "fst ?st" "snd ?st"]
    by (simp add: hrc.handler_rel_def)
  ultimately show ?thesis by blast
qed

theorem handler_builds_books_witness:
  "\<exists>h. parse_stream zerocopy_std (app_visitor zerocopy_std hash_registry) (frames sample_bodies @ [0])
        (Some (app_handler_new hash_registry None [])) = Some (Some h, [0], Inl EmptyBuffer) \<and>
    books_match hash_registry (mh_registry h) [7 \<mapsto> (wire_symbol ''AAPL'', [sample_order])] \<and>
    mh_stats h = inc_executed (inc_added (inc_directory stats_default))"
proof -
  have "parse_one [0] = Inl EmptyBuffer" by (simp add: parse_one_def split_at_checked_def)
  moreover have "length sample_messages \<le> unat NIL" by (simp add: sample_messages_def unat_NIL)
  ultimately show ?thesis
    using handler_builds_books [OF zerocopy_std_ok sample_decodes, of "[0]" EmptyBuffer None] sample_books
    by (simp add: watch_set_def)
qed

text \<open>
  C28: a raised shutdown flag stops the handler promptly. The flag is polled once in 256
  messages of the handled kinds, so after at most 256 of those, counted from the last poll,
  the visitor breaks, whatever the messages are, and the parser hands the rest back.
\<close>

theorem shutdown_prompt:
  assumes "mh_shutdown h = True # fs" and "256 - unat (mh_tick h) mod 256 \<le> length (filter polls ms)"
  shows "\<exists>s left. visit (app_visitor z R) ms (Some h) = (s, left, Break) \<and>
    length (filter polls ms) \<le> length (filter polls left) + (256 - unat (mh_tick h) mod 256)"
  by (rule shutdown_within [OF assms])

theorem shutdown_prompt_witness:
  "\<exists>s left. visit (app_visitor zerocopy_std hash_registry)
      (replicate 300 (M_OrderDelete (OrderDelete_view sample_delete)))
      (Some (app_handler_new hash_registry None [True])) = (s, left, Break) \<and> 44 \<le> length (filter polls left)"
proof -
  have "mh_shutdown (app_handler_new hash_registry None [True]) = True # []" "mh_tick (app_handler_new hash_registry None [True]) = 0"
    by (simp_all add: app_handler_new_def)
  then show ?thesis
    using shutdown_prompt [of "app_handler_new hash_registry None [True]" "[]"
        "replicate 300 (M_OrderDelete (OrderDelete_view sample_delete))" zerocopy_std hash_registry]
    by simp
qed

text \<open>
  C14: the replay hands the server every message of the file before the shutdown once, in
  order, in batches that are never empty and never larger than the configured maximum, and
  its counters are the messages, batches and bytes handed over. It stops at the first
  malformed frame.  Every command is a \<open>Send\<close>: the batches that the README says are dropped now
  and then for the re-request path are not there, the replay never calls \<open>send_dropped\<close>.
\<close>

theorem replay_sends_file:
  assumes "rng_ok rng" and "1 \<le> limit" and "\<forall>b \<in> set bodies. good_body b"
    and "tail = [] \<or> (\<exists>e. parse_one tail = Inl e)"
  shows "\<exists>c cmds. replay rng flag (frames bodies @ tail) limit = Some (c, cmds) \<and>
    list_all (batch_in limit) cmds \<and> sent_messages cmds = before_shutdown flag bodies \<and>
    rc_parsed c = of_nat (length (sent_messages cmds)) \<and> rc_sent c = of_nat (length (sent_messages cmds)) \<and>
    rc_flush_count c = of_nat (length cmds) \<and> rc_bytes_processed c = length (frames (sent_messages cmds))"
  by (rule replay_ok [OF assms])

theorem replay_sends_file_witness:
  "\<exists>c cmds. replay (\<lambda>k m. m) [False, False, True] (frames sample_bodies) 2 = Some (c, cmds) \<and>
    sent_messages cmds = [sample_directory, sample_add] \<and> rc_parsed c = 2 \<and> list_all (batch_in 2) cmds"
proof -
  have "rng_ok (\<lambda>k m. m)" by (simp add: rng_ok_def)
  moreover have "\<forall>b \<in> set sample_bodies. good_body b" using decodes_good [OF sample_decodes] .
  ultimately show ?thesis
    using replay_sends_file [of "\<lambda>k m. m" 2 sample_bodies "[]" "[False, False, True]"]
    by (auto simp: sample_bodies_def)
qed

section \<open>Reports\<close>

text \<open>
  A report describes the feed. After any sequence of messages the report lists every
  registered locate once with its symbol, best prices, spread and mid where both sides rest,
  and the first levels of each side from the touch outward with exact totals, as the
  specification has them, in either format.
\<close>

theorem report_matches_feed:
  assumes "visit (app_visitor z hash_registry) ms (Some (app_handler_new hash_registry watch [])) = (Some h, [], Continue)"
    and "length ms \<le> unat NIL"
  shows "\<exists>sn. report_write hash_registry h fmt n = Some (ReportFormat_write fmt sn) \<and>
    snapshot_ok n (fst (spec_feed z (watch_set watch) ms (Map.empty, stats_default)))
      (snd (spec_feed z (watch_set watch) ms (Map.empty, stats_default))) sn"
proof -
  let ?st = "spec_feed z (watch_set watch) ms (Map.empty, stats_default)"
  have "hrc.handler_rel (0 + length ms) (watch_set watch) h (fst ?st, snd ?st)"
    using hrc.feed_handled [OF hrc.new_handler_rel [of watch, folded watch_set_def], of ms z] assms by auto
  from hrc.snapshot_handler [OF this, of n] show ?thesis by (auto simp: report_write_def)
qed

theorem report_matches_feed_witness:
  "\<exists>h sn. visit (app_visitor zerocopy_std hash_registry) sample_messages (Some (app_handler_new hash_registry None [])) =
      (Some h, [], Continue) \<and>
    report_write hash_registry h Tsv 5 = Some (TsvFormatter_write sn) \<and>
    snapshot_ok 5 [7 \<mapsto> (wire_symbol ''AAPL'', [sample_order])] (inc_executed (inc_added (inc_directory stats_default))) sn"
proof -
  have n: "length sample_messages \<le> unat NIL" by (simp add: sample_messages_def unat_NIL)
  obtain h where h: "visit (app_visitor zerocopy_std hash_registry) sample_messages
      (Some (app_handler_new hash_registry None [])) = (Some h, [], Continue)"
    using hrc.feed_handled [OF hrc.new_handler_rel [of None], of sample_messages zerocopy_std] n by auto
  then show ?thesis
    using report_matches_feed [OF h n, of Tsv 5] sample_books by (simp add: watch_set_def)
qed

definition sample_summary :: BookSummary where
  "sample_summary =
     \<lparr>bs_locate = 7, bs_symbol = wire_symbol ''AAPL'', bs_best_bid = Some (px 1500000, 70), bs_best_ask = None,
      bs_spread = None, bs_mid = None, bs_depth = ([(px 1500000, 70)], [])\<rparr>"

definition sample_snapshot :: Snapshot where
  "sample_snapshot = \<lparr>sn_stats = stats_default, sn_depth_levels = 5, sn_books = [sample_summary, sample_summary]\<rparr>"

lemma sample_symbol: "trim_end (Symbol_as_str (wire_symbol ''AAPL'')) = ''AAPL''"
proof -
  have "utf8_valid (ascii_bytes (''AAPL'' @ replicate 4 CHR '' ''))"
    by (rule utf8_valid_ascii) (simp add: ascii_bytes_def ascii_def)
  then have "Symbol_as_str (wire_symbol ''AAPL'') = ''AAPL'' @ replicate 4 CHR '' ''"
    by (simp add: wire_symbol_def Symbol_as_str_def from_utf8_def)
  then show ?thesis by (simp only: trim_end_spaces) (simp add: trim_end_visible)
qed

text \<open>
  C29: the JSON report is the text of a JSON document: one object with the statistics, the
  number of levels and an array of books, every number and field in its place, provided no
  symbol holds a character that JSON must escape (the writer escapes nothing).
\<close>

theorem json_report_valid:
  assumes "\<forall>b \<in> set (sn_books s). plain (trim_end (Symbol_as_str (bs_symbol b)))"
  shows "ReportFormat_write Json s = json_text (snapshot_json s) @ NEWLINE"
  using snapshot_text [OF assms] by simp

theorem json_report_valid_witness:
  "ReportFormat_write Json sample_snapshot = json_text (snapshot_json sample_snapshot) @ NEWLINE"
  by (rule json_report_valid) (simp add: sample_snapshot_def sample_summary_def sample_symbol plain_def)

text \<open>
  The table reads back by columns. Splitting the text at newlines and tabs gives the
  header and one row of six fields per book, each the field its header names.
\<close>

theorem tsv_report_columns:
  assumes "\<forall>b \<in> set (sn_books s). cell (trim_end (Symbol_as_str (bs_symbol b)))"
  shows "map (split_on (CHR 0x09)) (butlast (split_on (CHR 0x0A) (ReportFormat_write Tsv s))) =
    header_fields s # map row_fields (sn_books s)"
  using tsv_cells [OF assms] by simp

theorem tsv_report_columns_witness:
  "map (split_on (CHR 0x09)) (butlast (split_on (CHR 0x0A) (ReportFormat_write Tsv sample_snapshot))) =
    header_fields sample_snapshot # map row_fields [sample_summary, sample_summary]"
  using tsv_report_columns [of sample_snapshot] by (simp add: sample_snapshot_def sample_summary_def sample_symbol)

section \<open>The terminal interface\<close>

text \<open>
  The interface never panics. Whatever frames, resizes and keys the event loop meets, it
  returns, and in the state it leaves the selected row, if any, is a listed symbol, the one
  whose locate is remembered.
\<close>

theorem tui_never_panics:
  assumes "list_state_ok L" and "\<forall>t \<in> set ts. \<forall>n h. ut_frame t = Some (n, h) \<longrightarrow> hr_valid (mh_registry h)"
  shows "\<exists>app quit. event_loop L hash_registry up (App_new L) ts = Some (app, quit) \<and>
    (\<forall>s. ls_selected L (ap_list_state app) = Some s \<longrightarrow>
      (\<exists>l sym. App_symbol_at app s = Some (l, sym) \<and> ap_selected_locate app = Some l))"
proof -
  from hrc.event_loop_reaches [OF assms(1) reaches.start assms(2)] obtain app quit where
    run: "event_loop L hash_registry up (App_new L) ts = Some (app, quit)" and
    r: "reaches L hash_registry hr_valid up app" by blast
  from hrc.reaches_ok [OF assms(1) r] have "cache_ok app" and "selection_ok L app" by simp_all
  from selected_symbol [OF this] run show ?thesis by blast
qed

theorem tui_never_panics_witness:
  "\<exists>app quit. event_loop list_state_std hash_registry (\<lambda>c. [c]) (App_new list_state_std)
     [\<lparr>ut_shutdown = False, ut_frame = Some (24, app_handler_new hash_registry None []),
       ut_key = Some \<lparr>ke_release = False, ke_control = False, ke_code = KPageUp\<rparr>\<rparr>] = Some (app, quit)"
proof -
  let ?ts = "[\<lparr>ut_shutdown = False, ut_frame = Some (24, app_handler_new hash_registry None []),
      ut_key = Some \<lparr>ke_release = False, ke_control = False, ke_code = KPageUp\<rparr>\<rparr>]"
  have "\<forall>t \<in> set ?ts. \<forall>n h. ut_frame t = Some (n, h) \<longrightarrow> hr_valid (mh_registry h)"
    by (simp add: app_handler_new_def hash_registry_def hr.valid_new)
  from tui_never_panics [OF list_state_std_ok this] show ?thesis by blast
qed

text \<open>
  The ladder has one row per price that rests on either side, highest first, with the
  quantities of both sides at that price, cut to the rows there is room for.
\<close>

theorem ladder_rows_correct:
  assumes "distinct (map fst (dl_bids d))" and "distinct (map fst (dl_asks d))"
  shows "sorted_wrt (\<lambda>x y. lr_price y < lr_price x) (build_ladder d n) \<and>
    length (build_ladder d n) = min n (card (ladder_prices d)) \<and>
    (\<forall>row \<in> set (build_ladder d n). lr_price row \<in> ladder_prices d \<and>
      lr_bid row = map_of (dl_bids d) (lr_price row) \<and> lr_ask row = map_of (dl_asks d) (lr_price row)) \<and>
    (\<forall>p \<in> ladder_prices d - lr_price ` set (build_ladder d n). \<forall>row \<in> set (build_ladder d n). p < lr_price row)"
  using build_ladder_ok [OF assms] by blast

theorem ladder_rows_correct_witness:
  "length (build_ladder \<lparr>dl_bids = [(px 3, 5), (px 2, 7)], dl_asks = [(px 3, 1)]\<rparr> 9) =
     card (ladder_prices \<lparr>dl_bids = [(px 3, 5), (px 2, 7)], dl_asks = [(px 3, 1)]\<rparr>)"
proof -
  let ?d = "\<lparr>dl_bids = [(px 3, 5), (px 2, 7)], dl_asks = [(px 3, 1)]\<rparr>"
  have "px 3 \<noteq> px 2" by (simp add: px_def i64_of_u32_def)
  moreover have "card (ladder_prices ?d) \<le> 9"
    by (rule order.trans [OF card_mono [of "{px 3, px 2}"]]) (auto simp: ladder_prices_def card_insert_if)
  ultimately show ?thesis using ladder_rows_correct [of ?d 9] by auto
qed

text \<open>
  A displayed price that is not negative reads back as the price: the whole part, a point
  and exactly four digits. A price between minus one and zero (in dollars) is displayed as
  its absolute value: the sign is lost.
\<close>

theorem price_text:
  "(0 \<le> i64_val p \<longrightarrow>
     (\<exists>w f. ui_price p = w @ ''.'' @ f \<and> length f = 4 \<and> read_nat w * 10000 + read_nat f = nat (i64_val p))) \<and>
   (- 10000 < i64_val p \<and> i64_val p < 0 \<and> i64_val q = - i64_val p \<longrightarrow> ui_price p = ui_price q)"
  using price_reads_back [of p] ui_price_sign_lost [of p q] by blast

theorem price_text_witness:
  "ui_price (I64 (- 5)) = ui_price (I64 5) \<and>
   (\<exists>w f. ui_price (px 1500000) = w @ ''.'' @ f \<and> length f = 4 \<and> read_nat w * 10000 + read_nat f = 1500000)"
  using price_text [of "I64 (- 5)" "I64 5"] price_text [of "px 1500000" "I64 5"]
  by (simp add: i64_val_def px_def i64_of_u32_def)

end
