(* ===== verification/App_Live.thy ===== *)
theory App_Live
  imports App_System Tui_Props "HOL-Library.Sublist"
begin

text \<open>
  The interface beside the feed: the receive loop applies messages, the interface takes the
  handler's lock between them, refreshes and handles keys, in any order.  Its cache of symbols is
  reloaded only when the count of directory messages has moved; here it is shown to be current
  at every refresh, and the screen to agree with the specification of the feed so far: which
  books are listed and in which order, with which prices and depth, is said here in terms of the
  specification's books alone.
\<close>

section \<open>Symbols change with directory messages only\<close>

definition listed :: "abooks \<Rightarrow> (u16 \<times> Symbol) set" where
  "listed A = {(l, s). \<exists>os. A l = Some (s, os)}"

definition directory_count :: "itch_message list \<Rightarrow> nat" where
  "directory_count ms = length (filter is_directory ms)"

lemma directory_count_simps [simp]:
  "directory_count [] = 0" "directory_count (ms @ ns) = directory_count ms + directory_count ns"
  "directory_count (m # ms) = (if is_directory m then 1 else 0) + directory_count ms"
  by (simp_all add: directory_count_def)

lemma directory_count_le: "directory_count ms \<le> length ms"
  by (simp add: directory_count_def)

lemma listed_same_symbol: "A l = Some (s, os) \<Longrightarrow> listed (A(l \<mapsto> (s, os'))) = listed A"
  by (auto simp: listed_def split: if_splits)

lemma spec_op_listed: "listed (fst (spec_op p st)) = listed (fst st)"
  by (auto simp: spec_op_def listed_same_symbol split: prod.split option.split sum.split)

lemma message_op_counts:
  "message_op z m = Some (l, co, inc) \<Longrightarrow> stock_directory_msgs (inc s) = stock_directory_msgs s"
  by (cases m) (auto simp: add_op_def inc_added_def inc_executed_def inc_cancelled_def inc_deleted_def inc_replaced_def)

lemma spec_op_count:
  "message_op z m = Some p \<Longrightarrow> stock_directory_msgs (snd (spec_op p st)) = stock_directory_msgs (snd st)"
  using message_op_counts
  by (cases p) (auto simp: spec_op_def inc_skipped_def split: prod.split option.split sum.split)

lemma spec_message_listed:
  "\<not> is_directory m \<Longrightarrow> listed (fst (spec_message z w m st)) = listed (fst st)"
  by (simp add: spec_message_def spec_op_listed split: option.split)

lemma spec_message_count:
  "stock_directory_msgs (snd (spec_message z w m st)) = stock_directory_msgs (snd st) + (if is_directory m then 1 else 0)"
  by (auto simp: spec_message_def inc_directory_def spec_op_count split: option.split)

lemma spec_feed_listed: "directory_count ms = 0 \<Longrightarrow> listed (fst (spec_feed z w ms st)) = listed (fst st)"
  by (induction ms arbitrary: st) (auto simp: spec_message_listed split: if_splits)

lemma spec_feed_count:
  "stock_directory_msgs (snd (spec_feed z w ms st)) = stock_directory_msgs (snd st) + of_nat (directory_count ms)"
  by (induction ms arbitrary: st) (auto simp: spec_message_count)

section \<open>What a refresh does to the cache\<close>

lemma refresh_selection_frame:
  "refresh_selection L app = Some app' \<Longrightarrow>
   ap_symbols app' = ap_symbols app \<and> ap_last_directory_msgs app' = ap_last_directory_msgs app"
  by (auto simp: refresh_selection_def Let_def bind_eq_Some_conv)

lemma refresh_rows_frame:
  "refresh_rows L R h app = Some app' \<Longrightarrow>
   ap_symbols app' = ap_symbols app \<and> ap_last_directory_msgs app' = ap_last_directory_msgs app"
  by (auto simp: refresh_rows_def Let_def bind_eq_Some_conv)

lemma App_refresh_frame:
  assumes "App_refresh L R h app = Some app'"
  shows "\<exists>a. refresh_symbols R h app = Some a \<and> ap_symbols app' = ap_symbols a \<and>
    ap_last_directory_msgs app' = ap_last_directory_msgs a"
  using assms
  by (auto simp: App_refresh_def bind_eq_Some_conv refresh_depth_def Let_def
      dest!: refresh_selection_frame refresh_rows_frame)

lemma move_to_frame:
  "move_to L app i = Some app' \<Longrightarrow>
   ap_symbols app' = ap_symbols app \<and> ap_last_directory_msgs app' = ap_last_directory_msgs app"
  by (auto simp: move_to_def Let_def bind_eq_Some_conv split: option.splits)

lemma move_selection_frame:
  "move_selection L app d = Some app' \<Longrightarrow>
   ap_symbols app' = ap_symbols app \<and> ap_last_directory_msgs app' = ap_last_directory_msgs app"
  by (auto simp: move_selection_def Let_def dest: move_to_frame split: if_splits)

lemma handle_key_frame:
  "handle_key L up app k = Some (app', quit) \<Longrightarrow>
   ap_symbols app' = ap_symbols app \<and> ap_last_directory_msgs app' = ap_last_directory_msgs app"
  by (auto simp: handle_key_def handle_key_normal_def handle_key_filter_def Let_def
      dest: move_to_frame move_selection_frame split: if_splits Mode.splits KeyCode.splits)

section \<open>The list\<close>

text \<open>The entries that match a text typed, and the list that shows them.\<close>

definition matches :: "string \<Rightarrow> u16 \<times> Symbol \<Rightarrow> bool" where
  "matches needle e \<longleftrightarrow> prefix needle (trim_end (Symbol_as_str (snd e)))"

lemma starts_with_prefix: "starts_with s needle \<longleftrightarrow> prefix needle s"
  by (metis append_eq_conv_conj prefix_def starts_with_def)

lemma matching_entries: "map (\<lambda>i. es ! (i - k)) (matching_from needle k es) = filter (matches needle) es"
proof (induction needle k es rule: matching_from.induct)
  case (2 needle k l symbol es)
  have "map (\<lambda>i. ((l, symbol) # es) ! (i - k)) (matching_from needle (k + 1) es) =
      map (\<lambda>i. es ! (i - (k + 1))) (matching_from needle (k + 1) es)"
    using matching_bounds [of _ needle "k + 1" es] by (intro map_cong refl) (fastforce simp: nth_Cons' Suc_diff_Suc)
  with 2 show ?case by (simp add: matches_def starts_with_prefix del: map_eq_conv)
qed simp

definition in_symbol_order :: "(u16 \<times> Symbol) list \<Rightarrow> bool" where
  "in_symbol_order es \<longleftrightarrow> distinct (map fst es) \<and> sorted (map (\<lambda>e. Symbol_to_u64 (snd e)) es)"

lemma sort_key_order: "distinct (map fst es) \<Longrightarrow> in_symbol_order (sort_key (\<lambda>e. Symbol_to_u64 (snd e)) es)"
  by (simp add: in_symbol_order_def distinct_map)

section \<open>The feed and the interface\<close>

text \<open>
  The states of the interface together with the messages applied so far: a message is applied,
  the terminal is resized, a frame is due and the interface reads the handler those messages
  have made, or a key is pressed.
\<close>

inductive ui_run ::
  "'l list_state \<Rightarrow> 'r registry_impl \<Rightarrow> zerocopy \<Rightarrow> (string \<Rightarrow> string list) \<Rightarrow> Symbol list option \<Rightarrow>
   'l App \<Rightarrow> itch_message list \<Rightarrow> bool"
  for L :: "'l list_state" and R :: "'r registry_impl" and z :: zerocopy and up :: "string \<Rightarrow> string list"
    and watch :: "Symbol list option" where
  start: "ui_run L R z up watch (App_new L) []"
| apply_message: "ui_run L R z up watch app ms \<Longrightarrow> ui_run L R z up watch app (ms @ [m])"
| resize: "ui_run L R z up watch app ms \<Longrightarrow> ui_run L R z up watch (App_set_viewport app (viewport_for height)) ms"
| frame: "ui_run L R z up watch app ms \<Longrightarrow>
    visit (app_visitor z R) ms (Some (app_handler_new R watch [])) = (Some h, [], Continue) \<Longrightarrow>
    App_refresh L R h app = Some app' \<Longrightarrow> ui_run L R z up watch app' ms"
| press: "ui_run L R z up watch app ms \<Longrightarrow> handle_key L up app k = Some (app', quit) \<Longrightarrow> ui_run L R z up watch app' ms"

text \<open>A row of the list, and the ladder, as the abstract book has them.\<close>

definition row_shows :: "Symbol \<Rightarrow> abook \<Rightarrow> VisibleRow \<Rightarrow> bool" where
  "row_shows s os row \<longleftrightarrow>
     vw_symbol row = s \<and> vw_orders row = length os \<and>
     map_option qty_nat (vw_best_bid row) = bt_last (ladder os Bid) \<and>
     map_option qty_nat (vw_best_ask row) = bt_first (ladder os Ask)"

definition ladder_shows :: "nat \<Rightarrow> abook \<Rightarrow> DepthLadder \<Rightarrow> bool" where
  "ladder_shows n os d \<longleftrightarrow>
     map qty_nat (dl_bids d) = take n (rev (ladder os Bid)) \<and> map qty_nat (dl_asks d) = take n (ladder os Ask)"

definition screen_shows :: "abooks \<Rightarrow> 'l App \<Rightarrow> bool" where
  "screen_shows A app \<longleftrightarrow>
     set (ap_symbols app) = listed A \<and>
     (\<forall>row \<in> set (ap_visible_rows app). \<exists>l s os. A l = Some (s, os) \<and> row_shows s os row) \<and>
     (\<forall>l. ap_selected_locate app = Some l \<longrightarrow>
        (\<forall>s os. A l = Some (s, os) \<longrightarrow> ladder_shows ((ladder_rows (ap_viewport app) + 1) div 2) os (ap_depth app)))"

text \<open>
  A frame that follows a state with a text typed and a symbol selected: the entries are the listed
  symbols that match, in symbol order; the rows are those of the entries from the first one shown,
  as many as there is room for; the selection names the entry selected before, or the first when that
  is not listed any more, and is among the rows; and the ladder is that of the selected book.
\<close>

definition selects :: "u16 option \<Rightarrow> (u16 \<times> Symbol) list \<Rightarrow> nat option \<Rightarrow> bool" where
  "selects before entries sel \<longleftrightarrow>
     (case sel of
        None \<Rightarrow> entries = []
      | Some s \<Rightarrow> s < length entries \<and>
          (if before \<in> Some ` fst ` set entries then before = Some (fst (entries ! s)) else s = 0))"

definition frame_window :: "'l list_state \<Rightarrow> abooks \<Rightarrow> 'l App \<Rightarrow> 'l App \<Rightarrow> bool" where
  "frame_window L A app app' \<longleftrightarrow>
     (let entries = filter (matches (concat (ap_filter app))) (ap_symbols app');
          height = list_height (ap_viewport app);
          first = ls_offset L (ap_list_state app');
          sel = ls_selected L (ap_list_state app')
      in set (ap_symbols app') = listed A \<and> in_symbol_order (ap_symbols app') \<and>
         list_all2 (\<lambda>e row. \<exists>os. A (fst e) = Some (snd e, os) \<and> row_shows (snd e) os row)
           (take height (drop first entries)) (ap_visible_rows app') \<and>
         length (ap_visible_rows app') = min height (length entries) \<and>
         selects (ap_selected_locate app) entries sel \<and>
         (\<forall>s. sel = Some s \<longrightarrow> ap_selected_locate app' = Some (fst (entries ! s)) \<and>
            (0 < height \<longrightarrow> first \<le> s \<and> s < first + height) \<and>
            (\<exists>os. A (fst (entries ! s)) = Some (snd (entries ! s), os) \<and>
               ladder_shows ((ladder_rows (ap_viewport app) + 1) div 2) os (ap_depth app'))) \<and>
         (sel = None \<longrightarrow> ap_depth app' = \<lparr>dl_bids = [], dl_asks = []\<rparr>))"

context registry_client
begin

abbreviation feed :: "zerocopy \<Rightarrow> Symbol list option \<Rightarrow> itch_message list \<Rightarrow> abooks \<times> HandlerStats" where
  "feed z watch ms \<equiv> spec_feed z (map_option (\<lambda>ss. Symbol_to_u64 ` set ss) watch) ms (Map.empty, stats_default)"

definition feed_ok :: "zerocopy \<Rightarrow> Symbol list option \<Rightarrow> itch_message list \<Rightarrow> bool" where
  "feed_ok z watch ms \<longleftrightarrow> length ms \<le> unat NIL \<and>
     (\<forall>l \<in> directory_locates z (map_option (\<lambda>ss. Symbol_to_u64 ` set ss) watch) ms. fits (mh_registry (app_handler_new R watch [])) l)"

lemma feed_ok_prefix: "feed_ok z watch (ms @ ns) \<Longrightarrow> feed_ok z watch ms"
  by (auto simp: feed_ok_def directory_locates_def)

lemma visited_handler:
  assumes "feed_ok z watch ms"
    and "visit (app_visitor z R) ms (Some (app_handler_new R watch [])) = (Some h, [], Continue)"
  shows "handler_rel (length ms) (map_option (\<lambda>ss. Symbol_to_u64 ` set ss) watch) h (feed z watch ms)"
  using feed_handled [OF new_handler_rel [of watch], of ms z] assms by (auto simp: feed_ok_def directory_locates_def)

lemma handler_listed:
  assumes "handler_rel n w h (A, st)" and "iter (mh_registry h) = Some es"
  shows "(\<lambda>(l, s, b). (l, s)) ` set es = listed A"
proof -
  from assms(1) have v: "valid (mh_registry h)" and r: "\<And>l. rel_option (book_rel n) (view (mh_registry h) l) (A l)"
    by (simp_all add: handler_rel_def books_rel_def)
  from iter_ok [OF v] assms(2) have es: "\<And>l s b. (l, s, b) \<in> set es \<longleftrightarrow> view (mh_registry h) l = Some (s, b)" by auto
  have "(\<exists>b. view (mh_registry h) l = Some (s, b)) \<longleftrightarrow> (\<exists>os. A l = Some (s, os))" for l s
    using r [of l] by (cases "view (mh_registry h) l"; cases "A l") (auto simp: book_rel_def)
  moreover have "(\<lambda>(l, s, b). (l, s)) ` set es = {(l, s). \<exists>b. (l, s, b) \<in> set es}" by force
  ultimately show ?thesis by (simp add: listed_def es)
qed

text \<open>The cached symbols are those of some prefix of the feed, with its count.\<close>

definition cached_at :: "zerocopy \<Rightarrow> Symbol list option \<Rightarrow> 'l App \<Rightarrow> itch_message list \<Rightarrow> bool" where
  "cached_at z watch app ms \<longleftrightarrow>
     (\<exists>ms0 rest. ms = ms0 @ rest \<and> ap_last_directory_msgs app = of_nat (directory_count ms0) \<and>
        set (ap_symbols app) = listed (fst (feed z watch ms0)) \<and> in_symbol_order (ap_symbols app))"

lemma refresh_symbols_current:
  assumes c: "cached_at z watch app ms" and ok: "feed_ok z watch ms"
    and rel: "handler_rel (length ms) (map_option (\<lambda>ss. Symbol_to_u64 ` set ss) watch) h (feed z watch ms)"
    and r: "refresh_symbols R h app = Some a"
  shows "set (ap_symbols a) = listed (fst (feed z watch ms))"
    and "ap_last_directory_msgs a = of_nat (directory_count ms)" and "in_symbol_order (ap_symbols a)"
proof -
  have st: "stock_directory_msgs (mh_stats h) = of_nat (directory_count ms)"
    using rel spec_feed_count [of z _ ms "(Map.empty, stats_default)"] by (simp add: handler_rel_def stats_default_def)
  have "set (ap_symbols a) = listed (fst (feed z watch ms)) \<and> ap_last_directory_msgs a = of_nat (directory_count ms) \<and>
      in_symbol_order (ap_symbols a)"
  proof (cases "stock_directory_msgs (mh_stats h) = ap_last_directory_msgs app")
    case True
    from c obtain ms0 rest where m: "ms = ms0 @ rest" "ap_last_directory_msgs app = of_nat (directory_count ms0)"
      "set (ap_symbols app) = listed (fst (feed z watch ms0))" "in_symbol_order (ap_symbols app)"
      by (auto simp: cached_at_def)
    have small: "directory_count ms < 2 ^ 64"
      using ok directory_count_le [of ms] by (simp add: feed_ok_def unat_NIL)
    then have "directory_count ms = directory_count ms0"
      using True st m unat_u64_of_nat [of "directory_count ms"] unat_u64_of_nat [of "directory_count ms0"] by simp
    then have "directory_count rest = 0" using m(1) by simp
    then have "set (ap_symbols app) = listed (fst (feed z watch ms))"
      using spec_feed_listed [of rest] m(1,3) by (simp add: spec_feed_append)
    moreover have "ap_symbols a = ap_symbols app" "ap_last_directory_msgs a = ap_last_directory_msgs app"
      using r True by (auto simp: refresh_symbols_def Let_def rebuild_filtered_def split: if_splits)
    ultimately show ?thesis using True st m(4) by simp
  next
    case False
    obtain es where es: "iter (mh_registry h) = Some es" "distinct (map fst es)"
      using rel iter_ok [of "mh_registry h"] unfolding handler_rel_def by blast
    have a: "ap_symbols a = sort_key (\<lambda>e. Symbol_to_u64 (snd e)) (map (\<lambda>(l, s, b). (l, s)) es)"
      "ap_last_directory_msgs a = stock_directory_msgs (mh_stats h)"
      using r False es(1) by (auto simp: refresh_symbols_def Let_def rebuild_filtered_def impl_iter split: if_splits)
    have "set (ap_symbols a) = (\<lambda>(l, s, b). (l, s)) ` set es" by (simp only: a(1) set_sort set_map)
    moreover have "map fst (map (\<lambda>(l, s, b). (l, s)) es) = map fst es" by (simp add: case_prod_beta)
    then have "in_symbol_order (ap_symbols a)" unfolding a(1) using es(2) by (intro sort_key_order) metis
    ultimately show ?thesis using a(2) handler_listed [OF _ es(1)] rel st by (metis prod.collapse)
  qed
  then show "set (ap_symbols a) = listed (fst (feed z watch ms))"
    "ap_last_directory_msgs a = of_nat (directory_count ms)" "in_symbol_order (ap_symbols a)" by simp_all
qed

lemma ui_run_cached:
  assumes L: "list_state_ok L"
  shows "ui_run L R z up watch app ms \<Longrightarrow> feed_ok z watch ms \<Longrightarrow> cached_at z watch app ms \<and> reaches L R valid up app"
proof (induction rule: ui_run.induct)
  case start
  have "cached_at z watch (App_new L) []"
    by (auto simp: cached_at_def App_new_def listed_def in_symbol_order_def)
  then show ?case by (auto intro: reaches.start)
next
  case (apply_message app ms m)
  with feed_ok_prefix have "cached_at z watch app ms" "reaches L R valid up app" by blast+
  then show ?case unfolding cached_at_def by (metis append.assoc)
next
  case (resize app ms height)
  then show ?case by (auto simp: cached_at_def App_set_viewport_def intro: reaches.resize [unfolded App_set_viewport_def])
next
  case (frame app ms h app')
  then have c: "cached_at z watch app ms" "reaches L R valid up app" by blast+
  note rel = visited_handler [OF frame.prems frame.hyps(2)]
  obtain a where a: "refresh_symbols R h app = Some a" "ap_symbols app' = ap_symbols a"
    "ap_last_directory_msgs app' = ap_last_directory_msgs a"
    using App_refresh_frame [OF frame.hyps(3)] by blast
  from refresh_symbols_current [OF c(1) frame.prems rel a(1)] a(2,3)
  have "cached_at z watch app' ms" unfolding cached_at_def by (intro exI [of _ ms] exI [of _ "[]"]) simp
  moreover have "valid (mh_registry h)" using rel by (simp add: handler_rel_def)
  ultimately show ?case using reaches.refresh [OF c(2) _ frame.hyps(3)] by blast
next
  case (press app ms k app' quit)
  then have "cached_at z watch app ms" "reaches L R valid up app" by blast+
  with handle_key_frame [OF press.hyps(2)] reaches.press [OF _ press.hyps(2)] show ?case
    by (simp add: cached_at_def)
qed

lemma row_shows_book:
  assumes rel: "handler_rel n w h (A, st)" and "A l = Some (s, os)"
  shows "row_shows s os (visible_row R h (l, s))"
proof -
  from handler_books [OF rel, of l] assms(2) obtain b where "get (mh_registry h) l = Some b" "book_inv b os" by auto
  then show ?thesis
    using book_best_spec [of b os] book_len_spec [of b os] by (simp add: row_shows_def visible_row_def impl_get)
qed

lemma ladder_shows_book:
  assumes rel: "handler_rel n w h (A, st)" and "A l = Some (s, os)" and "ap_selected_locate app = Some l"
  shows "ladder_shows ((ladder_rows (ap_viewport app) + 1) div 2) os (ap_depth (refresh_depth R h app))"
proof -
  from handler_books [OF rel, of l] assms(2) obtain b where "get (mh_registry h) l = Some b" "book_inv b os" by auto
  then show ?thesis
    using book_depth_spec [of b os "(ladder_rows (ap_viewport app) + 1) div 2"] assms(3)
    by (cases "book_depth b ((ladder_rows (ap_viewport app) + 1) div 2)")
      (simp add: ladder_shows_def refresh_depth_def Let_def impl_get DepthLadder_default_def)
qed

lemma frame_shows:
  assumes L: "list_state_ok L" and run: "ui_run L R z up watch app ms" and ok: "feed_ok z watch ms"
    and h: "visit (app_visitor z R) ms (Some (app_handler_new R watch [])) = (Some h, [], Continue)"
  shows "\<exists>app'. App_refresh L R h app = Some app' \<and> screen_shows (fst (feed z watch ms)) app'"
proof -
  let ?A = "fst (feed z watch ms)"
  note rel = visited_handler [OF ok h]
  then have rel': "handler_rel (length ms) (map_option (\<lambda>ss. Symbol_to_u64 ` set ss) watch) h (?A, snd (feed z watch ms))" by simp
  from ui_run_cached [OF L run ok] have c: "cached_at z watch app ms" and r: "reaches L R valid up app" by blast+
  from rel have "valid (mh_registry h)" by (simp add: handler_rel_def)
  from App_refresh_ok [OF L this] reaches_ok [OF L r] obtain app' where
    app': "App_refresh L R h app = Some app'" "cache_ok app'" "refreshed L R h app app'" by blast
  obtain a where a: "refresh_symbols R h app = Some a" "ap_symbols app' = ap_symbols a"
    using App_refresh_frame [OF app'(1)] by blast
  have syms: "set (ap_symbols app') = listed ?A"
    using refresh_symbols_current(1) [OF c ok rel a(1)] a(2) by simp
  have "\<exists>l s os. ?A l = Some (s, os) \<and> row_shows s os (visible_row R h (ap_symbols app' ! i))"
    if "i \<in> set (ap_filtered app')" for i
  proof -
    have "ap_symbols app' ! i \<in> set (ap_symbols app')" using cache_bounds(1) [OF app'(2) that] by simp
    then obtain l s os where "ap_symbols app' ! i = (l, s)" "?A l = Some (s, os)"
      by (auto simp: syms listed_def)
    then show ?thesis using row_shows_book [OF rel'] by metis
  qed
  then have "\<forall>row \<in> set (ap_visible_rows app'). \<exists>l s os. ?A l = Some (s, os) \<and> row_shows s os row"
    using app'(3) by (auto simp: refreshed_def window_ok_def Let_def dest!: in_set_takeD in_set_dropD)
  moreover have "ladder_shows ((ladder_rows (ap_viewport app') + 1) div 2) os (ap_depth app')"
    if "ap_selected_locate app' = Some l" "?A l = Some (s, os)" for l s os
    using ladder_shows_book [OF rel' that(2,1)] app'(3) by (simp add: refreshed_def)
  ultimately show ?thesis using app'(1) syms by (auto simp: screen_shows_def)
qed

lemma frame_window_shows:
  assumes L: "list_state_ok L" and run: "ui_run L R z up watch app ms" and ok: "feed_ok z watch ms"
    and h: "visit (app_visitor z R) ms (Some (app_handler_new R watch [])) = (Some h, [], Continue)"
  shows "\<exists>app'. App_refresh L R h app = Some app' \<and> frame_window L (fst (feed z watch ms)) app app'"
proof -
  let ?A = "fst (feed z watch ms)"
  note rel = visited_handler [OF ok h]
  then have rel': "handler_rel (length ms) (map_option (\<lambda>ss. Symbol_to_u64 ` set ss) watch) h (?A, snd (feed z watch ms))" by simp
  from ui_run_cached [OF L run ok] have c: "cached_at z watch app ms" and r: "reaches L R valid up app" by blast+
  from rel have "valid (mh_registry h)" by (simp add: handler_rel_def)
  from App_refresh_ok [OF L this] reaches_ok [OF L r] obtain app' where
    app': "App_refresh L R h app = Some app'" "cache_ok app'" "selection_ok L app'" "refreshed L R h app app'" by blast
  obtain a where a: "refresh_symbols R h app = Some a" "ap_symbols app' = ap_symbols a"
    using App_refresh_frame [OF app'(1)] by blast
  note syms = refresh_symbols_current [OF c ok rel a(1), folded a(2)]
  let ?es = "filter (matches (concat (ap_filter app))) (ap_symbols app')"
  let ?h = "list_height (ap_viewport app)" and ?o = "ls_offset L (ap_list_state app')"
  have es: "map (\<lambda>i. ap_symbols app' ! i) (ap_filtered app') = ?es"
    using matching_entries [of "ap_symbols app'" 0 "concat (ap_filter app)"] app'(4) by (simp add: refreshed_def)
  then have len: "length (ap_filtered app') = length ?es" by (metis length_map)
  have nth: "ap_symbols app' ! (ap_filtered app' ! s) = ?es ! s" if "s < length ?es" for s
    using that len es by (metis nth_map)
  have book: "\<exists>os. ?A (fst e) = Some (snd e, os)" if "e \<in> set ?es" for e
    using that syms(1) by (auto simp: listed_def)
  have v: "ap_viewport app' = ap_viewport app" and win: "window_ok L R h app'" and kept: "selection_kept L (ap_selected_locate app) app'"
    and depth: "ap_depth app' = ap_depth (refresh_depth R h app')"
    using app'(4) by (simp_all add: refreshed_def)
  have "ap_visible_rows app' = map (visible_row R h) (take ?h (drop ?o (map (\<lambda>i. ap_symbols app' ! i) (ap_filtered app'))))"
    using win v by (simp add: window_ok_def Let_def take_map drop_map comp_def)
  note w = this [unfolded es]
  have w2: "length (ap_visible_rows app') = min ?h (length ?es)"
    using win unfolding window_ok_def Let_def v len by blast
  have wsel: "?o \<le> s \<and> s < ?o + ?h" if "ls_selected L (ap_list_state app') = Some s" "0 < ?h" for s
    using win v that by (simp add: window_ok_def Let_def)
  have "\<exists>os. ?A (fst e) = Some (snd e, os) \<and> row_shows (snd e) os (visible_row R h e)"
    if "e \<in> set (take ?h (drop ?o ?es))" for e
    using book [of e] row_shows_book [OF rel', of "fst e" "snd e"] that
    by (metis (no_types, lifting) in_set_dropD in_set_takeD prod.collapse)
  then have rows: "list_all2 (\<lambda>e row. \<exists>os. ?A (fst e) = Some (snd e, os) \<and> row_shows (snd e) os row)
      (take ?h (drop ?o ?es)) (ap_visible_rows app')"
    unfolding w list_all2_map2 by (rule list.rel_refl_strong)
  have sel: "s < length ?es \<and> ap_selected_locate app' = Some (fst (?es ! s))"
    if "ls_selected L (ap_list_state app') = Some s" for s
    using app'(3) that len nth [of s] by (auto simp: selection_ok_def)
  have members: "fst ` set ?es = (\<lambda>i. fst (ap_symbols app' ! i)) ` set (ap_filtered app')"
    unfolding es [symmetric] by auto
  have selects: "selects (ap_selected_locate app) ?es (ls_selected L (ap_list_state app'))"
  proof (cases "ls_selected L (ap_list_state app')")
    case None
    then show ?thesis using kept len by (simp add: selects_def selection_kept_def)
  next
    case (Some s)
    have "ap_selected_locate app = Some (fst (?es ! s))" if "ap_selected_locate app \<in> Some ` fst ` set ?es"
    proof -
      from that obtain i where i: "i \<in> set (ap_filtered app')" "ap_selected_locate app = Some (fst (ap_symbols app' ! i))"
        unfolding members by blast
      with kept have "ap_selected_locate app' = ap_selected_locate app" unfolding selection_kept_def by auto
      with sel [OF Some] show ?thesis by simp
    qed
    moreover have "s = 0" if "ap_selected_locate app \<notin> Some ` fst ` set ?es"
    proof -
      have "\<forall>i \<in> set (ap_filtered app'). ap_selected_locate app \<noteq> Some (fst (ap_symbols app' ! i))"
        using that unfolding members by blast
      with kept Some show ?thesis unfolding selection_kept_def by blast
    qed
    ultimately show ?thesis using sel [OF Some] unfolding selects_def Some by simp
  qed
  have ladder: "\<exists>os. ?A (fst (?es ! s)) = Some (snd (?es ! s), os) \<and>
      ladder_shows ((ladder_rows (ap_viewport app) + 1) div 2) os (ap_depth app')"
    if s: "ls_selected L (ap_list_state app') = Some s" for s
  proof -
    obtain os where os: "?A (fst (?es ! s)) = Some (snd (?es ! s), os)" using book [OF nth_mem] sel [OF s] by blast
    from ladder_shows_book [OF rel' os, of app'] sel [OF s] os show ?thesis by (simp flip: depth add: v)
  qed
  have none: "ap_depth app' = \<lparr>dl_bids = [], dl_asks = []\<rparr>" if "ls_selected L (ap_list_state app') = None"
    using depth kept that by (simp add: selection_kept_def refresh_depth_def DepthLadder_default_def Let_def)
  from app'(1) syms(1,3) rows w2 wsel sel selects ladder none show ?thesis
    unfolding frame_window_def Let_def by (intro exI [of _ app'] conjI allI impI) simp_all
qed

end

end
