(* ===== verification/App_Terminal.thy ===== *)
theory App_Terminal
  imports App_Live
begin

text \<open>
  \<open>run\<close> of \<^verbatim>\<open>app/src/tui/mod.rs\<close> with the errors of the terminal: the set-up, the event
  loop with the clock and what the terminal answers in each turn, and the restoration.  The
  result carries the calls made on the terminal with their answers, the frames drawn, the times at
  which the handler's lock is taken, and whether the quit key raised the shutdown flag.
\<close>

section \<open>Set-up and restoration\<close>

datatype terminal_call =
    Enable_Raw_Mode | Enter_Alternate_Screen | Create_Terminal
  | Disable_Raw_Mode | Leave_Alternate_Screen | Show_Cursor

text \<open>An error is the chain of its contexts, outermost first.\<close>

type_synonym error_chain = "string list"
type_synonym answer = "string + unit"
type_synonym terminal_log = "(terminal_call \<times> answer) list"

text \<open>Calls made one after the other, each under a context, until one fails.\<close>

fun calls_in_order :: "(terminal_call \<times> string \<times> answer) list \<Rightarrow> terminal_log \<times> (error_chain + unit)" where
  "calls_in_order [] = ([], Inr ())"
| "calls_in_order ((tc, ctx, a) # cs) =
     (case a of
        Inl e \<Rightarrow> ([(tc, a)], Inl [ctx, e])
      | Inr _ \<Rightarrow> (case calls_in_order cs of (log, r) \<Rightarrow> ((tc, a) # log, r)))"

definition setup_terminal :: "answer \<times> answer \<times> answer \<Rightarrow> terminal_log \<times> (error_chain + unit)" where
  "setup_terminal os =
     (case os of (raw, enter, create) \<Rightarrow>
        calls_in_order
          [(Enable_Raw_Mode, ''enabling raw mode'', raw),
           (Enter_Alternate_Screen, ''entering alternate screen'', enter),
           (Create_Terminal, ''creating terminal'', create)])"

definition restore_terminal :: "answer \<times> answer \<times> answer \<Rightarrow> terminal_log \<times> (error_chain + unit)" where
  "restore_terminal os =
     (case os of (raw, leave, cursor) \<Rightarrow>
        calls_in_order
          [(Disable_Raw_Mode, ''disabling raw mode'', raw),
           (Leave_Alternate_Screen, ''leaving alternate screen'', leave),
           (Show_Cursor, ''showing cursor'', cursor)])"

section \<open>The event loop\<close>

text \<open>The redraw interval, in milliseconds.\<close>

definition FRAME_INTERVAL :: int where
  "FRAME_INTERVAL = 100"

text \<open>
  A turn of the loop: the shutdown flag, the clock, the size of the terminal, the number of
  datagrams the receive loop has applied when the lock is free, and the answers of \<open>draw\<close>,
  \<open>poll\<close> and \<open>read\<close>; an event that is no key reads as none.  The lock yields the handler
  after so many datagrams, or none when it is poisoned.
\<close>

record io_turn =
  it_shutdown :: bool
  it_now :: int
  it_size :: "string + u16"
  it_seen :: nat
  it_draw :: answer
  it_poll :: "string + bool"
  it_read :: "string + KeyEvent option"

text \<open>What \<open>draw\<close> is handed: the state of the interface, with the clock and the datagrams.\<close>

record 'l drawn =
  dr_time :: int
  dr_seen :: nat
  dr_app :: "'l App"

text \<open>
  \<open>handler.lock()\<close>: the handler, and the time at which the lock was taken for the record.  The
  lock is held until the end of the refresh.
\<close>

definition take_lock :: "(nat \<Rightarrow> 'h run) \<Rightarrow> io_turn \<Rightarrow> ('h \<times> int list) run" where
  "take_lock lock t = do { h \<leftarrow> lock (it_seen t); Some (h, [it_now t]) }"

text \<open>The state, the times at which the lock was taken, and the frame drawn or the error.\<close>

definition draw_frame ::
  "'l list_state \<Rightarrow> 'r registry_impl \<Rightarrow> (nat \<Rightarrow> 'r app_handler run) \<Rightarrow> 'l App \<Rightarrow> int \<Rightarrow> io_turn \<Rightarrow>
   ('l App \<times> int list \<times> (error_chain + 'l drawn list \<times> int)) run" where
  "draw_frame L R lock app last_draw t =
     (if FRAME_INTERVAL \<le> it_now t - last_draw
      then (case it_size t of
              Inl e \<Rightarrow> Some (app, [], Inl [''getting terminal size'', e])
            | Inr height \<Rightarrow> do {
                let app = App_set_viewport app (viewport_for height);
                (h, locked) \<leftarrow> take_lock lock t;
                app \<leftarrow> App_refresh L R h app;
                Some (app, locked, case it_draw t of
                    Inl e \<Rightarrow> Inl [e]
                  | Inr _ \<Rightarrow> Inr ([\<lparr>dr_time = it_now t, dr_seen = it_seen t, dr_app = app\<rparr>], it_now t))
              })
      else Some (app, [], Inr ([], last_draw)))"

definition next_key :: "io_turn \<Rightarrow> error_chain + KeyEvent option" where
  "next_key t =
     (case it_poll t of
        Inl e \<Rightarrow> Inl [e]
      | Inr ready \<Rightarrow> if ready then map_sum (\<lambda>e. [e]) id (it_read t) else Inr None)"

text \<open>
  The times at which the lock was taken, the frames drawn, the state left and the result; its value
  tells whether the loop has raised the shutdown flag.
\<close>

fun event_loop_io ::
  "'l list_state \<Rightarrow> 'r registry_impl \<Rightarrow> (string \<Rightarrow> string list) \<Rightarrow> (nat \<Rightarrow> 'r app_handler run) \<Rightarrow> 'l App \<Rightarrow> int \<Rightarrow>
   io_turn list \<Rightarrow> (int list \<times> 'l drawn list \<times> 'l App \<times> (error_chain + bool)) run" where
  "event_loop_io L R up lock app last_draw [] = Some ([], [], app, Inr False)"
| "event_loop_io L R up lock app last_draw (t # ts) =
     (if it_shutdown t then Some ([], [], app, Inr False)
      else do {
        (app, ls, res) \<leftarrow> draw_frame L R lock app last_draw t;
        (case res of
           Inl e \<Rightarrow> Some (ls, [], app, Inl e)
         | Inr (fs, last_draw) \<Rightarrow>
             (case next_key t of
                Inl e \<Rightarrow> Some (ls, fs, app, Inl e)
              | Inr key \<Rightarrow> do {
                  (app, quit) \<leftarrow> (case key of None \<Rightarrow> Some (app, False) | Some k \<Rightarrow> handle_key L up app k);
                  (if quit then Some (ls, fs, app, Inr True)
                   else do {
                     (ls', fs', app, res) \<leftarrow> event_loop_io L R up lock app last_draw ts;
                     Some (ls @ ls', fs @ fs', app, res)
                   })
                }))
      })"

text \<open>The first frame is due at once.\<close>

definition tui_run ::
  "'l list_state \<Rightarrow> 'r registry_impl \<Rightarrow> (string \<Rightarrow> string list) \<Rightarrow> (nat \<Rightarrow> 'r app_handler run) \<Rightarrow>
   answer \<times> answer \<times> answer \<Rightarrow> int \<Rightarrow> io_turn list \<Rightarrow> answer \<times> answer \<times> answer \<Rightarrow>
   (terminal_log \<times> int list \<times> 'l drawn list \<times> (error_chain + bool)) run" where
  "tui_run L R up lock setup now ts restore =
     (case setup_terminal setup of
        (log, Inl e) \<Rightarrow> Some (log, [], [], Inl (''setting up terminal'' # e))
      | (log, Inr _) \<Rightarrow> do {
          (ls, fs, _, res) \<leftarrow> event_loop_io L R up lock (App_new L) (now - FRAME_INTERVAL) ts;
          Some (log @ fst (restore_terminal restore), ls, fs, res)
        })"

section \<open>The terminal after the calls\<close>

abbreviation succeeds :: "'a + 'b \<Rightarrow> bool" where
  "succeeds a \<equiv> \<not> isl a"

text \<open>Raw mode and the alternate screen, as the calls that succeeded leave them.\<close>

fun terminal_after :: "bool \<times> bool \<Rightarrow> terminal_log \<Rightarrow> bool \<times> bool" where
  "terminal_after s [] = s"
| "terminal_after s ((tc, Inl e) # log) = terminal_after s log"
| "terminal_after (raw, alt) ((tc, Inr u) # log) =
     terminal_after
       (case tc of
          Enable_Raw_Mode \<Rightarrow> (True, alt) | Disable_Raw_Mode \<Rightarrow> (False, alt)
        | Enter_Alternate_Screen \<Rightarrow> (raw, True) | Leave_Alternate_Screen \<Rightarrow> (raw, False)
        | _ \<Rightarrow> (raw, alt)) log"

lemma terminal_after_append: "terminal_after s (log @ log') = terminal_after (terminal_after s log) log'"
  by (induction s log rule: terminal_after.induct) simp_all

lemma setup_leaves:
  "terminal_after (False, False) (fst (setup_terminal (raw, enter, create))) = (succeeds raw, succeeds raw \<and> succeeds enter)"
  "succeeds (snd (setup_terminal (raw, enter, create))) \<longleftrightarrow> succeeds raw \<and> succeeds enter \<and> succeeds create"
  by (cases raw; cases enter; cases create; simp add: setup_terminal_def)+

lemma restore_leaves:
  "terminal_after (True, True) (fst (restore_terminal (raw, leave, cursor))) = (\<not> succeeds raw, \<not> (succeeds raw \<and> succeeds leave))"
  by (cases raw; cases leave; cases cursor; simp add: restore_terminal_def)

section \<open>Frames are rationed\<close>

lemma draw_frame_locks:
  "draw_frame L R lock app last_draw t = Some (a, ls, r) \<Longrightarrow>
   (ls = [] \<or> ls = [it_now t] \<and> last_draw + FRAME_INTERVAL \<le> it_now t) \<and>
   (\<forall>fs l. r = Inr (fs, l) \<longrightarrow> map dr_time fs = ls \<and> l = (if ls = [] then last_draw else it_now t))"
  by (auto simp: draw_frame_def take_lock_def Let_def bind_eq_Some_conv split: if_splits sum.splits)

lemma spaced_count:
  "sorted_wrt (\<lambda>a b. a + FRAME_INTERVAL \<le> b) (x # xs) \<Longrightarrow> \<forall>y \<in> set xs. y \<le> stop \<Longrightarrow> x \<le> stop \<Longrightarrow>
   int (length xs) * FRAME_INTERVAL \<le> stop - x"
proof (induction xs arbitrary: x)
  case (Cons y ys)
  then have "int (length ys) * FRAME_INTERVAL \<le> stop - y" by simp
  with Cons.prems(1) show ?case by (simp add: distrib_right)
qed simp

text \<open>The lock is taken once for each frame drawn, and once more when the last one fails.\<close>

lemma locks_spaced:
  "event_loop_io L R up lock app last_draw ts = Some (ls, fs, app', res) \<Longrightarrow>
   sorted_wrt (\<lambda>a b. a + FRAME_INTERVAL \<le> b) (last_draw # ls) \<and> set ls \<subseteq> it_now ` set ts \<and>
   (map dr_time fs = ls \<or> isl res \<and> map dr_time fs = butlast ls)"
proof (induction ts arbitrary: app last_draw ls fs app' res)
  case (Cons t ts)
  show ?case
  proof (cases "it_shutdown t")
    case False
    with Cons.prems obtain a l1 r where d: "draw_frame L R lock app last_draw t = Some (a, l1, r)"
      by (auto simp: bind_eq_Some_conv)
    note first = draw_frame_locks [OF d]
    show ?thesis
    proof (cases r)
      case (Inl e)
      with Cons.prems False d have "ls = l1" "fs = []" "isl res" by auto
      with first show ?thesis by auto
    next
      case (Inr p)
      obtain fs1 l where p: "p = (fs1, l)" by (cases p)
      from Cons.prems False d Inr p consider "ls = l1" "fs = fs1" |
        a2 l2 fs2 app2 where "ls = l1 @ l2" "fs = fs1 @ fs2" "event_loop_io L R up lock a2 l ts = Some (l2, fs2, app2, res)"
        by (auto simp: bind_eq_Some_conv split: sum.splits if_splits)
      then show ?thesis
      proof cases
        case 1
        with first Inr p show ?thesis by auto
      next
        case 2
        from Cons.IH [OF 2(3)] have ih: "sorted_wrt (\<lambda>a b. a + FRAME_INTERVAL \<le> b) (l # l2)"
          "set l2 \<subseteq> it_now ` set ts" "map dr_time fs2 = l2 \<or> isl res \<and> map dr_time fs2 = butlast l2" by blast+
        have f1: "map dr_time fs1 = l1" "l = (if l1 = [] then last_draw else it_now t)" using first Inr p by auto
        have "sorted_wrt (\<lambda>a b. a + FRAME_INTERVAL \<le> b) (last_draw # l1 @ l2)"
          using first f1(2) ih(1) by (fastforce simp: FRAME_INTERVAL_def)
        moreover have "set (l1 @ l2) \<subseteq> it_now ` set (t # ts)" using first ih(2) by auto
        moreover have "map dr_time (fs1 @ fs2) = l1 @ l2 \<or> isl res \<and> map dr_time (fs1 @ fs2) = butlast (l1 @ l2)"
          using f1(1) ih(3) by (cases l2) (auto simp: butlast_append)
        ultimately show ?thesis by (simp add: 2)
      qed
    qed
  qed (use Cons.prems in simp)
qed simp

lemma next_key_fails: "isl (next_key t) \<Longrightarrow> isl (it_poll t) \<or> isl (it_read t)"
  by (cases "it_poll t"; cases "it_read t") (auto simp: next_key_def split: if_splits)

section \<open>When the interface raises the flag\<close>

text \<open>
  Whether the interface raises the shutdown flag is a matter of the turns alone: of the keys, in the
  mode they find, up to the first error or a flag that is already up.
\<close>

definition key_quits :: "Mode \<Rightarrow> KeyEvent \<Rightarrow> Mode \<times> bool" where
  "key_quits m k =
     (if ke_release k then (m, False)
      else case m of
        Normal \<Rightarrow>
          (if ke_control k \<and> ke_code k = Char ''c'' \<or> ke_code k = Char ''q'' \<or> ke_code k = KEsc then (Normal, True)
           else (if ke_code k = Char ''/'' then Filter else Normal, False))
      | Filter \<Rightarrow> (if ke_code k = KEsc \<or> ke_code k = KEnter then Normal else Filter, False))"

fun loop_quits :: "Mode \<Rightarrow> int \<Rightarrow> io_turn list \<Rightarrow> bool" where
  "loop_quits m last_draw [] = False"
| "loop_quits m last_draw (t # ts) =
     (let due = (FRAME_INTERVAL \<le> it_now t - last_draw);
          last = (if due then it_now t else last_draw)
      in if it_shutdown t \<or> due \<and> (isl (it_size t) \<or> isl (it_draw t)) then False
         else case next_key t of
           Inl e \<Rightarrow> False
         | Inr None \<Rightarrow> loop_quits m last ts
         | Inr (Some k) \<Rightarrow> (case key_quits m k of (m', quit) \<Rightarrow> quit \<or> loop_quits m' last ts))"

lemma move_to_mode: "move_to L app i = Some app' \<Longrightarrow> ap_mode app' = ap_mode app"
  by (auto simp: move_to_def Let_def bind_eq_Some_conv split: option.splits)

lemma move_selection_mode: "move_selection L app d = Some app' \<Longrightarrow> ap_mode app' = ap_mode app"
  by (auto simp: move_selection_def Let_def dest: move_to_mode split: if_splits)

lemma stay_mode:
  "map_option (\<lambda>a. (a, False)) x = Some (app', quit) \<Longrightarrow> x = Some app' \<and> \<not> quit"
  by (cases x) auto

lemma last_row_mode: "(if b then Some app else move_to L app i) = Some app' \<Longrightarrow> ap_mode app' = ap_mode app"
  by (auto dest: move_to_mode split: if_splits)

lemma handle_key_normal_quits:
  assumes n: "handle_key_normal L app k = Some (app', quit)" and m: "ap_mode app = Normal" and r: "\<not> ke_release k"
  shows "key_quits Normal k = (ap_mode app', quit)"
proof (cases "ke_control k \<and> ke_code k = Char ''c''")
  case True
  with n m r show ?thesis by (simp add: handle_key_normal_def key_quits_def)
next
  case ctrl: False
  note modes = stay_mode move_to_mode move_selection_mode last_row_mode
  show ?thesis
  proof (cases "ke_code k")
    case (Char c)
    consider "c = ''q''" | "c = ''/''" | "c = ''j''" | "c = ''k''" | "c = ''g''" | "c = ''G''"
      | "c \<notin> {''q'', ''/'', ''j'', ''k'', ''g'', ''G''}" by auto
    then show ?thesis
      using n m r ctrl Char by cases (auto simp: handle_key_normal_def key_quits_def dest!: modes)
  qed (use n m r in \<open>auto simp: handle_key_normal_def key_quits_def dest!: modes\<close>)
qed

lemma handle_key_quits:
  assumes "handle_key L up app k = Some (app', quit)"
  shows "key_quits (ap_mode app) k = (ap_mode app', quit)"
proof (cases "ke_release k")
  case True
  with assms show ?thesis by (simp add: handle_key_def key_quits_def)
next
  case False
  show ?thesis
  proof (cases "ap_mode app")
    case Normal
    with assms False handle_key_normal_quits [OF _ Normal False] show ?thesis by (simp add: handle_key_def)
  next
    case Filter
    with assms False show ?thesis
      by (cases "ke_code k") (auto simp: handle_key_def handle_key_filter_def key_quits_def)
  qed
qed

lemma refresh_parts_mode:
  "refresh_symbols R h app = Some app' \<Longrightarrow> ap_mode app' = ap_mode app"
  "refresh_selection L app = Some app' \<Longrightarrow> ap_mode app' = ap_mode app"
  "refresh_rows L R h app = Some app' \<Longrightarrow> ap_mode app' = ap_mode app"
  "ap_mode (refresh_depth R h app) = ap_mode app"
  by (auto simp: refresh_symbols_def refresh_selection_def refresh_rows_def refresh_depth_def rebuild_filtered_def Let_def
      bind_eq_Some_conv split: if_splits)

lemma App_refresh_mode:
  assumes "App_refresh L R h app = Some app'"
  shows "ap_mode app' = ap_mode app"
proof -
  from assms obtain a b c where "refresh_symbols R h app = Some a" "refresh_selection L a = Some b"
    "refresh_rows L R h b = Some c" "app' = refresh_depth R h c"
    by (auto simp: App_refresh_def bind_eq_Some_conv)
  then show ?thesis using refresh_parts_mode by metis
qed

lemma draw_frame_mode:
  "draw_frame L R lock app last_draw t = Some (a, ls, r) \<Longrightarrow> ap_mode a = ap_mode app \<and>
   (let due = (FRAME_INTERVAL \<le> it_now t - last_draw) in
    (isl r \<longleftrightarrow> due \<and> (isl (it_size t) \<or> isl (it_draw t))) \<and>
    (\<forall>fs l. r = Inr (fs, l) \<longrightarrow> l = (if due then it_now t else last_draw)))"
  by (auto simp: draw_frame_def take_lock_def App_set_viewport_def Let_def bind_eq_Some_conv dest!: App_refresh_mode
      split: if_splits sum.splits)

lemma event_loop_quits:
  "event_loop_io L R up lock app last_draw ts = Some (ls, fs, app', res) \<Longrightarrow>
   res = Inr True \<longleftrightarrow> loop_quits (ap_mode app) last_draw ts"
proof (induction ts arbitrary: app last_draw ls fs app' res)
  case (Cons t ts)
  show ?case
  proof (cases "it_shutdown t")
    case False
    with Cons.prems obtain a l1 r where d: "draw_frame L R lock app last_draw t = Some (a, l1, r)"
      by (auto simp: bind_eq_Some_conv)
    note m = draw_frame_mode [OF d, unfolded Let_def]
    show ?thesis
    proof (cases r)
      case (Inl e)
      with Cons.prems False d m show ?thesis by auto
    next
      case (Inr p)
      obtain fs1 l where p: "p = (fs1, l)" by (cases p)
      show ?thesis
      proof (cases "next_key t")
        case (Inl e)
        with Cons.prems False d Inr p m show ?thesis by (auto simp: Let_def)
      next
        case key: (Inr key)
        with Cons.prems False d Inr p obtain a2 quit where
          k: "(case key of None \<Rightarrow> Some (a, False) | Some k \<Rightarrow> handle_key L up a k) = Some (a2, quit)"
          by (auto simp: bind_eq_Some_conv)
        have q: "case key of None \<Rightarrow> ap_mode a2 = ap_mode app \<and> \<not> quit
            | Some k \<Rightarrow> key_quits (ap_mode app) k = (ap_mode a2, quit)"
          using k handle_key_quits [of L up a _ a2 quit] m by (auto split: option.splits)
        have l: "l = (if FRAME_INTERVAL \<le> it_now t - last_draw then it_now t else last_draw)" using m Inr p by simp
        show ?thesis
        proof (cases quit)
          case True
          with Cons.prems False d Inr p key k m q show ?thesis by (auto simp: Let_def split: option.splits)
        next
          case go_on: False
          with Cons.prems False d Inr p key k obtain l2 fs2 where
            "event_loop_io L R up lock a2 l ts = Some (l2, fs2, app', res)"
            by (auto simp: bind_eq_Some_conv)
          from Cons.IH [OF this] False Inr m q l key go_on show ?thesis
            by (auto simp: Let_def split: option.splits)
        qed
      qed
    qed
  qed (use Cons.prems in auto)
qed simp

section \<open>The loop always returns\<close>

text \<open>
  An invariant of the interface and the datagrams applied carries over the loop: it must survive
  the receive loop going on between two turns, every frame and every key.
\<close>

lemma event_loop_io_inv:
  assumes go_on: "\<And>app j k. Q app j \<Longrightarrow> later j k \<Longrightarrow> Q app k"
    and frame: "\<And>app k height. Q app k \<Longrightarrow>
      \<exists>h app'. lock k = Some h \<and> App_refresh L R h (App_set_viewport app (viewport_for height)) = Some app' \<and>
        Q (App_set_viewport app (viewport_for height)) k \<and> Q app' k \<and> shows_at k app'"
    and press: "\<And>app k key. Q app k \<Longrightarrow> \<exists>app' quit. handle_key L up app key = Some (app', quit) \<and> Q app' k"
  shows "Q app k0 \<Longrightarrow> successively later (k0 # map it_seen ts) \<Longrightarrow>
    \<exists>ls fs app' res k. event_loop_io L R up lock app last_draw ts = Some (ls, fs, app', res) \<and> Q app' k \<and>
      (\<forall>f \<in> set fs. shows_at (dr_seen f) (dr_app f)) \<and>
      (isl res \<longrightarrow> \<not> (\<forall>t \<in> set ts. \<not> isl (it_size t) \<and> \<not> isl (it_draw t) \<and> \<not> isl (it_poll t) \<and> \<not> isl (it_read t)))"
proof (induction ts arbitrary: app k0 last_draw)
  case (Cons t ts)
  let ?k = "it_seen t"
  have Q: "Q app ?k" using go_on [OF Cons.prems(1)] Cons.prems(2) by simp
  have next_turn: "successively later (?k # map it_seen ts)" using Cons.prems(2) by simp
  show ?case
  proof (cases "it_shutdown t")
    case False
    obtain a l1 r where d: "draw_frame L R lock app last_draw t = Some (a, l1, r)" "Q a ?k"
      "\<forall>fs l. r = Inr (fs, l) \<longrightarrow> (\<forall>f \<in> set fs. shows_at (dr_seen f) (dr_app f))"
      "isl r \<Longrightarrow> isl (it_size t) \<or> isl (it_draw t)"
    proof (cases "FRAME_INTERVAL \<le> it_now t - last_draw \<and> \<not> isl (it_size t)")
      case True
      then obtain height where s: "it_size t = Inr height" by (cases "it_size t") auto
      from frame [OF Q, of height] True s that show ?thesis
        by (cases "it_draw t") (force simp: draw_frame_def take_lock_def Let_def)+
    next
      case False
      with Q that show ?thesis
        by (cases "FRAME_INTERVAL \<le> it_now t - last_draw"; cases "it_size t") (simp_all add: draw_frame_def)
    qed
    show ?thesis
    proof (cases "isl r \<or> isl (next_key t)")
      case True
      then have bad: "isl (it_size t) \<or> isl (it_draw t) \<or> isl (it_poll t) \<or> isl (it_read t)"
        using d(4) next_key_fails by blast
      show ?thesis
      proof (cases r)
        case (Inl e)
        with False d(1,2) bad show ?thesis by (intro exI [of _ l1] exI [of _ "[]"] exI [of _ a] exI [of _ r]) auto
      next
        case (Inr p)
        with True False d(1,2,3) bad show ?thesis
          by (cases p; cases "next_key t") (auto intro!: exI [of _ a] exI [of _ ?k])
      qed
    next
      case ok: False
      then obtain fs l key where r: "r = Inr (fs, l)" "next_key t = Inr key" by (cases r; cases "next_key t") auto
      obtain a' quit where k: "(case key of None \<Rightarrow> Some (a, False) | Some k \<Rightarrow> handle_key L up a k) = Some (a', quit)"
        "Q a' ?k"
      proof (cases key)
        case (Some k)
        from press [OF d(2), of k] Some that show ?thesis by fastforce
      qed (use d(2) that [of a False] in simp)
      from Cons.IH [OF k(2) next_turn, of l] obtain ls' fs' a'' res k' where
        "event_loop_io L R up lock a' l ts = Some (ls', fs', a'', res)" "Q a'' k'"
        "\<forall>f \<in> set fs'. shows_at (dr_seen f) (dr_app f)"
        "isl res \<longrightarrow> \<not> (\<forall>t \<in> set ts. \<not> isl (it_size t) \<and> \<not> isl (it_draw t) \<and> \<not> isl (it_poll t) \<and> \<not> isl (it_read t))"
        by blast
      with False d(1,3) r k show ?thesis by (cases quit) auto
    qed
  qed (use Q in auto)
qed auto

text \<open>No answer of the terminal is an error.\<close>

definition turn_well :: "io_turn \<Rightarrow> bool" where
  "turn_well t \<longleftrightarrow> \<not> isl (it_size t) \<and> \<not> isl (it_draw t) \<and> \<not> isl (it_poll t) \<and> \<not> isl (it_read t)"

lemma successively_any: "successively (\<lambda>a b. True) xs"
  by (induction xs rule: induct_list012) auto

lemma ui_run_go_on:
  assumes "ui_run L R z up watch app (take i ms)" and "i \<le> j"
  shows "ui_run L R z up watch app (take j ms)"
proof -
  have "ui_run L R z up watch app (take i ms @ ns)" for ns
  proof (induction ns rule: rev_induct)
    case (snoc n ns)
    then show ?case using ui_run.apply_message by fastforce
  qed (simp add: assms(1))
  moreover have "take j ms = take i ms @ drop i (take j ms)"
    using assms(2) by (metis append_take_drop_id min.absorb1 take_take)
  ultimately show ?thesis by metis
qed

context registry_client
begin

lemma loop_survives:
  assumes L: "list_state_ok L" and lock: "\<forall>k. \<exists>h. lock k = Some h \<and> valid (mh_registry h)"
  shows "\<exists>ls fs app res. event_loop_io L R up lock (App_new L) last_draw ts = Some (ls, fs, app, res) \<and> reaches L R valid up app"
proof -
  have frame: "\<exists>h app'. lock k = Some h \<and> App_refresh L R h (App_set_viewport app (viewport_for height)) = Some app' \<and>
      reaches L R valid up (App_set_viewport app (viewport_for height)) \<and> reaches L R valid up app' \<and> True"
    if "reaches L R valid up app" for app k height
  proof -
    obtain h where h: "lock k = Some h" "valid (mh_registry h)" using lock by blast
    note v = reaches.resize [OF that, of height]
    from App_refresh_ok [OF L h(2)] reaches_ok [OF L v] obtain app' where
      "App_refresh L R h (App_set_viewport app (viewport_for height)) = Some app'" by blast
    with reaches.refresh [OF v h(2) this] h(1) v show ?thesis by blast
  qed
  have press: "\<exists>app' quit. handle_key L up app key = Some (app', quit) \<and> reaches L R valid up app'"
    if r: "reaches L R valid up app" for app key
  proof -
    from reaches_ok [OF L r] handle_key_ok [OF L, of app up key] obtain app' quit where
      "handle_key L up app key = Some (app', quit)" by (auto simp: key_ok_def)
    with reaches.press [OF r this] show ?thesis by blast
  qed
  have "\<exists>ls fs app' res (k :: nat). event_loop_io L R up lock (App_new L) last_draw ts = Some (ls, fs, app', res) \<and>
      reaches L R valid up app' \<and> (\<forall>f \<in> set fs. True) \<and> (isl res \<longrightarrow> \<not> (\<forall>t \<in> set ts. turn_well t))"
    unfolding turn_well_def
    by (rule event_loop_io_inv [where Q = "\<lambda>app _. reaches L R valid up app" and later = "\<lambda>_ _. True" and shows_at = "\<lambda>_ _. True"])
      (assumption | erule frame | erule press | rule reaches.start successively_any)+
  then show ?thesis by blast
qed

lemma tui_run_ok:
  assumes L: "list_state_ok L" and lock: "\<forall>k. \<exists>h. lock k = Some h \<and> valid (mh_registry h)"
  shows "\<exists>log ls fs res. tui_run L R up lock (raw, enter, create) now ts restore = Some (log, ls, fs, res) \<and>
    (if succeeds raw \<and> succeeds enter \<and> succeeds create
     then (\<exists>app. event_loop_io L R up lock (App_new L) (now - FRAME_INTERVAL) ts = Some (ls, fs, app, res) \<and>
         reaches L R valid up app) \<and>
       terminal_after (False, False) log = terminal_after (True, True) (fst (restore_terminal restore))
     else (\<exists>e. res = Inl (''setting up terminal'' # e)) \<and> terminal_after (False, False) log = (succeeds raw, succeeds raw \<and> succeeds enter))"
proof -
  obtain log r where s: "setup_terminal (raw, enter, create) = (log, r)" by (cases "setup_terminal (raw, enter, create)")
  note l = setup_leaves [of raw enter create, unfolded s fst_conv snd_conv]
  show ?thesis
  proof (cases r)
    case (Inl e)
    with s l show ?thesis by (auto simp: tui_run_def)
  next
    case (Inr u)
    from loop_survives [OF assms] obtain ls fs app res where
      "event_loop_io L R up lock (App_new L) (now - FRAME_INTERVAL) ts = Some (ls, fs, app, res)" "reaches L R valid up app" by blast
    with s l Inr show ?thesis by (auto simp: tui_run_def terminal_after_append)
  qed
qed

text \<open>When the lock yields the handler of ever longer prefixes of a feed, every frame shows its prefix.\<close>

lemma loop_follows_feed:
  assumes L: "list_state_ok L" and ok: "feed_ok z watch ms" and f: "mono f"
    and lock: "\<forall>k. \<exists>h. lock k = Some h \<and>
      visit (app_visitor z R) (take (f k) ms) (Some (app_handler_new R watch [])) = (Some h, [], Continue)"
    and ts: "sorted (map it_seen ts)"
  shows "\<exists>ls fs app res. event_loop_io L R up lock (App_new L) last_draw ts = Some (ls, fs, app, res) \<and>
    (\<forall>d \<in> set fs. screen_shows (fst (feed z watch (take (f (dr_seen d)) ms))) (dr_app d)) \<and>
    (list_all turn_well ts \<longrightarrow> \<not> isl res)"
proof -
  let ?Q = "\<lambda>app k. ui_run L R z up watch app (take (f k) ms)"
  have okt: "feed_ok z watch (take i ms)" for i
    using feed_ok_prefix [of z watch "take i ms" "drop i ms"] ok by simp
  have go_on: "?Q app k" if "?Q app j" "j \<le> k" for app j k
    using ui_run_go_on [OF that(1) monoD [OF f that(2)]] .
  have frame: "\<exists>h app'. lock k = Some h \<and> App_refresh L R h (App_set_viewport app (viewport_for height)) = Some app' \<and>
      ?Q (App_set_viewport app (viewport_for height)) k \<and> ?Q app' k \<and>
      screen_shows (fst (feed z watch (take (f k) ms))) app'" if "?Q app k" for app k height
  proof -
    note r = ui_run.resize [OF that, of height]
    obtain h where h: "lock k = Some h"
      "visit (app_visitor z R) (take (f k) ms) (Some (app_handler_new R watch [])) = (Some h, [], Continue)"
      using lock by blast
    from frame_shows [OF L r okt h(2)] obtain app' where
      "App_refresh L R h (App_set_viewport app (viewport_for height)) = Some app'"
      "screen_shows (fst (feed z watch (take (f k) ms))) app'" by blast
    with ui_run.frame [OF r h(2) this(1)] h(1) r show ?thesis by blast
  qed
  have press: "\<exists>app' quit. handle_key L up app key = Some (app', quit) \<and> ?Q app' k" if "?Q app k" for app k key
  proof -
    have "reaches L R valid up app" using ui_run_cached [OF L that okt] by blast
    from reaches_ok [OF L this] handle_key_ok [OF L, of app up key] obtain app' quit where
      "handle_key L up app key = Some (app', quit)" by (auto simp: key_ok_def)
    with ui_run.press [OF that this] show ?thesis by blast
  qed
  have start: "?Q (App_new L) 0" using ui_run_go_on [of L R z up watch "App_new L" 0 ms "f 0"] ui_run.start [of L R z up watch] by simp
  have later: "successively (\<le>) (0 # map it_seen ts)" using ts by (simp add: successively_conv_sorted_wrt sorted_wrt01)
  have "\<exists>ls fs app' res k. event_loop_io L R up lock (App_new L) last_draw ts = Some (ls, fs, app', res) \<and> ?Q app' k \<and>
      (\<forall>d \<in> set fs. screen_shows (fst (feed z watch (take (f (dr_seen d)) ms))) (dr_app d)) \<and>
      (isl res \<longrightarrow> \<not> (\<forall>t \<in> set ts. turn_well t))"
    unfolding turn_well_def
    by (rule event_loop_io_inv [where Q = ?Q and later = "(\<le>)" and shows_at = "\<lambda>k app. screen_shows (fst (feed z watch (take (f k) ms))) app"])
      (erule (1) go_on | erule frame | erule press | rule start later)+
  then show ?thesis by (auto simp: list_all_iff)
qed

end

end
