(* ===== verification/App_Pipeline.thy ===== *)
theory App_Pipeline
  imports App_System App_Report App_Terminal Mold_Channel
begin

text \<open>
  The parts of \<open>app/src/pipeline.rs\<close> and \<open>app/src/config.rs\<close> that decide: the watch list
  read from the command line, the input and its errors, starting both ends of the transport,
  whether a report is made and where it goes, and \<open>run\<close>, which puts them together.  The
  command-line parser is not modelled; the threads' bodies are in \<^verbatim>\<open>App_Replay\<close>,
  \<^verbatim>\<open>App_Handler\<close> and \<^verbatim>\<open>App_Terminal\<close>.
\<close>

section \<open>Configuration\<close>

text \<open>Paths and addresses are their texts.\<close>

record Config =
  cf_file_path :: string
  cf_output_file_path :: "string option"
  cf_symbol_strs :: "string list option"
  cf_report_format :: ReportFormat
  cf_report_depth :: nat
  cf_session :: string
  cf_multicast_addr :: string
  cf_rerequest_addr :: string
  cf_interface_addr :: string
  cf_max_msgs :: nat
  cf_interactive :: bool
  cf_logfile :: "string option"

definition DEFAULT_MULTICAST_ADDR :: string where
  "DEFAULT_MULTICAST_ADDR = ''239.1.2.3:5000''"

definition DEFAULT_REREQUEST_ADDR :: string where
  "DEFAULT_REREQUEST_ADDR = ''127.0.0.1:6000''"

definition DEFAULT_SESSION :: string where
  "DEFAULT_SESSION = ''TESTSESSN''"

definition DEFAULT_MAX_MSGS :: nat where
  "DEFAULT_MAX_MSGS = 100"

definition DEFAULT_REPORT_DEPTH :: nat where
  "DEFAULT_REPORT_DEPTH = 10"

text \<open>A command line with the file and, possibly, the flag of the interface only.\<close>

definition Config_default :: "string \<Rightarrow> bool \<Rightarrow> Config" where
  "Config_default file_path interactive =
     \<lparr>cf_file_path = file_path, cf_output_file_path = None, cf_symbol_strs = None,
      cf_report_format = ReportFormat_default, cf_report_depth = DEFAULT_REPORT_DEPTH,
      cf_session = DEFAULT_SESSION, cf_multicast_addr = DEFAULT_MULTICAST_ADDR,
      cf_rerequest_addr = DEFAULT_REREQUEST_ADDR, cf_interface_addr = ''0.0.0.0'',
      cf_max_msgs = DEFAULT_MAX_MSGS, cf_interactive = interactive,
      cf_logfile = (if interactive then Some ''hftrs.log'' else None)\<rparr>"

definition should_make_report :: "Config \<Rightarrow> bool" where
  "should_make_report c \<longleftrightarrow> cf_output_file_path c \<noteq> None \<or> \<not> cf_interactive c"

section \<open>The watch list\<close>

text \<open>\<open>up\<close> is \<open>str::to_uppercase\<close>; \<open>expect\<close> panics on the error of an empty symbol.\<close>

fun parse_symbol_list :: "(string \<Rightarrow> string) \<Rightarrow> string list \<Rightarrow> Symbol list run" where
  "parse_symbol_list up [] = Some []"
| "parse_symbol_list up (s # ss) =
     (case Symbol_from_str up (up s) of
        Inl e \<Rightarrow> panic
      | Inr y \<Rightarrow> do { ys \<leftarrow> parse_symbol_list up ss; Some (y # ys) })"

definition parse_symbols :: "(string \<Rightarrow> string) \<Rightarrow> string list option \<Rightarrow> Symbol list option run" where
  "parse_symbols up symbol_strs =
     (case symbol_strs of None \<Rightarrow> Some None | Some ss \<Rightarrow> map_option Some (parse_symbol_list up ss))"

lemma upper_ascii: "ascii_text s \<Longrightarrow> ascii_text (map ascii_upper s)"
  by (auto simp: ascii_text_def ascii_upper_def)

lemma upper_idem: "ascii_upper (ascii_upper c) = ascii_upper c"
  by (auto simp: ascii_upper_def)

lemma parse_symbols_ascii:
  assumes "uppercase_ok up" and "\<forall>s \<in> set ss. ascii_text s \<and> s \<noteq> []"
  shows "parse_symbols up (Some ss) = Some (Some (map (\<lambda>s. wire_symbol (take 8 (map ascii_upper s))) ss))"
proof -
  have "Symbol_from_str up (up s) = Inr (wire_symbol (take 8 (map ascii_upper s)))" if "ascii_text s" "s \<noteq> []" for s
  proof -
    have "up s = map ascii_upper s" using assms(1) that by (simp add: uppercase_ok_def)
    then show ?thesis
      using Symbol_from_str_ascii [OF assms(1) upper_ascii [OF that(1)]] that(2)
      by (simp add: o_def upper_idem)
  qed
  then have "parse_symbol_list up ss = Some (map (\<lambda>s. wire_symbol (take 8 (map ascii_upper s))) ss)"
    using assms(2) by (induction ss) simp_all
  then show ?thesis by (simp add: parse_symbols_def)
qed

section \<open>The report\<close>

text \<open>
  The report goes to the file, when it can be created, or to the standard output; the result is
  the destination with the text.
\<close>

definition write_report ::
  "(string \<Rightarrow> string + unit) \<Rightarrow> VecRegistry app_handler \<Rightarrow> Config \<Rightarrow> (error_chain + (string option \<times> string)) run" where
  "write_report create handler config =
     (case cf_output_file_path config of
        Some path \<Rightarrow>
          (case create path of
             Inl e \<Rightarrow> Some (Inl [''creating output file '' @ path, e])
           | Inr _ \<Rightarrow> do {
               text \<leftarrow> report_write vec_registry handler (cf_report_format config) (cf_report_depth config);
               Some (Inr (Some path, text))
             })
      | None \<Rightarrow> do {
          text \<leftarrow> report_write vec_registry handler (cf_report_format config) (cf_report_depth config);
          Some (Inr (None, text))
        })"

section \<open>Opening the input and starting both ends\<close>

text \<open>What the operating system answers about a file: its length and its mapping.\<close>

record input_file =
  fl_len :: "string + nat"
  fl_map :: "string + bytes"

definition open_input :: "(string \<Rightarrow> string + input_file) \<Rightarrow> string \<Rightarrow> error_chain + bytes" where
  "open_input opn path =
     (case opn path of
        Inl e \<Rightarrow> Inl [''opening '' @ path, e]
      | Inr file \<Rightarrow>
          (case fl_len file of
             Inl e \<Rightarrow> Inl [''reading file metadata'', e]
           | Inr len \<Rightarrow>
               if len = 0 then Inl [''file is empty: '' @ path]
               else (case fl_map file of
                       Inl e \<Rightarrow> Inl [''mmap'' @ [CHR 0x27] @ ''ing '' @ path, e]
                     | Inr mmap \<Rightarrow> Inr mmap)))"

text \<open>
  The environment of a run: the file system, the answers to the socket calls, the random
  generator, whether Ctrl-C is pressed, for each load of the shutdown flag by the two threads whether
  it comes after the flag has been raised, the transport (what the client's channel delivers
  when the server is given the replay's commands, with the answers of the request channel), the
  terminal and the creation of the output.
\<close>

record terminal =
  te_setup :: "answer \<times> answer \<times> answer"
  te_now :: int
  te_turns :: "io_turn list"
  te_restore :: "answer \<times> answer \<times> answer"

record environment =
  en_open :: "string \<Rightarrow> string + input_file"
  en_server_binds :: "(string + unit) \<times> (string + unit)"
  en_client_binds :: "(string + unit) \<times> (string + unit) \<times> (string + unit)"
  en_tunes :: "((string + unit) \<times> (string + nat)) \<times> ((string + unit) \<times> (string + nat))"
  en_rng :: rng
  en_ctrl_c :: bool
  en_server_flag :: "bool list"
  en_client_flag :: "bool list"
  en_transport :: "server \<Rightarrow> client \<Rightarrow> ServerCommand list \<Rightarrow> (Datagram \<times> bool) list"
  en_terminal :: terminal
  en_create :: "string \<Rightarrow> string + unit"

definition start_server :: "environment \<Rightarrow> Config \<Rightarrow> error_chain + server" where
  "start_server env config =
     (let server = MoldUDP64Server_build (cf_multicast_addr config) (cf_rerequest_addr config) (cf_session config)
      in case MoldUDP64Server_start server (fst (en_server_binds env)) (snd (en_server_binds env)) of
           Inl e \<Rightarrow> Inl [''starting MoldUDP64 server'', e]
         | Inr started \<Rightarrow> Inr started)"

definition start_client :: "environment \<Rightarrow> Config \<Rightarrow> (error_chain + client) run" where
  "start_client env config =
     (let client = MoldUDP64_build (cf_multicast_addr config) (cf_interface_addr config) [cf_rerequest_addr config]
            (Some (cf_session config)) None
      in case en_client_binds env of (bind1, joined, bind2) \<Rightarrow> do {
           r \<leftarrow> MoldUDP64_start client bind1 joined bind2 (fst (en_tunes env)) (snd (en_tunes env));
           Some (map_sum (\<lambda>e. [''starting MoldUDP64 client'', e]) id r)
         })"

section \<open>The shutdown flag\<close>

text \<open>
  The flag is shared.  It is raised by Ctrl-C, or by the interface when a key asks to quit; a load by
  the replay or the receive loop sees it when it has been raised before.
\<close>

definition tui_quits :: "terminal \<Rightarrow> bool" where
  "tui_quits te \<longleftrightarrow> succeeds (snd (setup_terminal (te_setup te))) \<and> loop_quits Normal (te_now te - FRAME_INTERVAL) (te_turns te)"

text \<open>The interface itself sees only what Ctrl-C has raised: its own raise ends it.\<close>

definition terminal_of :: "environment \<Rightarrow> terminal" where
  "terminal_of env =
     (let te = en_terminal env
      in te\<lparr>te_turns := map (\<lambda>t. t\<lparr>it_shutdown := it_shutdown t \<and> en_ctrl_c env\<rparr>) (te_turns te)\<rparr>)"

definition flag_raised :: "environment \<Rightarrow> Config \<Rightarrow> bool" where
  "flag_raised env config \<longleftrightarrow> en_ctrl_c env \<or> cf_interactive config \<and> tui_quits (terminal_of env)"

definition loads :: "environment \<Rightarrow> Config \<Rightarrow> bool list \<Rightarrow> bool list" where
  "loads env config flag = (if flag_raised env config then flag else [])"

lemma tui_raises:
  assumes "tui_run L R up lock (te_setup te) (te_now te) (te_turns te) restore = Some (log, ls, fs, res)"
  shows "res = Inr True \<longleftrightarrow> tui_quits te"
proof -
  obtain l r where s: "setup_terminal (te_setup te) = (l, r)" by (cases "setup_terminal (te_setup te)")
  show ?thesis
  proof (cases r)
    case (Inl e)
    with assms s show ?thesis by (auto simp: tui_run_def tui_quits_def)
  next
    case (Inr u)
    with assms s obtain app where
      "event_loop_io L R up lock (App_new L) (te_now te - FRAME_INTERVAL) (te_turns te) = Some (ls, fs, app, res)"
      by (auto simp: tui_run_def bind_eq_Some_conv)
    from event_loop_quits [OF this] show ?thesis by (simp add: tui_quits_def s Inr App_new_def)
  qed
qed

section \<open>A run\<close>

text \<open>The thread of the interface: the frames it has drawn, or its error.\<close>

definition tui_thread ::
  "'l list_state \<Rightarrow> (string \<Rightarrow> string list) \<Rightarrow> (nat \<Rightarrow> VecRegistry app_handler run) \<Rightarrow> terminal \<Rightarrow>
   (error_chain + 'l drawn list) run" where
  "tui_thread L char_up lock te = do {
     (_, _, fs, res) \<leftarrow> tui_run L vec_registry char_up lock (te_setup te) (te_now te) (te_turns te) (te_restore te);
     Some (map_sum id (\<lambda>_. fs) res)
   }"

text \<open>
  \<open>run\<close>, with each thread's work at its \<open>join\<close>: a panic of a thread is one of the run
  (\<open>expect\<close>), an error of the interface is returned before the report is written.  \<open>replay\<close> has
  no error to return.  The receive loop holds the lock while it applies a datagram, so the
  interface, when it gets the lock, finds the handler after some number of datagrams.  The value
  is the frames drawn and the report written, if one is to be made.
\<close>

definition pipeline_run ::
  "zerocopy \<Rightarrow> (string \<Rightarrow> string) \<Rightarrow> 'l list_state \<Rightarrow> (string \<Rightarrow> string list) \<Rightarrow> environment \<Rightarrow> Config \<Rightarrow>
   (error_chain + 'l drawn list \<times> (string option \<times> string) option) run" where
  "pipeline_run z up L char_up env config = do {
     symbols \<leftarrow> parse_symbols up (cf_symbol_strs config);
     (case open_input (en_open env) (cf_file_path config) of
        Inl e \<Rightarrow> Some (Inl e)
      | Inr mmap \<Rightarrow>
          (case start_server env config of
             Inl e \<Rightarrow> Some (Inl e)
           | Inr server_handle \<Rightarrow> do {
               started \<leftarrow> start_client env config;
               (case started of
                  Inl e \<Rightarrow> Some (Inl e)
                | Inr client \<Rightarrow> do {
                    let shared_handler = app_handler_new vec_registry symbols (loads env config (en_client_flag env));
                    cmds \<leftarrow> server_thread (en_rng env) (loads env config (en_server_flag env)) mmap (cf_max_msgs config);
                    let datagrams = en_transport env server_handle client cmds;
                    (handler, _, _) \<leftarrow> app_run z vec_registry shared_handler net_default datagrams;
                    let lock = (\<lambda>k. map_option fst (app_run z vec_registry shared_handler net_default (take k datagrams)));
                    shown \<leftarrow> (if cf_interactive config then tui_thread L char_up lock (terminal_of env) else Some (Inr []));
                    (case shown of
                       Inl e \<Rightarrow> Some (Inl e)
                     | Inr fs \<Rightarrow>
                         if should_make_report config
                         then do { r \<leftarrow> write_report (en_create env) handler config; Some (map_sum id (\<lambda>t. (fs, Some t)) r) }
                         else Some (Inr (fs, None)))
                  })
             }))
   }"

section \<open>The binary\<close>

text \<open>
  \<open>main\<close>: where the log goes, and the run.  The log file is opened as the input is, for reading; when that
  fails no log is kept.
\<close>

datatype log_sink = Log_Stdout | Log_File string

definition init_logging :: "(string \<Rightarrow> string + input_file) \<Rightarrow> Config \<Rightarrow> log_sink option" where
  "init_logging opn config =
     (case cf_logfile config of
        Some p \<Rightarrow> (case opn p of Inr _ \<Rightarrow> Some (Log_File p) | Inl _ \<Rightarrow> None)
      | None \<Rightarrow> Some Log_Stdout)"

definition main_run ::
  "zerocopy \<Rightarrow> (string \<Rightarrow> string) \<Rightarrow> 'l list_state \<Rightarrow> (string \<Rightarrow> string list) \<Rightarrow> environment \<Rightarrow> Config \<Rightarrow>
   log_sink option \<times> (error_chain + 'l drawn list \<times> (string option \<times> string) option) run" where
  "main_run z up L char_up env config =
     (init_logging (en_open env) config, pipeline_run z up L char_up env config)"

lemma interactive_log_lost:
  "en_open env ''hftrs.log'' = Inl e \<Longrightarrow> fst (main_run z up L char_up env (Config_default file True)) = None"
  by (simp add: main_run_def init_logging_def Config_default_def)

section \<open>What a run reports\<close>

text \<open>
  A network that loses nothing.  The sender sends its packets in some interleaving of the commands
  with ticks; the multicast socket receives each whole and in order and finds room in the channel;
  the re-request socket receives whatever answers the server gives to the requests of the client;
  and the consumer has taken all there is.  The application makes no requests of its own, as
  \<open>app_never_requests\<close> shows.
\<close>

definition delivers ::
  "zerocopy \<Rightarrow> (server \<Rightarrow> client \<Rightarrow> ServerCommand list \<Rightarrow> (Datagram \<times> bool) list) \<Rightarrow> server \<Rightarrow> client \<Rightarrow>
   ServerCommand list \<Rightarrow> bool" where
  "delivers z tr server client cmds \<longleftrightarrow>
     (\<exists>es. replay_events cmds es \<and>
        (\<forall>st pkts. sender_loop (sr_max_payload server) (sr_sender server) es = Some (st, pkts) \<longrightarrow>
           (\<exists>ts effs new again took c.
              connected_run z (sr_rereq_session server) (sr_max_payload server) client ts effs new again took c \<and>
              list_all2 receives ts pkts \<and> (\<forall>t \<in> set ts. tn_sent t) \<and> cl_data c = [] \<and>
              map fst (tr server client cmds) = took)))"

lemma app_never_requests:
  "app_run z R h net ds = Some (h', net', effs) \<Longrightarrow> requests effs = []"
proof (induction ds arbitrary: h net effs)
  case (Cons e ds)
  obtain datagram sent where e: "e = (datagram, sent)" by (cases e)
  obtain raised flag where f: "flag_load (mh_shutdown h) = (raised, flag)" by (cases "flag_load (mh_shutdown h)")
  show ?case
  proof (cases raised)
    case True
    with Cons.prems e f show ?thesis by (auto simp: Let_def)
  next
    case False
    with Cons.prems e f obtain bs packet where p: "Datagram_bytes datagram = Some bs" "Packet_parse z bs = Some packet"
      by (auto simp: Let_def bind_eq_Some_conv)
    show ?thesis
    proof (cases "Packet_packet_kind z packet")
      case Standard
      with Cons e f False p messages_len_standard [OF Standard] show ?thesis
        by (auto simp: Let_def bind_eq_Some_conv)
    qed (use Cons e f False p in \<open>auto simp: Let_def bind_eq_Some_conv\<close>)
  qed
qed simp

text \<open>No call of the replay needs more than one packet.\<close>

definition sends_fit :: "nat \<Rightarrow> ServerCommand list \<Rightarrow> bool" where
  "sends_fit limit cmds \<longleftrightarrow> list_all (\<lambda>c. case c of Send ms \<Rightarrow> total_len ms \<le> limit | _ \<Rightarrow> True) cmds"

text \<open>A message of the protocol has at most 50 bytes, so small batches always fit.\<close>

lemma body_at_most_50: "decode_body b = Some m \<Longrightarrow> length b \<le> 50"
proof -
  assume d: "decode_body b = Some m"
  then obtain t r where b: "b = t # r" using decode_body_known by blast
  with d have "map_of wire_lengths t = Some (length b)" using decode_body_length by (metis option.distinct(1))
  then show ?thesis by (drule_tac map_of_SomeD) (auto simp: wire_lengths_def)
qed

lemma total_len_bound: "\<forall>b \<in> set bs. length b \<le> n \<Longrightarrow> total_len bs \<le> n * length bs"
  by (induction bs) auto

lemma sent_of_command: "Send ms \<in> set cmds \<Longrightarrow> set ms \<subseteq> set (sent_messages cmds)"
  by (induction cmds rule: sent_messages.induct) auto

lemma small_batches_fit:
  assumes "rng_ok rng" and "1 \<le> max_msgs" and "decodes bodies ms" and "tail = [] \<or> (\<exists>e. parse_one tail = Inl e)"
    and "server_thread rng flag (frames bodies @ tail) max_msgs = Some cmds" and "50 * max_msgs \<le> limit"
  shows "sends_fit limit cmds"
proof -
  from replay_ok [OF assms(1,2) decodes_good [OF assms(3)] assms(4), of flag] obtain c cs where
    r: "replay rng flag (frames bodies @ tail) max_msgs = Some (c, cs)" "list_all (batch_in max_msgs) cs"
      "sent_messages cs = before_shutdown flag bodies" by blast
  have "set (before_shutdown flag bodies) \<subseteq> set bodies"
    by (induction flag bodies rule: before_shutdown.induct) (auto split: prod.splits)
  moreover have "\<forall>b \<in> set bodies. length b \<le> 50"
    using assms(3) body_at_most_50 unfolding decodes_def by (auto simp: list_all2_conv_all_nth in_set_conv_nth)
  ultimately have small: "\<forall>b \<in> set (sent_messages cs). length b \<le> 50" using r(3) by auto
  have "total_len m \<le> limit" if "Send m \<in> set cs" for m
  proof -
    have "length m \<le> max_msgs" using r(2) that by (auto simp: list_all_iff batch_in_def)
    moreover have "total_len m \<le> 50 * length m" using sent_of_command [OF that] small by (intro total_len_bound) blast
    ultimately show ?thesis using assms(6) by (meson le_trans mult_le_mono2)
  qed
  moreover have "cmds = cs @ [EndOfSessionCmd]" using assms(5) r(1) by (simp add: server_thread_def)
  ultimately show ?thesis by (auto simp: sends_fit_def list_all_iff split: ServerCommand.split)
qed

text \<open>An example: every turn has a fresh buffer.\<close>

definition simple_transport ::
  "zerocopy \<Rightarrow> server \<Rightarrow> client \<Rightarrow> ServerCommand list \<Rightarrow> (Datagram \<times> bool) list" where
  "simple_transport z server client cmds =
     (case sender_loop (sr_max_payload server) (sr_sender server) (map Cmd cmds) of
        None \<Rightarrow> []
      | Some (st, pkts) \<Rightarrow>
          map (\<lambda>d. (d, True)) (sent_data (snd (multicast_recv_loop z (cl_expect client) (map fresh_turn pkts)))))"

lemma simple_transport_delivers:
  assumes z: "zerocopy_ok z" and c0: "ready client"
    and "\<And>st pkts. sender_loop (sr_max_payload server) (sr_sender server) (map Cmd cmds) = Some (st, pkts) \<Longrightarrow>
      \<forall>p \<in> set pkts. 20 \<le> length p \<and> length p \<le> BUF_SIZE"
  shows "delivers z (simple_transport z) server client cmds"
  unfolding delivers_def
proof (rule exI [of _ "map Cmd cmds"], intro conjI allI impI)
  show "replay_events cmds (map Cmd cmds)" by (induction cmds) (auto intro: replay_events.intros)
  fix st pkts
  assume l: "sender_loop (sr_max_payload server) (sr_sender server) (map Cmd cmds) = Some (st, pkts)"
  note len = assms(3) [OF l]
  obtain effs new took c where
    run: "connected_run z (sr_rereq_session server) (sr_max_payload server) client (map fresh_turn pkts) effs new [] took c"
    and c: "ready c"
    using connected_can_deliver [OF z c0 len, of "sr_rereq_session server" "sr_max_payload server"] by blast
  note ch = connected_channel [OF run]
  have d: "cl_data client = []" "cl_data c = []" using c0 c by (simp_all add: ready_def)
  have sent: "\<forall>t \<in> set (map fresh_turn pkts). tn_sent t" by (simp add: fresh_turn_def)
  have "took = sent_data effs" using channel_run_data [OF ch d(1)] d(2) sent by auto
  moreover have "multicast_recv_loop z (cl_expect client) (map fresh_turn pkts) = (cl_expect c, effs)"
    using client_run_loop [OF z channel_run_client [OF ch]] c0 by (simp add: ready_def)
  ultimately have "map fst (simple_transport z server client cmds) = took" by (simp add: simple_transport_def l comp_def)
  moreover have "list_all2 receives (map fresh_turn pkts) pkts"
    using len by (induction pkts) (auto simp: fresh_receives)
  ultimately show "\<exists>ts effs new again took c.
      connected_run z (sr_rereq_session server) (sr_max_payload server) client ts effs new again took c \<and>
      list_all2 receives ts pkts \<and> (\<forall>t \<in> set ts. tn_sent t) \<and> cl_data c = [] \<and>
      map fst (simple_transport z server client cmds) = took"
    using run sent d(2) by blast
qed

text \<open>Every packet the sender makes has a header.\<close>

lemma build_packet_length: "build_packet s q ms = Some p \<Longrightarrow> length s = 10 \<Longrightarrow> 20 \<le> length p"
  using build_packet_ok [of ms s q] build_packet_panic [of ms s q]
  by (cases "length ms < 2 ^ 16 \<and> (\<forall>m \<in> set ms. length m < 2 ^ 16)") (auto simp: packet_bytes_length not_less)

lemma build_chunks_length:
  "build_chunks s q cs = Some ps \<Longrightarrow> length s = 10 \<Longrightarrow> p \<in> set ps \<Longrightarrow> 20 \<le> length p"
  by (induction cs arbitrary: ps) (auto simp: bind_eq_Some_conv dest: build_packet_length)

lemma sender_packets_length:
  "sender_loop limit st es = Some (st', pkts) \<Longrightarrow> length (sv_session st) = 10 \<Longrightarrow> p \<in> set pkts \<Longrightarrow> 20 \<le> length p"
proof (induction limit st es arbitrary: pkts rule: sender_loop.induct)
  case (2 limit st c es)
  from 2(2) obtain s1 p1 p2 where c: "sender_command limit st c = Some (s1, p1)"
    "sender_loop limit s1 es = Some (st', p2)" "pkts = p1 @ p2"
    by (auto simp: bind_eq_Some_conv)
  from c(1) 2(3) have "length (sv_session s1) = 10" "\<forall>p \<in> set p1. 20 \<le> length p"
    by (cases c; auto simp: bind_eq_Some_conv Let_def build_special_packet packet_bytes_length send_periodic_def
        dest: build_chunks_length split: if_splits)+
  with 2(1) [OF c(1) refl c(2)] c(3) 2(4) show ?case by auto
next
  case (3 limit st es)
  then show ?case by (auto simp: bind_eq_Some_conv Let_def send_periodic_def build_special_packet packet_bytes_length)
qed auto

end
