(* ===== verification/App_Text.thy ===== *)
theory App_Text
  imports App_Replay App_Report App_Tui
begin

text \<open>
  The texts the application prints: the \<open>Display\<close> of the book errors and of the counters,
  and the strings \<open>app/src/tui/ui.rs\<close> hands to its widgets.  A line is the list of its
  spans; styles and geometry are not modelled.  The share of a row, a formatted
  floating-point number, is a parameter of the row.
\<close>

section \<open>Errors and counters\<close>

fun BookError_fmt :: "book_error \<Rightarrow> string" where
  "BookError_fmt (DuplicateOrder i) = ''order '' @ show_u64 i @ '' already exists''"
| "BookError_fmt (UnknownOrder i) = ''order '' @ show_u64 i @ '' not found''"
| "BookError_fmt (OverExecute i g a) =
     ''execute qty '' @ show_u64 g @ '' exceeds resting qty '' @ show_u64 a @ '' for order '' @ show_u64 i"
| "BookError_fmt (OverCancel i g a) =
     ''cancel qty '' @ show_u64 g @ '' exceeds resting qty '' @ show_u64 a @ '' for order '' @ show_u64 i"

definition NetCounters_fmt :: "NetCounters \<Rightarrow> string" where
  "NetCounters_fmt c =
     ''packets='' @ show_u64 (packets_received c) @ '' heartbeats='' @ show_u64 (heartbeats c) @
     '' rereqs='' @ show_u64 (retransmission_requests c) @ '' truncated='' @ show_u64 (truncated_packets c) @
     '' parse_errors='' @ show_u64 (parse_errors c)"

definition HandlerStats_fmt :: "HandlerStats \<Rightarrow> string" where
  "HandlerStats_fmt s =
     ''added='' @ show_u64 (orders_added s) @ '' executed='' @ show_u64 (orders_executed s) @
     '' cancelled='' @ show_u64 (orders_cancelled s) @ '' deleted='' @ show_u64 (orders_deleted s) @
     '' replaced='' @ show_u64 (orders_replaced s) @ '' skipped_locate='' @ show_u64 (skipped_locate s)"

definition ReplayCounters_fmt :: "ReplayCounters \<Rightarrow> string" where
  "ReplayCounters_fmt c =
     ''parsed='' @ show_u64 (rc_parsed c) @ '' sent='' @ show_u64 (rc_sent c) @
     '' flushes='' @ show_u64 (rc_flush_count c)"

section \<open>Columns\<close>

text \<open>The number of \<open>char\<close>s of a string: its bytes that do not continue one.\<close>

definition char_count :: "string \<Rightarrow> nat" where
  "char_count s = length (filter (\<lambda>c. (of_char c :: nat) div 64 \<noteq> 2) s)"

text \<open>\<open>{:<w}\<close>.\<close>

definition pad_right :: "nat \<Rightarrow> string \<Rightarrow> string" where
  "pad_right w s = s @ replicate (w - char_count s) CHR '' ''"

lemma char_count_append [simp]: "char_count (s @ t) = char_count s + char_count t"
  by (simp add: char_count_def)

lemma pad_right_width: "char_count (pad_right w s) = max w (char_count s)"
proof -
  have "char_count (replicate n CHR '' '') = n" for n by (simp add: char_count_def)
  then show ?thesis by (simp add: pad_right_def)
qed

section \<open>The header and the symbol list\<close>

definition EM_DASH :: string where
  "EM_DASH = [CHR 0xE2, CHR 0x80, CHR 0x94]"

definition sep :: string where
  "sep = ''  '' @ [CHR 0xE2, CHR 0x94, CHR 0x82] @ ''  ''"

definition header_line :: "'l App \<Rightarrow> string list" where
  "header_line app =
     (let s = ap_stats app in
      [''registry'', '' '' @ show_nat (length (ap_symbols app)) @ '' symbols'', sep,
       ''added'', '' '' @ show_u64 (orders_added s), sep,
       ''exec'', '' '' @ show_u64 (orders_executed s), sep,
       ''cancel'', '' '' @ show_u64 (orders_cancelled s), sep,
       ''delete'', '' '' @ show_u64 (orders_deleted s), sep,
       ''replace'', '' '' @ show_u64 (orders_replaced s), sep,
       ''skip'', '' '' @ show_u64 (skipped_locate s)])"

definition symbols_title :: "'l App \<Rightarrow> string" where
  "symbols_title app =
     (if ap_filter app = [] then '' symbols ['' @ show_nat (length (ap_filtered app)) @ ''] ''
      else '' symbols ['' @ show_nat (length (ap_filtered app)) @ '' match '' @ [CHR 0x22] @
           concat (ap_filter app) @ [CHR 0x22] @ ''] '')"

definition quote_text :: "(price \<times> quantity) option \<Rightarrow> string" where
  "quote_text v = (case v of None \<Rightarrow> EM_DASH | Some (p, q) \<Rightarrow> ui_price p @ '' x'' @ show_u64 q)"

definition symbol_row_line :: "VisibleRow \<Rightarrow> string list" where
  "symbol_row_line row =
     [pad_right 8 (trim_end (Symbol_as_str (vw_symbol row))), ''  '',
      pad_right 14 (quote_text (vw_best_bid row)), '' '',
      pad_right 14 (quote_text (vw_best_ask row)), '' '',
      ''orders='' @ show_nat (vw_orders row)]"

definition symbols_items :: "'l App \<Rightarrow> string list list" where
  "symbols_items app = map symbol_row_line (ap_visible_rows app)"

section \<open>The ladder\<close>

definition depth_title :: "'l list_state \<Rightarrow> 'l App \<Rightarrow> string" where
  "depth_title L app =
     (case Option.bind (ls_selected L (ap_list_state app)) (App_symbol_at app) of
        None \<Rightarrow> '' depth ''
      | Some (_, symbol) \<Rightarrow>
          '' depth '' @ [CHR 0xC2, CHR 0xB7] @ '' '' @ trim_end (Symbol_as_str symbol) @ '' '')"

definition side_label :: "bool \<Rightarrow> string" where
  "side_label is_bid = (if is_bid then ''BIDS'' else ''ASKS'')"

definition side_columns :: "bool \<Rightarrow> (string \<times> nat) list" where
  "side_columns is_bid =
     (if is_bid then [(''share'', 12), (''qty'', 12), (''price'', 12)]
      else [(''price'', 12), (''qty'', 12), (''share'', 12)])"

definition ladder_data_row :: "string \<Rightarrow> LadderRow \<Rightarrow> bool \<Rightarrow> string list" where
  "ladder_data_row share row is_bid =
     side_order is_bid
       (case qty_of is_bid row of
          Some q \<Rightarrow> (ui_price (lr_price row), show_u64 q, share)
        | None \<Rightarrow> ([], [], []))"

definition ladder_side_rows :: "(LadderStats \<Rightarrow> LadderRow \<Rightarrow> string) \<Rightarrow> LadderRow list \<Rightarrow> bool \<Rightarrow> string list list" where
  "ladder_side_rows share ladder is_bid =
     (let stats = LadderStats_collect ladder is_bid in
      if ladder = [] then [side_order is_bid (EM_DASH, EM_DASH, EM_DASH)]
      else map (\<lambda>row. ladder_data_row (share stats row) row is_bid) ladder)"

definition ladder_side_title :: "LadderRow list \<Rightarrow> bool \<Rightarrow> string" where
  "ladder_side_title ladder is_bid =
     (let stats = LadderStats_collect ladder is_bid in
      '' '' @ side_label is_bid @ '' ('' @ show_nat (lt_n_levels stats) @ '' lvls, total='' @
      show_u64 (lt_total stats) @ '') '')"

text \<open>The columns of a row stand under their headers.\<close>

lemma side_order_columns:
  "map fst (side_columns is_bid) = side_order is_bid (''price'', ''qty'', ''share'')"
  by (simp add: side_columns_def side_order_def)

lemma LadderStats_exact:
  "lt_n_levels (LadderStats_collect ladder b) = length (List.map_filter (qty_of b) ladder)"
  "lt_total (LadderStats_collect ladder b) = sum_list (List.map_filter (qty_of b) ladder)"
proof -
  let ?f = "\<lambda>s q. \<lparr>lt_total = lt_total s + q, lt_max_qty = max (lt_max_qty s) q, lt_n_levels = lt_n_levels s + 1\<rparr>"
  have "lt_n_levels (foldl ?f s qs) = lt_n_levels s + length qs \<and>
      lt_total (foldl ?f s qs) = lt_total s + sum_list qs" for s and qs :: "quantity list"
    by (induction qs arbitrary: s) (simp_all add: add.assoc)
  then show "lt_n_levels (LadderStats_collect ladder b) = length (List.map_filter (qty_of b) ladder)"
    "lt_total (LadderStats_collect ladder b) = sum_list (List.map_filter (qty_of b) ladder)"
    by (simp_all add: LadderStats_collect_def)
qed

section \<open>The footer\<close>

definition footer_line :: "'l App \<Rightarrow> string list" where
  "footer_line app =
     (case ap_mode app of
        Filter \<Rightarrow> [''/'', concat (ap_filter app), [CHR 0xE2, CHR 0x96, CHR 0x88],
                   ''   Enter: confirm   Esc: clear'']
      | Normal \<Rightarrow> [''j/k'', '' move  '', ''g/G'', '' top/bot  '', ''/'', '' filter  '', ''q'', '' quit''])"

end
