(* ===== verification/App_Draw.thy ===== *)
theory App_Draw
  imports App_Text App_Live
begin

text \<open>
  \<open>draw\<close> of \<^verbatim>\<open>app/src/tui/ui.rs\<close>: the widgets a frame consists of, with their texts and
  columns, and what they say of the abstract books.  The areas of the widgets, the shade of a row
  and the remaining styles are not modelled.
\<close>

section \<open>The sides of the ladder\<close>

datatype color = Green | Red
datatype alignment = AlignLeft | AlignRight
datatype border = TopBorder | RightBorder
datatype flex = FlexStart | FlexEnd

record LadderSide =
  ls_is_bid :: bool
  ls_label :: string
  ls_color :: color
  ls_alignment :: alignment
  ls_borders :: "border list"
  ls_flex :: flex
  ls_columns :: "(string \<times> nat) list"
  ls_dim :: "u8 \<times> u8 \<times> u8"
  ls_peak :: "u8 \<times> u8 \<times> u8"

definition LadderSide_bids :: LadderSide where
  "LadderSide_bids =
     \<lparr>ls_is_bid = True, ls_label = ''BIDS'', ls_color = Green, ls_alignment = AlignRight,
      ls_borders = [TopBorder, RightBorder], ls_flex = FlexEnd,
      ls_columns = [(''share'', 12), (''qty'', 12), (''price'', 12)],
      ls_dim = (20, 60, 20), ls_peak = (140, 255, 140)\<rparr>"

definition LadderSide_asks :: LadderSide where
  "LadderSide_asks =
     \<lparr>ls_is_bid = False, ls_label = ''ASKS'', ls_color = Red, ls_alignment = AlignLeft,
      ls_borders = [TopBorder], ls_flex = FlexStart,
      ls_columns = [(''price'', 12), (''qty'', 12), (''share'', 12)],
      ls_dim = (60, 20, 20), ls_peak = (255, 140, 140)\<rparr>"

section \<open>The widgets\<close>

text \<open>A cell is its text with its alignment.\<close>

type_synonym table_cell = "string \<times> alignment"

definition side_cell :: "LadderSide \<Rightarrow> string \<Rightarrow> table_cell" where
  "side_cell side s = (s, ls_alignment side)"

record list_widget =
  lw_title :: string
  lw_items :: "string list list"
  lw_highlight :: string
  lw_selected :: "nat option"

record table_widget =
  tw_title :: string
  tw_color :: color
  tw_header :: "table_cell list"
  tw_widths :: "nat list"
  tw_rows :: "table_cell list list"
  tw_borders :: "border list"
  tw_flex :: flex

record screen =
  sc_title :: string
  sc_header :: "string list"
  sc_symbols :: list_widget
  sc_depth_title :: string
  sc_bids :: table_widget
  sc_asks :: table_widget
  sc_footer :: "string list"

definition draw_symbol_list :: "'l list_state \<Rightarrow> 'l App \<Rightarrow> list_widget" where
  "draw_symbol_list L app =
     \<lparr>lw_title = symbols_title app, lw_items = symbols_items app,
      lw_highlight = [CHR 0xE2, CHR 0x96, CHR 0xB6, CHR '' ''], lw_selected = local_selected L app\<rparr>"

text \<open>\<open>share\<close> is the percentage of a row, a formatted float.\<close>

definition draw_ladder_side :: "(LadderStats \<Rightarrow> LadderRow \<Rightarrow> string) \<Rightarrow> LadderRow list \<Rightarrow> bool \<Rightarrow> table_widget" where
  "draw_ladder_side share rows is_bid =
     (let side = if is_bid then LadderSide_bids else LadderSide_asks in
      \<lparr>tw_title = ladder_side_title rows is_bid, tw_color = ls_color side,
       tw_header = map (\<lambda>(h, _). side_cell side h) (ls_columns side),
       tw_widths = map (\<lambda>(_, w). w) (ls_columns side),
       tw_rows = map (map (side_cell side)) (ladder_side_rows share rows is_bid),
       tw_borders = ls_borders side, tw_flex = ls_flex side\<rparr>)"

definition draw_depth ::
  "'l list_state \<Rightarrow> (LadderStats \<Rightarrow> LadderRow \<Rightarrow> string) \<Rightarrow> 'l App \<Rightarrow> string \<times> table_widget \<times> table_widget" where
  "draw_depth L share app =
     (let rows = build_ladder (ap_depth app) (ladder_rows (ap_viewport app)) in
      (depth_title L app, draw_ladder_side share rows True, draw_ladder_side share rows False))"

definition draw_body ::
  "'l list_state \<Rightarrow> (LadderStats \<Rightarrow> LadderRow \<Rightarrow> string) \<Rightarrow> 'l App \<Rightarrow>
   list_widget \<times> string \<times> table_widget \<times> table_widget" where
  "draw_body L share app = (draw_symbol_list L app, draw_depth L share app)"

definition draw :: "'l list_state \<Rightarrow> (LadderStats \<Rightarrow> LadderRow \<Rightarrow> string) \<Rightarrow> 'l App \<Rightarrow> screen" where
  "draw L share app =
     (case draw_body L share app of (symbols, title, bids, asks) \<Rightarrow>
        \<lparr>sc_title = '' hftrs '' @ [CHR 0xC2, CHR 0xB7] @ '' itch5 replay '', sc_header = header_line app,
         sc_symbols = symbols, sc_depth_title = title, sc_bids = bids, sc_asks = asks, sc_footer = footer_line app\<rparr>)"

text \<open>The label and the columns are those the texts are made with.\<close>

lemma ladder_sides:
  "side_label True = ls_label LadderSide_bids" "side_label False = ls_label LadderSide_asks"
  "side_columns True = ls_columns LadderSide_bids" "side_columns False = ls_columns LadderSide_asks"
  by (simp_all add: side_label_def side_columns_def LadderSide_bids_def LadderSide_asks_def)

text \<open>Every cell stands under the header of its kind.\<close>

lemma tables_aligned:
  "row \<in> set (tw_rows (draw_ladder_side share rows is_bid)) \<Longrightarrow>
   length row = length (tw_header (draw_ladder_side share rows is_bid)) \<and>
   map snd row = map snd (tw_header (draw_ladder_side share rows is_bid))"
  by (auto simp: draw_ladder_side_def Let_def ladder_side_rows_def ladder_data_row_def side_order_def side_cell_def
      LadderSide_bids_def LadderSide_asks_def split: if_splits option.splits)

section \<open>What the texts say\<close>

text \<open>The line of a symbol, and the row of a level, written from the abstract book.\<close>

definition quote_line :: "(price \<times> nat) option \<Rightarrow> string" where
  "quote_line v = (case v of None \<Rightarrow> EM_DASH | Some (p, n) \<Rightarrow> ui_price p @ '' x'' @ show_nat n)"

definition book_line :: "Symbol \<Rightarrow> abook \<Rightarrow> string list" where
  "book_line s os =
     [pad_right 8 (trim_end (Symbol_as_str s)), ''  '', pad_right 14 (quote_line (bt_last (ladder os Bid))), '' '',
      pad_right 14 (quote_line (bt_first (ladder os Ask))), '' '', ''orders='' @ show_nat (length os)]"

lemma quote_text_line: "quote_text v = quote_line (map_option qty_nat v)"
  by (cases v) (auto simp: quote_text_def quote_line_def qty_nat_def show_u64_def)

lemma symbol_row_line_shows: "row_shows s os row \<Longrightarrow> symbol_row_line row = book_line s os"
  by (auto simp: row_shows_def symbol_row_line_def book_line_def quote_text_line)

text \<open>
  A table says of every level it shows the price and the quantity of the book; a row of the other
  side is blank.
\<close>

definition level_cells :: "string \<Rightarrow> bool \<Rightarrow> price \<times> nat \<Rightarrow> string list" where
  "level_cells share is_bid e = side_order is_bid (ui_price (fst e), show_nat (snd e), share)"

definition book_side :: "bool \<Rightarrow> side" where
  "book_side is_bid = (if is_bid then Bid else Ask)"

lemma depth_levels:
  assumes "ladder_shows n os d"
  shows "distinct (map fst (dl_bids d))" and "distinct (map fst (dl_asks d))"
    and "e \<in> set (dl_bids d) \<Longrightarrow> qty_nat e \<in> set (ladder os Bid)"
    and "e \<in> set (dl_asks d) \<Longrightarrow> qty_nat e \<in> set (ladder os Ask)"
proof -
  have q: "map fst es = map fst (map qty_nat es)" for es by (simp add: qty_nat_def comp_def)
  have b: "map qty_nat (dl_bids d) = take n (rev (ladder os Bid))" and a: "map qty_nat (dl_asks d) = take n (ladder os Ask)"
    using assms by (simp_all add: ladder_shows_def)
  show "distinct (map fst (dl_bids d))" unfolding q [of "dl_bids d"] b
    by (simp add: take_map [symmetric] rev_map [symmetric] side_prices_def)
  show "distinct (map fst (dl_asks d))" unfolding q [of "dl_asks d"] a
    by (simp add: take_map [symmetric] side_prices_def)
  show "e \<in> set (dl_bids d) \<Longrightarrow> qty_nat e \<in> set (ladder os Bid)"
    using b by (metis image_eqI in_set_takeD set_map set_rev)
  show "e \<in> set (dl_asks d) \<Longrightarrow> qty_nat e \<in> set (ladder os Ask)"
    using a by (metis image_eqI in_set_takeD set_map)
qed

lemma ladder_row_shows:
  assumes "ladder_shows n os d" and "row \<in> set (build_ladder d m)" and "qty_of is_bid row = Some q"
  shows "(lr_price row, unat q) \<in> set (ladder os (book_side is_bid))"
proof -
  note d = depth_levels [OF assms(1)]
  from build_ladder_ok(3) [OF d(1,2) assms(2)] assms(3)
  have "(lr_price row, q) \<in> set (if is_bid then dl_bids d else dl_asks d)"
    by (auto simp: qty_of_def intro: map_of_SomeD split: if_splits)
  with d(3,4) [of "(lr_price row, q)"] show ?thesis by (auto simp: book_side_def qty_nat_def split: if_splits)
qed

lemma table_shows:
  assumes "ladder_shows n os (ap_depth app)"
    and "cells \<in> set (tw_rows (draw_ladder_side share (build_ladder (ap_depth app) m) is_bid))"
  shows "(\<exists>s. \<exists>e \<in> set (ladder os (book_side is_bid)). map fst cells = level_cells s is_bid e) \<or>
    map fst cells = [[], [], []] \<or> map fst cells = [EM_DASH, EM_DASH, EM_DASH]"
proof -
  let ?rows = "build_ladder (ap_depth app) m"
  have f: "map fst (map (side_cell sd) r) = r" for sd r by (simp add: side_cell_def comp_def)
  from assms(2) have c: "map fst cells \<in> set (ladder_side_rows share ?rows is_bid)"
    by (auto simp: draw_ladder_side_def Let_def side_cell_def comp_def)
  show ?thesis
  proof (cases "?rows = []")
    case True
    with c show ?thesis by (simp add: ladder_side_rows_def side_order_def Let_def)
  next
    case False
    with c obtain row s where row: "row \<in> set ?rows" "map fst cells = ladder_data_row s row is_bid"
      by (auto simp: ladder_side_rows_def Let_def)
    show ?thesis
    proof (cases "qty_of is_bid row")
      case None
      with row(2) show ?thesis by (simp add: ladder_data_row_def side_order_def)
    next
      case (Some q)
      with row(2) have "map fst cells = level_cells s is_bid (lr_price row, unat q)"
        by (simp add: ladder_data_row_def level_cells_def show_u64_def)
      with ladder_row_shows [OF assms(1) row(1) Some] show ?thesis by blast
    qed
  qed
qed

text \<open>A screen that says what the abstract books hold.\<close>

definition screen_says :: "abooks \<Rightarrow> 'l App \<Rightarrow> screen \<Rightarrow> bool" where
  "screen_says A app sc \<longleftrightarrow>
     (\<forall>line \<in> set (lw_items (sc_symbols sc)). \<exists>l s os. A l = Some (s, os) \<and> line = book_line s os) \<and>
     (\<forall>l s os. ap_selected_locate app = Some l \<longrightarrow> A l = Some (s, os) \<longrightarrow>
        (\<forall>is_bid. \<forall>cells \<in> set (tw_rows (if is_bid then sc_bids sc else sc_asks sc)).
           (\<exists>sh. \<exists>e \<in> set (ladder os (book_side is_bid)). map fst cells = level_cells sh is_bid e) \<or>
           map fst cells = [[], [], []] \<or> map fst cells = [EM_DASH, EM_DASH, EM_DASH]))"

lemma drawn_screen_says:
  assumes "screen_shows A app"
  shows "screen_says A app (draw L share app)"
  unfolding screen_says_def
proof (intro conjI allI impI ballI)
  fix line assume "line \<in> set (lw_items (sc_symbols (draw L share app)))"
  then have "line \<in> symbol_row_line ` set (ap_visible_rows app)"
    by (simp add: draw_def draw_body_def draw_depth_def draw_symbol_list_def symbols_items_def Let_def)
  with assms show "\<exists>l s os. A l = Some (s, os) \<and> line = book_line s os"
    unfolding screen_shows_def using symbol_row_line_shows by blast
next
  fix l s os is_bid cells
  assume sel: "ap_selected_locate app = Some l" "A l = Some (s, os)"
    and "cells \<in> set (tw_rows (if is_bid then sc_bids (draw L share app) else sc_asks (draw L share app)))"
  then have "cells \<in> set (tw_rows (draw_ladder_side share (build_ladder (ap_depth app) (ladder_rows (ap_viewport app))) is_bid))"
    by (cases is_bid) (simp_all add: draw_def draw_body_def draw_depth_def Let_def)
  moreover have "ladder_shows ((ladder_rows (ap_viewport app) + 1) div 2) os (ap_depth app)"
    using assms sel unfolding screen_shows_def by blast
  ultimately show "(\<exists>sh. \<exists>e \<in> set (ladder os (book_side is_bid)). map fst cells = level_cells sh is_bid e) \<or>
      map fst cells = [[], [], []] \<or> map fst cells = [EM_DASH, EM_DASH, EM_DASH]"
    using table_shows by blast
qed

end
