(* ===== verification/Run_Claims.thy ===== *)
theory Run_Claims
  imports App_Claims App_Pipeline App_Draw Mold_Claims Runtime_Claims
begin

text \<open>The properties of a whole run, and of what reaches the books late.\<close>

section \<open>A run from the file to the report\<close>

lemma started_server:
  "start_server env config = Inr server \<Longrightarrow> sr_sender server = server_start (cf_session config) 1"
  by (auto simp: start_server_def MoldUDP64Server_start_def Let_def MoldUDP64Server_start_with_sockets_def
      MoldUDP64Server_build_def split: sum.splits)

lemma started_rereq: "start_server env config = Inr server \<Longrightarrow> sr_max_payload server = 1452"
  by (auto simp: start_server_def MoldUDP64Server_start_def Let_def MoldUDP64Server_start_with_sockets_def
      MoldUDP64Server_build_def split: sum.splits)

lemma started_client:
  assumes "start_client env config = Some (Inr client)"
  shows "ready client" and "cl_requests client = []" and "cl_wire client = []"
    and "cl_expect client = client_start (Some (cf_session config)) None"
proof -
  let ?m = "MoldUDP64_build (cf_multicast_addr config) (cf_interface_addr config) [cf_rerequest_addr config]
      (Some (cf_session config)) None"
  obtain b1 j b2 where "en_client_binds env = (b1, j, b2)" by (cases "en_client_binds env")
  with assms have c: "MoldUDP64_start_with_sockets ?m (fst (en_tunes env)) (snd (en_tunes env)) (mc_rerequest_server_addrs ?m) = Some client"
    by (cases b1; cases j; cases b2)
      (auto simp: start_client_def MoldUDP64_start_def Let_def bind_eq_Some_conv split: option.splits)
  show "ready client" "cl_requests client = []" "cl_wire client = []" by (rule start_client_ready [OF c])+
  show "cl_expect client = client_start (Some (cf_session config)) None"
    using start_client_ok(5) [OF c] by (simp add: MoldUDP64_build_def)
qed

text \<open>The events of a replay whose batches fit a packet.\<close>

lemma replay_events_plain:
  "replay_events cmds es \<Longrightarrow> \<forall>c \<in> set cmds. plain_event limit (Cmd c) \<Longrightarrow>
   (\<forall>e \<in> set es. plain_event limit e) \<and> accepted_messages False es = sent_messages cmds"
proof (induction rule: replay_events.induct)
  case (command cmds es c)
  then show ?case by (cases c) auto
qed simp_all

lemma replay_plain:
  assumes "rng_ok rng" and "1 \<le> max_msgs" "max_msgs < 65535" and d: "decodes bodies ms"
    and "tail = [] \<or> (\<exists>e. parse_one tail = Inl e)"
    and "server_thread rng [] (frames bodies @ tail) max_msgs = Some cmds" and "sends_fit limit cmds"
  shows "\<forall>c \<in> set cmds. plain_event limit (Cmd c)" and "sent_messages cmds = bodies"
proof -
  from replay_ok [OF assms(1,2) decodes_good [OF d] assms(5), of "[]"] obtain c cs where
    r: "replay rng [] (frames bodies @ tail) max_msgs = Some (c, cs)" "list_all (batch_in max_msgs) cs"
      "sent_messages cs = bodies" by auto
  have cmds: "cmds = cs @ [EndOfSessionCmd]" using assms(6) r(1) by (simp add: server_thread_def)
  then show "sent_messages cmds = bodies" using r(3) by simp
  have "plain_event limit (Cmd x)" if x: "x \<in> set cs" for x
  proof -
    obtain m where m: "x = Send m" "length m \<le> max_msgs" using r(2) x by (auto simp: list_all_iff batch_in_def)
    have "set m \<subseteq> set bodies" using sent_of_command [of m cs] x m(1) r(3) by simp
    then have "batch_ok m" using m(2) assms(3) decodes_good [OF d] by (auto simp: batch_ok_def good_body_def)
    moreover have "total_len m \<le> limit" using assms(7) x m(1) cmds by (auto simp: sends_fit_def list_all_iff)
    ultimately show ?thesis using m(1) by simp
  qed
  then show "\<forall>c \<in> set cmds. plain_event limit (Cmd c)" using cmds by auto
qed

text \<open>
  What the channel delivers when nothing is lost is what the sender sent: the receiver finds no
  gap, so it makes no request, so nothing is sent again.
\<close>

lemma network_delivers:
  assumes z: "zerocopy_ok z" and dv: "delivers z tr server client cmds"
    and plain: "\<forall>c \<in> set cmds. plain_event (sr_max_payload server) (Cmd c)"
    and n: "length (sent_messages cmds) < 2 ^ 32"
    and server: "sr_sender server = server_start sess 1"
    and client: "ready client" "cl_requests client = []" "cl_wire client = []" "cl_expect client = client_start s None"
    and sess: "\<And>es. replay_events cmds es \<Longrightarrow>
      \<exists>st pkts. sender_loop (sr_max_payload server) (sr_sender server) es = Some (st, pkts) \<and> goal es pkts"
  shows "\<exists>es pkts. replay_events cmds es \<and> goal es pkts \<and>
    map (\<lambda>d. Datagram_bytes (fst d)) (tr server client cmds) = map Some pkts"
proof -
  from dv obtain es where es: "replay_events cmds es" and
    tr: "\<And>st pkts. sender_loop (sr_max_payload server) (sr_sender server) es = Some (st, pkts) \<Longrightarrow>
      \<exists>ts effs new again took c.
        connected_run z (sr_rereq_session server) (sr_max_payload server) client ts effs new again took c \<and>
        list_all2 receives ts pkts \<and> (\<forall>t \<in> set ts. tn_sent t) \<and> cl_data c = [] \<and> map fst (tr server client cmds) = took"
    unfolding delivers_def by blast
  obtain st pkts where s: "sender_loop (sr_max_payload server) (sr_sender server) es = Some (st, pkts)" "goal es pkts"
    using sess [OF es] by blast
  obtain ts effs new again took c where
    run: "connected_run z (sr_rereq_session server) (sr_max_payload server) client ts effs new again took c"
    and ts: "list_all2 receives ts pkts" "\<forall>t \<in> set ts. tn_sent t" and c: "cl_data c = []"
    and took: "map fst (tr server client cmds) = took"
    using tr [OF s(1)] by blast
  note ch = connected_channel [OF run]
  note pe = replay_events_plain [OF es plain]
  have ok: "client_ok client" "cl_data client = []" using client(1) by (simp_all add: ready_def)
  have loop: "multicast_recv_loop z (cl_expect client) ts = (cl_expect c, effs)"
    using client_run_loop [OF z channel_run_client [OF ch] ok(1)] by simp
  have "requests (snd (multicast_recv_loop z (cl_expect client) ts)) = []"
  proof (rule stream_makes_no_request [OF z _ s(1) _ _ _ ts(1)])
    show "\<forall>e \<in> set es. plain_event (sr_max_payload server) e" using pe by blast
    show "unat (sv_next_seq (sr_sender server)) + length (accepted_messages False es) + 65535 < 2 ^ 64"
      using n pe by (simp add: server server_start_def)
  qed (simp_all add: server server_start_def not_ahead_def client(4) client_start_def)
  then have "again = []" using connected_quiet [OF run client(2,3)] loop by simp
  then have "map Datagram_bytes took = map Some pkts"
    using channel_run_delivers [OF z ok _ ts(2) c ts(1), of effs new took] ch sender_packets_length [OF s(1)]
    by (simp add: server server_start_def)
  then have "map (\<lambda>d. Datagram_bytes (fst d)) (tr server client cmds) = map Some pkts"
    unfolding took [symmetric] by (simp add: comp_def)
  with es s(2) show ?thesis by (intro exI conjI)
qed

lemma write_report_ok:
  assumes "Snapshot_capture vec_registry h (cf_report_depth config) = Some sn"
    and "\<forall>path. cf_output_file_path config = Some path \<longrightarrow> create path = Inr ()"
  shows "write_report create h config =
    Some (Inr (cf_output_file_path config, ReportFormat_write (cf_report_format config) sn))"
  using assms by (cases "cf_output_file_path config") (simp_all add: write_report_def report_write_def)

definition terminal_well :: "terminal \<Rightarrow> bool" where
  "terminal_well te \<longleftrightarrow>
     (case te_setup te of (raw, enter, create) \<Rightarrow> succeeds raw \<and> succeeds enter \<and> succeeds create) \<and>
     list_all turn_well (te_turns te)"

lemma tui_thread_follows:
  assumes "list_state_ok L" and "vrc.feed_ok z watch ms" and "mono f"
    and "\<forall>k. \<exists>h. lock k = Some h \<and>
      visit (app_visitor z vec_registry) (take (f k) ms) (Some (app_handler_new vec_registry watch [])) = (Some h, [], Continue)"
    and "sorted (map it_seen (te_turns te))" and w: "terminal_well te"
  shows "\<exists>fs. tui_thread L char_up lock te = Some (Inr fs) \<and>
    (\<forall>d \<in> set fs. screen_shows (fst (spec_feed z (watch_set watch) (take (f (dr_seen d)) ms) (Map.empty, stats_default))) (dr_app d))"
proof -
  obtain raw enter create where t: "te_setup te = (raw, enter, create)" by (cases "te_setup te")
  obtain log r where s: "setup_terminal (raw, enter, create) = (log, r)" by (cases "setup_terminal (raw, enter, create)")
  have "succeeds r" using setup_leaves(2) [of raw enter create] s w t by (simp add: terminal_well_def)
  moreover obtain ls fs app res where
    "event_loop_io L vec_registry char_up lock (App_new L) (te_now te - FRAME_INTERVAL) (te_turns te) = Some (ls, fs, app, res)"
    "\<forall>d \<in> set fs. screen_shows (fst (spec_feed z (watch_set watch) (take (f (dr_seen d)) ms) (Map.empty, stats_default))) (dr_app d)"
    "succeeds res"
    using vrc.loop_follows_feed [OF assms(1-5), of char_up "te_now te - FRAME_INTERVAL"] w
    unfolding watch_set_def terminal_well_def by blast
  ultimately show ?thesis
    using s t by (cases r; cases res) (auto simp: tui_thread_def tui_run_def)
qed

text \<open>
  C2: a run reports its file. Given a file of well-formed messages, possibly with a malformed
  tail, sockets that open, an output that can be created and, in interactive mode, a terminal without
  errors; let the network deliver the server's packets in order and without loss, in any
  interleaving of the threads, and let the re-request socket receive any answers of the server to what
  the client asks for. Let each batch of the replay fit one packet, which batches of
  at most 29 messages do (the default limit of 100 does not ensure it; see C13 for what a larger
  batch does). And let neither Ctrl-C nor the interface raise the shutdown flag before the replay and
  the receive loop have looked at it for the last time. Then the whole program, from
  opening the file over replay, server, receiver, handler and interface to the report, panics
  nowhere; no re-request is made, so nothing is applied twice; and the text it
  writes is a report that describes the feed: every registered locate once with its symbol,
  best prices and levels, as the specification of the feed has them. Every frame the
  interface has drawn on the way shows the feed up to the datagrams applied at that moment. A
  malformed tail does not make the run fail.
\<close>

theorem run_reports_file:
  assumes "zerocopy_ok z" and "rng_ok (en_rng env)"
    and "\<forall>cmds. server_thread (en_rng env) [] (frames bodies @ tail) (cf_max_msgs config) = Some cmds \<longrightarrow>
      sends_fit (sr_max_payload server) cmds \<and> delivers z (en_transport env) server client cmds"
    and "parse_symbols up (cf_symbol_strs config) = Some watch"
    and "open_input (en_open env) (cf_file_path config) = Inr (frames bodies @ tail)"
    and "start_server env config = Inr server" and "start_client env config = Some (Inr client)"
    and "decodes bodies ms" and "length ms \<le> unat NIL" and "tail = [] \<or> (\<exists>e. parse_one tail = Inl e)"
    and "1 \<le> cf_max_msgs config" "cf_max_msgs config < 65535"
    and "flag_raised env config \<longrightarrow> en_server_flag env = [] \<and> en_client_flag env = []"
    and "\<forall>l \<in> directory_locates z (watch_set watch) ms. unat l < MAX_CAPACITY"
    and "list_state_ok L" and "cf_interactive config \<longrightarrow> terminal_well (en_terminal env)"
    and "sorted (map it_seen (te_turns (en_terminal env)))"
    and "\<forall>path. cf_output_file_path config = Some path \<longrightarrow> en_create env path = Inr ()"
  shows "\<exists>fs sn f. pipeline_run z up L char_up env config =
      Some (Inr (fs, if should_make_report config
                     then Some (cf_output_file_path config, ReportFormat_write (cf_report_format config) sn) else None)) \<and>
    snapshot_ok (cf_report_depth config) (fst (spec_feed z (watch_set watch) ms (Map.empty, stats_default)))
      (snd (spec_feed z (watch_set watch) ms (Map.empty, stats_default))) sn \<and>
    mono f \<and> (\<forall>d \<in> set fs.
      screen_shows (fst (spec_feed z (watch_set watch) (take (f (dr_seen d)) ms) (Map.empty, stats_default))) (dr_app d))"
proof -
  let ?st = "spec_feed z (watch_set watch) ms (Map.empty, stats_default)" and ?n = "cf_report_depth config"
  let ?h0 = "app_handler_new vec_registry watch []" and ?run = "app_run z vec_registry (app_handler_new vec_registry watch []) net_default"
  have fit: "vr_fits (mh_registry ?h0) l" if "l \<in> directory_locates z (watch_set watch) ms" for l
    using assms(14) that by (simp add: new_fits)
  have loads: "loads env config (en_server_flag env) = []" "loads env config (en_client_flag env) = []"
    using assms(13) by (simp_all add: loads_def)
  from session_sends [OF assms(1,2,11,12,8,10)] obtain cmds where
    cmds: "server_thread (en_rng env) [] (frames bodies @ tail) (cf_max_msgs config) = Some cmds"
    and sess: "\<And>es. replay_events cmds es \<Longrightarrow>
      \<exists>st pkts. sender_loop (sr_max_payload server) (sr_sender server) es = Some (st, pkts) \<and> session_packets z ms pkts"
    unfolding started_server [OF assms(6)] by blast
  define ds where "ds = en_transport env server client cmds"
  from assms(3) cmds have net: "sends_fit (sr_max_payload server) cmds" "delivers z (en_transport env) server client cmds"
    by blast+
  note plain = replay_plain [OF assms(2,11,12,8,10) cmds net(1)]
  have "length (sent_messages cmds) < 2 ^ 32"
    using assms(8,9) list_all2_lengthD [of _ bodies ms] by (simp add: plain(2) decodes_def unat_NIL)
  from network_delivers [OF assms(1) net(2) plain(1) this started_server [OF assms(6)] started_client [OF assms(7)] sess]
  obtain pkts where
    pkts: "session_packets z ms pkts" "map (\<lambda>d. Datagram_bytes (fst d)) ds = map Some pkts"
    unfolding ds_def by blast
  from vrc.session_received [OF assms(1) pkts assms(9) vrc.new_handler_rel [of watch, folded watch_set_def] fit]
  obtain f where f: "mono f" "f (length ds) = length ms"
    and k: "\<And>k. \<exists>h net effs. ?run (take k ds) = Some (h, net, effs) \<and>
      visit (app_visitor z vec_registry) (take (f k) ms) (Some ?h0) = (Some h, [], Continue) \<and>
      vrc.handler_rel (f k) (watch_set watch) h (spec_feed z (watch_set watch) (take (f k) ms) (Map.empty, stats_default))"
    by blast
  obtain h net effs where h: "?run ds = Some (h, net, effs)" "vrc.handler_rel (length ms) (watch_set watch) h ?st"
    using k [of "length ds"] f(2) by auto
  obtain sn where sn: "Snapshot_capture vec_registry h ?n = Some sn" "snapshot_ok ?n (fst ?st) (snd ?st) sn"
    using vrc.snapshot_handler [of "length ms" "watch_set watch" h "fst ?st" "snd ?st"] h(2) by auto
  let ?lock = "\<lambda>k. map_option fst (?run (take k ds))"
  have lock: "\<forall>k. \<exists>h. ?lock k = Some h \<and> visit (app_visitor z vec_registry) (take (f k) ms) (Some ?h0) = (Some h, [], Continue)"
    using k by fastforce
  have ok: "vrc.feed_ok z watch ms" using assms(9,14) by (auto simp: vrc.feed_ok_def new_fits watch_set_def)
  have te: "sorted (map it_seen (te_turns (terminal_of env)))" "cf_interactive config \<longrightarrow> terminal_well (terminal_of env)"
    using assms(16,17) by (auto simp: terminal_of_def terminal_well_def turn_well_def Let_def comp_def list_all_iff)
  obtain fs where fs: "(if cf_interactive config then tui_thread L char_up ?lock (terminal_of env) else Some (Inr [])) = Some (Inr fs)"
    "\<forall>d \<in> set fs. screen_shows (fst (spec_feed z (watch_set watch) (take (f (dr_seen d)) ms) (Map.empty, stats_default))) (dr_app d)"
    using tui_thread_follows [OF assms(15) ok f(1) lock te(1), of char_up] te(2)
    by (cases "cf_interactive config") auto
  have "pipeline_run z up L char_up env config =
      Some (Inr (fs, if should_make_report config
                     then Some (cf_output_file_path config, ReportFormat_write (cf_report_format config) sn) else None))"
    using assms(4-7) loads cmds h(1) fs(1) write_report_ok [OF sn(1) assms(18)]
    by (cases "cf_interactive config") (simp_all add: pipeline_run_def Let_def flip: ds_def)
  with sn(2) fs(2) f(1) show ?thesis by blast
qed

text \<open>The interface is left with a key at the end; the two threads look at the flag no more.\<close>

definition sample_environment :: environment where
  "sample_environment =
     \<lparr>en_open = (\<lambda>path. Inr \<lparr>fl_len = Inr (length (frames sample_bodies)), fl_map = Inr (frames sample_bodies)\<rparr>),
      en_server_binds = (Inr (), Inr ()), en_client_binds = (Inr (), Inr (), Inr ()),
      en_tunes = ((Inr (), Inr RECV_BUF_SIZE), (Inr (), Inr RECV_BUF_SIZE)),
      en_rng = (\<lambda>k m. 1), en_ctrl_c = False, en_server_flag = [], en_client_flag = [],
      en_transport = simple_transport zerocopy_std,
      en_terminal = \<lparr>te_setup = (Inr (), Inr (), Inr ()), te_now = 0,
        te_turns = map (\<lambda>k. \<lparr>it_shutdown = False, it_now = 100 * int k, it_size = Inr 24, it_seen = k, it_draw = Inr (),
          it_poll = Inr (k = 5),
          it_read = Inr (Some \<lparr>ke_release = False, ke_control = False, ke_code = Char ''q''\<rparr>)\<rparr>) [0, 2, 5],
        te_restore = (Inr (), Inr (), Inr ())\<rparr>,
      en_create = (\<lambda>path. Inr ())\<rparr>"

lemma sends_fit_whole: "total_len (sent_messages cmds) \<le> limit \<Longrightarrow> sends_fit limit cmds"
  by (induction cmds rule: sent_messages.induct) (auto simp: sends_fit_def)

lemma sample_delivers:
  assumes cmds: "server_thread (\<lambda>k m. 1) [] (frames sample_bodies @ []) 100 = Some cmds"
    and server: "sr_sender server = server_start sess 1" "sr_max_payload server = 1452" and c: "ready client"
  shows "sends_fit 1452 cmds" and "delivers zerocopy_std (simple_transport zerocopy_std) server client cmds"
proof -
  have rng: "rng_ok (\<lambda>k m. 1)" by (simp add: rng_ok_def)
  from replay_ok [OF rng _ decodes_good [OF sample_decodes], of 100 "[]" "[]"] cmds
  have "sent_messages cmds = sample_bodies" by (auto simp: server_thread_def)
  then show fit: "sends_fit 1452 cmds"
    by (intro sends_fit_whole) (simp add: sample_bodies_def sample_directory_def sample_add_def sample_execute_def ascii_bytes_def)
  have plain: "\<forall>e \<in> set (map Cmd cmds). plain_event 1452 e"
    using replay_plain(1) [OF rng _ _ sample_decodes _ cmds fit] by simp
  show "delivers zerocopy_std (simple_transport zerocopy_std) server client cmds"
  proof (rule simple_transport_delivers [OF zerocopy_std_ok c])
    fix st pkts
    assume l: "sender_loop (sr_max_payload server) (sr_sender server) (map Cmd cmds) = Some (st, pkts)"
    have ten: "length (sv_session (sr_sender server)) = 10" by (simp add: server(1) server_start_def)
    show "\<forall>p \<in> set pkts. 20 \<le> length p \<and> length p \<le> BUF_SIZE"
      using sender_packets_length [OF l ten] plain_packet_length [OF l _ ten] plain server(2)
      by (fastforce simp: BUF_SIZE_def)
  qed
qed

theorem run_reports_file_witness:
  "\<exists>fs sn f. pipeline_run zerocopy_std id list_state_std (\<lambda>k. [k]) sample_environment
        ((Config_default ''feed.itch'' True)\<lparr>cf_output_file_path := Some ''report.tsv''\<rparr>) =
      Some (Inr (fs, Some (Some ''report.tsv'', ReportFormat_write Tsv sn))) \<and>
    snapshot_ok 10 [7 \<mapsto> (wire_symbol ''AAPL'', [sample_order])]
      (inc_executed (inc_added (inc_directory stats_default))) sn \<and>
    (\<forall>d \<in> set fs. screen_shows (fst (spec_feed zerocopy_std None (take (f (dr_seen d)) sample_messages) (Map.empty, stats_default)))
      (dr_app d))"
proof -
  let ?c = "(Config_default ''feed.itch'' True)\<lparr>cf_output_file_path := Some ''report.tsv''\<rparr>"
  note defs = sample_environment_def Config_default_def
  have ne: "frames sample_bodies \<noteq> []" by (simp add: sample_bodies_def frame_def sample_directory_def ascii_bytes_def)
  have "rng_ok (en_rng sample_environment)" by (simp add: defs rng_ok_def)
  moreover have "parse_symbols id (cf_symbol_strs ?c) = Some None" by (simp add: defs parse_symbols_def)
  moreover have "open_input (en_open sample_environment) (cf_file_path ?c) = Inr (frames sample_bodies @ [])"
    using ne by (simp add: sample_environment_def open_input_def)
  moreover obtain server where server: "start_server sample_environment ?c = Inr server"
    by (simp add: sample_environment_def start_server_def MoldUDP64Server_start_def Let_def)
  moreover obtain client where client: "start_client sample_environment ?c = Some (Inr client)"
    by (simp add: sample_environment_def start_client_def MoldUDP64_start_def Let_def
        MoldUDP64_start_with_sockets_def tune_recv_buffer_def)
  moreover have "\<forall>cmds. server_thread (en_rng sample_environment) [] (frames sample_bodies @ []) (cf_max_msgs ?c) = Some cmds \<longrightarrow>
      sends_fit (sr_max_payload server) cmds \<and> delivers zerocopy_std (en_transport sample_environment) server client cmds"
    using sample_delivers [OF _ started_server [OF server] started_rereq [OF server] started_client(1) [OF client]]
    by (simp add: started_rereq [OF server] sample_environment_def Config_default_def DEFAULT_MAX_MSGS_def)
  moreover have "length sample_messages \<le> unat NIL" by (simp add: sample_messages_def unat_NIL)
  moreover have "\<forall>l \<in> directory_locates zerocopy_std (watch_set None) sample_messages. unat l < MAX_CAPACITY"
    using sample_locates by (simp add: watch_set_def MAX_CAPACITY_def)
  moreover have "terminal_well (en_terminal sample_environment)"
    by (simp add: sample_environment_def terminal_well_def turn_well_def)
  ultimately show ?thesis
    using run_reports_file [OF zerocopy_std_ok, where env = sample_environment and up = id and config = ?c and watch = None and bodies = sample_bodies and
        tail = "[]" and server = server and client = client and ms = sample_messages and L = list_state_std and char_up = "\<lambda>k. [k]"] sample_decodes sample_books list_state_std_ok
    by (simp add: watch_set_def Config_default_def sample_environment_def DEFAULT_MAX_MSGS_def should_make_report_def
        DEFAULT_REPORT_DEPTH_def ReportFormat_default_def) blast
qed

section \<open>Packets out of order and twice\<close>

text \<open>The books follow the packets in the order in which they arrive.\<close>

lemma arrivals_build_books:
  assumes "zerocopy_ok z" and "list_all2 (carries z) pkts mss"
    and "map (\<lambda>d. Datagram_bytes (fst d)) ds = map Some pkts" and "length (concat mss) \<le> unat NIL"
    and "\<forall>l \<in> directory_locates z None (concat mss). unat l < MAX_CAPACITY"
  shows "\<exists>h net effs. app_run z vec_registry (app_handler_new vec_registry None []) net_default ds = Some (h, net, effs) \<and>
    no_errors net \<and> books_match vec_registry (mh_registry h) (fst (spec_feed z None (concat mss) (Map.empty, stats_default)))"
proof -
  let ?h0 = "app_handler_new vec_registry None []" and ?st = "spec_feed z None (concat mss) (Map.empty, stats_default)"
  have rel: "vrc.handler_rel 0 None ?h0 (Map.empty, stats_default)" using vrc.new_handler_rel [of None] by simp
  have ne: "no_errors net_default" by (simp add: no_errors_def net_default_def)
  have n: "0 + length (concat mss) \<le> unat NIL" using assms(4) by simp
  have "\<exists>h net effs. app_run z vec_registry ?h0 net_default (ds @ []) =
        map_option (\<lambda>(h, net, effs'). (h, net, effs @ effs')) (app_run z vec_registry h net []) \<and>
      vrc.handler_rel (0 + length (concat mss)) None h ?st \<and> no_errors net \<and>
      visit (app_visitor z vec_registry) (concat mss) (Some ?h0) = (Some h, [], Continue)"
    by (rule vrc.run_packets [OF assms(1-3) rel n ne]) (use assms(5) in \<open>auto simp: new_fits directory_locates_def\<close>)
  then obtain h net effs where "app_run z vec_registry ?h0 net_default ds = Some (h, net, effs)" "no_errors net"
    "vrc.handler_rel (length (concat mss)) None h (fst ?st, snd ?st)" by auto
  then show ?thesis using books_match_vec by blast
qed

section \<open>A loss at the end of a batch\<close>

text \<open>
  The receiver, at message \<open>i\<close>, gets a heartbeat that announces \<open>n\<close> messages; it requests the missing
  ones, and the packets of the answer carry them.
\<close>

lemma heartbeat_answered:
  assumes z: "zerocopy_ok z" and log: "log_holds st seq bodies" and d: "decodes bodies ms"
    and i: "i < length ms" "length ms - i < 65535" and big: "unat seq + length ms + 2 ^ 16 < 2 ^ 64"
    and us: "\<forall>u \<in> set us. full_turn u"
    and loop: "multicast_recv_loop z ex us = (locked (pad_session sess) (unat seq + i), effs)"
    and t: "receives t (packet_bytes (pad_session sess) (seq + of_nat (length ms)) 0 [])"
  shows "\<exists>rq answer mss. requests (snd (multicast_recv_loop z ex (us @ [t]))) = requests effs @ [rq] \<and>
    rerequest_step (pad_session sess) limit (sv_log st) (PacketHeader_as_bytes (req rq)) = Some answer \<and>
    list_all2 (carries z) answer mss \<and> concat mss = drop i ms"
proof -
  let ?s = "pad_session sess"
  have len: "length bodies = length ms" using d unfolding decodes_def by (rule list_all2_lengthD)
  have small: "\<forall>m \<in> set bodies. length m < 2 ^ 16" using decodes_good [OF d] by (simp add: good_body_def)
  obtain rq k where rq: "gap_request z \<lparr>expected_session_ident = Some ?s, expected_seq_num = Some (seq + of_nat i)\<rparr> ?s
      (seq + of_nat (length ms)) = Some rq" "PacketHeader_as_bytes (req rq) = request_bytes ?s (seq + of_nat i) k"
    "k \<noteq> 0" "unat k = length ms - i"
    using gap_requested [OF z i(1) order.refl i(2) big, of ?s] by blast
  have "packet_turn ?s t (unat seq + length ms, 0)"
    using t by (intro receives_packet [where body = "[]"]) (simp_all add: of_nat_add)
  from loop_packet [OF z length_pad_session this, of "locked ?s (unat seq + i)" "[]"] rq(1)
  have "requests (snd (multicast_recv_loop z (locked ?s (unat seq + i)) [t])) = [rq]"
    by (auto simp: locked_def)
  with recv_loop_append [OF z us, of ex "[t]"] loop
  have reqs: "requests (snd (multicast_recv_loop z ex (us @ [t]))) = requests effs @ [rq]"
    by (simp add: case_prod_beta del: multicast_recv_loop.simps)
  have k: "i \<le> length bodies" "unat k < 65535" "length bodies + 2 ^ 16 < 2 ^ 64"
    using i big rq(4) len by simp_all
  have tk: "take (unat k) (drop i bodies) = drop i bodies" using rq(4) len by simp
  note a = rerequest_packets [OF length_pad_session log small k(1) rq(3) k(2,3), unfolded tk]
  let ?cs = "chunk_messages (drop i bodies) limit"
  have "decodes (concat ?cs) (drop i ms)"
    using d by (simp add: concat_chunks decodes_def list_all2_dropI)
  moreover have "\<forall>c \<in> set ?cs. 0 < length c \<and> length c < 65535" using batch_chunks [OF a(1)] by blast
  ultimately obtain mss where "concat mss = drop i ms"
    "list_all2 (carries z) (map (\<lambda>c. packet_bytes ?s (seq + of_nat i) (of_nat (length c)) (concat (map message_block c))) ?cs) mss"
    using chunks_carry [OF z length_pad_session, of ?cs "drop i ms"] by blast
  with reqs a(2) rq(2) show ?thesis by auto
qed

text \<open>
  C36: a loss at the end of a batch is repaired. Let the receiver get the first \<open>i\<close> messages of a feed live and
  in order and lose the rest, so that only the server's heartbeat tells of them. Then it makes one request,
  the server answers with the packets that carry the missing messages, and when the application
  gets these after the heartbeat, its books are those of the whole feed and it counts no error.
\<close>

theorem tail_loss_repaired:
  assumes "zerocopy_ok z" and "\<forall>e \<in> set es. event_ok e" and "decodes (accepted_messages False es) ms"
    and "unat seq + length ms + 2 ^ 16 < 2 ^ 64" and "length ms \<le> unat NIL"
    and "\<forall>l \<in> directory_locates z None ms. unat l < MAX_CAPACITY"
    and "i < length ms" and "length ms - i < 65535"
    and "list_all2 (carries z) front mss" and "concat mss = take i ms"
    and "\<forall>u \<in> set us. full_turn u" and "list_all2 receives us front"
    and "multicast_recv_loop z (client_start (Some sess) (Some seq)) us = (locked (pad_session sess) (unat seq + i), effs)"
    and "receives t (packet_bytes (pad_session sess) (seq + of_nat (length ms)) 0 [])"
  shows "\<exists>st pkts rq answer. sender_loop limit (server_start sess seq) es = Some (st, pkts) \<and>
    requests (snd (multicast_recv_loop z (client_start (Some sess) (Some seq)) (us @ [t]))) = requests effs @ [rq] \<and>
    rerequest_step (pad_session sess) limit (sv_log st) (PacketHeader_as_bytes (req rq)) = Some answer \<and>
    (\<forall>ds. map (\<lambda>d. Datagram_bytes (fst d)) ds =
        map Some (front @ [packet_bytes (pad_session sess) (seq + of_nat (length ms)) 0 []] @ answer) \<longrightarrow>
      (\<exists>h net effs. app_run z vec_registry (app_handler_new vec_registry None []) net_default ds = Some (h, net, effs) \<and>
        no_errors net \<and>
        books_match vec_registry (mh_registry h) (fst (spec_feed z None ms (Map.empty, stats_default)))))"
proof -
  let ?hb = "packet_bytes (pad_session sess) (seq + of_nat (length ms)) 0 []"
  have len: "length (accepted_messages False es) = length ms"
    using assms(3) unfolding decodes_def by (rule list_all2_lengthD)
  obtain st pkts where st: "sender_loop limit (server_start sess seq) es = Some (st, pkts)"
    "log_holds st seq (accepted_messages False es)"
    using sender_run_log [OF assms(2) log_holds_start, of sess seq limit] assms(4) len by (auto simp: server_start_def)
  obtain rq answer mss2 where a: "requests (snd (multicast_recv_loop z (client_start (Some sess) (Some seq)) (us @ [t]))) =
      requests effs @ [rq]"
    "rerequest_step (pad_session sess) limit (sv_log st) (PacketHeader_as_bytes (req rq)) = Some answer"
    "list_all2 (carries z) answer mss2" "concat mss2 = drop i ms"
    using heartbeat_answered [OF assms(1) st(2) assms(3,7,8,4,11,13,14), of limit] by blast
  have "carries z ?hb []"
    using carries_heartbeat [OF assms(1) length_pad_session, of sess "seq + of_nat (length ms)"]
    by (simp add: build_special_packet HEARTBEAT_IDENT_def)
  then have c: "list_all2 (carries z) (front @ [?hb] @ answer) (mss @ [[]] @ mss2)"
    using assms(9) a(3) by (intro list_all2_appendI) auto
  have cat: "concat (mss @ [[]] @ mss2) = ms" using assms(10) a(4) by simp
  from arrivals_build_books [OF assms(1) c, unfolded cat] assms(5,6) st(1) a(1,2) show ?thesis by blast
qed


lemma spec_message_op:
  "message_op z m = Some (l, Some c, inc) \<Longrightarrow> fst st l = Some (s, os) \<Longrightarrow>
   fst (spec_message z None m st) = (fst st)(l \<mapsto> (s, fst (spec_cmd os c)))"
  by (cases m; cases "spec_cmd os c"; cases "snd (spec_cmd os c)") (auto simp: spec_message_def spec_op_def)

lemma spec_two_ops:
  assumes "message_op z m1 = Some (l, Some c1, inc1)" and "message_op z m2 = Some (l, Some c2, inc2)"
    and "fst st l = Some (s, os)"
  shows "fst (spec_feed z None [m1, m2] st) = (fst st)(l \<mapsto> (s, fst (spec_cmd (fst (spec_cmd os c1)) c2)))"
  using spec_message_op [OF assms(2), of "spec_message z None m1 st"] spec_message_op [OF assms(1,3)] by simp

lemma message_op_no_directory: "message_op z m = Some p \<Longrightarrow> directory_op z w m = None"
  by (cases m) auto

lemma arrivals_two_ops:
  assumes "zerocopy_ok z" and "list_all2 (carries z) pkts mss"
    and "map (\<lambda>d. Datagram_bytes (fst d)) ds = map Some pkts" and "length (concat mss) + 2 \<le> unat NIL"
    and "\<forall>l \<in> directory_locates z None (concat mss). unat l < MAX_CAPACITY"
    and st: "fst (spec_feed z None (concat mss) (Map.empty, stats_default)) = A" "A l = Some (s, os)"
    and "carries z p1 [m1]" "carries z p2 [m2]" "Datagram_bytes (fst d1) = Some p1" "Datagram_bytes (fst d2) = Some p2"
    and m: "message_op z m1 = Some (l, Some c1, inc1)" "message_op z m2 = Some (l, Some c2, inc2)"
  shows "\<exists>h net effs. app_run z vec_registry (app_handler_new vec_registry None []) net_default (ds @ [d1, d2]) = Some (h, net, effs) \<and>
    no_errors net \<and> books_match vec_registry (mh_registry h) (A(l \<mapsto> (s, fst (spec_cmd (fst (spec_cmd os c1)) c2))))"
proof -
  let ?mss = "mss @ [[m1], [m2]]" and ?st = "spec_feed z None (concat mss) (Map.empty, stats_default)"
  have "list_all2 (carries z) (pkts @ [p1, p2]) ?mss"
    using assms(2,8,9) by (intro list_all2_appendI) simp_all
  moreover have "map (\<lambda>d. Datagram_bytes (fst d)) (ds @ [d1, d2]) = map Some (pkts @ [p1, p2])"
    using assms(3,10,11) by simp
  moreover have "\<forall>l \<in> directory_locates z None (concat ?mss). unat l < MAX_CAPACITY"
    using assms(5) message_op_no_directory [OF m(1)] message_op_no_directory [OF m(2)]
    by (auto simp: directory_locates_def)
  moreover have "fst (spec_feed z None (concat ?mss) (Map.empty, stats_default)) =
      A(l \<mapsto> (s, fst (spec_cmd (fst (spec_cmd os c1)) c2)))"
    using spec_two_ops [OF m, of ?st s os] st by (simp only: concat_append spec_feed_append) simp
  ultimately show ?thesis
    using arrivals_build_books [OF assms(1), of "pkts @ [p1, p2]" ?mss "ds @ [d1, d2]"] assms(4) by simp
qed

lemma lookup_id_last: "lookup_id os (ord_id x) = None \<Longrightarrow> lookup_id (os @ [x]) (ord_id x) = Some x"
  by (induction os) (auto simp: lookup_id_def split: if_splits)

lemma lookup_id_set_qty:
  "lookup_id os k = Some x \<Longrightarrow> lookup_id (set_qty k v os) k = Some (x\<lparr>ord_qty := v\<rparr>)"
  by (induction os) (auto simp: lookup_id_def set_qty_def split: if_splits)

lemma set_qty_twice: "set_qty k v (set_qty k w os) = set_qty k v os"
  by (simp add: set_qty_def comp_def cong: if_cong)

text \<open>
  C11: a recovered packet is applied when it arrives, not where it belongs. If the packet that
  adds an order is lost and its retransmission comes after the packet that deletes the order,
  both are processed without a counted error, and the order, deleted in the feed, rests in the
  book for good; delivered in order, the same packets leave the book as it was.
\<close>

theorem late_packet_resurrects_order:
  assumes "zerocopy_ok z" and "list_all2 (carries z) pkts mss"
    and "map (\<lambda>d. Datagram_bytes (fst d)) ds = map Some pkts" and "length (concat mss) + 2 \<le> unat NIL"
    and "\<forall>l \<in> directory_locates z None (concat mss). unat l < MAX_CAPACITY"
    and "fst (spec_feed z None (concat mss) (Map.empty, stats_default)) = A" "A l = Some (s, os)"
    and "carries z p_add [add]" "carries z p_del [del]"
    and "Datagram_bytes (fst d_add) = Some p_add" "Datagram_bytes (fst d_del) = Some p_del"
    and "message_op z add = Some (l, Some (Add x), inc1)" "message_op z del = Some (l, Some (Delete (ord_id x)), inc2)"
    and "lookup_id os (ord_id x) = None"
  shows "\<exists>h net effs h' net' effs'.
    app_run z vec_registry (app_handler_new vec_registry None []) net_default (ds @ [d_add, d_del]) = Some (h, net, effs) \<and>
    app_run z vec_registry (app_handler_new vec_registry None []) net_default (ds @ [d_del, d_add]) = Some (h', net', effs') \<and>
    no_errors net \<and> no_errors net' \<and>
    books_match vec_registry (mh_registry h) A \<and>
    books_match vec_registry (mh_registry h') (A(l \<mapsto> (s, os @ [x])))"
proof -
  have keep: "remove_id (ord_id x) os = os" using assms(14) by (auto simp: lookup_id_None remove_id_def filter_id_conv image_iff)
  have "fst (spec_cmd (fst (spec_cmd os (Add x))) (Delete (ord_id x))) = os"
    using assms(14) keep lookup_id_last [OF assms(14)] by (simp add: spec_add_def spec_delete_def remove_id_def)
  moreover have "fst (spec_cmd (fst (spec_cmd os (Delete (ord_id x)))) (Add x)) = os @ [x]"
    using assms(14) by (simp add: spec_add_def spec_delete_def)
  moreover have "A(l \<mapsto> (s, os)) = A" using assms(7) by auto
  ultimately show ?thesis
    using arrivals_two_ops [OF assms(1-7,8,9,10,11,12,13)] arrivals_two_ops [OF assms(1-7,9,8,11,10,13,12)] by metis
qed

definition sample_packet :: "bytes \<Rightarrow> bytes" where
  "sample_packet b = packet_bytes (pad_session ''S1'') 1 (of_nat (length [b])) (concat (map message_block [b]))"

definition sample_datagram :: "bytes \<Rightarrow> Datagram \<times> bool" where
  "sample_datagram b = (\<lparr>dg_buf = Some (sample_packet b), dg_len = length (sample_packet b)\<rparr>, True)"

lemma sample_datagram_bytes: "Datagram_bytes (fst (sample_datagram b)) = Some (sample_packet b)"
  by (simp add: sample_datagram_def Datagram_bytes_def)

lemma sample_packet_carries: "decode_body b = Some m \<Longrightarrow> carries zerocopy_std (sample_packet b) [m]"
  unfolding sample_packet_def
  by (rule carries_chunk [OF zerocopy_std_ok length_pad_session]) (simp_all add: decodes_def)

lemma sample_decode_each:
  "decode_body sample_directory = Some (M_StockDirectory (StockDirectory_view sample_directory))"
  "decode_body sample_add = Some (M_AddOrderNoMPIDAttribution (AddOrderNoMPIDAttribution_view sample_add))"
  "decode_body sample_execute = Some (M_OrderExecuted (OrderExecuted_view sample_execute))"
  using sample_decodes by (simp_all add: decodes_def sample_bodies_def sample_messages_def)

definition sample_live_turn :: turn where
  "sample_live_turn = \<lparr>tn_buf = replicate BUF_SIZE 0, tn_recv = Inr (sample_packet sample_directory), tn_sent = True\<rparr>"

definition sample_heartbeat_turn :: turn where
  "sample_heartbeat_turn =
     \<lparr>tn_buf = replicate BUF_SIZE 0, tn_recv = Inr (packet_bytes (pad_session ''S1'') (1 + of_nat (length sample_messages)) 0 []),
      tn_sent = True\<rparr>"

theorem tail_loss_repaired_witness:
  "\<exists>st pkts rq answer.
    sender_loop 1452 (server_start ''S1'' 1) [Cmd (Send [sample_directory]), Cmd (Send [sample_add, sample_execute])] = Some (st, pkts) \<and>
    requests (snd (multicast_recv_loop zerocopy_std (client_start (Some ''S1'') (Some 1)) ([sample_live_turn] @ [sample_heartbeat_turn]))) = [rq] \<and>
    rerequest_step (pad_session ''S1'') 1452 (sv_log st) (PacketHeader_as_bytes (req rq)) = Some answer \<and>
    (\<forall>ds. map (\<lambda>d. Datagram_bytes (fst d)) ds =
        map Some ([sample_packet sample_directory] @ [packet_bytes (pad_session ''S1'') (1 + of_nat (length sample_messages)) 0 []] @ answer) \<longrightarrow>
      (\<exists>h net effs. app_run zerocopy_std vec_registry (app_handler_new vec_registry None []) net_default ds = Some (h, net, effs) \<and>
        no_errors net \<and> books_match vec_registry (mh_registry h) [7 \<mapsto> (wire_symbol ''AAPL'', [sample_order])]))"
proof -
  let ?es = "[Cmd (Send [sample_directory]), Cmd (Send [sample_add, sample_execute])]" and ?s = "pad_session ''S1''"
  have acc: "accepted_messages False ?es = sample_bodies" by (simp add: sample_bodies_def)
  have small: "\<forall>m \<in> set sample_bodies. length m < 2 ^ 16" using decodes_good [OF sample_decodes] by (simp add: good_body_def)
  then have ev: "\<forall>e \<in> set ?es. event_ok e" by (simp add: batch_ok_def sample_bodies_def)
  have len: "length (sample_packet sample_directory) \<le> BUF_SIZE"
    by (simp add: sample_packet_def packet_bytes_length sample_directory_def message_block_def ascii_bytes_def BUF_SIZE_def)
  have rc: "receives sample_live_turn (sample_packet sample_directory)"
    using len by (simp add: receives_def sample_live_turn_def)
  have "packet_turn ?s sample_live_turn (1, length [sample_directory])"
    using rc unfolding sample_packet_def by (intro receives_packet) simp_all
  then have "list_all2 (\<lambda>t c. packet_turn ?s t (1, length c)) [sample_live_turn] [[sample_directory]]" by simp
  from loop_same_seq [OF zerocopy_std_ok length_pad_session _ this, of 1 "[]"] obtain effs where
    loop: "multicast_recv_loop zerocopy_std (locked ?s 1) [sample_live_turn] = (locked ?s (unat (1 :: u64) + 1), effs)"
    "requests effs = []"
    by auto
  have start: "client_start (Some ''S1'') (Some 1) = locked ?s 1" by (simp add: client_start_def locked_def)
  have hb: "receives sample_heartbeat_turn (packet_bytes ?s (1 + of_nat (length sample_messages)) 0 [])"
    by (simp add: receives_def sample_heartbeat_turn_def packet_bytes_length BUF_SIZE_def)
  have front: "list_all2 (carries zerocopy_std) [sample_packet sample_directory] [[M_StockDirectory (StockDirectory_view sample_directory)]]"
    by (simp add: sample_packet_carries sample_decode_each)
  have full: "\<forall>u \<in> set [sample_live_turn]. full_turn u" by (simp add: full_turn_def sample_live_turn_def)
  have n: "length sample_messages = 3" by (simp add: sample_messages_def)
  have l: "\<forall>l \<in> directory_locates zerocopy_std None sample_messages. unat l < MAX_CAPACITY"
    using sample_locates by (simp add: MAX_CAPACITY_def)
  have first: "concat [[M_StockDirectory (StockDirectory_view sample_directory)]] = take 1 sample_messages"
    by (simp add: sample_messages_def)
  have len3: "unat (1 :: u64) + length sample_messages + 2 ^ 16 < 2 ^ 64" "length sample_messages \<le> unat NIL"
    "1 < length sample_messages" "length sample_messages - 1 < 65535" by (simp_all add: n unat_NIL)
  from tail_loss_repaired [OF zerocopy_std_ok ev sample_decodes [folded acc] len3(1,2) l len3(3,4) front first full _ loop(1) [folded start] hb,
      of 1452] rc loop(2) sample_books
  show ?thesis by simp
qed

definition sample_new_order :: order where
  "sample_new_order = \<lparr>ord_id = 42, ord_side = Bid, ord_price = px 1500000, ord_qty = 100, ord_ts = 2\<rparr>"

lemma sample_delete_op:
  "message_op zerocopy_std (M_OrderDelete (OrderDelete_view sample_delete)) = Some (7, Some (Delete 42), inc_deleted)"
  by (simp add: sample_delete_def OrderDelete_view_def OrderDelete_stock_locate_def OrderDelete_order_reference_number_def
      zc_get [OF zerocopy_std_ok] byte_at_def bytes_at_def nth_append ascii_bytes_def)

lemma sample_registered:
  "fst (spec_feed zerocopy_std None (concat [[M_StockDirectory (StockDirectory_view sample_directory)]]) (Map.empty, stats_default)) =
     [7 \<mapsto> (wire_symbol ''AAPL'', [])]"
  "\<forall>l \<in> directory_locates zerocopy_std None (concat [[M_StockDirectory (StockDirectory_view sample_directory)]]). unat l < MAX_CAPACITY"
  using sample_directory_op
  by (auto simp: spec_message_def directory_locates_def MAX_CAPACITY_def simp del: directory_op.simps)

theorem late_packet_resurrects_order_witness:
  "\<exists>h net effs h' net' effs'.
    app_run zerocopy_std vec_registry (app_handler_new vec_registry None []) net_default
      ([sample_datagram sample_directory] @ [sample_datagram sample_add, sample_datagram sample_delete]) = Some (h, net, effs) \<and>
    app_run zerocopy_std vec_registry (app_handler_new vec_registry None []) net_default
      ([sample_datagram sample_directory] @ [sample_datagram sample_delete, sample_datagram sample_add]) = Some (h', net', effs') \<and>
    no_errors net \<and> no_errors net' \<and>
    books_match vec_registry (mh_registry h) [7 \<mapsto> (wire_symbol ''AAPL'', [])] \<and>
    books_match vec_registry (mh_registry h') ([7 \<mapsto> (wire_symbol ''AAPL'', [])](7 \<mapsto> (wire_symbol ''AAPL'', [] @ [sample_new_order])))"
proof (rule late_packet_resurrects_order [OF zerocopy_std_ok])
  show "list_all2 (carries zerocopy_std) [sample_packet sample_directory] [[M_StockDirectory (StockDirectory_view sample_directory)]]"
    by (simp add: sample_packet_carries sample_decode_each)
  show "message_op zerocopy_std (M_AddOrderNoMPIDAttribution (AddOrderNoMPIDAttribution_view sample_add)) =
      Some (7, Some (Add sample_new_order), inc_added)"
    by (simp add: sample_add_op add_op_def sample_new_order_def)
  show "message_op zerocopy_std (M_OrderDelete (OrderDelete_view sample_delete)) =
      Some (7, Some (Delete (ord_id sample_new_order)), inc_deleted)"
    by (simp only: sample_delete_op) (simp add: sample_new_order_def)
qed (use sample_registered in \<open>simp_all add: sample_datagram_bytes sample_packet_carries sample_decode_each
  sample_delete_decodes lookup_id_def unat_NIL\<close>)

text \<open>
  C12: a packet delivered twice is applied twice. When the packet of an execution reaches the
  application once live and once as a retransmission, the order loses the executed shares
  twice, and no error is counted.
\<close>

theorem redelivered_execution_applied_twice:
  assumes "zerocopy_ok z" and "list_all2 (carries z) pkts mss"
    and "map (\<lambda>d. Datagram_bytes (fst d)) ds = map Some pkts" and "length (concat mss) + 2 \<le> unat NIL"
    and "\<forall>l \<in> directory_locates z None (concat mss). unat l < MAX_CAPACITY"
    and "fst (spec_feed z None (concat mss) (Map.empty, stats_default)) = A" "A l = Some (s, os)"
    and "carries z p [exec]" and "Datagram_bytes (fst d) = Some p" "Datagram_bytes (fst d') = Some p"
    and "message_op z exec = Some (l, Some (Execute k q ts), inc)"
    and "lookup_id os k = Some x" and "q < ord_qty x" and "q < ord_qty x - q"
  shows "\<exists>h net effs. app_run z vec_registry (app_handler_new vec_registry None []) net_default (ds @ [d, d']) = Some (h, net, effs) \<and>
    no_errors net \<and> books_match vec_registry (mh_registry h) (A(l \<mapsto> (s, set_qty k (ord_qty x - q - q) os)))"
proof -
  have k: "ord_id x = k" using lookup_id_SomeD [OF assms(12)] by simp
  have "fst (spec_cmd os (Execute k q ts)) = set_qty k (ord_qty x - q) os"
    using assms(12,13) k by (auto simp: spec_execute_def spec_take_def)
  moreover have "fst (spec_cmd (set_qty k (ord_qty x - q) os) (Execute k q ts)) = set_qty k (ord_qty x - q - q) os"
    using lookup_id_set_qty [OF assms(12), of "ord_qty x - q"] assms(14) k
    by (auto simp: spec_execute_def spec_take_def set_qty_twice)
  ultimately show ?thesis
    using arrivals_two_ops [OF assms(1-7,8,8,9,10,11,11)] by simp
qed

lemma sample_resting:
  "fst (spec_feed zerocopy_std None (concat [[M_StockDirectory (StockDirectory_view sample_directory)],
       [M_AddOrderNoMPIDAttribution (AddOrderNoMPIDAttribution_view sample_add)]]) (Map.empty, stats_default)) =
     [7 \<mapsto> (wire_symbol ''AAPL'', [sample_new_order])]"
  "\<forall>l \<in> directory_locates zerocopy_std None (concat [[M_StockDirectory (StockDirectory_view sample_directory)],
       [M_AddOrderNoMPIDAttribution (AddOrderNoMPIDAttribution_view sample_add)]]). unat l < MAX_CAPACITY"
  using sample_directory_op sample_add_op
  by (auto simp: spec_message_def spec_op_def add_op_def sample_new_order_def spec_add_def lookup_id_def directory_locates_def
      MAX_CAPACITY_def simp del: directory_op.simps(1))

theorem redelivered_execution_applied_twice_witness:
  "\<exists>h net effs. app_run zerocopy_std vec_registry (app_handler_new vec_registry None []) net_default
      ([sample_datagram sample_directory, sample_datagram sample_add] @ [sample_datagram sample_execute, sample_datagram sample_execute]) =
      Some (h, net, effs) \<and> no_errors net \<and>
    books_match vec_registry (mh_registry h)
      ([7 \<mapsto> (wire_symbol ''AAPL'', [sample_new_order])]
        (7 \<mapsto> (wire_symbol ''AAPL'', set_qty 42 (ord_qty sample_new_order - 30 - 30) [sample_new_order])))"
proof (rule redelivered_execution_applied_twice [OF zerocopy_std_ok])
  show "list_all2 (carries zerocopy_std) [sample_packet sample_directory, sample_packet sample_add]
      [[M_StockDirectory (StockDirectory_view sample_directory)],
       [M_AddOrderNoMPIDAttribution (AddOrderNoMPIDAttribution_view sample_add)]]"
    by (simp add: sample_packet_carries sample_decode_each)
  show "message_op zerocopy_std (M_OrderExecuted (OrderExecuted_view sample_execute)) = Some (7, Some (Execute 42 30 3), inc_executed)"
    by (simp add: sample_execute_op)
qed (use sample_resting in \<open>simp_all add: sample_datagram_bytes sample_packet_carries sample_decode_each
  lookup_id_def sample_new_order_def unat_NIL\<close>)

section \<open>A session over the running client\<close>

text \<open>
  C3: the whole transport at work builds the books. Take any file of well-formed messages, cut
  into batches of random size by the replay, sent by the server in packets under any size limit
  with heartbeats at any time between them. Let the client's threads, the network and the
  consumer interleave in any way in which the sockets deliver the packets in order, none finds
  the channel full and no re-request is answered. Then what the application takes from the
  channel makes no thread panic, and when the session ends the registry holds, for every locate
  of the directory messages, the book the feed describes, each queue in time priority, with the
  counters of the specification, and no error, truncation or retransmission is counted.
\<close>

theorem concurrent_session_builds_books:
  assumes "zerocopy_ok z" and "rng_ok rng" and "1 \<le> max_msgs" "max_msgs < 65535"
    and "decodes bodies ms" and "length ms \<le> unat NIL" and "tail = [] \<or> (\<exists>e. parse_one tail = Inl e)"
    and "\<forall>l \<in> directory_locates z (watch_set watch) ms. unat l < MAX_CAPACITY"
    and "MoldUDP64_start_with_sockets m tune1 tune2 servers = Some c0"
  shows "\<exists>cmds. server_thread rng [] (frames bodies @ tail) max_msgs = Some cmds \<and>
    (\<forall>es. replay_events cmds es \<longrightarrow>
      (\<exists>st pkts. sender_loop lim (server_start sess seq) es = Some (st, pkts) \<and>
        (\<forall>ts effs new took c. channel_run z c0 ts effs new [] took c \<and> list_all2 receives ts pkts \<and>
          (\<forall>t \<in> set ts. tn_sent t) \<and> cl_data c = [] \<longrightarrow>
          (\<exists>h net effs'. app_run z vec_registry (app_handler_new vec_registry watch []) net_default
              (map (\<lambda>d. (d, True)) took) = Some (h, net, effs') \<and> no_errors net \<and>
            books_match vec_registry (mh_registry h) (fst (spec_feed z (watch_set watch) ms (Map.empty, stats_default))) \<and>
            mh_stats h = snd (spec_feed z (watch_set watch) ms (Map.empty, stats_default))))))"
proof -
  have d: "cl_data c0 = []" using assms(9) by (auto simp: MoldUDP64_start_with_sockets_def split: sum.splits)
  have reads: "map (\<lambda>d. Datagram_bytes (fst d)) (map (\<lambda>d. (d, True)) took) = map Some pkts"
    if "sender_loop lim (server_start sess seq) es = Some (st, pkts)"
      "channel_run z c0 ts effs new [] took c \<and> list_all2 receives ts pkts \<and> (\<forall>t \<in> set ts. tn_sent t) \<and> cl_data c = []"
    for es st pkts ts effs new took c
  proof -
    have "\<forall>p \<in> set pkts. 20 \<le> length p" using sender_packets_length [OF that(1)] by (simp add: server_start_def)
    then have "map Datagram_bytes took = map Some pkts"
      using channel_run_delivers [OF assms(1) start_client_ok(1) [OF assms(9)] d] that(2) by blast
    then show ?thesis by (simp add: comp_def)
  qed
  obtain cmds where "server_thread rng [] (frames bodies @ tail) max_msgs = Some cmds"
    and sess: "\<And>es. replay_events cmds es \<Longrightarrow>
      (\<exists>st pkts. sender_loop lim (server_start sess seq) es = Some (st, pkts) \<and>
        (\<forall>ds. map (\<lambda>d. Datagram_bytes (fst d)) ds = map Some pkts \<longrightarrow>
          (\<exists>h net effs'. app_run z vec_registry (app_handler_new vec_registry watch []) net_default ds = Some (h, net, effs') \<and>
            no_errors net \<and>
            books_match vec_registry (mh_registry h) (fst (spec_feed z (watch_set watch) ms (Map.empty, stats_default))) \<and>
            mh_stats h = snd (spec_feed z (watch_set watch) ms (Map.empty, stats_default)))))"
    using pipeline_end_to_end [OF assms(1-8), of lim sess seq] by blast
  moreover note reads
  ultimately show ?thesis by meson
qed

theorem concurrent_session_builds_books_witness:
  "\<exists>cmds. server_thread (\<lambda>k m. 1) [] (frames sample_bodies @ [0]) 100 = Some cmds \<and>
    (\<forall>es. replay_events cmds es \<longrightarrow>
      (\<exists>st pkts. sender_loop 508 (server_start ''SESSION'' 1) es = Some (st, pkts) \<and>
        (\<forall>ts effs new took c. channel_run zerocopy_std sample_client ts effs new [] took c \<and> list_all2 receives ts pkts \<and>
          (\<forall>t \<in> set ts. tn_sent t) \<and> cl_data c = [] \<longrightarrow>
          (\<exists>h net effs'. app_run zerocopy_std vec_registry (app_handler_new vec_registry None []) net_default
              (map (\<lambda>d. (d, True)) took) = Some (h, net, effs') \<and> no_errors net \<and>
            books_match vec_registry (mh_registry h) [7 \<mapsto> (wire_symbol ''AAPL'', [sample_order])] \<and>
            mh_stats h = inc_executed (inc_added (inc_directory stats_default)))))) \<and>
    (\<forall>pkts. (\<forall>p \<in> set pkts. 20 \<le> length p \<and> length p \<le> BUF_SIZE) \<longrightarrow>
      (\<exists>ts effs new took c. channel_run zerocopy_std sample_client ts effs new [] took c \<and> list_all2 receives ts pkts \<and>
        (\<forall>t \<in> set ts. tn_sent t) \<and> cl_data c = []))"
proof -
  have "\<exists>ts effs new took c. channel_run zerocopy_std sample_client ts effs new [] took c \<and> list_all2 receives ts pkts \<and>
      (\<forall>t \<in> set ts. tn_sent t) \<and> cl_data c = []" if "\<forall>p \<in> set pkts. 20 \<le> length p \<and> length p \<le> BUF_SIZE" for pkts
  proof -
    from connected_can_deliver [OF zerocopy_std_ok start_client_ready(1) [OF sample_client_started], where s = "[]" and limit = 508]
    obtain effs new took c where c: "connected_run zerocopy_std [] 508 sample_client (map fresh_turn pkts) effs new [] took c"
      "ready c" using \<open>\<forall>p \<in> set pkts. 20 \<le> length p \<and> length p \<le> BUF_SIZE\<close> by blast
    have "list_all2 receives (map fresh_turn pkts) pkts"
      using that by (auto simp: list_all2_conv_all_nth fresh_receives)
    with connected_channel [OF c(1)] c(2) show ?thesis
      by (intro exI conjI) (auto simp: ready_def fresh_turn_def)
  qed
  then have "\<forall>pkts. (\<forall>p \<in> set pkts. 20 \<le> length p \<and> length p \<le> BUF_SIZE) \<longrightarrow>
      (\<exists>ts effs new took c. channel_run zerocopy_std sample_client ts effs new [] took c \<and> list_all2 receives ts pkts \<and>
        (\<forall>t \<in> set ts. tn_sent t) \<and> cl_data c = [])" by blast
  moreover
  have "rng_ok (\<lambda>k m. 1)" by (simp add: rng_ok_def)
  moreover have "parse_one [0] = Inl EmptyBuffer" by (simp add: parse_one_def split_at_checked_def)
  moreover have "\<forall>l \<in> directory_locates zerocopy_std (watch_set None) sample_messages. unat l < MAX_CAPACITY"
    using sample_locates by (simp add: watch_set_def MAX_CAPACITY_def)
  moreover have "length sample_messages \<le> unat NIL" by (simp add: sample_messages_def unat_NIL)
  ultimately show ?thesis
    using concurrent_session_builds_books [OF zerocopy_std_ok _ _ _ sample_decodes _ _ _ sample_client_started,
        of "\<lambda>k m. 1" 100 "[0]" None 508 "''SESSION''" 1] sample_books
    by (simp add: watch_set_def)
qed

section \<open>The interface beside the feed\<close>

text \<open>
  C21: the screen shows the feed. Let the interface run beside the receive loop, with messages,
  resizes, frames and keys in any order. Then a frame due at any moment panics nowhere, and what
  it puts on the screen is the feed up to that moment: the cached list of symbols, which is reloaded only
  when the count of directory messages has moved, is the set of registered symbols, every
  visible row has the best prices and the number of orders of the book of its symbol, and the
  ladder has the levels of the selected book. So has the text that \<open>draw\<close> puts into the
  widgets: every line of the list is the line of a registered symbol's book, and every row of
  the two tables names a level of the selected book or is blank.
\<close>

theorem screen_shows_feed:
  assumes "list_state_ok L" and "ui_run L vec_registry z up watch app ms" and "length ms \<le> unat NIL"
    and "\<forall>l \<in> directory_locates z (watch_set watch) ms. unat l < MAX_CAPACITY"
    and "visit (app_visitor z vec_registry) ms (Some (app_handler_new vec_registry watch [])) = (Some h, [], Continue)"
  shows "\<exists>app'. App_refresh L vec_registry h app = Some app' \<and>
    screen_shows (fst (spec_feed z (watch_set watch) ms (Map.empty, stats_default))) app' \<and>
    screen_says (fst (spec_feed z (watch_set watch) ms (Map.empty, stats_default))) app' (draw L share app')"
proof -
  have "vrc.feed_ok z watch ms"
    using assms(3,4) by (auto simp: vrc.feed_ok_def new_fits watch_set_def)
  from vrc.frame_shows [OF assms(1,2) this assms(5)] drawn_screen_says show ?thesis unfolding watch_set_def by blast
qed

lemma sample_fits:
  "length sample_messages \<le> unat NIL"
  "\<forall>l \<in> directory_locates zerocopy_std (watch_set None) sample_messages. unat l < MAX_CAPACITY"
  using sample_locates by (simp_all add: sample_messages_def unat_NIL watch_set_def MAX_CAPACITY_def)

lemma sample_handled:
  "\<exists>h. visit (app_visitor zerocopy_std vec_registry) sample_messages (Some (app_handler_new vec_registry None [])) =
     (Some h, [], Continue)"
proof -
  have fit: "vr_fits (mh_registry (app_handler_new vec_registry None [])) l"
    if "m \<in> set sample_messages" "directory_op zerocopy_std (map_option (\<lambda>ss. Symbol_to_u64 ` set ss) None) m = Some (l, s)" for m l s
    using sample_fits(2) that by (auto simp: new_fits watch_set_def directory_locates_def)
  have "\<exists>h'. visit (app_visitor zerocopy_std vec_registry) sample_messages (Some (app_handler_new vec_registry None [])) =
        (Some h', [], Continue) \<and>
      vrc.handler_rel (0 + length sample_messages) (map_option (\<lambda>ss. Symbol_to_u64 ` set ss) None) h'
        (spec_feed zerocopy_std (map_option (\<lambda>ss. Symbol_to_u64 ` set ss) None) sample_messages (Map.empty, stats_default)) \<and>
      vr_fits (mh_registry h') = vr_fits (mh_registry (app_handler_new vec_registry None []))"
    by (rule vrc.feed_handled [OF vrc.new_handler_rel]) (use sample_fits(1) fit in auto)
  then show ?thesis by blast
qed

lemma idle_ui_run: "ui_run L R z up watch (App_new L) ms"
proof (induction ms rule: rev_induct)
  case (snoc m ms)
  then show ?case using ui_run.apply_message by fastforce
qed (simp add: ui_run.start)

theorem screen_shows_feed_witness:
  "\<exists>h app'. visit (app_visitor zerocopy_std vec_registry) sample_messages (Some (app_handler_new vec_registry None [])) =
      (Some h, [], Continue) \<and>
    App_refresh list_state_std vec_registry h (App_new list_state_std) = Some app' \<and>
    screen_says [7 \<mapsto> (wire_symbol ''AAPL'', [sample_order])] app' (draw list_state_std (\<lambda>st row. ''100.0%'') app')"
proof -
  obtain h where h: "visit (app_visitor zerocopy_std vec_registry) sample_messages (Some (app_handler_new vec_registry None [])) =
      (Some h, [], Continue)" using sample_handled by blast
  from screen_shows_feed [OF list_state_std_ok idle_ui_run [where up = "\<lambda>k. [k]"] sample_fits h] h show ?thesis
    using sample_books by (auto simp: watch_set_def)
qed

text \<open>
  C22: a refresh shows the window around the selection. Whatever messages, resizes, frames and keys went
  before, the next frame lists the registered symbols that start with the text typed, in the order of
  their symbols; its rows are a run of these entries, as many as the list has room for, each with the best
  prices and the number of orders of the entry's own book; the symbol selected before stays selected while it is
  listed, else the first one is, and it is among the rows; and the ladder has the levels of
  the selected book, or nothing when no symbol is listed.
\<close>

theorem tui_refresh_window:
  assumes "list_state_ok L" and "ui_run L vec_registry z up watch app ms" and "length ms \<le> unat NIL"
    and "\<forall>l \<in> directory_locates z (watch_set watch) ms. unat l < MAX_CAPACITY"
    and "visit (app_visitor z vec_registry) ms (Some (app_handler_new vec_registry watch [])) = (Some h, [], Continue)"
  shows "\<exists>app'. App_refresh L vec_registry h app = Some app' \<and>
    frame_window L (fst (spec_feed z (watch_set watch) ms (Map.empty, stats_default))) app app'"
proof -
  have "vrc.feed_ok z watch ms" using assms(3,4) by (auto simp: vrc.feed_ok_def new_fits watch_set_def)
  from vrc.frame_window_shows [OF assms(1,2) this assms(5)] show ?thesis unfolding watch_set_def .
qed

text \<open>With one symbol and no text typed the frame is that symbol's row and ladder.\<close>

lemma single_frame:
  assumes w: "frame_window L A app app'" and "listed A = {e}" and A: "A (fst e) = Some (snd e, os)"
    and "ap_filter app = []" and "0 < list_height (ap_viewport app)"
  shows "\<exists>row. ap_visible_rows app' = [row] \<and> row_shows (snd e) os row"
    and "ls_selected L (ap_list_state app') = Some 0"
    and "ladder_shows ((ladder_rows (ap_viewport app) + 1) div 2) os (ap_depth app')"
proof -
  from w have "set (ap_symbols app') = {e}" "in_symbol_order (ap_symbols app')"
    unfolding frame_window_def Let_def assms(2) by blast+
  then have "set (ap_symbols app') = {e}" "distinct (ap_symbols app')" by (auto simp: in_symbol_order_def distinct_map)
  then have syms: "ap_symbols app' = [e]"
    by (cases "ap_symbols app'"; cases "tl (ap_symbols app')") auto
  have "filter (matches (concat (ap_filter app))) (ap_symbols app') = [e]" by (simp add: syms assms(4) matches_def)
  note w = w [unfolded frame_window_def Let_def this]
  from w have sel: "selects (ap_selected_locate app) [e] (ls_selected L (ap_list_state app'))" by blast
  then show s: "ls_selected L (ap_list_state app') = Some 0" by (auto simp: selects_def split: option.splits)
  from w have len: "length (ap_visible_rows app') = 1" using assms(5) by (simp add: min_def)
  from w have rows: "list_all2 (\<lambda>e row. \<exists>os. A (fst e) = Some (snd e, os) \<and> row_shows (snd e) os row)
      (take (list_height (ap_viewport app)) (drop (ls_offset L (ap_list_state app')) [e])) (ap_visible_rows app')" by blast
  then have "list_all2 (\<lambda>e row. \<exists>os. A (fst e) = Some (snd e, os) \<and> row_shows (snd e) os row) [e] (ap_visible_rows app')"
    using len list_all2_lengthD [OF rows] by (cases "ls_offset L (ap_list_state app')"; cases "list_height (ap_viewport app)") auto
  then show "\<exists>row. ap_visible_rows app' = [row] \<and> row_shows (snd e) os row"
    using A by (auto simp: list_all2_Cons1)
  from w s have "\<exists>os. A (fst ([e] ! 0)) = Some (snd ([e] ! 0), os) \<and>
      ladder_shows ((ladder_rows (ap_viewport app) + 1) div 2) os (ap_depth app')" by blast
  with A show "ladder_shows ((ladder_rows (ap_viewport app) + 1) div 2) os (ap_depth app')" by simp
qed

theorem tui_refresh_window_witness:
  "\<exists>h app' row. visit (app_visitor zerocopy_std vec_registry) sample_messages (Some (app_handler_new vec_registry None [])) =
      (Some h, [], Continue) \<and>
    App_refresh list_state_std vec_registry h (App_set_viewport (App_new list_state_std) (viewport_for 24)) = Some app' \<and>
    ap_visible_rows app' = [row] \<and> vw_symbol row = wire_symbol ''AAPL'' \<and> vw_orders row = 1 \<and>
    map_option qty_nat (vw_best_bid row) = Some (px 1500000, 70) \<and> vw_best_ask row = None \<and>
    ls_selected list_state_std (ap_list_state app') = Some 0 \<and>
    map qty_nat (dl_bids (ap_depth app')) = [(px 1500000, 70)] \<and> dl_asks (ap_depth app') = []"
proof -
  let ?A = "[7 \<mapsto> (wire_symbol ''AAPL'', [sample_order])] :: abooks" and ?e = "(7, wire_symbol ''AAPL'') :: u16 \<times> Symbol"
  let ?app = "App_set_viewport (App_new list_state_std) (viewport_for 24)"
  obtain h where h: "visit (app_visitor zerocopy_std vec_registry) sample_messages (Some (app_handler_new vec_registry None [])) =
      (Some h, [], Continue)" using sample_handled by blast
  have A: "fst (spec_feed zerocopy_std (watch_set None) sample_messages (Map.empty, stats_default)) = ?A"
    using sample_books by (simp add: watch_set_def)
  from tui_refresh_window [OF list_state_std_ok ui_run.resize [OF idle_ui_run] sample_fits h, unfolded A]
  obtain app' where app': "App_refresh list_state_std vec_registry h ?app = Some app'"
    and w: "frame_window list_state_std ?A ?app app'" by blast
  have view: "0 < list_height (ap_viewport ?app)" "(ladder_rows (ap_viewport ?app) + 1) div 2 = 7" "ap_filter ?app = []"
    by (simp_all add: App_set_viewport_def viewport_for_def App_new_def)
  have ladder: "ladder [sample_order] Bid = [(px 1500000, 70)]" "ladder [sample_order] Ask = []"
    by (simp_all add: ladder_def sample_order_def side_prices_def queue_at_def total_qty_def)
  have listed: "listed ?A = {?e}" by (auto simp: listed_def split: if_splits)
  have Ae: "?A (fst ?e) = Some (snd ?e, [sample_order])" by simp
  note f = single_frame [OF w listed Ae view(3,1)]
  from f(1) obtain row where row: "ap_visible_rows app' = [row]" "row_shows (wire_symbol ''AAPL'') [sample_order] row" by auto
  have "ladder_shows 7 [sample_order] (ap_depth app')" using f(3) unfolding view(2) .
  with app' h row f(2) show ?thesis
    by (intro exI [of _ h] exI [of _ app'] exI [of _ row])
      (simp add: row_shows_def ladder_shows_def ladder bt_last_def bt_first_def)
qed

section \<open>The terminal\<close>

text \<open>
  C30: the interface survives its terminal. Whatever the terminal answers and whatever frames,
  resizes and keys the loop meets, \<open>run\<close> returns. When the set-up succeeds the result is that of
  the loop, which ends with a selection that names a listed symbol, and the terminal is left as it was
  found when raw mode and the alternate screen can be left. When the set-up fails
  after raw mode was entered, nothing is undone: raw mode stays on, and so does the alternate
  screen if it was entered.
\<close>

theorem tui_restores_terminal:
  assumes "list_state_ok L" and "\<forall>k. \<exists>h. lock k = Some h \<and> vr_valid (mh_registry h)"
  shows "\<exists>log ls fs res. tui_run L vec_registry up lock (raw, enter, create) now ts (unraw, leave, cursor) = Some (log, ls, fs, res) \<and>
    (if succeeds raw \<and> succeeds enter \<and> succeeds create
     then (\<exists>app. event_loop_io L vec_registry up lock (App_new L) (now - FRAME_INTERVAL) ts = Some (ls, fs, app, res) \<and>
         (\<forall>s. ls_selected L (ap_list_state app) = Some s \<longrightarrow>
            (\<exists>l sym. App_symbol_at app s = Some (l, sym) \<and> ap_selected_locate app = Some l))) \<and>
       terminal_after (False, False) log = (\<not> succeeds unraw, \<not> (succeeds unraw \<and> succeeds leave))
     else (\<exists>e. res = Inl (''setting up terminal'' # e)) \<and>
       terminal_after (False, False) log = (succeeds raw, succeeds raw \<and> succeeds enter))"
proof -
  have sel: "\<forall>s. ls_selected L (ap_list_state app) = Some s \<longrightarrow>
      (\<exists>l sym. App_symbol_at app s = Some (l, sym) \<and> ap_selected_locate app = Some l)"
    if "reaches L vec_registry vr_valid up app" for app
    using vrc.reaches_ok [OF assms(1) that] selected_symbol by blast
  note run = vrc.tui_run_ok [OF assms, of up raw enter create now ts "(unraw, leave, cursor)", unfolded restore_leaves]
  show ?thesis
  proof (cases "succeeds raw \<and> succeeds enter \<and> succeeds create")
    case True
    from run [unfolded if_P [OF True]] sel show ?thesis unfolding if_P [OF True] by blast
  next
    case False
    from run [unfolded if_not_P [OF False]] show ?thesis unfolding if_not_P [OF False] .
  qed
qed

definition sample_io_turn :: io_turn where
  "sample_io_turn =
     \<lparr>it_shutdown = False, it_now = 0, it_size = Inr 24, it_seen = 0,
      it_draw = Inl ''broken pipe'', it_poll = Inr True, it_read = Inr None\<rparr>"

theorem tui_restores_terminal_witness:
  "\<exists>log log' ls ls' fs fs' res res'.
    tui_run list_state_std vec_registry (\<lambda>k. [k]) (\<lambda>k. Some (app_handler_new vec_registry None []))
      (Inr (), Inr (), Inr ()) 0 [sample_io_turn] (Inr (), Inr (), Inr ()) = Some (log, ls, fs, res) \<and>
    terminal_after (False, False) log = (False, False) \<and>
    tui_run list_state_std vec_registry (\<lambda>k. [k]) (\<lambda>k. Some (app_handler_new vec_registry None []))
      (Inr (), Inl ''not a terminal'', Inr ()) 0 [] (Inr (), Inr (), Inr ()) = Some (log', ls', fs', res') \<and>
    terminal_after (False, False) log' = (True, False)"
proof -
  let ?lock = "\<lambda>k :: nat. Some (app_handler_new vec_registry None [])"
  have lock: "\<forall>k. \<exists>h. ?lock k = Some h \<and> vr_valid (mh_registry h)"
    by (simp add: app_handler_new_def vec_registry_def vr.valid_new)
  note run = tui_restores_terminal [OF list_state_std_ok lock, where up = "\<lambda>k. [k]" and raw = "Inr ()" and create = "Inr ()"
      and unraw = "Inr ()" and leave = "Inr ()" and cursor = "Inr ()" and now = 0]
  from run [of "Inr ()" "[sample_io_turn]"] obtain log ls fs res where
    "tui_run list_state_std vec_registry (\<lambda>k. [k]) ?lock (Inr (), Inr (), Inr ()) 0 [sample_io_turn] (Inr (), Inr (), Inr ()) =
      Some (log, ls, fs, res)" "terminal_after (False, False) log = (False, False)" by auto
  moreover from run [of "Inl ''not a terminal''" "[]"] obtain log' ls' fs' res' where
    "tui_run list_state_std vec_registry (\<lambda>k. [k]) ?lock (Inr (), Inl ''not a terminal'', Inr ()) 0 [] (Inr (), Inr (), Inr ()) =
      Some (log', ls', fs', res')" "terminal_after (False, False) log' = (True, False)" by auto
  ultimately show ?thesis by blast
qed




end
