(* ===== verification/App_Example.thy ===== *)
theory App_Example
  imports App_Handler
begin

text \<open>
  The visitor of \<open>orderbook/examples/replay_itch.rs\<close>: one book for the whole stream, every
  error unwrapped.  The state is the book, or nothing after a panic.
\<close>

definition guarded ::
  "('m \<Rightarrow> book \<Rightarrow> (book \<times> control_flow) run) \<Rightarrow> 'm \<Rightarrow> book run \<Rightarrow> book run \<times> control_flow" where
  "guarded f m s =
     (case Option.bind s (f m) of None \<Rightarrow> (panic, Break) | Some (b, cf) \<Rightarrow> (Some b, cf))"

definition unwrap :: "(book \<times> (book_error + 'a)) run \<Rightarrow> (book \<times> control_flow) run" where
  "unwrap x = do { (b, r) \<leftarrow> x; (case r of Inl e \<Rightarrow> panic | Inr _ \<Rightarrow> Some (b, Continue)) }"

definition example_add_order_no_mpid ::
  "zerocopy \<Rightarrow> AddOrderNoMPIDAttribution \<Rightarrow> book \<Rightarrow> (book \<times> control_flow) run" where
  "example_add_order_no_mpid z msg b =
     (let add = (\<lambda>sd. unwrap (book_add b
            \<lparr>ord_id = AddOrderNoMPIDAttribution_order_reference_number z msg, ord_side = sd,
             ord_price = I64 (Price4_into_i64 (AddOrderNoMPIDAttribution_price msg)),
             ord_qty = ucast (AddOrderNoMPIDAttribution_shares z msg),
             ord_ts = Timestamp_to_u64 (AddOrderNoMPIDAttribution_timestamp msg)\<rparr>))
      in case AddOrderNoMPIDAttribution_buy_sell_indicator msg of
           BuySellIndicator_Buy \<Rightarrow> add Bid
         | BuySellIndicator_Sell \<Rightarrow> add Ask
         | BuySellIndicator_Unknown _ \<Rightarrow> Some (b, Break))"

definition example_add_order_with_mpid ::
  "zerocopy \<Rightarrow> AddOrderWithMPIDAttribution \<Rightarrow> book \<Rightarrow> (book \<times> control_flow) run" where
  "example_add_order_with_mpid z msg b =
     (let add = (\<lambda>sd. unwrap (book_add b
            \<lparr>ord_id = AddOrderWithMPIDAttribution_order_reference_number z msg, ord_side = sd,
             ord_price = I64 (Price4_into_i64 (AddOrderWithMPIDAttribution_price msg)),
             ord_qty = ucast (AddOrderWithMPIDAttribution_shares z msg),
             ord_ts = Timestamp_to_u64 (AddOrderWithMPIDAttribution_timestamp msg)\<rparr>))
      in case AddOrderWithMPIDAttribution_buy_sell_indicator msg of
           BuySellIndicator_Buy \<Rightarrow> add Bid
         | BuySellIndicator_Sell \<Rightarrow> add Ask
         | BuySellIndicator_Unknown _ \<Rightarrow> Some (b, Break))"

definition example_order_executed :: "zerocopy \<Rightarrow> OrderExecuted \<Rightarrow> book \<Rightarrow> (book \<times> control_flow) run" where
  "example_order_executed z msg b =
     unwrap (book_execute b (OrderExecuted_order_reference_number z msg)
       (ucast (OrderExecuted_executed_shares z msg)) (Timestamp_to_u64 (OrderExecuted_timestamp msg)))"

text \<open>The example executes at the resting price, not at the price of the message.\<close>

definition example_order_executed_with_price ::
  "zerocopy \<Rightarrow> OrderExecutedWithPrice \<Rightarrow> book \<Rightarrow> (book \<times> control_flow) run" where
  "example_order_executed_with_price z msg b =
     unwrap (book_execute b (OrderExecutedWithPrice_order_reference_number z msg)
       (ucast (OrderExecutedWithPrice_executed_shares z msg))
       (Timestamp_to_u64 (OrderExecutedWithPrice_timestamp msg)))"

definition example_order_cancel :: "zerocopy \<Rightarrow> OrderCancel \<Rightarrow> book \<Rightarrow> (book \<times> control_flow) run" where
  "example_order_cancel z msg b =
     unwrap (book_cancel b (OrderCancel_order_reference_number z msg) (ucast (OrderCancel_cancelled_shares z msg)))"

definition example_order_delete :: "zerocopy \<Rightarrow> OrderDelete \<Rightarrow> book \<Rightarrow> (book \<times> control_flow) run" where
  "example_order_delete z msg b = unwrap (book_delete b (OrderDelete_order_reference_number z msg))"

definition example_order_replace :: "zerocopy \<Rightarrow> OrderReplace \<Rightarrow> book \<Rightarrow> (book \<times> control_flow) run" where
  "example_order_replace z msg b =
     unwrap (book_replace b (OrderReplace_original_order_reference_number z msg)
       (OrderReplace_new_order_reference_number z msg) (I64 (Price4_into_i64 (OrderReplace_price msg)))
       (ucast (OrderReplace_shares z msg)) (Timestamp_to_u64 (OrderReplace_timestamp msg)))"

definition example_visitor :: "zerocopy \<Rightarrow> book run MessageHandler" where
  "example_visitor z = default_handler
     \<lparr>on_add_order_no_mpid_attribution := guarded (example_add_order_no_mpid z),
      on_add_order_with_mpid_attribution := guarded (example_add_order_with_mpid z),
      on_order_executed := guarded (example_order_executed z),
      on_order_executed_with_price := guarded (example_order_executed_with_price z),
      on_order_cancel := guarded (example_order_cancel z),
      on_order_delete := guarded (example_order_delete z),
      on_order_replace := guarded (example_order_replace z)\<rparr>"

text \<open>An execution of an unknown order panics: the example accepts whole, error-free feeds only.\<close>

lemma example_unknown_panics:
  assumes "hm_get (bk_orders b) (OrderDelete_order_reference_number z m) = None"
  shows "on_order_delete (example_visitor z) m (Some b) = (panic, Break)"
  using assms
  by (simp add: example_visitor_def guarded_def example_order_delete_def unwrap_def book_delete_def)

end
