(* ===== verification/Itch_Convert.thy ===== *)
theory Itch_Convert
  imports Itch_Claims
begin

text \<open>
  The \<open>From\<close> conversions of the enumerations and the time of day of a timestamp
  (\<^verbatim>\<open>itch5/src/messages.rs\<close>), and the parser as an object that keeps its buffer between calls
  (\<^verbatim>\<open>itch5/src/parse.rs\<close>).
\<close>

section \<open>Conversions from bytes\<close>

definition SystemEventCode_from :: "u8 \<Rightarrow> SystemEventCode" where
  "SystemEventCode_from value = SystemEventCode_from_byte value"

definition MarketCategory_from :: "u8 \<Rightarrow> MarketCategory" where
  "MarketCategory_from value = MarketCategory_from_byte value"

definition FinancialStatusIndicator_from :: "u8 \<Rightarrow> FinancialStatusIndicator" where
  "FinancialStatusIndicator_from value = FinancialStatusIndicator_from_byte value"

definition RoundLotsOnly_from :: "u8 \<Rightarrow> RoundLotsOnly" where
  "RoundLotsOnly_from value = RoundLotsOnly_from_byte value"

definition Authenticity_from :: "u8 \<Rightarrow> Authenticity" where
  "Authenticity_from value = Authenticity_from_byte value"

definition ShortSaleThresholdIndicator_from :: "u8 \<Rightarrow> ShortSaleThresholdIndicator" where
  "ShortSaleThresholdIndicator_from value = ShortSaleThresholdIndicator_from_byte value"

definition IpoFlag_from :: "u8 \<Rightarrow> IpoFlag" where
  "IpoFlag_from value = IpoFlag_from_byte value"

definition LuldReferencePriceTier_from :: "u8 \<Rightarrow> LuldReferencePriceTier" where
  "LuldReferencePriceTier_from value = LuldReferencePriceTier_from_byte value"

definition EtpFlag_from :: "u8 \<Rightarrow> EtpFlag" where
  "EtpFlag_from value = EtpFlag_from_byte value"

definition InverseIndicator_from :: "u8 \<Rightarrow> InverseIndicator" where
  "InverseIndicator_from value = InverseIndicator_from_byte value"

definition TradingState_from :: "u8 \<Rightarrow> TradingState" where
  "TradingState_from value = TradingState_from_byte value"

definition RegShoAction_from :: "u8 \<Rightarrow> RegShoAction" where
  "RegShoAction_from value = RegShoAction_from_byte value"

definition PrimaryMarketMaker_from :: "u8 \<Rightarrow> PrimaryMarketMaker" where
  "PrimaryMarketMaker_from value = PrimaryMarketMaker_from_byte value"

definition MarketMakerMode_from :: "u8 \<Rightarrow> MarketMakerMode" where
  "MarketMakerMode_from value = MarketMakerMode_from_byte value"

definition MarketParticipantState_from :: "u8 \<Rightarrow> MarketParticipantState" where
  "MarketParticipantState_from value = MarketParticipantState_from_byte value"

definition BreachedLevel_from :: "u8 \<Rightarrow> BreachedLevel" where
  "BreachedLevel_from value = BreachedLevel_from_byte value"

definition IpoQuotationReleaseQualifier_from :: "u8 \<Rightarrow> IpoQuotationReleaseQualifier" where
  "IpoQuotationReleaseQualifier_from value = IpoQuotationReleaseQualifier_from_byte value"

definition MarketCode_from :: "u8 \<Rightarrow> MarketCode" where
  "MarketCode_from value = MarketCode_from_byte value"

definition OperationalHaltAction_from :: "u8 \<Rightarrow> OperationalHaltAction" where
  "OperationalHaltAction_from value = OperationalHaltAction_from_byte value"

definition BuySellIndicator_from :: "u8 \<Rightarrow> BuySellIndicator" where
  "BuySellIndicator_from value = BuySellIndicator_from_byte value"

definition Printable_from :: "u8 \<Rightarrow> Printable" where
  "Printable_from value = Printable_from_byte value"

definition ImbalanceDirection_from :: "u8 \<Rightarrow> ImbalanceDirection" where
  "ImbalanceDirection_from value = ImbalanceDirection_from_byte value"

definition CrossType_from :: "u8 \<Rightarrow> CrossType" where
  "CrossType_from value = CrossType_from_byte value"

definition PriceVariationIndicator_from :: "u8 \<Rightarrow> PriceVariationIndicator" where
  "PriceVariationIndicator_from value = PriceVariationIndicator_from_byte value"

definition InterestFlag_from :: "u8 \<Rightarrow> InterestFlag" where
  "InterestFlag_from value = InterestFlag_from_byte value"

definition OpenEligibilityStatus_from :: "u8 \<Rightarrow> OpenEligibilityStatus" where
  "OpenEligibilityStatus_from value = OpenEligibilityStatus_from_byte value"

definition IssueClassificationCode_from :: "u8 \<Rightarrow> IssueClassificationCode" where
  "IssueClassificationCode_from value = IssueClassificationCode_from_byte value"

definition IssueSubTypeCode_from :: "bytes \<Rightarrow> IssueSubTypeCode" where
  "IssueSubTypeCode_from value = IssueSubTypeCode_from_bytes value"

section \<open>The time of day\<close>

text \<open>
  \<open>NaiveTime::from_num_seconds_from_midnight_opt\<close> of \<^verbatim>\<open>chrono\<close> is a parameter: it gives a time for
  every second of a day with nanoseconds below a second, and none beyond the day.
\<close>

definition naive_time_ok :: "(u32 \<Rightarrow> u32 \<Rightarrow> 't option) \<Rightarrow> bool" where
  "naive_time_ok naive \<longleftrightarrow>
     (\<forall>secs nanos. (unat secs < 86400 \<and> unat nanos < 1000000000 \<longrightarrow> naive secs nanos \<noteq> None) \<and>
        (86400 \<le> unat secs \<longrightarrow> naive secs nanos = None))"

definition Timestamp_to_naive_time :: "(u32 \<Rightarrow> u32 \<Rightarrow> 't option) \<Rightarrow> Timestamp \<Rightarrow> 't run" where
  "Timestamp_to_naive_time naive t =
     (let (secs, nanos) = Timestamp_to_secs_and_nanos t in naive (ucast secs) nanos)"

text \<open>The conversion panics exactly on the wire values of a day and more.\<close>

lemma naive_time_panics:
  assumes "length (Timestamp_bytes t) = 6" and "naive_time_ok naive"
  shows "Timestamp_to_naive_time naive t = panic \<longleftrightarrow> 86400 * 1000000000 \<le> be_nat (Timestamp_bytes t)"
proof -
  note b = Timestamp_bound [OF assms(1)]
  obtain secs nanos where st: "Timestamp_to_secs_and_nanos t = (secs, nanos)" by (cases "Timestamp_to_secs_and_nanos t")
  have n: "unat nanos < 1000000000" and s: "unat secs = be_nat (Timestamp_bytes t) div 1000000000"
    using st b(1) by (auto simp: Timestamp_to_secs_and_nanos_def Let_def unat_ucast_mod unat_div_distrib)
  have "unat secs < 2 ^ 32" unfolding s using b(2) by (simp add: div_less_iff_less_mult)
  then have c: "unat (ucast secs :: u32) = unat secs" by (simp add: unsigned_ucast_eq take_bit_nat_eq_self)
  have "naive (ucast secs) nanos = None \<longleftrightarrow> 86400 \<le> unat (ucast secs :: u32)"
    using assms(2) n unfolding naive_time_ok_def by (meson not_le)
  then show ?thesis
    using st by (simp add: Timestamp_to_naive_time_def c s less_eq_div_iff_mult_less_eq)
qed

section \<open>The parser\<close>

record Parser =
  pa_buf :: bytes

definition Parser_new :: "bytes \<Rightarrow> Parser" where
  "Parser_new buf = \<lparr>pa_buf = buf\<rparr>"

definition Parser_set_buf :: "Parser \<Rightarrow> bytes \<Rightarrow> Parser" where
  "Parser_set_buf p buf = p\<lparr>pa_buf := buf\<rparr>"

definition Parser_empty :: Parser where
  "Parser_empty = \<lparr>pa_buf = []\<rparr>"

definition Parser_parse_stream ::
  "zerocopy \<Rightarrow> 's MessageHandler \<Rightarrow> Parser \<Rightarrow> 's \<Rightarrow> ('s \<times> Parser \<times> (parse_error + unit)) run" where
  "Parser_parse_stream z h p s = do {
     (s, rest, res) \<leftarrow> parse_stream z h (pa_buf p) s;
     Some (s, p\<lparr>pa_buf := rest\<rparr>, res)
   }"

text \<open>
  A parser can be resumed: when its visitor breaks, the next call, with any visitor, goes on with
  the message after the one at which the first call stopped.
\<close>

lemma visit_Break_left:
  "visit h ms s = (s', left, Break) \<Longrightarrow> left = drop (length ms - length left) ms"
  "visit h ms s = (s', left, Break) \<Longrightarrow> length left \<le> length ms"
  by (induction ms arbitrary: s)
    (fastforce simp: Suc_diff_le split: prod.splits control_flow.splits)+

lemma parser_resumes:
  assumes z: "zerocopy_ok z" and d: "list_all2 (\<lambda>b m. decode_body b = Some m) bodies ms"
    and "visit h ms s = (s', left, Break)"
  shows "\<exists>p. Parser_parse_stream z h (Parser_new (frames bodies @ tail)) s = Some (s', p, Inr ()) \<and>
    (\<forall>h' t. Parser_parse_stream z h' p t =
      (case visit h' left t of
         (t', left', Break) \<Rightarrow>
           Some (t', Parser_new (frames (drop (length ms - length left') bodies) @ tail), Inr ())
       | (t', left', Continue) \<Rightarrow> Parser_parse_stream z h' (Parser_new tail) t'))"
proof -
  let ?k = "length ms - length left"
  have left: "left = drop ?k ms" "length left \<le> length ms"
    using visit_Break_left [OF assms(3)] by simp_all
  have rest: "list_all2 (\<lambda>b m. decode_body b = Some m) (drop ?k bodies) left"
    using list_all2_dropI [OF d, of ?k] left(1) by simp
  have "Parser_parse_stream z h (Parser_new (frames bodies @ tail)) s =
      Some (s', Parser_new (frames (drop ?k bodies) @ tail), Inr ())"
    using parse_stream_frames [OF z d, of h tail s] assms(3) by (simp add: Parser_parse_stream_def Parser_new_def)
  moreover have "Parser_parse_stream z h' (Parser_new (frames (drop ?k bodies) @ tail)) t =
      (case visit h' left t of
         (t', left', Break) \<Rightarrow>
           Some (t', Parser_new (frames (drop (length ms - length left') bodies) @ tail), Inr ())
       | (t', left', Continue) \<Rightarrow> Parser_parse_stream z h' (Parser_new tail) t')" for h' t
  proof -
    obtain t' left' cf where v: "visit h' left t = (t', left', cf)" by (cases "visit h' left t")
    have "cf = Break \<Longrightarrow> length left' \<le> length left" using visit_Break_left(2) [of h' left t t' left'] v by simp
    with v left(2) show ?thesis
      using parse_stream_frames [OF z rest, of h' tail t]
      by (cases cf) (simp_all add: Parser_parse_stream_def Parser_new_def add.commute)
  qed
  ultimately show ?thesis by blast
qed

end
