(* ===== verification/Spec2Isabelle.thy ===== *)
theory Spec2Isabelle
  imports Book_Claims Itch_Claims Registry_Claims Mold_Claims Runtime_Claims App_Claims Run_Claims App_Text App_Example Itch_Convert
begin

text \<open>
  A verification of \<^verbatim>\<open>hftrs\<close>, a Rust workspace that replays a Nasdaq ITCH 5.0 file over
  MoldUDP64 multicast and rebuilds the order books from the packets it receives.

  \<^bold>\<open>The program.\<close>  Four crates.  \<^verbatim>\<open>orderbook\<close> keeps one limit order book per
  symbol: price ladders of doubly linked queues in a slab, and registries from stock locates to
  books.  \<^verbatim>\<open>itch5\<close> decodes the wire messages without copying and drives a visitor.
  \<^verbatim>\<open>moldudp\<close> is the transport: a server that packs batches of messages into numbered
  packets, logs them and answers re-requests, and a receiver that detects gaps.
  \<^verbatim>\<open>app\<close> puts them together: a thread replays the file through the server, a thread
  parses what the receiver forwards and applies it to the registry, a terminal interface
  reads the registry, and a report is written at the end.

  \<^bold>\<open>Conventions.\<close>  Machine integers are words, lengths and counts held in a
  \<^verbatim>\<open>usize\<close> are natural numbers, and arithmetic wraps as in the release profile.  A
  computation that may panic has type \<open>'a run\<close>, with \<open>panic\<close> for the panic; a
  \<^verbatim>\<open>Result\<close> is a sum.  A method with a mutable receiver takes and returns the state.
  Loops are structural recursions or functions with a termination proof; no fuel is used.
  Logging is left out everywhere.

  \<^bold>\<open>Theories and code.\<close>

  \<^item> \<^verbatim>\<open>Prelude\<close>, \<^verbatim>\<open>Std_Map\<close>, \<^verbatim>\<open>Std_Fmt\<close>: integers, panics,
    indexing, byte order; \<^verbatim>\<open>HashMap\<close> and \<^verbatim>\<open>BTreeMap\<close> as an interface of
    finite maps with two implementations; decimal formatting and string functions.
    \<^verbatim>\<open>Zerocopy\<close>: the casts of the \<^verbatim>\<open>zerocopy\<close> crate as parameters.
  \<^item> \<^verbatim>\<open>Book_Types\<close> (\<^verbatim>\<open>orderbook/src/types.rs\<close>, \<^verbatim>\<open>error.rs\<close>,
    \<^verbatim>\<open>level.rs\<close>), \<^verbatim>\<open>Slab_Pool\<close> (\<^verbatim>\<open>pool.rs\<close>),
    \<^verbatim>\<open>Order_Book\<close> (\<^verbatim>\<open>book.rs\<close>): \<open>book_add\<close>, \<open>book_execute\<close>,
    \<open>book_cancel\<close>, \<open>book_delete\<close>, \<open>book_replace\<close> and the queries.
    \<^verbatim>\<open>Book_Spec\<close> is the abstract book, one list of orders in arrival order;
    \<^verbatim>\<open>Dll\<close> and \<^verbatim>\<open>Book_Inv\<close> hold the linked lists and the representation
    invariant, \<^verbatim>\<open>Book_Correct\<close> the refinement, \<^verbatim>\<open>Book_Props\<close> and
    \<^verbatim>\<open>Book_Account\<close> what a reader sees and the balance of shares.
  \<^item> \<^verbatim>\<open>Registry\<close> (\<^verbatim>\<open>orderbook/src/registry\<close>): the trait as a locale,
    interpreted by the hash-map registry (\<open>hr_*\<close>) and the vector registry
    (\<open>vr_*\<close>).  \<^verbatim>\<open>App_Example\<close>: the visitor of
    \<^verbatim>\<open>orderbook/examples/replay_itch.rs\<close>.
  \<^item> \<^verbatim>\<open>Itch_Types\<close>, \<^verbatim>\<open>Itch_Enums\<close>, \<^verbatim>\<open>Itch_Layout\<close>,
    \<^verbatim>\<open>Itch_Admin\<close>, \<^verbatim>\<open>Itch_Orders\<close>, \<^verbatim>\<open>Itch_Display\<close>
    (\<^verbatim>\<open>itch5/src/messages.rs\<close>): field types, the 30 enumerations (27 with declared
    discriminants, the reason codes of a halt and of a resumption, the issue sub-types), the layouts
    and accessors of all 23 messages; \<^verbatim>\<open>Itch_Convert\<close>: the \<open>From\<close> conversions, the time of
    day of a timestamp, and the parser object fed buffer by buffer.  \<^verbatim>\<open>Itch_Parse\<close> (\<^verbatim>\<open>parse.rs\<close>, \<^verbatim>\<open>error.rs\<close>):
    \<open>parse_one\<close>, \<open>parse_stream\<close> and the visitor as a record of functions.
    \<^verbatim>\<open>Itch_Spec\<close>: the protocol's lengths, framing and decoding;
    \<^verbatim>\<open>Itch_Offsets\<close>: the offset and width of every field, written down from the protocol
    and not from the layouts.
  \<^item> \<^verbatim>\<open>Mold_Packet\<close> (\<^verbatim>\<open>moldudp/src/packet.rs\<close>, \<^verbatim>\<open>util.rs\<close>),
    \<^verbatim>\<open>Mold_Server\<close> (\<^verbatim>\<open>server.rs\<close>: \<open>sender_loop\<close> over commands and
    ticks, \<open>rerequest_step\<close> over datagrams), \<^verbatim>\<open>Mold_Client\<close>
    (\<^verbatim>\<open>client.rs\<close>, \<^verbatim>\<open>iouring.rs\<close>, \<^verbatim>\<open>errors.rs\<close>: the receive loops
    return the calls they make on the channels and the buffer queue as effects).
    \<^verbatim>\<open>Mold_Runtime\<close> runs both ends: the client with its configuration, its pool of 1024
    buffers, its channels and its threads as a step relation \<open>client_step\<close> labelled with the
    turns of the receive loop and its effects; the server with its command queue and its
    re-request thread as \<open>server_step\<close>.  \<^verbatim>\<open>Mold_Channel\<close> follows what the
    receive loops put on the consumer's channel and what the consumer takes (\<open>channel_run\<close>),
    and connects the client's re-requests to the server's answers (\<open>connected_run\<close>).
    \<^verbatim>\<open>Server_Props\<close>, \<^verbatim>\<open>Client_Props\<close> and \<^verbatim>\<open>Mold_System\<close> hold the
    lemmas on the log, on gap detection and on both sides together; \<^verbatim>\<open>Mold_Losses\<close> says what the
    packets of a session carry and what any selection of them leaves out.
  \<^item> \<^verbatim>\<open>App_Handler\<close> (\<^verbatim>\<open>app/src/handler.rs\<close>), \<^verbatim>\<open>App_Replay\<close>
    (\<^verbatim>\<open>replay.rs\<close> and the server thread of \<^verbatim>\<open>pipeline.rs\<close>),
    \<^verbatim>\<open>App_Report\<close> (\<^verbatim>\<open>report/\<close>), \<^verbatim>\<open>App_Tui\<close>
    (\<^verbatim>\<open>tui/app.rs\<close>, the event loop and the layout of \<^verbatim>\<open>tui/mod.rs\<close>, the
    computations of \<^verbatim>\<open>tui/ui.rs\<close>), \<^verbatim>\<open>App_Text\<close> (the texts of
    \<^verbatim>\<open>tui/ui.rs\<close> and of the counters), \<^verbatim>\<open>App_Draw\<close> (the widgets a frame
    consists of, with their texts: \<open>draw\<close>), \<^verbatim>\<open>App_Terminal\<close>
    (\<^verbatim>\<open>tui::run\<close> with the errors of the terminal, the clock that rations the frames, the
    times the lock is taken and the handler as it is found under it: \<open>tui_run\<close>), \<^verbatim>\<open>App_Pipeline\<close>
    (\<^verbatim>\<open>config.rs\<close>, \<^verbatim>\<open>pipeline.rs\<close> and \<^verbatim>\<open>main.rs\<close>:
    \<open>pipeline_run\<close> runs the threads up to their joins, the interface among them, and
    \<open>main_run\<close> is the binary; an \<open>environment\<close> holds what the operating system and the
    transport answer).  The list of turns of the interface ends where the observation ends.  The shutdown
    flag is one: it is raised by the signal handler or by the quit key of the interface
    (\<open>flag_raised\<close>), a thread never reads it raised otherwise, and only which of its reads come
    after that is an input (\<open>loads\<close>).
    \<^verbatim>\<open>App_Live\<close> runs the interface beside the receive loop (\<open>ui_run\<close>) and states the window
    of rows, bids and asks over the specification's books (\<open>frame_window\<close>).
    \<^verbatim>\<open>App_Spec\<close> is what the application promises of a feed and the proof that the
    handlers keep it over any registry; \<^verbatim>\<open>App_System\<close> composes replay, server, packets
    and receive loop; \<^verbatim>\<open>App_Shutdown\<close>, \<^verbatim>\<open>Report_Props\<close> and
    \<^verbatim>\<open>Tui_Props\<close> hold the rest.

  \<^bold>\<open>What is shown.\<close>  \<^verbatim>\<open>Book_Claims\<close>: the book never panics on a feed and
  refines the list of orders; levels, best prices, depth, spread, accounting, slab size, errors.
  \<^verbatim>\<open>Registry_Claims\<close>: the registries agree and iterate correctly.
  \<^verbatim>\<open>Itch_Claims\<close>: framing is exact, its errors are exact, the parser is total and
  delivers every message; the accessors read each field at its offset in the protocol and the
    enumerations decode as their discriminants are declared, so neither loses anything.  \<^verbatim>\<open>Mold_Claims\<close>:
  packets round-trip, the log is complete, gaps are detected and answered, retries are bounded,
  the two receivers are equivalent; and where the code departs from what it means to do:
  a split \<^verbatim>\<open>Send\<close> is delivered twice in part, an end-of-session packet hides gaps, no
  session filter is applied.  In a session in which any of the server's packets are lost every message
  the receiver has passed is in a packet that arrived or in the answer to a request it made.  \<^verbatim>\<open>Runtime_Claims\<close>: under any interleaving of its
  threads the client loses no buffer, stays well formed and behaves as the sequential receive loop,
  and its channel hands the datagrams over in the order of each loop; the server executes the calls in order and does what each promises to the
  log and the wire; requests for a later session go unanswered.
  \<^verbatim>\<open>App_Claims\<close>: the whole pipeline builds the books of the
  specification, the handlers and the replay alone do their part, shutdown is prompt, reports
  say what the books hold.  \<^verbatim>\<open>Run_Claims\<close>: a run from the
  file to the report describes the file, and every frame it draws follows the file; a session over
  the interleaved threads of the client builds the books; a lost end of the feed is repaired by a
  heartbeat; the screen agrees with the feed at every frame, down to the texts of the widgets; a
  refresh shows the books of the watch list that match the filter, in order of symbol, with the first
  levels of the selected one; the handler's lock is taken for frames only and at most once in 100 milliseconds; the
  terminal is restored; and packets that come late or twice make the books depart
  from the feed.

  \<^bold>\<open>Parameters and their hypotheses.\<close>  \<open>zerocopy\<close> with \<open>zerocopy_ok\<close>
  (casts by length, big-endian numbers); \<open>rng\<close> with \<open>rng_ok\<close> (a value in the range asked
  for); \<open>list_state\<close> with \<open>list_state_ok\<close> (selection and offset of the widget library);
  upper-casing with \<open>uppercase_ok\<close> (ASCII letters); the time of \<^verbatim>\<open>chrono\<close> with
  \<open>naive_time_ok\<close> (its constructor fails from 86400 seconds on); the network of a run with \<open>delivers\<close> and
  \<open>sends_fit\<close> (the datagrams of the server's multicast socket reach the client in order, its
  re-request socket receives the server's answers to what it asked, and each batch fits one packet:
  without that the server repeats messages, as C13 shows, and the run counts them twice); the operating system's answers are
  arguments of the steps.  Each has a concrete instance that satisfies its hypothesis.

  \<^bold>\<open>Bounds.\<close>  A feed of at most \<open>unat NIL\<close> messages keeps the slab's 32-bit indices
  valid; quantities come from 32-bit fields, which keeps 64-bit totals from wrapping; batches
  below 65535 messages fit the packet count.  The vector registry needs locates below 65535.

  \<^bold>\<open>Not modelled.\<close>  The inside of sockets, multicast membership, threads and channels, the
  memory map, signal handling, argument parsing and the filter of the log: I/O and third-party code,
  which enters as events, answers and effects; the threads are interleaved by the step
  relations, a thread of the pipeline counts at its join.  The theorem on a whole run takes the
  packets of the server to arrive as sent, with any answers to re-requests besides; the one on losses
  is about server and receiver, those on late and repeated packets about the receiver and the handler.
  Failures that the code only logs or that end the process: a \<^verbatim>\<open>send_to\<close> of the server that
  fails (the packet is then one of the lost), an \<^verbatim>\<open>io_uring\<close> completion that is missing
  (\<^verbatim>\<open>recv_one\<close> panics; \<open>recv_one\<close> here gets its completion), errors of the writer while
  the report is written (the text is the one written when none occurs), and a debug line of
  \<^verbatim>\<open>handler.rs\<close> that panics on a bad timestamp when \<^verbatim>\<open>RUST_LOG=debug\<close> is set.  The areas of the widgets and the shading of rows; conversions of prices to
  floats and the formatting of percentages, for want of IEEE arithmetic in HOL-Library; log messages,
  timings and capacity hints, which no result depends on; crate roots, benchmarks and tests.
\<close>

end
